(* ===== verification/Prelude.thy ===== *)
theory Prelude
  imports Main "HOL-Library.Char_ord" "HOL-Library.List_Lexorder" "HOL-Library.Product_Lexorder"
begin

text \<open>
  What the components share: the named collections their proofs use, generic facts on lists and
  options, the saturating and checked integer operations of Rust, and the contracts (locales) that
  one component promises to another. Nothing here models a line of the repository by itself; the
  Rust standard library's string functions are in \<open>Rust_Str\<close> and its ordered maps in \<open>BTree\<close>.
\<close>

section \<open>Collections of facts\<close>

named_theorems str_simps \<open>equations of the string functions, for evaluating parsers\<close>
named_theorems bt_simps \<open>what a lookup returns after an update of an ordered map\<close>
named_theorems inv_intros \<open>an operation keeps its component's invariant\<close>

section \<open>Rust's integers\<close>

text \<open>
  An unsigned machine integer is a \<open>nat\<close>, and the operations that could leave its range are written
  out: \<open>saturating_add\<close> and \<open>saturating_mul\<close> stop at the maximum, \<open>wrapping_add\<close> is modulo
  the size of the type.
\<close>

definition u64_max :: nat where "u64_max = 2 ^ 64 - 1"
definition u32_max :: nat where "u32_max = 2 ^ 32 - 1"

definition saturating_add :: "nat \<Rightarrow> nat \<Rightarrow> nat \<Rightarrow> nat" where
  "saturating_add limit a b = min limit (a + b)"

definition saturating_mul :: "nat \<Rightarrow> nat \<Rightarrow> nat \<Rightarrow> nat" where
  "saturating_mul limit a b = min limit (a * b)"

definition wrapping_add64 :: "nat \<Rightarrow> nat \<Rightarrow> nat" where
  "wrapping_add64 a b = (a + b) mod 2 ^ 64"

abbreviation sat_add64 :: "nat \<Rightarrow> nat \<Rightarrow> nat" where
  "sat_add64 \<equiv> saturating_add u64_max"

lemma saturating_add_le: "saturating_add limit a b \<le> limit"
  by (simp add: saturating_add_def)

lemma saturating_add_ge: "a \<le> limit \<Longrightarrow> a \<le> saturating_add limit a b"
  by (simp add: saturating_add_def)

lemma saturating_add_exact: "a + b \<le> limit \<Longrightarrow> saturating_add limit a b = a + b"
  by (simp add: saturating_add_def)

section \<open>Lists and options\<close>

fun find_index :: "('a \<Rightarrow> bool) \<Rightarrow> 'a list \<Rightarrow> nat option" where
  "find_index P [] = None"
| "find_index P (x # xs) = (if P x then Some 0 else map_option Suc (find_index P xs))"

definition nth_opt :: "'a list \<Rightarrow> nat \<Rightarrow> 'a option" where
  "nth_opt xs i = (if i < length xs then Some (xs ! i) else None)"

definition last_opt :: "'a list \<Rightarrow> 'a option" where
  "last_opt xs = (if xs = [] then None else Some (last xs))"

definition hd_opt :: "'a list \<Rightarrow> 'a option" where
  "hd_opt xs = (case xs of [] \<Rightarrow> None | x # _ \<Rightarrow> Some x)"

text \<open>Rust's \<open>slice::chunks\<close>: consecutive runs of \<open>n\<close> elements, the last one possibly shorter.\<close>

function chunks :: "nat \<Rightarrow> 'a list \<Rightarrow> 'a list list" where
  "chunks n xs = (if xs = [] \<or> n = 0 then [] else take n xs # chunks n (drop n xs))"
  by pat_completeness auto
termination
  by (relation "measure (\<lambda>(n, xs). length xs)") auto

declare chunks.simps [simp del]

lemma chunks_Nil [simp]: "chunks n [] = []"
  by (simp add: chunks.simps)

lemma chunks_step: "xs \<noteq> [] \<Longrightarrow> 0 < n \<Longrightarrow> chunks n xs = take n xs # chunks n (drop n xs)"
  by (simp add: chunks.simps [of n xs])

lemma concat_chunks: "0 < n \<Longrightarrow> concat (chunks n xs) = xs"
proof (induction n xs rule: chunks.induct)
  case (1 n xs)
  then show ?case
    by (cases "xs = []") (auto simp: chunks_step)
qed

lemma chunks_bounded: "c \<in> set (chunks n xs) \<Longrightarrow> c \<noteq> [] \<and> length c \<le> n"
proof (induction n xs rule: chunks.induct)
  case (1 n xs)
  then show ?case
    by (cases "xs = [] \<or> n = 0") (auto simp: chunks.simps [of n xs])
qed

lemma chunks_set: "0 < n \<Longrightarrow> c \<in> set (chunks n xs) \<Longrightarrow> set c \<subseteq> set xs"
  using concat_chunks [of n xs] by (metis UN_upper set_concat)

lemma find_index_Some_iff:
  "find_index P xs = Some i \<longleftrightarrow> i < length xs \<and> P (xs ! i) \<and> (\<forall>j<i. \<not> P (xs ! j))"
proof (induction xs arbitrary: i)
  case Nil
  then show ?case by simp
next
  case (Cons x xs)
  show ?case
    by (cases i) (auto simp: Cons.IH nth_Cons' gr0_conv_Suc)
qed

lemma find_index_None_iff: "find_index P xs = None \<longleftrightarrow> (\<forall>x\<in>set xs. \<not> P x)"
  by (induction xs) auto

lemma nth_opt_simps [simp]:
  "nth_opt [] i = None"
  "nth_opt (x # xs) 0 = Some x"
  "nth_opt (x # xs) (Suc i) = nth_opt xs i"
  by (simp_all add: nth_opt_def)

lemma nth_opt_numeral [simp]: "nth_opt (x # xs) (numeral k) = nth_opt xs (pred_numeral k)"
  by (simp add: numeral_eq_Suc)

lemma nth_opt_One [simp]: "nth_opt (x # xs) 1 = nth_opt xs 0"
  by (simp add: One_nat_def)

lemma last_opt_simps [simp]:
  "last_opt [] = None" "last_opt [x] = Some x" "last_opt (x # y # ys) = last_opt (y # ys)"
  by (simp_all add: last_opt_def)

lemma hd_opt_simps [simp]: "hd_opt [] = None" "hd_opt (x # xs) = Some x"
  by (simp_all add: hd_opt_def)

lemma nth_opt_set: "nth_opt xs i = Some x \<Longrightarrow> x \<in> set xs"
  by (auto simp: nth_opt_def split: if_splits)

lemma last_opt_set: "last_opt xs = Some x \<Longrightarrow> x \<in> set xs"
  by (auto simp: last_opt_def split: if_splits)

lemma find_mem: "find P xs = Some x \<Longrightarrow> x \<in> set xs \<and> P x"
  by (induction xs) (auto split: if_splits)

lemma find_snoc:
  "find P (xs @ [x]) = (case find P xs of Some y \<Rightarrow> Some y | None \<Rightarrow> if P x then Some x else None)"
  by (induction xs) auto

lemma fold_keeps: "(\<And>x s. x \<in> set xs \<Longrightarrow> P s \<Longrightarrow> P (f x s)) \<Longrightarrow> P s \<Longrightarrow> P (fold f xs s)"
  by (induction xs arbitrary: s) auto

lemma sorted_map_filter: "sorted (map f xs) \<Longrightarrow> sorted (map f (filter P xs))"
  by (induction xs) auto

section \<open>Contracts\<close>

text \<open>
  A component with state, driven by a sequence of calls: an invariant that every call keeps holds
  after any sequence of them.
\<close>

locale stepped_component =
  fixes step :: "'e \<Rightarrow> 's \<Rightarrow> 's" and invar :: "'s \<Rightarrow> bool"
  assumes step_invar: "invar s \<Longrightarrow> invar (step e s)"
begin

lemma run_invar: "invar s \<Longrightarrow> invar (fold step es s)"
  by (induction es arbitrary: s) (auto intro: step_invar)

lemma run_invar_prefix: "invar s \<Longrightarrow> invar (fold step (take n es) s)"
  by (rule run_invar)

end

text \<open>
  The same for a component whose steps use up a counter: the invariant holds as long as the counter
  has room, and each step uses at most what its input costs.
\<close>

locale counted_component =
  fixes step :: "'e \<Rightarrow> 's \<Rightarrow> 's" and invar :: "'s \<Rightarrow> bool" and used :: "'s \<Rightarrow> nat" and cost :: "'e \<Rightarrow> nat"
    and limit :: nat
  assumes step_invar: "invar s \<Longrightarrow> used s + cost e \<le> limit \<Longrightarrow> invar (step e s)"
    and step_used: "invar s \<Longrightarrow> used s + cost e \<le> limit \<Longrightarrow> used (step e s) \<le> used s + cost e"
begin

lemma run_both:
  "invar s \<Longrightarrow> used s + sum_list (map cost es) \<le> limit \<Longrightarrow>
     invar (fold step es s) \<and> used (fold step es s) \<le> used s + sum_list (map cost es)"
proof (induction es arbitrary: s)
  case (Cons e es)
  then have "used s + cost e \<le> limit"
    by simp
  with Cons.prems(1) have "invar (step e s)" "used (step e s) \<le> used s + cost e"
    by (simp_all add: step_invar step_used)
  with Cons.prems Cons.IH [of "step e s"] show ?case
    by simp
qed simp

lemma run_invar: "invar s \<Longrightarrow> used s + sum_list (map cost es) \<le> limit \<Longrightarrow> invar (fold step es s)"
  by (simp add: run_both)

lemma run_used:
  "invar s \<Longrightarrow> used s + sum_list (map cost es) \<le> limit \<Longrightarrow>
     used (fold step es s) \<le> used s + sum_list (map cost es)"
  by (simp add: run_both)

end

text \<open>
  A printer and a parser: on the values the printer is meant for, parsing what was printed gives the
  value back. Then printing is injective there, and a value is determined by its wire form.
\<close>

locale wire_codec =
  fixes encode :: "'a \<Rightarrow> string" and decode :: "string \<Rightarrow> 'a option" and valid :: "'a \<Rightarrow> bool"
  assumes decode_encode: "valid x \<Longrightarrow> decode (encode x) = Some x"
begin

lemma encode_inj: "valid x \<Longrightarrow> valid y \<Longrightarrow> encode x = encode y \<Longrightarrow> x = y"
  using decode_encode by (metis option.inject)

lemma encode_canonical: "valid x \<Longrightarrow> map_option encode (decode (encode x)) = Some (encode x)"
  by (simp add: decode_encode)

end

text \<open>
  A table from keys to values: what a lookup returns after an insertion or a removal. Moving an entry
  to another key, which is what every rename does, is derived once from these laws.
\<close>

locale lookup_table =
  fixes look :: "'m \<Rightarrow> 'k \<Rightarrow> 'v option"
    and put :: "'k \<Rightarrow> 'v \<Rightarrow> 'm \<Rightarrow> 'm"
    and del :: "'k \<Rightarrow> 'm \<Rightarrow> 'm"
  assumes look_put: "look (put k v m) k' = (if k' = k then Some v else look m k')"
    and look_del: "look (del k m) k' = (if k' = k then None else look m k')"
begin

lemma move_same: "look (put k v (del k m)) k = Some v"
  by (simp add: look_put)

lemma move_look:
  "look (put k' v (del k m)) x = (if x = k' then Some v else if x = k then None else look m x)"
  by (simp add: look_put look_del)

lemma put_put: "look (put k v (put k w m)) x = look (put k v m) x"
  by (simp add: look_put)

lemma del_del: "look (del k (del k m)) x = look (del k m) x"
  by (simp add: look_del)

end

text \<open>
  Entries that fall due: draining at an instant hands back exactly the entries whose deadline has
  passed, earliest first, and keeps exactly the others, so a second drain at the same instant finds
  nothing.
\<close>

locale due_queue =
  fixes at :: "'q \<Rightarrow> 'k \<Rightarrow> nat option"
    and drain :: "nat \<Rightarrow> 'q \<Rightarrow> 'k list \<times> 'q"
    and ok :: "'q \<Rightarrow> bool"
  assumes drain_due: "ok q \<Longrightarrow> set (fst (drain now q)) = {k. \<exists>t. at q k = Some t \<and> t \<le> now}"
    and drain_sorted: "ok q \<Longrightarrow> sorted (map (\<lambda>k. the (at q k)) (fst (drain now q)))"
    and drain_distinct: "ok q \<Longrightarrow> distinct (fst (drain now q))"
    and drain_keeps: "ok q \<Longrightarrow>
      at (snd (drain now q)) k = (case at q k of None \<Rightarrow> None | Some t \<Rightarrow> if t \<le> now then None else Some t)"
    and drain_ok: "ok q \<Longrightarrow> ok (snd (drain now q))"
begin

lemma drain_twice: "ok q \<Longrightarrow> fst (drain now (snd (drain now q))) = []"
proof -
  assume ok: "ok q"
  have "set (fst (drain now (snd (drain now q)))) = {}"
    using drain_due [OF drain_ok [OF ok]] by (auto simp: drain_keeps [OF ok] split: option.splits if_splits)
  then show ?thesis by simp
qed

lemma drain_monotone: "ok q \<Longrightarrow> now \<le> later \<Longrightarrow> set (fst (drain now q)) \<subseteq> set (fst (drain later q))"
  by (auto simp: drain_due)

lemma drain_split:
  "ok q \<Longrightarrow> now \<le> later \<Longrightarrow>
     set (fst (drain later q)) = set (fst (drain now q)) \<union> set (fst (drain later (snd (drain now q))))"
  by (auto simp: drain_due drain_ok drain_keeps split: option.splits if_splits)

end

text \<open>
  Names and the identities they stand for: \<open>same\<close> compares two names without folding them, and is
  the comparison of the folded forms. It is then an equivalence, and folding a folded name changes
  nothing, so a folded name can be used as a key for itself.
\<close>

locale folded_identity =
  fixes key :: "string \<Rightarrow> string" and same :: "string \<Rightarrow> string \<Rightarrow> bool"
  assumes same_iff: "same a b \<longleftrightarrow> key a = key b"
    and key_idem: "key (key a) = key a"
begin

lemma same_refl: "same a a"
  by (simp add: same_iff)

lemma same_sym: "same a b \<Longrightarrow> same b a"
  by (simp add: same_iff)

lemma same_trans: "same a b \<Longrightarrow> same b c \<Longrightarrow> same a c"
  by (simp add: same_iff)

lemma same_key: "same (key a) a"
  by (simp add: same_iff key_idem)

end

end
