(* ===== verification/Rust_Str.thy ===== *)
theory Rust_Str
  imports Prelude
begin

text \<open>
  The string and integer functions of the Rust standard library that the source calls. A Rust
  \<open>str\<close> is its UTF-8 byte sequence, and an Isabelle \<open>string\<close> is a list of bytes, so a pattern made
  of ASCII characters is searched for byte by byte: no byte of a multi-byte scalar is below 128. A
  Rust \<open>char\<close>, where the source inspects one beyond ASCII, is its UTF-8 encoding, and \<open>chars\<close>
  cuts a string into them.
\<close>

section \<open>Searching and cutting\<close>

abbreviation backslash :: char where "backslash \<equiv> CHR 0x5C"
abbreviation cr :: char where "cr \<equiv> CHR 0x0D"
abbreviation nl :: char where "nl \<equiv> CHR 0x0A"
abbreviation sp :: char where "sp \<equiv> CHR 0x20"

fun split_once :: "char \<Rightarrow> string \<Rightarrow> (string \<times> string) option" where
  "split_once c [] = None"
| "split_once c (x # xs) = (if x = c then Some ([], xs) else map_option (apfst ((#) x)) (split_once c xs))"

fun split_on :: "char \<Rightarrow> string \<Rightarrow> string list" where
  "split_on c [] = [[]]"
| "split_on c (x # xs) =
     (if x = c then [] # split_on c xs
      else case split_on c xs of [] \<Rightarrow> [[x]] | p # ps \<Rightarrow> (x # p) # ps)"

fun join_with :: "string \<Rightarrow> string list \<Rightarrow> string" where
  "join_with sep [] = []"
| "join_with sep [p] = p"
| "join_with sep (p # q # ps) = p @ sep @ join_with sep (q # ps)"

fun strip_prefix :: "string \<Rightarrow> string \<Rightarrow> string option" where
  "strip_prefix [] s = Some s"
| "strip_prefix (p # ps) [] = None"
| "strip_prefix (p # ps) (c # cs) = (if p = c then strip_prefix ps cs else None)"

definition starts_with :: "string \<Rightarrow> string \<Rightarrow> bool" where
  "starts_with p s \<longleftrightarrow> strip_prefix p s \<noteq> None"

definition strip_suffix :: "string \<Rightarrow> string \<Rightarrow> string option" where
  "strip_suffix p s = map_option rev (strip_prefix (rev p) (rev s))"

definition trim_start :: "(char \<Rightarrow> bool) \<Rightarrow> string \<Rightarrow> string" where
  "trim_start P s = dropWhile P s"

definition trim_end :: "(char \<Rightarrow> bool) \<Rightarrow> string \<Rightarrow> string" where
  "trim_end P s = rev (dropWhile P (rev s))"

text \<open>The byte offset of the first occurrence of a pattern, and whether there is one.\<close>

fun find_str :: "string \<Rightarrow> string \<Rightarrow> nat option" where
  "find_str p [] = (if p = [] then Some 0 else None)"
| "find_str p (c # cs) = (if starts_with p (c # cs) then Some 0 else map_option Suc (find_str p cs))"

section \<open>ASCII case\<close>

definition is_ascii_upper :: "char \<Rightarrow> bool" where
  "is_ascii_upper c \<longleftrightarrow> CHR ''A'' \<le> c \<and> c \<le> CHR ''Z''"

definition is_ascii_lower :: "char \<Rightarrow> bool" where
  "is_ascii_lower c \<longleftrightarrow> CHR ''a'' \<le> c \<and> c \<le> CHR ''z''"

definition is_ascii_digit :: "char \<Rightarrow> bool" where
  "is_ascii_digit c \<longleftrightarrow> CHR ''0'' \<le> c \<and> c \<le> CHR ''9''"

definition is_ascii_alphanumeric :: "char \<Rightarrow> bool" where
  "is_ascii_alphanumeric c \<longleftrightarrow> is_ascii_upper c \<or> is_ascii_lower c \<or> is_ascii_digit c"

text \<open>Upper and lower case differ in bit 5 of the byte.\<close>

fun set_bit5 :: "bool \<Rightarrow> char \<Rightarrow> char" where
  "set_bit5 b (Char b0 b1 b2 b3 b4 b5 b6 b7) = Char b0 b1 b2 b3 b4 b b6 b7"

definition ascii_lower :: "char \<Rightarrow> char" where
  "ascii_lower c = (if is_ascii_upper c then set_bit5 True c else c)"

definition ascii_upper :: "char \<Rightarrow> char" where
  "ascii_upper c = (if is_ascii_lower c then set_bit5 False c else c)"

definition to_ascii_lowercase :: "string \<Rightarrow> string" where
  "to_ascii_lowercase s = map ascii_lower s"

definition to_ascii_uppercase :: "string \<Rightarrow> string" where
  "to_ascii_uppercase s = map ascii_upper s"

definition eq_ignore_ascii_case :: "string \<Rightarrow> string \<Rightarrow> bool" where
  "eq_ignore_ascii_case a b \<longleftrightarrow> map ascii_lower a = map ascii_lower b"

section \<open>Numbers in text\<close>

definition digit_value :: "char \<Rightarrow> nat" where
  "digit_value c = of_char c - 48"

definition digit_char :: "nat \<Rightarrow> char" where
  "digit_char d = char_of (48 + d)"

definition digits_value :: "string \<Rightarrow> nat" where
  "digits_value s = foldl (\<lambda>n c. 10 * n + digit_value c) 0 s"

definition parse_digits :: "string \<Rightarrow> nat option" where
  "parse_digits s = (if s \<noteq> [] \<and> list_all is_ascii_digit s then Some (digits_value s) else None)"

text \<open>
  \<open>str::parse\<close> into an unsigned integer type: one leading \<open>+\<close> is accepted, then digits only, and a
  value past the type's maximum is an error.
\<close>

definition parse_unsigned :: "nat \<Rightarrow> string \<Rightarrow> nat option" where
  "parse_unsigned limit s =
     (case parse_digits (case s of c # cs \<Rightarrow> if c = CHR ''+'' then cs else s | [] \<Rightarrow> []) of
        None \<Rightarrow> None
      | Some n \<Rightarrow> if n \<le> limit then Some n else None)"

abbreviation parse_u64 :: "string \<Rightarrow> nat option" where "parse_u64 \<equiv> parse_unsigned u64_max"
abbreviation parse_u32 :: "string \<Rightarrow> nat option" where "parse_u32 \<equiv> parse_unsigned u32_max"

text \<open>Parsing an \<open>i64\<close>, which also takes a minus sign.\<close>

definition in_i64 :: "int \<Rightarrow> bool" where
  "in_i64 n \<longleftrightarrow> - (2 ^ 63) \<le> n \<and> n < 2 ^ 63"

definition checked_i64 :: "int \<Rightarrow> int option" where
  "checked_i64 n = (if in_i64 n then Some n else None)"

definition parse_i64 :: "string \<Rightarrow> int option" where
  "parse_i64 s =
     (case s of
        c # cs \<Rightarrow>
          if c = CHR ''-'' then Option.bind (parse_digits cs) (\<lambda>n. checked_i64 (- int n))
          else if c = CHR ''+'' then Option.bind (parse_digits cs) (\<lambda>n. checked_i64 (int n))
          else Option.bind (parse_digits s) (\<lambda>n. checked_i64 (int n))
      | [] \<Rightarrow> None)"

fun show_nat :: "nat \<Rightarrow> string" where
  "show_nat n = (if n < 10 then [digit_char n] else show_nat (n div 10) @ [digit_char (n mod 10)])"

declare show_nat.simps [simp del]

text \<open>The format \<open>{:0w}\<close>: zero-padded to a width.\<close>

definition pad_left :: "nat \<Rightarrow> string \<Rightarrow> string" where
  "pad_left w s = replicate (w - length s) (CHR ''0'') @ s"

section \<open>Scalars of a string\<close>

definition is_cont :: "char \<Rightarrow> bool" where
  "is_cont c \<longleftrightarrow> digit7 c \<and> \<not> digit6 c"

definition is_ascii :: "char \<Rightarrow> bool" where
  "is_ascii c \<longleftrightarrow> \<not> digit7 c"

function chars :: "string \<Rightarrow> string list" where
  "chars [] = []"
| "chars (c # cs) = (c # takeWhile is_cont cs) # chars (dropWhile is_cont cs)"
  by pat_completeness auto
termination
  by (relation "measure length") (auto simp: le_imp_less_Suc length_dropWhile_le)

text \<open>\<open>str::get\<close> with a byte range: nothing unless both ends are scalar boundaries of the string.\<close>

definition is_char_boundary :: "string \<Rightarrow> nat \<Rightarrow> bool" where
  "is_char_boundary s i \<longleftrightarrow> i = 0 \<or> i = length s \<or> i < length s \<and> \<not> is_cont (s ! i)"

definition str_get :: "nat \<Rightarrow> nat \<Rightarrow> string \<Rightarrow> string option" where
  "str_get a b s =
     (if a \<le> b \<and> b \<le> length s \<and> is_char_boundary s a \<and> is_char_boundary s b
      then Some (take (b - a) (drop a s)) else None)"

definition str_get_from :: "nat \<Rightarrow> string \<Rightarrow> string option" where
  "str_get_from a s = (if a \<le> length s \<and> is_char_boundary s a then Some (drop a s) else None)"

text \<open>\<open>u8::from_str_radix(s, 16)\<close>, and the scalar with a byte's number.\<close>

definition hex_value :: "char \<Rightarrow> nat option" where
  "hex_value c =
     (if is_ascii_digit c then Some (of_char c - 48)
      else if CHR ''a'' \<le> c \<and> c \<le> CHR ''f'' then Some (of_char c - 87)
      else if CHR ''A'' \<le> c \<and> c \<le> CHR ''F'' then Some (of_char c - 55)
      else None)"

fun hex_digits :: "nat \<Rightarrow> string \<Rightarrow> nat option" where
  "hex_digits n [] = Some n"
| "hex_digits n (c # cs) = (case hex_value c of None \<Rightarrow> None | Some d \<Rightarrow> hex_digits (16 * n + d) cs)"

definition parse_hex :: "nat \<Rightarrow> string \<Rightarrow> nat option" where
  "parse_hex limit s =
     (let ds = (case s of c # cs \<Rightarrow> if c = CHR ''+'' then cs else s | [] \<Rightarrow> []) in
      if ds = [] then None
      else case hex_digits 0 ds of None \<Rightarrow> None | Some n \<Rightarrow> if n \<le> limit then Some n else None)"

definition byte_as_char :: "nat \<Rightarrow> string" where
  "byte_as_char b = (if b < 128 then [char_of b] else [char_of (192 + b div 64), char_of (128 + b mod 64)])"

text \<open>The scalars with the Unicode property White\_Space, which \<open>split_whitespace\<close> cuts at.\<close>

definition unicode_white_space :: "string list" where
  "unicode_white_space =
     [[CHR 0x09], [CHR 0x0A], [CHR 0x0B], [CHR 0x0C], [CHR 0x0D], [CHR 0x20],
      [CHR 0xC2, CHR 0x85], [CHR 0xC2, CHR 0xA0], [CHR 0xE1, CHR 0x9A, CHR 0x80],
      [CHR 0xE2, CHR 0x80, CHR 0x80], [CHR 0xE2, CHR 0x80, CHR 0x81], [CHR 0xE2, CHR 0x80, CHR 0x82],
      [CHR 0xE2, CHR 0x80, CHR 0x83], [CHR 0xE2, CHR 0x80, CHR 0x84], [CHR 0xE2, CHR 0x80, CHR 0x85],
      [CHR 0xE2, CHR 0x80, CHR 0x86], [CHR 0xE2, CHR 0x80, CHR 0x87], [CHR 0xE2, CHR 0x80, CHR 0x88],
      [CHR 0xE2, CHR 0x80, CHR 0x89], [CHR 0xE2, CHR 0x80, CHR 0x8A], [CHR 0xE2, CHR 0x80, CHR 0xA8],
      [CHR 0xE2, CHR 0x80, CHR 0xA9], [CHR 0xE2, CHR 0x80, CHR 0xAF], [CHR 0xE2, CHR 0x81, CHR 0x9F],
      [CHR 0xE3, CHR 0x80, CHR 0x80]]"

definition is_white :: "string \<Rightarrow> bool" where
  "is_white c \<longleftrightarrow> c \<in> set unicode_white_space"

text \<open>Cutting a list at the elements a test accepts, keeping the pieces between them.\<close>

fun split_list :: "('a \<Rightarrow> bool) \<Rightarrow> 'a list \<Rightarrow> 'a list list" where
  "split_list P [] = [[]]"
| "split_list P (x # xs) =
     (if P x then [] # split_list P xs
      else case split_list P xs of [] \<Rightarrow> [[x]] | p # ps \<Rightarrow> (x # p) # ps)"

definition split_whitespace :: "string \<Rightarrow> string list" where
  "split_whitespace s = filter (\<lambda>w. w \<noteq> []) (map concat (split_list is_white (chars s)))"

text \<open>
  \<open>String::from_utf8_lossy\<close>: the bytes are cut into well-formed scalars and maximal ill-formed
  pieces, and each piece becomes U+FFFD. \<open>utf8_width\<close> gives, for the bytes ahead, whether a
  well-formed scalar starts there and how many bytes it or the ill-formed piece takes.
\<close>

definition between :: "nat \<Rightarrow> nat \<Rightarrow> char \<Rightarrow> bool" where
  "between a b c \<longleftrightarrow> a \<le> of_char c \<and> of_char c \<le> b"

definition second_ok :: "char \<Rightarrow> char \<Rightarrow> bool" where
  "second_ok c d \<longleftrightarrow>
     (if c = CHR 0xE0 then between 0xA0 0xBF d
      else if c = CHR 0xED then between 0x80 0x9F d
      else if c = CHR 0xF0 then between 0x90 0xBF d
      else if c = CHR 0xF4 then between 0x80 0x8F d
      else is_cont d)"

definition utf8_lead :: "char \<Rightarrow> nat" where
  "utf8_lead c =
     (if is_ascii c then 1 else if between 0xC2 0xDF c then 2
      else if between 0xE0 0xEF c then 3 else if between 0xF0 0xF4 c then 4 else 0)"

fun conts :: "nat \<Rightarrow> string \<Rightarrow> nat" where
  "conts 0 s = 0"
| "conts (Suc n) [] = 0"
| "conts (Suc n) (c # cs) = (if is_cont c then Suc (conts n cs) else 0)"

definition utf8_width :: "char \<Rightarrow> string \<Rightarrow> bool \<times> nat" where
  "utf8_width c s =
     (let w = utf8_lead c in
      if w = 0 then (False, 1) else if w = 1 then (True, 1)
      else case s of [] \<Rightarrow> (False, 1)
        | d # ds \<Rightarrow> if second_ok c d then (let k = 2 + conts (w - 2) ds in (k = w, k)) else (False, 1))"

definition replacement :: string where
  "replacement = [CHR 0xEF, CHR 0xBF, CHR 0xBD]"

lemma utf8_width_pos: "0 < snd (utf8_width c s)"
  by (auto simp: utf8_width_def Let_def split: list.splits)

function from_utf8_lossy :: "string \<Rightarrow> string" where
  "from_utf8_lossy [] = []"
| "from_utf8_lossy (c # cs) =
     (let (ok, k) = utf8_width c cs in
      (if ok then c # take (k - 1) cs else replacement) @ from_utf8_lossy (drop (k - 1) cs))"
  by pat_completeness auto
termination
  by (relation "measure length") auto

section \<open>Facts\<close>

subsection \<open>Splitting and joining\<close>

lemma split_once_None: "split_once c s = None \<longleftrightarrow> c \<notin> set s"
  by (induction s) auto

lemma split_once_free [simp]: "c \<notin> set s \<Longrightarrow> split_once c s = None"
  by (simp add: split_once_None)

lemma split_once_append [simp]: "c \<notin> set a \<Longrightarrow> split_once c (a @ c # b) = Some (a, b)"
  by (induction a) auto

lemma split_once_Some: "split_once c s = Some (a, b) \<longleftrightarrow> s = a @ c # b \<and> c \<notin> set a"
proof (induction s arbitrary: a)
  case Nil
  then show ?case by simp
next
  case (Cons x xs)
  show ?case
    by (cases a) (auto simp: Cons.IH)
qed

lemma split_on_not_Nil [simp]: "split_on c s \<noteq> []"
  by (induction s) (auto split: list.splits)

lemma split_on_free: "c \<notin> set s \<Longrightarrow> split_on c s = [s]"
  by (induction s) auto

lemma split_on_append: "c \<notin> set a \<Longrightarrow> split_on c (a @ c # b) = a # split_on c b"
  by (induction a) auto

lemma split_on_join:
  "ps \<noteq> [] \<Longrightarrow> (\<forall>p\<in>set ps. c \<notin> set p) \<Longrightarrow> split_on c (join_with [c] ps) = ps"
  by (induction "[c]" ps rule: join_with.induct) (auto simp: split_on_free split_on_append)

lemma split_on_pieces: "p \<in> set (split_on c s) \<Longrightarrow> c \<notin> set p"
  by (induction s arbitrary: p) (auto split: if_splits list.splits)

lemma split_on_subset: "p \<in> set (split_on c s) \<Longrightarrow> set p \<subseteq> set s"
proof (induction s arbitrary: p)
  case (Cons x xs)
  then show ?case
    by (cases "split_on c xs") (auto split: if_splits, blast+)
qed simp

lemma join_split_on: "join_with [c] (split_on c s) = s"
proof (induction s)
  case (Cons x xs)
  then show ?case
    by (cases "split_on c xs"; cases "tl (split_on c xs)") auto
qed simp

lemma set_join_with: "x \<in> set (join_with sep ps) \<Longrightarrow> x \<in> set sep \<or> (\<exists>p\<in>set ps. x \<in> set p)"
  by (induction sep ps rule: join_with.induct) auto

lemma strip_prefix_append [simp]: "strip_prefix p (p @ s) = Some s"
  by (induction p) auto

lemma strip_prefix_Some: "strip_prefix p s = Some r \<longleftrightarrow> s = p @ r"
  by (induction p s rule: strip_prefix.induct) auto

lemma starts_with_iff: "starts_with p s \<longleftrightarrow> (\<exists>r. s = p @ r)"
  by (auto simp: starts_with_def strip_prefix_Some)

lemma starts_with_simps [simp]:
  "starts_with [] s" "\<not> starts_with (p # ps) []"
  "starts_with (p # ps) (c # cs) \<longleftrightarrow> p = c \<and> starts_with ps cs"
  by (auto simp: starts_with_def)

lemma strip_suffix_Some: "strip_suffix p s = Some r \<longleftrightarrow> s = r @ p"
  by (auto simp: strip_suffix_def strip_prefix_Some) (metis rev_append rev_rev_ident)

lemma trim_start_id: "s = [] \<or> \<not> P (hd s) \<Longrightarrow> trim_start P s = s"
  by (cases s) (auto simp: trim_start_def)

lemma trim_start_Nil [simp]: "trim_start P [] = []"
  by (simp add: trim_start_def)

lemma trim_end_id: "s = [] \<or> \<not> P (last s) \<Longrightarrow> trim_end P s = s"
  by (cases s rule: rev_cases) (auto simp: trim_end_def)

lemma trim_end_snoc: "P c \<Longrightarrow> trim_end P (s @ [c]) = trim_end P s"
  by (simp add: trim_end_def)

lemma trim_end_append: "list_all P e \<Longrightarrow> trim_end P (s @ e) = trim_end P s"
  by (simp add: trim_end_def list_all_iff) (subst dropWhile_append2, auto)

lemma trim_end_free: "(\<forall>c\<in>set s. \<not> P c) \<Longrightarrow> trim_end P s = s"
  by (cases s rule: rev_cases) (auto simp: trim_end_def)

lemma length_trim_start: "length (trim_start P s) \<le> length s"
  by (simp add: trim_start_def length_dropWhile_le)

subsection \<open>Decimal numbers\<close>

lemma digit_char_props:
  assumes "d < 10"
  shows "digit_value (digit_char d) = d" "is_ascii_digit (digit_char d)"
proof -
  have "d \<in> {0, 1, 2, 3, 4, 5, 6, 7, 8, 9}"
    using assms by auto
  then show "digit_value (digit_char d) = d" "is_ascii_digit (digit_char d)"
    by (auto simp: digit_value_def digit_char_def is_ascii_digit_def less_eq_char_def)
qed

lemma digit_char_eval [simp]:
  "digit_char 0 = CHR ''0''" "digit_char (Suc 0) = CHR ''1''" "digit_char 1 = CHR ''1''" "digit_char 2 = CHR ''2''"
  "digit_char 3 = CHR ''3''" "digit_char 4 = CHR ''4''" "digit_char 5 = CHR ''5''" "digit_char 6 = CHR ''6''"
  "digit_char 7 = CHR ''7''" "digit_char 8 = CHR ''8''" "digit_char 9 = CHR ''9''"
  by (simp_all add: digit_char_def char_of_def bit_0)

lemma digits_value_snoc: "digits_value (s @ [c]) = 10 * digits_value s + digit_value c"
  by (simp add: digits_value_def)

lemma digits_value_Nil [simp]: "digits_value [] = 0"
  by (simp add: digits_value_def)

lemma show_nat_not_Nil [simp]: "show_nat n \<noteq> []"
  by (simp add: show_nat.simps [of n])

lemma show_nat_digits: "list_all is_ascii_digit (show_nat n)"
proof (induction n rule: show_nat.induct)
  case (1 n)
  then show ?case
    by (auto simp: show_nat.simps [of n] digit_char_props)
qed

lemma show_nat_value: "digits_value (show_nat n) = n"
proof (induction n rule: show_nat.induct)
  case (1 n)
  show ?case
  proof (cases "n < 10")
    case True
    then show ?thesis
      by (simp add: show_nat.simps [of n] digits_value_def digit_char_props)
  next
    case False
    with 1 show ?thesis
      by (simp add: show_nat.simps [of n] digits_value_snoc digit_char_props)
  qed
qed

lemma parse_digits_show [simp]: "parse_digits (show_nat n) = Some n"
  by (simp add: parse_digits_def show_nat_digits show_nat_value)

lemma show_nat_inj: "show_nat m = show_nat n \<longleftrightarrow> m = n"
  by (metis show_nat_value)

lemma not_digit_plus [simp]: "\<not> is_ascii_digit CHR ''+''"
  by (simp add: is_ascii_digit_def less_eq_char_def)

lemma parse_unsigned_show: "n \<le> limit \<Longrightarrow> parse_unsigned limit (show_nat n) = Some n"
proof -
  assume le: "n \<le> limit"
  obtain c cs where eq: "show_nat n = c # cs"
    by (cases "show_nat n") auto
  with show_nat_digits [of n] have "c \<noteq> CHR ''+''"
    by auto
  with le eq parse_digits_show [of n] show ?thesis
    by (simp add: parse_unsigned_def)
qed

lemma parse_unsigned_le: "parse_unsigned limit s = Some n \<Longrightarrow> n \<le> limit"
  by (auto simp: parse_unsigned_def split: option.splits if_splits)

lemma digits_value_zeros: "digits_value (replicate k CHR ''0'' @ s) = digits_value s"
proof (induction s rule: rev_induct)
  case Nil
  show ?case
    by (induction k) (auto simp: digits_value_def digit_value_def)
next
  case (snoc c s)
  then show ?case
    by (simp add: digits_value_snoc flip: append_assoc)
qed

lemma pad_left_digits: "list_all is_ascii_digit s \<Longrightarrow> list_all is_ascii_digit (pad_left w s)"
  by (auto simp: pad_left_def list_all_iff is_ascii_digit_def less_eq_char_def)

lemma digits_value_pad_left: "digits_value (pad_left w s) = digits_value s"
  by (simp add: pad_left_def digits_value_zeros)

lemma length_pad_left: "length (pad_left w s) = max w (length s)"
  by (simp add: pad_left_def)

lemma length_show_nat: "n < 10 ^ w \<Longrightarrow> 0 < w \<Longrightarrow> length (show_nat n) \<le> w"
proof (induction w arbitrary: n)
  case (Suc w)
  show ?case
  proof (cases "n < 10")
    case False
    then have "0 < w"
      using Suc.prems by (cases w) auto
    moreover have "n div 10 < 10 ^ w"
      using Suc.prems by (auto simp: less_mult_imp_div_less mult.commute)
    ultimately show ?thesis
      using False Suc.IH by (simp add: show_nat.simps [of n])
  qed (simp add: show_nat.simps [of n])
qed simp

text \<open>A padded number is digits only, and every parser reads it back.\<close>

definition padded :: "nat \<Rightarrow> nat \<Rightarrow> string" where
  "padded w n = pad_left w (show_nat n)"

lemma padded_digits: "list_all is_ascii_digit (padded w n)"
  by (simp add: padded_def pad_left_digits show_nat_digits)

lemma padded_free: "\<not> is_ascii_digit c \<Longrightarrow> c \<notin> set (padded w n)"
  using padded_digits [of w n] by (auto simp: list_all_iff)

lemma padded_Cons: "\<exists>c cs. padded w n = c # cs \<and> is_ascii_digit c"
proof (cases "padded w n")
  case Nil
  then show ?thesis by (simp add: padded_def pad_left_def)
next
  case (Cons c cs)
  then show ?thesis using padded_digits [of w n] by simp
qed

lemma parse_digits_padded [simp]: "parse_digits (padded w n) = Some n"
  using padded_digits [of w n] padded_Cons [of w n]
  by (auto simp: parse_digits_def padded_def digits_value_pad_left show_nat_value)

lemma parse_unsigned_padded: "n \<le> limit \<Longrightarrow> parse_unsigned limit (padded w n) = Some n"
  using padded_Cons [of w n] parse_digits_padded [of w n]
  by (auto simp: parse_unsigned_def simp del: parse_digits_padded)

lemma parse_i64_padded: "n < 2 ^ 63 \<Longrightarrow> parse_i64 (padded w n) = Some (int n)"
proof -
  assume n: "n < 2 ^ 63"
  obtain c cs where "padded w n = c # cs" "is_ascii_digit c"
    using padded_Cons by blast
  moreover have "\<not> is_ascii_digit CHR ''-''"
    by (simp add: is_ascii_digit_def less_eq_char_def)
  ultimately show ?thesis
    using n parse_digits_padded [of w n]
    by (auto simp: parse_i64_def checked_i64_def in_i64_def simp del: parse_digits_padded)
qed

subsection \<open>ASCII case\<close>

lemma eq_ignore_ascii_case_refl [simp]: "eq_ignore_ascii_case s s"
  by (simp add: eq_ignore_ascii_case_def)

lemma ascii_lower_idem: "ascii_lower (ascii_lower c) = ascii_lower c"
  by (cases c) (auto simp: ascii_lower_def is_ascii_upper_def less_eq_char_def of_char_def)

subsection \<open>Scalars and UTF-8\<close>

lemma concat_chars [simp]: "concat (chars s) = s"
  by (induction s rule: chars.induct) auto

lemma chars_not_Nil: "c \<in> set (chars s) \<Longrightarrow> c \<noteq> []"
  by (induction s rule: chars.induct) auto

text \<open>\<open>str::from_utf8\<close>: the bytes are text exactly when every piece is a well-formed scalar.\<close>

function valid_utf8 :: "string \<Rightarrow> bool" where
  "valid_utf8 [] = True"
| "valid_utf8 (c # cs) = (let (ok, k) = utf8_width c cs in ok \<and> valid_utf8 (drop (k - 1) cs))"
  by pat_completeness auto
termination
  by (relation "measure length") auto

lemma valid_utf8_lossy: "valid_utf8 s \<Longrightarrow> from_utf8_lossy s = s"
proof (induction s rule: valid_utf8.induct)
  case (2 c cs)
  then show ?case
    by (cases "utf8_width c cs") auto
qed simp

lemma ascii_valid: "list_all is_ascii s \<Longrightarrow> valid_utf8 s"
  by (induction s) (auto simp: utf8_width_def utf8_lead_def)

lemma ascii_lossy: "list_all is_ascii s \<Longrightarrow> from_utf8_lossy s = s"
  by (simp add: ascii_valid valid_utf8_lossy)

end
