(* ===== verification/Casemap.thy ===== *)
theory Casemap
  imports Rust_Str
begin

text \<open>
  Server casemapping (\<open>obby-proto/src/casemap.rs\<close>): how a server folds the case of nicks and channel
  names. Every map of the client that is keyed by a name is keyed by the folded name, a
  \<open>CaseFolded\<close>, which here is the folded string itself.
\<close>

datatype casemapping = Ascii | Rfc1459 | Rfc1459Strict

definition casemapping_default :: casemapping where "casemapping_default = Rfc1459"

definition casemapping_parse :: "string \<Rightarrow> casemapping" where
  "casemapping_parse token =
     (if token = ''ascii'' then Ascii
      else if token = ''rfc1459-strict'' then Rfc1459Strict
      else Rfc1459)"

text \<open>The byte of an ASCII character, folded; every other byte is outside the patterns.\<close>

definition fold_byte :: "casemapping \<Rightarrow> char \<Rightarrow> char" where
  "fold_byte cm c =
     (if is_ascii_upper c then ascii_lower c
      else if (c = CHR ''['' \<or> c = CHR '']'' \<or> c = backslash) \<and> cm \<noteq> Ascii then
        (if c = CHR ''['' then CHR ''{'' else if c = CHR '']'' then CHR ''}'' else CHR ''|'')
      else if c = CHR ''~'' \<and> cm = Rfc1459 then CHR ''^''
      else c)"

text \<open>One scalar: an ASCII one is a single byte, and no other is changed.\<close>

definition fold_char :: "casemapping \<Rightarrow> string \<Rightarrow> string" where
  "fold_char cm c = (case c of [b] \<Rightarrow> [fold_byte cm b] | _ \<Rightarrow> c)"

type_synonym case_folded = string

definition case_fold :: "casemapping \<Rightarrow> string \<Rightarrow> case_folded" where
  "case_fold cm name = concat (map (fold_char cm) (chars name))"

fun eq_chars :: "casemapping \<Rightarrow> string list \<Rightarrow> string list \<Rightarrow> bool" where
  "eq_chars cm [] [] \<longleftrightarrow> True"
| "eq_chars cm (x # xs) (y # ys) \<longleftrightarrow> (if fold_char cm x = fold_char cm y then eq_chars cm xs ys else False)"
| "eq_chars cm _ _ \<longleftrightarrow> False"

definition case_eq :: "casemapping \<Rightarrow> string \<Rightarrow> string \<Rightarrow> bool" where
  "case_eq cm a b \<longleftrightarrow> eq_chars cm (chars a) (chars b)"

definition case_folded_from :: "string \<Rightarrow> case_folded" where
  "case_folded_from name = case_fold casemapping_default name"

section \<open>Folding is bytewise\<close>

lemma upper_is_ascii: "is_ascii_upper c \<Longrightarrow> is_ascii c \<and> is_ascii (ascii_lower c)"
  by (cases c) (auto simp: is_ascii_upper_def ascii_lower_def is_ascii_def less_eq_char_def of_char_def)

lemma lower_not_upper: "is_ascii_upper c \<Longrightarrow> \<not> is_ascii_upper (ascii_lower c)"
  by (cases c) (auto simp: is_ascii_upper_def ascii_lower_def less_eq_char_def of_char_def)

lemma lower_not_special:
  "is_ascii_upper c \<Longrightarrow> ascii_lower c \<notin> {CHR ''['', CHR '']'', backslash, CHR ''~''}"
  by (cases c) (auto simp: is_ascii_upper_def ascii_lower_def less_eq_char_def of_char_def)

lemma is_cont_fold_byte [simp]: "is_cont (fold_byte cm c) = is_cont c"
  using upper_is_ascii [of c] by (auto simp: fold_byte_def is_cont_def is_ascii_def)

lemma is_ascii_fold_byte [simp]: "is_ascii (fold_byte cm c) = is_ascii c"
  using upper_is_ascii [of c] by (auto simp: fold_byte_def is_ascii_def)

lemma fold_byte_non_ascii: "\<not> is_ascii c \<Longrightarrow> fold_byte cm c = c"
  using upper_is_ascii [of c] by (auto simp: fold_byte_def is_ascii_def)

lemma fold_byte_idem [simp]: "fold_byte cm (fold_byte cm c) = fold_byte cm c"
proof (cases "is_ascii_upper c")
  case True
  then show ?thesis
    using lower_not_upper [OF True] lower_not_special [OF True] by (auto simp: fold_byte_def)
qed (auto simp: fold_byte_def is_ascii_upper_def less_eq_char_def)

lemma is_cont_not_ascii: "is_cont c \<Longrightarrow> \<not> is_ascii c"
  by (simp add: is_cont_def is_ascii_def)

text \<open>
  A string whose continuation bytes all follow a lead byte beyond ASCII, as in every Rust \<open>str\<close>.
\<close>

definition scalars_ok :: "string \<Rightarrow> bool" where
  "scalars_ok s \<longleftrightarrow> list_all (\<lambda>c. tl c = [] \<or> \<not> is_ascii (hd c)) (chars s)"

lemma takeWhile_cont_fold: "map (fold_byte cm) (takeWhile is_cont s) = takeWhile is_cont s"
  by (induction s) (auto simp: fold_byte_non_ascii is_cont_not_ascii)

lemma case_fold_bytewise: "scalars_ok s \<Longrightarrow> case_fold cm s = map (fold_byte cm) s"
proof (induction s rule: chars.induct)
  case (2 c cs)
  have split: "map (fold_byte cm) cs =
      takeWhile is_cont cs @ map (fold_byte cm) (dropWhile is_cont cs)"
    by (metis map_append takeWhile_cont_fold takeWhile_dropWhile_id)
  have "fold_char cm (c # takeWhile is_cont cs) = fold_byte cm c # takeWhile is_cont cs"
    using "2.prems" by (cases "takeWhile is_cont cs")
      (auto simp: fold_char_def scalars_ok_def fold_byte_non_ascii)
  with 2 show ?case
    by (simp add: case_fold_def scalars_ok_def split)
qed (simp add: case_fold_def)

section \<open>Folding keeps the division into scalars\<close>

definition scalar_groups :: "string list \<Rightarrow> bool" where
  "scalar_groups gs \<longleftrightarrow>
     (\<forall>g\<in>set gs. g \<noteq> [] \<and> list_all is_cont (tl g)) \<and> (\<forall>g\<in>set (tl gs). \<not> is_cont (hd g))"

lemma scalar_groups_Nil [simp]: "scalar_groups []"
  by (simp add: scalar_groups_def)

lemma scalar_groups_Cons:
  "scalar_groups (g # gs) \<longleftrightarrow>
     g \<noteq> [] \<and> list_all is_cont (tl g) \<and> (gs = [] \<or> \<not> is_cont (hd (hd gs))) \<and> scalar_groups gs"
  by (cases gs) (auto simp: scalar_groups_def)

lemma chars_eq_Nil [simp]: "chars s = [] \<longleftrightarrow> s = []"
  by (cases s) auto

lemma hd_chars: "s \<noteq> [] \<Longrightarrow> hd (hd (chars s)) = hd s"
  by (cases s) auto

lemma no_leading_cont:
  "t = [] \<or> \<not> is_cont (hd t) \<Longrightarrow> takeWhile is_cont t = [] \<and> dropWhile is_cont t = t"
  by (cases t) auto

lemma scalar_groups_chars: "scalar_groups (chars s)"
proof (induction s rule: chars.induct)
  case (2 c cs)
  have "list_all is_cont (takeWhile is_cont cs)"
    by (auto simp: list_all_iff dest: set_takeWhileD)
  moreover have "chars (dropWhile is_cont cs) = [] \<or> \<not> is_cont (hd (hd (chars (dropWhile is_cont cs))))"
    using hd_dropWhile [of is_cont cs] hd_chars [of "dropWhile is_cont cs"] by (simp add: chars_eq_Nil) metis
  ultimately show ?case
    using 2 by (simp add: scalar_groups_Cons)
qed simp

lemma chars_concat: "scalar_groups gs \<Longrightarrow> chars (concat gs) = gs"
proof (induction gs)
  case (Cons g gs)
  obtain c cs where g: "g = c # cs" "list_all is_cont cs"
    using Cons.prems by (cases g) (auto simp: scalar_groups_Cons)
  have first: "concat gs = [] \<or> \<not> is_cont (hd (concat gs))"
    using Cons.prems by (cases gs) (auto simp: scalar_groups_Cons)
  have "takeWhile is_cont (cs @ concat gs) = cs" "dropWhile is_cont (cs @ concat gs) = concat gs"
    using g(2) no_leading_cont [OF first] by (auto simp: list_all_iff takeWhile_append2 dropWhile_append2)
  then show ?case
    using Cons by (simp add: g scalar_groups_Cons)
qed simp

lemma scalar_groups_fold: "scalar_groups gs \<Longrightarrow> scalar_groups (map (fold_char cm) gs)"
proof (induction gs)
  case (Cons g gs)
  have "\<And>x xs. fold_char cm (x # xs) \<noteq> [] \<and> tl (fold_char cm (x # xs)) = xs
      \<and> is_cont (hd (fold_char cm (x # xs))) = is_cont x"
    by (auto simp: fold_char_def split: list.splits)
  then show ?case
    using Cons by (cases g; cases gs; cases "hd gs") (auto simp: scalar_groups_Cons)
qed simp

lemma chars_case_fold: "chars (case_fold cm s) = map (fold_char cm) (chars s)"
  by (simp add: case_fold_def chars_concat scalar_groups_fold scalar_groups_chars)

lemma fold_char_idem [simp]: "fold_char cm (fold_char cm c) = fold_char cm c"
  by (auto simp: fold_char_def split: list.splits)

lemma eq_chars_iff: "eq_chars cm xs ys \<longleftrightarrow> map (fold_char cm) xs = map (fold_char cm) ys"
  by (induction cm xs ys rule: eq_chars.induct) auto

lemma case_eq_iff_fold: "case_eq cm a b \<longleftrightarrow> case_fold cm a = case_fold cm b"
  by (metis case_eq_def case_fold_def chars_case_fold eq_chars_iff)

lemma case_fold_idem [simp]: "case_fold cm (case_fold cm a) = case_fold cm a"
  by (simp add: case_fold_def [of cm "case_fold cm a"] chars_case_fold o_def)
    (simp add: case_fold_def)

lemma case_fold_Nil [simp]: "case_fold cm [] = []"
  by (simp add: case_fold_def)

interpretation cf: folded_identity "case_fold cm" "case_eq cm" for cm
  by unfold_locales (simp_all add: case_eq_iff_fold)

section \<open>Properties\<close>

text \<open>
  Two names are the same identity for \<open>eq\<close>, which compares them scalar by scalar without
  allocating, exactly when \<open>fold\<close> gives them the same key; the key of a key is itself, so a folded
  name can stand for the name in every map.
\<close>

theorem casemapping_eq_is_fold:
  "(case_eq cm a b \<longleftrightarrow> case_fold cm a = case_fold cm b)
   \<and> case_fold cm (case_fold cm a) = case_fold cm a
   \<and> case_eq cm (case_fold cm a) a"
  using cf.same_iff [of cm a b] cf.key_idem [of cm a] cf.same_key [of cm a] by blast

end
