(* ===== verification/BTree.thy ===== *)
theory BTree
  imports Prelude
begin

text \<open>
  Rust's \<open>BTreeMap\<close> and \<open>BTreeSet\<close>: an association list in strictly ascending key order, and a
  strictly ascending list. Iteration order is the list order, which is what the source relies on when
  it lists keys, walks a log or takes the first entry. Removing is a filter; inserting replaces the
  value of a key already there.
\<close>

section \<open>Maps\<close>

type_synonym ('k, 'v) btree = "('k \<times> 'v) list"

fun bt_insert :: "'k::linorder \<Rightarrow> 'v \<Rightarrow> ('k, 'v) btree \<Rightarrow> ('k, 'v) btree" where
  "bt_insert k v [] = [(k, v)]"
| "bt_insert k v ((k', v') # m) =
     (if k < k' then (k, v) # (k', v') # m
      else if k = k' then (k, v) # m
      else (k', v') # bt_insert k v m)"

definition bt_remove :: "'k \<Rightarrow> ('k, 'v) btree \<Rightarrow> ('k, 'v) btree" where
  "bt_remove k m = filter (\<lambda>(k', _). k' \<noteq> k) m"

definition bt_retain :: "('k \<Rightarrow> 'v \<Rightarrow> bool) \<Rightarrow> ('k, 'v) btree \<Rightarrow> ('k, 'v) btree" where
  "bt_retain P m = filter (\<lambda>(k, v). P k v) m"

text \<open>\<open>get_mut\<close> followed by an update in place, and an update of every value (\<open>values_mut\<close>).\<close>

definition bt_modify :: "'k \<Rightarrow> ('v \<Rightarrow> 'v) \<Rightarrow> ('k, 'v) btree \<Rightarrow> ('k, 'v) btree" where
  "bt_modify k f m = map (\<lambda>(k', v). (k', if k' = k then f v else v)) m"

definition bt_map :: "('v \<Rightarrow> 'w) \<Rightarrow> ('k, 'v) btree \<Rightarrow> ('k, 'w) btree" where
  "bt_map f m = map (\<lambda>(k, v). (k, f v)) m"

text \<open>\<open>entry(k).or_insert(d)\<close>, then an update of what is there.\<close>

definition bt_entry :: "'k::linorder \<Rightarrow> 'v \<Rightarrow> ('v \<Rightarrow> 'v) \<Rightarrow> ('k, 'v) btree \<Rightarrow> ('k, 'v) btree" where
  "bt_entry k d f m = bt_insert k (f (case map_of m k of Some v \<Rightarrow> v | None \<Rightarrow> d)) m"

text \<open>\<open>remove\<close> followed by \<open>insert\<close> under the new key, when there was something to move.\<close>

definition bt_move :: "'k::linorder \<Rightarrow> 'k \<Rightarrow> ('k, 'v) btree \<Rightarrow> ('k, 'v) btree" where
  "bt_move k k' m = (case map_of m k of Some v \<Rightarrow> bt_insert k' v (bt_remove k m) | None \<Rightarrow> m)"

definition bt_contains :: "('k, 'v) btree \<Rightarrow> 'k \<Rightarrow> bool" where
  "bt_contains m k \<longleftrightarrow> map_of m k \<noteq> None"

definition bt_wf :: "('k::linorder, 'v) btree \<Rightarrow> bool" where
  "bt_wf m \<longleftrightarrow> sorted_wrt (<) (map fst m)"

lemma map_of_bt_insert [simp, bt_simps]:
  "map_of (bt_insert k v m) k' = (if k' = k then Some v else map_of m k')"
  by (induction k v m rule: bt_insert.induct) auto

lemma map_of_filter_key:
  "map_of (filter (\<lambda>(k, _). P k) m) k = (if P k then map_of m k else None)"
  by (induction m) auto

lemma map_of_bt_remove [simp, bt_simps]:
  "map_of (bt_remove k m) k' = (if k' = k then None else map_of m k')"
  using map_of_filter_key [of "\<lambda>x. x \<noteq> k" m k'] by (auto simp: bt_remove_def)

lemma map_of_bt_modify [simp, bt_simps]:
  "map_of (bt_modify k f m) k' = (if k' = k then map_option f (map_of m k) else map_of m k')"
  by (induction m) (auto simp: bt_modify_def)

lemma map_of_bt_map [simp, bt_simps]: "map_of (bt_map f m) k = map_option f (map_of m k)"
  by (induction m) (auto simp: bt_map_def)

lemma map_of_bt_entry [simp, bt_simps]:
  "map_of (bt_entry k d f m) k' =
     (if k' = k then Some (f (case map_of m k of Some v \<Rightarrow> v | None \<Rightarrow> d)) else map_of m k')"
  by (simp add: bt_entry_def)

interpretation bt: lookup_table map_of bt_insert bt_remove
  by unfold_locales simp_all

subsection \<open>Key order\<close>

lemma bt_wf_Nil [simp, inv_intros]: "bt_wf []"
  by (simp add: bt_wf_def)

lemma bt_wf_Cons: "bt_wf ((k, v) # m) \<longleftrightarrow> (\<forall>k'\<in>fst ` set m. k < k') \<and> bt_wf m"
  by (auto simp: bt_wf_def)

lemma fst_set_bt_insert [simp]: "fst ` set (bt_insert k v m) = insert k (fst ` set m)"
  by (induction k v m rule: bt_insert.induct) auto

lemma fst_set_bt_remove: "fst ` set (bt_remove k m) = fst ` set m - {k}"
  by (auto simp: bt_remove_def image_iff)

lemma bt_contains_fst: "bt_contains m k \<longleftrightarrow> k \<in> fst ` set m"
  by (simp add: bt_contains_def map_of_eq_None_iff)

lemma set_bt_insert: "set (bt_insert k v m) \<subseteq> insert (k, v) (set m)"
  by (induction k v m rule: bt_insert.induct) auto

lemma bt_wf_insert [simp, inv_intros]: "bt_wf m \<Longrightarrow> bt_wf (bt_insert k v m)"
  by (induction k v m rule: bt_insert.induct) (auto simp: bt_wf_Cons)

lemma bt_wf_filter: "bt_wf m \<Longrightarrow> bt_wf (filter P m)"
  by (auto simp: bt_wf_def sorted_wrt_map intro: sorted_wrt_filter)

lemma bt_wf_remove [simp, inv_intros]: "bt_wf m \<Longrightarrow> bt_wf (bt_remove k m)"
  by (simp add: bt_remove_def bt_wf_filter)

lemma bt_wf_retain [simp, inv_intros]: "bt_wf m \<Longrightarrow> bt_wf (bt_retain P m)"
  by (simp add: bt_retain_def bt_wf_filter)

lemma keys_bt_modify [simp]: "map fst (bt_modify k f m) = map fst m"
  by (auto simp: bt_modify_def)

lemma keys_bt_map [simp]: "map fst (bt_map f m) = map fst m"
  by (auto simp: bt_map_def)

lemma bt_wf_modify [simp, inv_intros]: "bt_wf (bt_modify k f m) \<longleftrightarrow> bt_wf m"
  by (simp add: bt_wf_def)

lemma bt_wf_map [simp, inv_intros]: "bt_wf (bt_map f m) \<longleftrightarrow> bt_wf m"
  by (simp add: bt_wf_def)

lemma bt_wf_entry [simp, inv_intros]: "bt_wf m \<Longrightarrow> bt_wf (bt_entry k d f m)"
  by (simp add: bt_entry_def)

lemma bt_wf_move [simp, inv_intros]: "bt_wf m \<Longrightarrow> bt_wf (bt_move k k' m)"
  by (simp add: bt_move_def split: option.split)

lemma bt_wf_distinct: "bt_wf m \<Longrightarrow> distinct (map fst m)"
  by (simp add: bt_wf_def strict_sorted_iff)

lemma map_of_bt_retain [simp, bt_simps]:
  "bt_wf m \<Longrightarrow>
     map_of (bt_retain P m) k = (case map_of m k of Some v \<Rightarrow> if P k v then Some v else None | None \<Rightarrow> None)"
proof (induction m)
  case (Cons kv m)
  obtain k' v' where kv: "kv = (k', v')"
    by force
  have fresh: "map_of m k' = None"
    using Cons.prems bt_wf_distinct [of "kv # m"] by (auto simp: kv map_of_eq_None_iff)
  have "map_of (bt_retain P m) k' = None"
    using fresh by (auto simp: bt_retain_def map_of_eq_None_iff)
  then show ?case
    using Cons by (auto simp: kv bt_retain_def bt_wf_Cons)
qed (simp add: bt_retain_def)

lemma bt_mem_iff: "bt_wf m \<Longrightarrow> (k, v) \<in> set m \<longleftrightarrow> map_of m k = Some v"
  using map_of_eq_Some_iff [OF bt_wf_distinct, of m k v] by simp

subsection \<open>Size\<close>

lemma length_bt_insert:
  "bt_wf m \<Longrightarrow> length (bt_insert k v m) = (if bt_contains m k then length m else Suc (length m))"
proof (induction k v m rule: bt_insert.induct)
  case (2 k v k' v' m)
  have "k < k' \<Longrightarrow> map_of m k = None"
    using "2.prems" by (auto simp: bt_wf_Cons map_of_eq_None_iff)
  with 2 show ?case
    by (auto simp: bt_wf_Cons bt_contains_def)
qed (simp add: bt_contains_def)

lemma length_bt_insert_le: "length (bt_insert k v m) \<le> Suc (length m)"
  by (induction k v m rule: bt_insert.induct) auto

lemma length_bt_remove_le: "length (bt_remove k m) \<le> length m"
  by (simp add: bt_remove_def)

lemma length_bt_modify [simp]: "length (bt_modify k f m) = length m"
  by (simp add: bt_modify_def)

lemma length_bt_map [simp]: "length (bt_map f m) = length m"
  by (simp add: bt_map_def)

lemma length_bt_retain_le: "length (bt_retain P m) \<le> length m"
  by (simp add: bt_retain_def)

lemma bt_remove_absent: "map_of m k = None \<Longrightarrow> bt_remove k m = m"
  by (induction m) (auto simp: bt_remove_def split: if_splits)

section \<open>Values that satisfy a predicate\<close>

definition bt_all :: "('k \<Rightarrow> 'v \<Rightarrow> bool) \<Rightarrow> ('k, 'v) btree \<Rightarrow> bool" where
  "bt_all P m \<longleftrightarrow> list_all (\<lambda>(k, v). P k v) m"

lemma bt_all_Nil [simp, inv_intros]: "bt_all P []"
  by (simp add: bt_all_def)

lemma bt_all_insert [inv_intros]: "bt_all P m \<Longrightarrow> P k v \<Longrightarrow> bt_all P (bt_insert k v m)"
  by (induction k v m rule: bt_insert.induct) (auto simp: bt_all_def)

lemma bt_all_filter: "bt_all P m \<Longrightarrow> bt_all P (filter Q m)"
  by (auto simp: bt_all_def list_all_iff)

lemma bt_all_remove [inv_intros]: "bt_all P m \<Longrightarrow> bt_all P (bt_remove k m)"
  by (simp add: bt_remove_def bt_all_filter)

lemma bt_all_retain [inv_intros]: "bt_all P m \<Longrightarrow> bt_all P (bt_retain Q m)"
  by (simp add: bt_retain_def bt_all_filter)

lemma bt_all_lookup: "bt_all P m \<Longrightarrow> map_of m k = Some v \<Longrightarrow> P k v"
  by (auto simp: bt_all_def list_all_iff dest: map_of_SomeD)

lemma bt_all_modify [inv_intros]:
  "bt_all P m \<Longrightarrow> (\<And>v. P k v \<Longrightarrow> P k (f v)) \<Longrightarrow> bt_all P (bt_modify k f m)"
  by (fastforce simp: bt_all_def bt_modify_def list_all_iff)

lemma bt_all_map [inv_intros]:
  "bt_all P m \<Longrightarrow> (\<And>k v. P k v \<Longrightarrow> P k (f v)) \<Longrightarrow> bt_all P (bt_map f m)"
  by (fastforce simp: bt_all_def bt_map_def list_all_iff)

lemma bt_all_entry [inv_intros]:
  "bt_all P m \<Longrightarrow> P k d \<Longrightarrow> (\<And>v. P k v \<Longrightarrow> P k (f v)) \<Longrightarrow> bt_all P (bt_entry k d f m)"
  by (auto simp: bt_entry_def intro!: bt_all_insert dest: bt_all_lookup split: option.splits)

lemma bt_all_move [inv_intros]: "bt_all P m \<Longrightarrow> (\<And>v. P k v \<Longrightarrow> P k' v) \<Longrightarrow> bt_all P (bt_move k k' m)"
  by (auto simp: bt_move_def intro!: bt_all_insert bt_all_remove dest: bt_all_lookup split: option.split)

section \<open>Sets\<close>

definition bs_insert :: "'a::linorder \<Rightarrow> 'a list \<Rightarrow> 'a list" where
  "bs_insert x s = (if x \<in> set s then s else insort x s)"

definition bs_remove :: "'a \<Rightarrow> 'a list \<Rightarrow> 'a list" where
  "bs_remove x s = filter (\<lambda>y. y \<noteq> x) s"

definition bs_wf :: "'a::linorder list \<Rightarrow> bool" where
  "bs_wf s \<longleftrightarrow> sorted_wrt (<) s"

lemma set_bs_insert [simp]: "set (bs_insert x s) = insert x (set s)"
  by (auto simp: bs_insert_def set_insort_key)

lemma set_bs_remove [simp]: "set (bs_remove x s) = set s - {x}"
  by (auto simp: bs_remove_def)

lemma bs_wf_Nil [simp, inv_intros]: "bs_wf []"
  by (simp add: bs_wf_def)

lemma bs_wf_insert [simp, inv_intros]: "bs_wf s \<Longrightarrow> bs_wf (bs_insert x s)"
  by (auto simp: bs_wf_def bs_insert_def strict_sorted_iff sorted_insort distinct_insort)

lemma bs_wf_filter [inv_intros]: "bs_wf s \<Longrightarrow> bs_wf (filter P s)"
  by (simp add: bs_wf_def sorted_wrt_filter)

lemma bs_wf_remove [simp, inv_intros]: "bs_wf s \<Longrightarrow> bs_wf (bs_remove x s)"
  by (simp add: bs_remove_def bs_wf_filter)

lemma bs_wf_distinct: "bs_wf s \<Longrightarrow> distinct s"
  by (simp add: bs_wf_def strict_sorted_iff)

lemma length_bs_insert_le: "length (bs_insert x s) \<le> Suc (length s)"
  by (simp add: bs_insert_def)

end
