(* ===== verification/Isupport.thy ===== *)
theory Isupport
  imports Casemap BTree
begin

text \<open>
  The \<open>005\<close> ISUPPORT tokens and the typed settings they drive (\<open>obby-proto/src/isupport.rs\<close>). A mode
  letter or a membership prefix is a scalar, so a string of one scalar.
\<close>

section \<open>Prefixes and channel modes\<close>

record prefix =
  pfx_modes :: "string list"
  pfx_chars :: "string list"

definition prefix_default :: prefix where
  "prefix_default = \<lparr>pfx_modes = [''o'', ''v''], pfx_chars = [''@'', ''+'']\<rparr>"

definition prefix_parse :: "string \<Rightarrow> prefix option" where
  "prefix_parse value =
     (case strip_prefix ''('' value of
        None \<Rightarrow> None
      | Some inner \<Rightarrow>
          (case split_once (CHR '')'') inner of
             None \<Rightarrow> None
           | Some (modes, cs) \<Rightarrow>
               if modes = [] \<or> length (chars modes) \<noteq> length (chars cs) then None
               else Some \<lparr>pfx_modes = chars modes, pfx_chars = chars cs\<rparr>))"

definition char_for_mode :: "prefix \<Rightarrow> string \<Rightarrow> string option" where
  "char_for_mode p mode =
     (case find_index (\<lambda>m. m = mode) (pfx_modes p) of None \<Rightarrow> None | Some i \<Rightarrow> nth_opt (pfx_chars p) i)"

definition mode_for_char :: "prefix \<Rightarrow> string \<Rightarrow> string option" where
  "mode_for_char p c =
     (case find_index (\<lambda>x. x = c) (pfx_chars p) of None \<Rightarrow> None | Some i \<Rightarrow> nth_opt (pfx_modes p) i)"

definition is_membership_mode :: "prefix \<Rightarrow> string \<Rightarrow> bool" where
  "is_membership_mode p mode \<longleftrightarrow> mode \<in> set (pfx_modes p)"

definition prefix_rank :: "prefix \<Rightarrow> string \<Rightarrow> nat option" where
  "prefix_rank p c = find_index (\<lambda>x. x = c) (pfx_chars p)"

definition prefix_split :: "prefix \<Rightarrow> string \<Rightarrow> string \<times> string" where
  "prefix_split p entry =
     (concat (takeWhile (\<lambda>c. c \<in> set (pfx_chars p)) (chars entry)),
      concat (dropWhile (\<lambda>c. c \<in> set (pfx_chars p)) (chars entry)))"

record chan_modes =
  cm_list :: string
  cm_always_arg :: string
  cm_arg_on_set :: string
  cm_flag :: string

definition chan_modes_default :: chan_modes where
  "chan_modes_default = \<lparr>cm_list = ''b'', cm_always_arg = ''k'', cm_arg_on_set = ''l'', cm_flag = ''imnpst''\<rparr>"

definition chan_modes_parse :: "string \<Rightarrow> chan_modes" where
  "chan_modes_parse value =
     (let part = (\<lambda>i. case nth_opt (split_on (CHR '','') value) i of Some p \<Rightarrow> p | None \<Rightarrow> []) in
      \<lparr>cm_list = part 0, cm_always_arg = part 1, cm_arg_on_set = part 2, cm_flag = part 3\<rparr>)"

section \<open>Tokens\<close>

record isupport =
  isu_tokens :: "(string, string option) btree"
  isu_casemapping :: casemapping
  isu_prefix :: prefix
  isu_chanmodes :: chan_modes
  isu_chantypes :: string
  isu_statusmsg :: string

definition isupport_default :: isupport where
  "isupport_default =
     \<lparr>isu_tokens = [], isu_casemapping = casemapping_default, isu_prefix = prefix_default,
      isu_chanmodes = chan_modes_default, isu_chantypes = [], isu_statusmsg = []\<rparr>"

record token =
  tok_name :: string
  tok_value :: "string option"
  tok_removed :: bool

function hex_unescape_loop :: "string \<Rightarrow> string" where
  "hex_unescape_loop rest =
     (case find_str [backslash, CHR ''x''] rest of
        None \<Rightarrow> rest
      | Some at \<Rightarrow>
          (let after = drop at rest in
           take at rest @
             (case (case str_get 2 4 after of None \<Rightarrow> None | Some h \<Rightarrow> parse_hex 255 h) of
                Some b \<Rightarrow> byte_as_char b @ hex_unescape_loop (case str_get_from 4 after of Some r \<Rightarrow> r | None \<Rightarrow> [])
              | None \<Rightarrow> [backslash, CHR ''x''] @ hex_unescape_loop (case str_get_from 2 after of Some r \<Rightarrow> r | None \<Rightarrow> []))))"
  by pat_completeness auto

lemma find_str_bound: "find_str p s = Some i \<Longrightarrow> i + length p \<le> length s"
proof (induction s arbitrary: i)
  case (Cons c cs)
  then show ?case
    by (auto simp: starts_with_iff split: if_splits) (metis length_Cons length_append le_add1)
qed (simp split: if_splits)

lemma str_get_from_shorter:
  "0 < a \<Longrightarrow> s \<noteq> [] \<Longrightarrow> length (case str_get_from a s of Some r \<Rightarrow> r | None \<Rightarrow> []) < length s"
  by (auto simp: str_get_from_def)

termination hex_unescape_loop
proof (relation "measure length")
  fix rest at after
  assume "find_str [backslash, CHR ''x''] rest = Some at" "after = drop at rest"
  then have ne: "after \<noteq> []" and len: "length after \<le> length rest"
    using find_str_bound by fastforce+
  show "\<And>x y. (case str_get_from 4 after of Some r \<Rightarrow> r | None \<Rightarrow> [], rest) \<in> measure length"
    using str_get_from_shorter [of 4 after] ne len by simp
  show "(case str_get_from 2 after of Some r \<Rightarrow> r | None \<Rightarrow> [], rest) \<in> measure length"
    using str_get_from_shorter [of 2 after] ne len by simp
qed simp

declare hex_unescape_loop.simps [simp del]

definition hex_unescape :: "string \<Rightarrow> string" where
  "hex_unescape value =
     (if find_str [backslash, CHR ''x''] value = None then value else hex_unescape_loop value)"

definition isupport_recompute :: "string \<Rightarrow> string option \<Rightarrow> isupport \<Rightarrow> isupport" where
  "isupport_recompute name value i =
     (if name = ''CASEMAPPING'' then
        i\<lparr>isu_casemapping := (case value of Some v \<Rightarrow> casemapping_parse v | None \<Rightarrow> casemapping_default)\<rparr>
      else if name = ''PREFIX'' then
        i\<lparr>isu_prefix := (case (case value of Some v \<Rightarrow> prefix_parse v | None \<Rightarrow> None) of
              Some p \<Rightarrow> p
            | None \<Rightarrow> if value = None then prefix_default else isu_prefix i)\<rparr>
      else if name = ''CHANMODES'' then
        i\<lparr>isu_chanmodes := (case value of Some v \<Rightarrow> chan_modes_parse v | None \<Rightarrow> chan_modes_default)\<rparr>
      else if name = ''CHANTYPES'' then
        i\<lparr>isu_chantypes := (case value of Some v \<Rightarrow> v | None \<Rightarrow> [])\<rparr>
      else if name = ''STATUSMSG'' then
        i\<lparr>isu_statusmsg := (case value of Some v \<Rightarrow> v | None \<Rightarrow> [])\<rparr>
      else i)"

definition isupport_apply :: "string \<Rightarrow> isupport \<Rightarrow> token \<times> isupport" where
  "isupport_apply token i =
     (case strip_prefix ''-'' token of
        Some name \<Rightarrow>
          (let name = hd (split_on (CHR ''='') name) in
           (\<lparr>tok_name = name, tok_value = None, tok_removed = True\<rparr>,
            isupport_recompute name None (i\<lparr>isu_tokens := bt_remove name (isu_tokens i)\<rparr>)))
      | None \<Rightarrow>
          (case split_once (CHR ''='') token of
             None \<Rightarrow>
               (\<lparr>tok_name = token, tok_value = None, tok_removed = False\<rparr>,
                isupport_recompute token None (i\<lparr>isu_tokens := bt_insert token None (isu_tokens i)\<rparr>))
           | Some (name, raw) \<Rightarrow>
               (let (name, value) =
                  (case strip_suffix ''+'' name of
                     Some name \<Rightarrow>
                       (name, (case map_of (isu_tokens i) name of Some (Some v) \<Rightarrow> v | _ \<Rightarrow> []) @ hex_unescape raw)
                   | None \<Rightarrow> (name, hex_unescape raw))
                in (\<lparr>tok_name = name, tok_value = Some value, tok_removed = False\<rparr>,
                    isupport_recompute name (Some value)
                      (i\<lparr>isu_tokens := bt_insert name (Some value) (isu_tokens i)\<rparr>)))))"

definition isupport_get :: "isupport \<Rightarrow> string \<Rightarrow> string option option" where
  "isupport_get i name = map_of (isu_tokens i) name"

definition isupport_has :: "isupport \<Rightarrow> string \<Rightarrow> bool" where
  "isupport_has i name \<longleftrightarrow> bt_contains (isu_tokens i) name"

definition isupport_number :: "isupport \<Rightarrow> string \<Rightarrow> nat option" where
  "isupport_number i name =
     (case isupport_get i name of Some (Some value) \<Rightarrow> parse_u32 value | _ \<Rightarrow> None)"

definition isupport_fold :: "isupport \<Rightarrow> string \<Rightarrow> case_folded" where
  "isupport_fold i name = case_fold (isu_casemapping i) name"

definition is_channel :: "isupport \<Rightarrow> string \<Rightarrow> bool" where
  "is_channel i name =
     (let types = (if isu_chantypes i = [] then ''#&'' else isu_chantypes i) in
      case chars name of [] \<Rightarrow> False | c # _ \<Rightarrow> c \<in> set (chars types))"

definition is_statusmsg :: "isupport \<Rightarrow> string \<Rightarrow> bool" where
  "is_statusmsg i c \<longleftrightarrow> c \<in> set (chars (isu_statusmsg i))"

definition targmax :: "isupport \<Rightarrow> string \<Rightarrow> nat option" where
  "targmax i command =
     (case isupport_get i ''TARGMAX'' of
        Some (Some value) \<Rightarrow>
          (case find (\<lambda>(name, _). eq_ignore_ascii_case name command)
                  (List.map_filter (split_once (CHR '':'')) (split_on (CHR '','') value)) of
             Some (_, limit) \<Rightarrow> parse_u32 limit
           | None \<Rightarrow> None)
      | _ \<Rightarrow> None)"

section \<open>Prefix tables\<close>

definition prefix_wf :: "prefix \<Rightarrow> bool" where
  "prefix_wf p \<longleftrightarrow> pfx_modes p \<noteq> [] \<and> length (pfx_modes p) = length (pfx_chars p)"

lemma prefix_wf_default [simp]: "prefix_wf prefix_default"
  by (simp add: prefix_wf_def prefix_default_def)

lemma prefix_parse_wf: "prefix_parse v = Some p \<Longrightarrow> prefix_wf p"
  by (auto simp: prefix_parse_def prefix_wf_def split: option.splits if_splits)

lemma char_for_mode_iff: "prefix_wf p \<Longrightarrow> char_for_mode p mode \<noteq> None \<longleftrightarrow> is_membership_mode p mode"
proof (cases "find_index (\<lambda>m. m = mode) (pfx_modes p)")
  case None
  then show ?thesis
    using find_index_None_iff [of "\<lambda>m. m = mode" "pfx_modes p"]
    by (auto simp: char_for_mode_def is_membership_mode_def)
next
  case (Some i)
  assume "prefix_wf p"
  moreover have "i < length (pfx_modes p)" "pfx_modes p ! i = mode"
    using Some by (simp_all add: find_index_Some_iff)
  ultimately show ?thesis
    using Some by (auto simp: char_for_mode_def is_membership_mode_def prefix_wf_def nth_opt_def)
qed

lemma mode_for_char_for_mode:
  "prefix_wf p \<Longrightarrow> distinct (pfx_chars p) \<Longrightarrow> char_for_mode p mode = Some c \<Longrightarrow> mode_for_char p c = Some mode"
proof -
  assume wf: "prefix_wf p" and dist: "distinct (pfx_chars p)" and c: "char_for_mode p mode = Some c"
  then obtain i where i: "find_index (\<lambda>m. m = mode) (pfx_modes p) = Some i" "i < length (pfx_chars p)"
      "pfx_chars p ! i = c"
    by (auto simp: char_for_mode_def nth_opt_def split: option.splits if_splits)
  then have "find_index (\<lambda>x. x = c) (pfx_chars p) = Some i"
    using dist by (auto simp: find_index_Some_iff nth_eq_iff_index_eq)
  then show ?thesis
    using i(1) wf find_index_Some_iff [of "\<lambda>m. m = mode" "pfx_modes p" i]
    by (simp add: mode_for_char_def nth_opt_def)
qed

lemma prefix_split_append: "prefix_split p entry = (a, b) \<Longrightarrow> a @ b = entry"
proof -
  assume "prefix_split p entry = (a, b)"
  then have "a @ b = concat (chars entry)"
    by (auto simp: prefix_split_def simp flip: concat_append)
  then show ?thesis by simp
qed

lemma scalar_groups_takeWhile: "scalar_groups gs \<Longrightarrow> scalar_groups (takeWhile P gs)"
proof (induction gs)
  case (Cons g gs)
  then show ?case
    by (cases gs) (auto simp: scalar_groups_Cons split: if_splits)
qed simp

lemma scalar_groups_dropWhile: "scalar_groups gs \<Longrightarrow> scalar_groups (dropWhile P gs)"
  by (induction gs) (auto simp: scalar_groups_Cons)

lemma prefix_split_scalars:
  "list_all (\<lambda>c. c \<in> set (pfx_chars p)) (chars (fst (prefix_split p entry)))
   \<and> (case chars (snd (prefix_split p entry)) of [] \<Rightarrow> True | c # _ \<Rightarrow> c \<notin> set (pfx_chars p))"
  by (auto simp: prefix_split_def chars_concat scalar_groups_takeWhile scalar_groups_dropWhile
      scalar_groups_chars list_all_iff dropWhile_eq_Cons_conv split: list.splits dest: set_takeWhileD)

section \<open>The typed views agree with the tokens\<close>

text \<open>The value in force for a token: none when it is absent or a bare flag.\<close>

definition isupport_value :: "isupport \<Rightarrow> string \<Rightarrow> string option" where
  "isupport_value i name = (case isupport_get i name of Some v \<Rightarrow> v | None \<Rightarrow> None)"

definition prefix_agrees :: "string option \<Rightarrow> prefix \<Rightarrow> bool" where
  "prefix_agrees value p \<longleftrightarrow>
     prefix_wf p \<and>
     (case value of Some v \<Rightarrow> prefix_parse v = None \<or> prefix_parse v = Some p | None \<Rightarrow> p = prefix_default)"

definition views_agree :: "isupport \<Rightarrow> bool" where
  "views_agree i \<longleftrightarrow>
     bt_wf (isu_tokens i) \<and>
     isu_casemapping i =
       (case isupport_value i ''CASEMAPPING'' of Some v \<Rightarrow> casemapping_parse v | None \<Rightarrow> casemapping_default) \<and>
     isu_chanmodes i =
       (case isupport_value i ''CHANMODES'' of Some v \<Rightarrow> chan_modes_parse v | None \<Rightarrow> chan_modes_default) \<and>
     isu_chantypes i = (case isupport_value i ''CHANTYPES'' of Some v \<Rightarrow> v | None \<Rightarrow> []) \<and>
     isu_statusmsg i = (case isupport_value i ''STATUSMSG'' of Some v \<Rightarrow> v | None \<Rightarrow> []) \<and>
     prefix_agrees (isupport_value i ''PREFIX'') (isu_prefix i)"

lemma views_agree_default: "views_agree isupport_default"
  by (simp add: views_agree_def isupport_default_def isupport_value_def isupport_get_def prefix_agrees_def)

lemma isupport_tokens_recompute [simp]: "isu_tokens (isupport_recompute name value i) = isu_tokens i"
  by (simp add: isupport_recompute_def)

lemma prefix_agrees_recompute:
  "prefix_agrees old p \<Longrightarrow>
     prefix_agrees value (case (case value of Some v \<Rightarrow> prefix_parse v | None \<Rightarrow> None) of
       Some p \<Rightarrow> p | None \<Rightarrow> if value = None then prefix_default else p)"
  by (auto simp: prefix_agrees_def prefix_parse_wf split: option.splits)

lemma views_agree_recompute:
  assumes "views_agree i" "bt_wf m"
    and m: "\<And>k. map_of m k = (if k = name then stored else map_of (isu_tokens i) k)"
  shows "views_agree (isupport_recompute name (case stored of Some v \<Rightarrow> v | None \<Rightarrow> None) (i\<lparr>isu_tokens := m\<rparr>))"
proof -
  have in_force: "isupport_value (isupport_recompute name v (i\<lparr>isu_tokens := m\<rparr>)) k =
      (if k = name then (case stored of Some v \<Rightarrow> v | None \<Rightarrow> None) else isupport_value i k)" for v k
    by (simp add: isupport_value_def isupport_get_def m)
  consider "name = ''CASEMAPPING''" | "name = ''PREFIX''" | "name = ''CHANMODES''" | "name = ''CHANTYPES''"
    | "name = ''STATUSMSG''" | "name \<notin> {''CASEMAPPING'', ''PREFIX'', ''CHANMODES'', ''CHANTYPES'', ''STATUSMSG''}"
    by (simp only: insert_iff empty_iff) metis
  then show ?thesis
    using assms(1,2) prefix_agrees_recompute [of "isupport_value i ''PREFIX''" "isu_prefix i"
      "case stored of Some v \<Rightarrow> v | None \<Rightarrow> None"]
    unfolding views_agree_def in_force isupport_tokens_recompute
    by cases (simp_all add: isupport_recompute_def eq_commute [of _ name] cong: option.case_cong if_cong)
qed

lemma views_agree_remove:
  "views_agree i \<Longrightarrow> views_agree (isupport_recompute name None (i\<lparr>isu_tokens := bt_remove name (isu_tokens i)\<rparr>))"
  using views_agree_recompute [of i "bt_remove name (isu_tokens i)" name None] by (simp add: views_agree_def)

lemma views_agree_insert:
  "views_agree i \<Longrightarrow> views_agree (isupport_recompute name v (i\<lparr>isu_tokens := bt_insert name v (isu_tokens i)\<rparr>))"
  using views_agree_recompute [of i "bt_insert name v (isu_tokens i)" name "Some v"] by (simp add: views_agree_def)

lemma views_agree_apply: "views_agree i \<Longrightarrow> views_agree (snd (isupport_apply token i))"
  by (simp add: isupport_apply_def Let_def views_agree_remove views_agree_insert split: option.split)

interpretation isupport_run: stepped_component "\<lambda>token i. snd (isupport_apply token i)" views_agree
  by unfold_locales (rule views_agree_apply)

lemma hex_unescape_plain: "backslash \<notin> set v \<Longrightarrow> hex_unescape v = v"
proof -
  have "find_str [backslash, CHR ''x''] v = None" if "backslash \<notin> set v"
    using that by (induction v) auto
  then show "backslash \<notin> set v \<Longrightarrow> hex_unescape v = v"
    by (simp add: hex_unescape_def)
qed

section \<open>Properties\<close>

text \<open>
  After any sequence of tokens, withdrawals, bare flags and appends included, every typed view
  (casemapping, channel modes, channel types, status prefixes) is the one its token's value in force
  describes, or the default when there is none; a malformed PREFIX keeps a table that still pairs
  every mode with a character.
\<close>

theorem isupport_views_after_any_tokens:
  "views_agree (fold (\<lambda>token i. snd (isupport_apply token i)) tokens isupport_default)"
  by (rule isupport_run.run_invar [OF views_agree_default])

lemma isupport_get_recompute [simp]: "isupport_get (isupport_recompute name v i) k = isupport_get i k"
  by (simp add: isupport_get_def)

lemma strip_minus: "\<not> starts_with ''-'' name \<Longrightarrow> strip_prefix ''-'' (name @ c # s) = (if name = [] \<and> c = CHR ''-'' then Some s else None)"
  by (cases name) auto

lemma isupport_token_grammar_parts:
  assumes "CHR ''='' \<notin> set name" "\<not> starts_with ''-'' name" "strip_suffix ''+'' name = None"
  shows "tok_value (fst (isupport_apply (name @ ''='' @ raw) i)) = Some (hex_unescape raw)"
    and "isupport_get (snd (isupport_apply (name @ ''='' @ raw) i)) k =
      (if k = name then Some (Some (hex_unescape raw)) else isupport_get i k)"
    and "isupport_get (snd (isupport_apply (name @ ''+='' @ raw) i)) k =
      (if k = name then Some (Some ((case isupport_value i name of Some v \<Rightarrow> v | None \<Rightarrow> []) @ hex_unescape raw))
       else isupport_get i k)"
    and "tok_removed (fst (isupport_apply (''-'' @ name) i))
      \<and> isupport_get (snd (isupport_apply (''-'' @ name) i)) k = (if k = name then None else isupport_get i k)"
proof -
  have strip: "strip_prefix ''-'' (name @ CHR ''='' # raw) = None" "strip_prefix ''-'' (name @ CHR ''+'' # CHR ''='' # raw) = None"
    using assms(2) by (simp_all add: strip_minus)
  have plus: "split_once (CHR ''='') (name @ CHR ''+'' # CHR ''='' # raw) = Some (name @ ''+'', raw)"
    using split_once_append [of "CHR ''=''" "name @ ''+''" raw] assms(1) by simp
  have suffix: "strip_suffix ''+'' (name @ ''+'') = Some name"
    by (simp add: strip_suffix_Some)
  show "tok_value (fst (isupport_apply (name @ ''='' @ raw) i)) = Some (hex_unescape raw)"
    using assms strip by (simp add: isupport_apply_def)
  show "isupport_get (snd (isupport_apply (name @ ''='' @ raw) i)) k =
      (if k = name then Some (Some (hex_unescape raw)) else isupport_get i k)"
    using assms strip by (simp add: isupport_apply_def) (simp add: isupport_get_def)
  show "isupport_get (snd (isupport_apply (name @ ''+='' @ raw) i)) k =
      (if k = name then Some (Some ((case isupport_value i name of Some v \<Rightarrow> v | None \<Rightarrow> []) @ hex_unescape raw))
       else isupport_get i k)"
    using strip plus suffix
    by (simp add: isupport_apply_def) (auto simp: isupport_value_def isupport_get_def split: option.splits)
  show "tok_removed (fst (isupport_apply (''-'' @ name) i))
      \<and> isupport_get (snd (isupport_apply (''-'' @ name) i)) k = (if k = name then None else isupport_get i k)"
    using assms(1) by (simp add: isupport_apply_def split_on_free Let_def) (simp add: isupport_get_def)
qed

text \<open>
  The token grammar. \<open>NAME=value\<close> sets the unescaped value, \<open>NAME+=value\<close> appends it to the
  value already held, and \<open>-NAME\<close> withdraws the token; each reports the value now in force and
  leaves every other token alone.
\<close>

theorem isupport_token_grammar:
  assumes "CHR ''='' \<notin> set name" "\<not> starts_with ''-'' name" "strip_suffix ''+'' name = None"
  shows
  "(tok_value (fst (isupport_apply (name @ ''='' @ raw) i)) = Some (hex_unescape raw))
   \<and> (isupport_get (snd (isupport_apply (name @ ''='' @ raw) i)) k =
      (if k = name then Some (Some (hex_unescape raw)) else isupport_get i k))
   \<and> (isupport_get (snd (isupport_apply (name @ ''+='' @ raw) i)) k =
      (if k = name then Some (Some ((case isupport_value i name of Some v \<Rightarrow> v | None \<Rightarrow> []) @ hex_unescape raw))
       else isupport_get i k))
   \<and> (tok_removed (fst (isupport_apply (''-'' @ name) i))
      \<and> isupport_get (snd (isupport_apply (''-'' @ name) i)) k = (if k = name then None else isupport_get i k))"
  by (intro conjI impI; use isupport_token_grammar_parts [OF assms] in blast)

theorem isupport_token_grammar_witness:
  "isupport_get (snd (isupport_apply ''CHANTYPES+=$'' (snd (isupport_apply ''CHANTYPES=#'' isupport_default)))) ''CHANTYPES''
     = Some (Some ''#$'')"
  using isupport_token_grammar [where name = "''CHANTYPES''" and raw = "''$''" and k = "''CHANTYPES''"
      and i = "snd (isupport_apply ''CHANTYPES=#'' isupport_default)"]
    isupport_token_grammar [where name = "''CHANTYPES''" and raw = "''#''" and k = "''CHANTYPES''" and i = isupport_default]
  by (simp add: strip_suffix_def isupport_value_def hex_unescape_plain)

lemma prefix_table_parts:
  assumes "prefix_parse v = Some p"
  shows "is_membership_mode p mode \<longleftrightarrow> char_for_mode p mode \<noteq> None"
    and "distinct (pfx_chars p) \<Longrightarrow> char_for_mode p mode = Some c \<Longrightarrow> mode_for_char p c = Some mode"
    and "fst (prefix_split p entry) @ snd (prefix_split p entry) = entry"
    and "list_all (\<lambda>c. c \<in> set (pfx_chars p)) (chars (fst (prefix_split p entry)))"
    and "case chars (snd (prefix_split p entry)) of [] \<Rightarrow> True | c # _ \<Rightarrow> c \<notin> set (pfx_chars p)"
  using char_for_mode_iff [OF prefix_parse_wf [OF assms], of mode]
    mode_for_char_for_mode [OF prefix_parse_wf [OF assms], of mode c]
    prefix_split_append [of p entry] prefix_split_scalars [of p entry]
  by simp_all

text \<open>
  A PREFIX table read from the wire pairs modes and characters: a letter grants status exactly when
  it has a character, that character leads back to the letter when no character is listed twice, and
  splitting a NAMES entry takes off every leading prefix character and nothing else.
\<close>

theorem prefix_table:
  assumes "prefix_parse v = Some p"
  shows
  "(is_membership_mode p mode \<longleftrightarrow> char_for_mode p mode \<noteq> None)
   \<and> (distinct (pfx_chars p) \<longrightarrow> char_for_mode p mode = Some c \<longrightarrow> mode_for_char p c = Some mode)
   \<and> (fst (prefix_split p entry) @ snd (prefix_split p entry) = entry)
   \<and> (list_all (\<lambda>c. c \<in> set (pfx_chars p)) (chars (fst (prefix_split p entry))))
   \<and> (case chars (snd (prefix_split p entry)) of [] \<Rightarrow> True | c # _ \<Rightarrow> c \<notin> set (pfx_chars p))"
  by (intro conjI impI; use prefix_table_parts [OF assms] in blast)

theorem prefix_table_witness:
  "\<exists>p. prefix_parse ''(qaohv)~&@%+'' = Some p \<and> mode_for_char p ''%'' = Some ''h''
     \<and> fst (prefix_split p ''@+nick'') @ snd (prefix_split p ''@+nick'') = ''@+nick''"
proof -
  let ?p = "\<lparr>pfx_modes = [''q'', ''a'', ''o'', ''h'', ''v''], pfx_chars = [''~'', ''&'', ''@'', ''%'', ''+'']\<rparr>"
  have p: "prefix_parse ''(qaohv)~&@%+'' = Some ?p"
    by (simp add: prefix_parse_def is_cont_def)
  moreover have "mode_for_char ?p ''%'' = Some ''h''"
    using prefix_table [OF p, where mode = "''h''" and c = "''%''"] by (simp add: char_for_mode_def)
  ultimately show ?thesis
    using prefix_table [OF p] by blast
qed

text \<open>
  An escape whose first digit is a plus sign is decoded, since \<open>u8::from_str_radix\<close> accepts a leading
  sign: the two characters are not two hexadecimal digits, yet the escape is not left as written.
\<close>

lemma hex_unescape_plus_sign: "hex_unescape [backslash, CHR ''x'', CHR ''+'', CHR ''5''] = [CHR 0x05]"
  by (simp add: hex_unescape_def hex_unescape_loop.simps [of "[backslash, CHR ''x'', CHR ''+'', CHR ''5'']"]
      hex_unescape_loop.simps [of "[]"] str_get_def str_get_from_def is_char_boundary_def parse_hex_def
      hex_value_def is_ascii_digit_def less_eq_char_def byte_as_char_def is_cont_def nth_Cons' char_of_def bit_0)

end
