(* ===== verification/Modes.thy ===== *)
theory Modes
  imports Isupport
begin

text \<open>
  Parsing a MODE change (\<open>obby-proto/src/mode.rs\<close>): one entry per mode letter, with the argument its
  class makes it consume.
\<close>

record mode_change =
  mc_set :: bool
  mc_mode :: string
  mc_arg :: "string option"
  mc_membership :: bool

text \<open>The condition of the source, for a letter in a direction.\<close>

definition mode_takes_arg :: "isupport \<Rightarrow> bool \<Rightarrow> string \<Rightarrow> bool" where
  "mode_takes_arg i set_flag mode \<longleftrightarrow>
     is_membership_mode (isu_prefix i) mode
     \<or> mode \<in> set (chars (cm_list (isu_chanmodes i)))
     \<or> mode \<in> set (chars (cm_always_arg (isu_chanmodes i)))
     \<or> set_flag \<and> mode \<in> set (chars (cm_arg_on_set (isu_chanmodes i)))"

fun channel_modes_loop :: "isupport \<Rightarrow> bool \<Rightarrow> string list \<Rightarrow> string list \<Rightarrow> mode_change list" where
  "channel_modes_loop i set_flag args [] = []"
| "channel_modes_loop i set_flag args (mode # modes) =
     (if mode = ''+'' then channel_modes_loop i True args modes
      else if mode = ''-'' then channel_modes_loop i False args modes
      else
        (let takes_arg = mode_takes_arg i set_flag mode in
         \<lparr>mc_set = set_flag, mc_mode = mode, mc_arg = (if takes_arg then hd_opt args else None),
          mc_membership = is_membership_mode (isu_prefix i) mode\<rparr>
         # channel_modes_loop i set_flag (if takes_arg then tl args else args) modes))"

definition parse_channel_modes :: "isupport \<Rightarrow> string list \<Rightarrow> mode_change list" where
  "parse_channel_modes i params =
     (case params of [] \<Rightarrow> [] | spec # args \<Rightarrow> channel_modes_loop i True args (chars spec))"

fun user_modes_loop :: "bool \<Rightarrow> string list \<Rightarrow> mode_change list" where
  "user_modes_loop set_flag [] = []"
| "user_modes_loop set_flag (mode # modes) =
     (if mode = ''+'' then user_modes_loop True modes
      else if mode = ''-'' then user_modes_loop False modes
      else \<lparr>mc_set = set_flag, mc_mode = mode, mc_arg = None, mc_membership = False\<rparr>
           # user_modes_loop set_flag modes)"

definition parse_user_modes :: "string \<Rightarrow> mode_change list" where
  "parse_user_modes spec = user_modes_loop True (chars spec)"

section \<open>Letters, signs and arguments\<close>

text \<open>
  The reference: the sign in force at each letter, read off the mode string alone, and the letters
  with their signs.
\<close>

fun signed_letters :: "bool \<Rightarrow> string list \<Rightarrow> (bool \<times> string) list" where
  "signed_letters set_flag [] = []"
| "signed_letters set_flag (c # cs) =
     (if c = ''+'' then signed_letters True cs
      else if c = ''-'' then signed_letters False cs
      else (set_flag, c) # signed_letters set_flag cs)"

definition change_takes_arg :: "isupport \<Rightarrow> mode_change \<Rightarrow> bool" where
  "change_takes_arg i c \<longleftrightarrow> mode_takes_arg i (mc_set c) (mc_mode c)"

lemma channel_loop_letters:
  "map (\<lambda>c. (mc_set c, mc_mode c)) (channel_modes_loop i b args ms) = signed_letters b ms"
  by (induction i b args ms rule: channel_modes_loop.induct) (auto simp: Let_def)

lemma nth_opt_tl: "nth_opt (tl xs) n = nth_opt xs (Suc n)"
  by (cases xs) simp_all

lemma hd_opt_nth_opt: "hd_opt xs = nth_opt xs 0"
  by (cases xs) simp_all

lemma change_takes_arg_rec [simp]:
  "change_takes_arg i \<lparr>mc_set = b, mc_mode = m, mc_arg = a, mc_membership = c\<rparr> = mode_takes_arg i b m"
  by (simp add: change_takes_arg_def)

lemma nth_opt_shift: "map (nth_opt xs) [0..<Suc n] = hd_opt xs # map (nth_opt (tl xs)) [0..<n]"
  by (simp add: map_upt_Suc hd_opt_nth_opt nth_opt_tl del: upt_Suc)

lemma channel_loop_args:
  "map mc_arg (filter (change_takes_arg i) (channel_modes_loop i b args ms))
     = map (nth_opt args) [0..<length (filter (change_takes_arg i) (channel_modes_loop i b args ms))]"
proof (induction ms arbitrary: b args)
  case (Cons m ms)
  let ?loop = "\<lambda>b args. filter (change_takes_arg i) (channel_modes_loop i b args ms)"
  show ?case
  proof (cases "m \<noteq> ''+'' \<and> m \<noteq> ''-'' \<and> mode_takes_arg i b m")
    case True
    have "map mc_arg (?loop b (tl args)) = map (nth_opt (tl args)) [0..<length (?loop b (tl args))]"
      by (rule Cons.IH)
    with True nth_opt_shift [of args "length (?loop b (tl args))"] show ?thesis
      by (simp add: Let_def del: upt_Suc)
  next
    case False
    then show ?thesis
      using False Cons.IH [of True args] Cons.IH [of False args] Cons.IH [of b args]
      by (auto simp: Let_def simp del: upt_Suc)
  qed
qed simp

lemma channel_loop_entry:
  "c \<in> set (channel_modes_loop i b args ms) \<Longrightarrow>
     mc_membership c = is_membership_mode (isu_prefix i) (mc_mode c)
     \<and> (\<not> change_takes_arg i c \<longrightarrow> mc_arg c = None)"
  by (induction i b args ms rule: channel_modes_loop.induct)
    (auto simp: Let_def change_takes_arg_def split: if_splits)

section \<open>Properties\<close>

lemma channel_mode_arguments_parts:
  "map (\<lambda>c. (mc_set c, mc_mode c)) (parse_channel_modes i (spec # args)) = signed_letters True (chars spec)"
  "map mc_arg (filter (change_takes_arg i) (parse_channel_modes i (spec # args)))
     = map (nth_opt args) [0..<length (filter (change_takes_arg i) (parse_channel_modes i (spec # args)))]"
  "list_all (\<lambda>c. mc_membership c = is_membership_mode (isu_prefix i) (mc_mode c)
       \<and> (if change_takes_arg i c then True else mc_arg c = None)) (parse_channel_modes i (spec # args))"
  using channel_loop_letters [of i True args "chars spec"] channel_loop_args [of i True args "chars spec"]
    channel_loop_entry [of _ i True args "chars spec"]
  by (simp_all add: parse_channel_modes_def list_all_iff)

text \<open>
  A channel MODE change yields exactly one entry per letter, in order and with the sign in force
  at it; the letters that take an argument receive the arguments in order, the n-th such letter the
  n-th argument, and no other letter consumes one. In particular a letter the server never advertised
  shifts nothing.
\<close>

theorem channel_mode_arguments:
  "(map (\<lambda>c. (mc_set c, mc_mode c)) (parse_channel_modes i (spec # args)) = signed_letters True (chars spec))
   \<and> (map mc_arg (filter (change_takes_arg i) (parse_channel_modes i (spec # args)))
     = map (nth_opt args) [0..<length (filter (change_takes_arg i) (parse_channel_modes i (spec # args)))])
   \<and> (list_all (\<lambda>c. mc_membership c = is_membership_mode (isu_prefix i) (mc_mode c)
       \<and> (if change_takes_arg i c then True else mc_arg c = None)) (parse_channel_modes i (spec # args)))"
  by (intro conjI impI; use channel_mode_arguments_parts in blast)

text \<open>
  A user MODE change yields the same letters with the same signs as the channel parser would read,
  never an argument and never a membership.
\<close>

theorem user_modes_plain:
  "map (\<lambda>c. (mc_set c, mc_mode c)) (parse_user_modes spec) = signed_letters True (chars spec)
   \<and> list_all (\<lambda>c. mc_arg c = None \<and> \<not> mc_membership c) (parse_user_modes spec)"
proof -
  have "map (\<lambda>c. (mc_set c, mc_mode c)) (user_modes_loop b ms) = signed_letters b ms
      \<and> list_all (\<lambda>c. mc_arg c = None \<and> \<not> mc_membership c) (user_modes_loop b ms)" for b ms
    by (induction b ms rule: user_modes_loop.induct) auto
  then show ?thesis
    by (simp add: parse_user_modes_def)
qed

end
