(* ===== verification/Server_Time.thy ===== *)
theory Server_Time
  imports Rust_Str
begin

text \<open>
  The \<open>server-time\<close> tag (\<open>obby-proto/src/servertime.rs\<close>): an ISO 8601 instant in UTC as milliseconds
  since the Unix epoch, and back. Signed integers are \<open>int\<close>, with Rust's division, which rounds toward
  zero, and the checked operations written out; unsigned ones are \<open>nat\<close>.
\<close>

definition i64_div :: "int \<Rightarrow> int \<Rightarrow> int" where
  "i64_div a b = sgn a * sgn b * (\<bar>a\<bar> div \<bar>b\<bar>)"

definition days_from_civil :: "int \<Rightarrow> nat \<Rightarrow> nat \<Rightarrow> int" where
  "days_from_civil year month day =
     (let year = (if month \<le> 2 then year - 1 else year);
          era = i64_div (if year \<ge> 0 then year else year - 399) 400;
          year_of_era = year - era * 400;
          month = int month;
          shifted_month = (if month > 2 then month - 3 else month + 9);
          day_of_year = i64_div (153 * shifted_month + 2) 5 + int day - 1;
          day_of_era = year_of_era * 365 + i64_div year_of_era 4 - i64_div year_of_era 100 + day_of_year
      in era * 146097 + day_of_era - 719468)"

definition civil_from_days :: "nat \<Rightarrow> nat \<times> nat \<times> nat" where
  "civil_from_days days =
     (let era_days = days + 719468;
          era = era_days div 146097;
          day_of_era = era_days mod 146097;
          year_of_era = (day_of_era - day_of_era div 1460 + day_of_era div 36524 - day_of_era div 146096) div 365;
          day_of_year = day_of_era - (365 * year_of_era + year_of_era div 4 - year_of_era div 100);
          shifted_month = (5 * day_of_year + 2) div 153;
          day = day_of_year - (153 * shifted_month + 2) div 5 + 1;
          month = (if shifted_month < 10 then shifted_month + 3 else shifted_month - 9);
          year = year_of_era + era * 400 + (if month \<le> 2 then 1 else 0)
      in (year, month, day))"

definition millis_from_fraction :: "string \<Rightarrow> nat option" where
  "millis_from_fraction fraction =
     (if \<not> list_all is_ascii_digit fraction then None
      else
        (let digits = (case str_get 0 3 fraction of Some d \<Rightarrow> d | None \<Rightarrow> fraction) in
         case parse_unsigned 65535 digits of
           None \<Rightarrow> None
         | Some value \<Rightarrow>
             Some (if length digits = 0 then 0
                   else if length digits = 1 then value * 100
                   else if length digits = 2 then value * 10
                   else value)))"

text \<open>The date part: three numbers in range.\<close>

definition parse_date :: "string \<Rightarrow> (int \<times> nat \<times> nat) option" where
  "parse_date date =
     (case split_on (CHR ''-'') date of
        [y, m, d] \<Rightarrow>
          (case (parse_i64 y, parse_u32 m, parse_u32 d) of
             (Some year, Some month, Some day) \<Rightarrow>
               if 1 \<le> year \<and> year \<le> 9999 \<and> 1 \<le> month \<and> month \<le> 12 \<and> 1 \<le> day \<and> day \<le> 31
               then Some (year, month, day) else None
           | _ \<Rightarrow> None)
      | _ \<Rightarrow> None)"

text \<open>The clock part: seconds of the day, a leap second allowed.\<close>

definition parse_clock :: "string \<Rightarrow> nat option" where
  "parse_clock clock =
     (case split_on (CHR '':'') clock of
        [h, m, s] \<Rightarrow>
          (case (parse_u64 h, parse_u64 m, parse_u64 s) of
             (Some hour, Some minute, Some second) \<Rightarrow>
               if hour > 23 \<or> minute > 59 \<or> second > 60 then None
               else Some (hour * 3600 + minute * 60 + second)
           | _ \<Rightarrow> None)
      | _ \<Rightarrow> None)"

definition server_time_parse :: "string \<Rightarrow> nat option" where
  "server_time_parse value =
     Option.bind (split_once (CHR ''T'') value) (\<lambda>(date, rest).
     Option.bind (strip_suffix ''Z'' rest) (\<lambda>time.
     Option.bind (parse_date date) (\<lambda>(year, month, day).
     let (clock, fraction) = (case split_once (CHR ''.'') time of Some p \<Rightarrow> p | None \<Rightarrow> (time, ''0'')) in
     Option.bind (parse_clock clock) (\<lambda>second_of_day.
     Option.bind (millis_from_fraction fraction) (\<lambda>millis.
     Option.bind (checked_i64 (days_from_civil year month day * 86400)) (\<lambda>a.
     Option.bind (checked_i64 (int second_of_day)) (\<lambda>b.
     Option.bind (checked_i64 (a + b)) (\<lambda>seconds.
     Option.bind (checked_i64 (seconds * 1000)) (\<lambda>ms.
     Option.bind (checked_i64 (ms + int millis)) (\<lambda>total.
     if total < 0 then None else Some (nat total)))))))))))"

definition server_time_format :: "nat \<Rightarrow> string" where
  "server_time_format unix_ms =
     (let seconds = unix_ms div 1000; millis = unix_ms mod 1000;
          days = seconds div 86400; second_of_day = seconds mod 86400;
          (year, month, day) = civil_from_days days
      in padded 4 year @ ''-'' @ padded 2 month @ ''-'' @ padded 2 day @ ''T''
         @ padded 2 (second_of_day div 3600) @ '':'' @ padded 2 ((second_of_day div 60) mod 60) @ '':''
         @ padded 2 (second_of_day mod 60) @ ''.'' @ padded 3 millis @ ''Z'')"

section \<open>The calendar\<close>

lemma i64_div_nonneg: "0 \<le> a \<Longrightarrow> 0 < b \<Longrightarrow> i64_div a b = a div b"
  by (cases "a = 0") (auto simp: i64_div_def sgn_if)

text \<open>
  Days before a year of the 400-year era (which starts on 1 March), and the year a day falls in. The
  second is monotone, so it is enough to check the first and last day of each of the 400 years.
\<close>

definition era_start :: "nat \<Rightarrow> nat" where
  "era_start y = 365 * y + y div 4 - y div 100"

definition era_year :: "nat \<Rightarrow> nat" where
  "era_year d = (d - d div 1460 + d div 36524 - d div 146096) div 365"

lemma era_year_mono_Suc:
  assumes "Suc d < 146097"
  shows "era_year d \<le> era_year (Suc d)"
proof (cases "Suc d = 146096")
  case True
  then have "d = 146095" by simp
  then show ?thesis by (simp add: era_year_def)
next
  case False
  then have z: "d div 146096 = 0" "Suc d div 146096 = 0"
    using assms by simp_all
  have "d div 1460 \<le> d" "Suc d div 1460 \<le> Suc (d div 1460)" "d div 36524 \<le> Suc d div 36524"
    by (simp_all add: div_Suc div_le_mono)
  then have "d - d div 1460 + d div 36524 \<le> Suc d - Suc d div 1460 + Suc d div 36524"
    by linarith
  then show ?thesis
    unfolding era_year_def z by (simp add: div_le_mono)
qed

lemma era_year_mono: "d \<le> e \<Longrightarrow> e < 146097 \<Longrightarrow> era_year d \<le> era_year e"
proof (induction e rule: dec_induct)
  case (step e)
  then show ?case
    using era_year_mono_Suc [of e] by simp
qed simp

definition era_ok :: "nat \<Rightarrow> bool" where
  "era_ok y \<longleftrightarrow> era_year (era_start y) = y \<and> era_year (era_start (y + 1) - 1) = y"

lemmas era_eval = upt_rec_numeral era_ok_def era_year_def era_start_def

lemma era_ok_1: "list_all era_ok [0..<100]"
proof -
  have "[0..<100] = 0 # 1 # [2..<100]"
    by (simp add: upt_conv_Cons numeral_2_eq_2)
  then show ?thesis by (simp add: era_eval)
qed

lemma era_ok_2: "list_all era_ok [100..<200]"
  by (simp add: era_eval)

lemma era_ok_3: "list_all era_ok [200..<300]"
  by (simp add: era_eval)

lemma era_ok_4: "list_all era_ok [300..<400]"
  by (simp add: era_eval)

lemma era_ok_all: "y < 400 \<Longrightarrow> era_ok y"
  using era_ok_1 era_ok_2 era_ok_3 era_ok_4
  unfolding list_all_iff set_upt by (metis atLeastLessThan_iff linorder_not_less zero_le)

lemma era_year_bounds:
  assumes "d < 146097"
  defines "y \<equiv> era_year d"
  shows "y < 400" "era_start y \<le> d" "d - era_start y < 366"
proof -
  have "y \<le> era_year 146096"
    unfolding y_def using assms by (intro era_year_mono) auto
  then show y: "y < 400"
    by (simp add: era_year_def)
  show "era_start y \<le> d"
  proof (rule ccontr)
    assume less: "\<not> era_start y \<le> d"
    then obtain x where x: "y = Suc x"
      by (cases y) (auto simp: era_start_def)
    have "era_start y < 146097"
      using y by (simp add: era_start_def)
    with less have "era_year d \<le> era_year (era_start (x + 1) - 1)"
      by (intro era_year_mono) (auto simp: x)
    then show False
      using era_ok_all [of x] y by (simp add: era_ok_def x y_def [symmetric])
  qed
  show "d - era_start y < 366"
  proof (cases "y = 399")
    case True
    then show ?thesis
      using assms by (simp add: era_start_def)
  next
    case False
    have "d < era_start (y + 1)"
    proof (rule ccontr)
      assume "\<not> d < era_start (y + 1)"
      then have "era_year (era_start (y + 1)) \<le> y"
        unfolding y_def using assms by (intro era_year_mono) auto
      then show False
        using era_ok_all [of "y + 1"] False y by (simp add: era_ok_def)
    qed
    then show ?thesis
      by (simp add: era_start_def)
  qed
qed

lemma month_bounds:
  assumes "n < (366::nat)" "m = (5 * n + 2) div 153"
  shows "m \<le> 11" "(153 * m + 2) div 5 \<le> n" "n - (153 * m + 2) div 5 + 1 \<le> 31"
proof -
  have m: "153 * m \<le> 5 * n + 2" "5 * n + 2 < 153 * m + 153"
    using assms by (simp_all add: div_times_less_eq_dividend dividend_less_times_div)
  with assms show "m \<le> 11" by linarith
  show "(153 * m + 2) div 5 \<le> n" using m by linarith
  show "n - (153 * m + 2) div 5 + 1 \<le> 31" using m by linarith
qed

text \<open>The two conversions, in terms of era, year of the era, month and day counted from March.\<close>

lemma days_from_parts:
  assumes "y < 400" "m \<le> 11" "1 \<le> d"
    and month: "month = (if m < 10 then m + 3 else m - 9)"
    and year: "year = int (y + era * 400 + (if month \<le> 2 then 1 else 0))"
  shows "days_from_civil year month d =
    int era * 146097 + int (era_start y) + int ((153 * m + 2) div 5) + int d - 1 - 719468"
proof -
  have shifted: "(if int month > 2 then int month - 3 else int month + 9) = int m"
    using assms(2) by (auto simp: month)
  have march_year: "(if month \<le> 2 then year - 1 else year) = int (y + era * 400)"
    by (simp add: year)
  have era: "i64_div (int (y + era * 400)) 400 = int era"
    using assms(1) by (simp add: i64_div_nonneg)
  have "int (era_start y) = int y * 365 + int y div 4 - int y div 100"
    by (simp add: era_start_def zdiv_int of_nat_diff algebra_simps)
  then show ?thesis
    unfolding days_from_civil_def Let_def shifted march_year
    using era by (simp add: i64_div_nonneg zdiv_int)
qed

lemma civil_from_days_parts:
  "civil_from_days days =
     (let era = (days + 719468) div 146097;
          doe = (days + 719468) mod 146097;
          y = era_year doe;
          doy = doe - era_start y;
          m = (5 * doy + 2) div 153;
          month = (if m < 10 then m + 3 else m - 9)
      in (y + era * 400 + (if month \<le> 2 then 1 else 0), month, doy - (153 * m + 2) div 5 + 1))"
  by (simp only: civil_from_days_def era_year_def era_start_def Let_def)

lemma days_from_civil_inverse:
  assumes "civil_from_days days = (year, month, day)"
  shows "days_from_civil (int year) month day = int days"
    and "1 \<le> month" "month \<le> 12" "1 \<le> day" "day \<le> 31" "1 \<le> year"
    and "days < 2932897 \<Longrightarrow> year \<le> 9999"
proof -
  define era where "era = (days + 719468) div 146097"
  define doe where "doe = (days + 719468) mod 146097"
  define y where "y = era_year doe"
  define doy where "doy = doe - era_start y"
  define m where "m = (5 * doy + 2) div 153"
  have doe: "doe < 146097" and total: "era * 146097 + doe = days + 719468"
    by (simp_all add: doe_def era_def)
  note y = era_year_bounds [OF doe, folded y_def]
  have doy: "doy < 366"
    using y(3) by (simp add: doy_def)
  note m = month_bounds [OF doy m_def]
  have parts: "month = (if m < 10 then m + 3 else m - 9)" "day = doy - (153 * m + 2) div 5 + 1"
      "year = y + era * 400 + (if month \<le> 2 then 1 else 0)"
    using assms
    unfolding civil_from_days_parts Let_def era_def [symmetric] doe_def [symmetric] y_def [symmetric]
      doy_def [symmetric] m_def [symmetric]
    by (simp_all only: prod.inject) auto
  have "days_from_civil (int year) month day =
      int era * 146097 + int (era_start y) + int ((153 * m + 2) div 5) + int day - 1 - 719468"
    by (rule days_from_parts [OF y(1) m(1) _ parts(1)]) (simp_all add: parts)
  also have "\<dots> = int era * 146097 + int doe - 719468"
    using m(2) y(2) by (simp add: parts(2) doy_def of_nat_diff)
  also have "\<dots> = int days"
    using total by linarith
  finally show "days_from_civil (int year) month day = int days" .
  show "1 \<le> month" "month \<le> 12" "1 \<le> day" "day \<le> 31"
    using m parts by auto
  have "4 \<le> era"
    by (simp add: era_def)
  then show "1 \<le> year"
    by (simp add: parts(3))
  show "year \<le> 9999" if "days < 2932897"
  proof -
    have "era \<le> 23 \<or> era = 24 \<and> doe \<le> 146036"
      using that total by linarith
    then consider "era \<le> 23" | "era = 24" "doe \<le> 146036"
      by blast
    then show ?thesis
    proof cases
      case 1
      then show ?thesis using y(1) by (auto simp: parts(3))
    next
      case 2
      have "y = 399 \<Longrightarrow> doy \<le> 305"
        using 2 by (simp add: doy_def era_start_def)
      then have "y = 399 \<Longrightarrow> m < 10"
        by (auto simp: m_def)
      then show ?thesis
        using 2 y(1) by (cases "y = 399") (auto simp: parts(1,3))
    qed
  qed
qed

section \<open>The text form\<close>

lemma separators_not_digits [simp]:
  "\<not> is_ascii_digit CHR ''T''" "\<not> is_ascii_digit CHR ''-''" "\<not> is_ascii_digit CHR '':''" "\<not> is_ascii_digit CHR ''.''"
  by (simp_all add: is_ascii_digit_def less_eq_char_def)

lemma parse_date_text:
  assumes "1 \<le> year" "year \<le> 9999" "1 \<le> month" "month \<le> 12" "1 \<le> day" "day \<le> 31"
  shows "parse_date (padded 4 year @ ''-'' @ padded 2 month @ ''-'' @ padded 2 day) = Some (int year, month, day)"
  using assms
  by (simp add: parse_date_def split_on_append split_on_free padded_free parse_i64_padded
      parse_unsigned_padded u32_max_def)

lemma parse_clock_text:
  assumes "h \<le> 23" "m \<le> 59" "s \<le> 59"
  shows "parse_clock (padded 2 h @ '':'' @ padded 2 m @ '':'' @ padded 2 s) = Some (h * 3600 + m * 60 + s)"
  using assms
  by (simp add: parse_clock_def split_on_append split_on_free padded_free parse_unsigned_padded u64_max_def)

lemma fraction_text:
  assumes "ms < 1000"
  shows "millis_from_fraction (padded 3 ms) = Some ms"
proof -
  have len: "length (padded 3 ms) = 3"
    using length_show_nat [of ms 3] assms by (simp add: padded_def length_pad_left)
  then have "str_get 0 3 (padded 3 ms) = Some (padded 3 ms)"
    by (simp add: str_get_def is_char_boundary_def)
  then show ?thesis
    using assms len padded_digits [of 3 ms] by (simp add: millis_from_fraction_def parse_unsigned_padded)
qed

lemma second_of_day:
  fixes n :: nat
  assumes "n < 86400"
  shows "n div 3600 \<le> 23" "n div 60 mod 60 \<le> 59" "n mod 60 \<le> 59"
    "n div 3600 * 3600 + n div 60 mod 60 * 60 + n mod 60 = n"
proof -
  show "n div 3600 \<le> 23" "n div 60 mod 60 \<le> 59" "n mod 60 \<le> 59"
    using assms by linarith+
  have "n div 3600 * 60 + n div 60 mod 60 = n div 60"
    using div_mult_mod_eq [of "n div 60" 60] by (simp add: div_mult2_eq [symmetric])
  then show "n div 3600 * 3600 + n div 60 mod 60 * 60 + n mod 60 = n"
    using div_mult_mod_eq [of n 60] by linarith
qed

lemma server_time_parse_format:
  assumes "ms < 253402300800000"
  shows "server_time_parse (server_time_format ms) = Some ms"
proof -
  define days sod where "days = ms div 1000 div 86400" and "sod = ms div 1000 mod 86400"
  obtain year month day where civil: "civil_from_days days = (year, month, day)"
    by (cases "civil_from_days days") auto
  have days: "days < 2932897"
    using assms by (simp add: days_def)
  note date = days_from_civil_inverse [OF civil]
  have sod: "sod < 86400"
    by (simp add: sod_def)
  note clock = second_of_day [OF sod]
  let ?date = "padded 4 year @ ''-'' @ padded 2 month @ ''-'' @ padded 2 day"
  let ?clock = "padded 2 (sod div 3600) @ '':'' @ padded 2 (sod div 60 mod 60) @ '':'' @ padded 2 (sod mod 60)"
  let ?frac = "padded 3 (ms mod 1000)"
  have written: "server_time_format ms = ?date @ CHR ''T'' # (?clock @ CHR ''.'' # ?frac) @ ''Z''"
    by (simp add: server_time_format_def Let_def civil flip: days_def sod_def)
  have T: "split_once (CHR ''T'') (server_time_format ms) = Some (?date, (?clock @ CHR ''.'' # ?frac) @ ''Z'')"
    unfolding written by (rule split_once_append) (simp add: padded_free)
  have Z: "strip_suffix ''Z'' ((?clock @ CHR ''.'' # ?frac) @ ''Z'') = Some (?clock @ CHR ''.'' # ?frac)"
    by (simp only: strip_suffix_Some)
  have dot: "split_once (CHR ''.'') (?clock @ CHR ''.'' # ?frac) = Some (?clock, ?frac)"
    by (rule split_once_append) (simp add: padded_free)
  have total: "(int days * 86400 + int sod) * 1000 + int (ms mod 1000) = int ms"
  proof -
    have "(days * 86400 + sod) * 1000 + ms mod 1000 = ms"
      by (simp only: days_def sod_def div_mult_mod_eq)
    then have "int ((days * 86400 + sod) * 1000 + ms mod 1000) = int ms"
      by (rule arg_cong)
    then show ?thesis by (simp only: of_nat_add of_nat_mult of_nat_numeral)
  qed
  have small: "int ms < 2 ^ 62" "int days < 2 ^ 40"
    using assms days by simp_all
  have checks: "checked_i64 (int days * 86400) = Some (int days * 86400)" "checked_i64 (int sod) = Some (int sod)"
      "checked_i64 (int days * 86400 + int sod) = Some (int days * 86400 + int sod)"
      "checked_i64 ((int days * 86400 + int sod) * 1000) = Some ((int days * 86400 + int sod) * 1000)"
      "checked_i64 (int ms) = Some (int ms)"
    using small sod total by (simp_all add: checked_i64_def in_i64_def)
  have parts: "parse_date ?date = Some (int year, month, day)" "parse_clock ?clock = Some sod"
      "millis_from_fraction ?frac = Some (ms mod 1000)"
    using parse_date_text [of year month day] date(2-7) days parse_clock_text [OF clock(1-3)] clock(4)
      fraction_text [of "ms mod 1000"] by simp_all
  have "\<not> int ms < 0" "nat (int ms) = ms"
    by simp_all
  then show ?thesis
    by (simp only: server_time_parse_def T Z dot parts date(1) checks total Option.bind.simps prod.case Let_def
        option.case if_False)
qed

interpretation server_time_codec: wire_codec server_time_format server_time_parse "\<lambda>ms. ms < 253402300800000"
  by unfold_locales (rule server_time_parse_format)

section \<open>Properties\<close>

lemma server_time_round_trip_parts:
  assumes "ms < 253402300800000"
  shows "server_time_parse (server_time_format ms) = Some ms"
    and "n < 253402300800000 \<Longrightarrow> server_time_format n = server_time_format ms \<Longrightarrow> n = ms"
  using server_time_codec.decode_encode [OF assms] server_time_codec.encode_inj [of n ms] assms by simp_all

text \<open>
  C40: every instant from the epoch to the end of the year 9999 is written as text that parses back to
  exactly that millisecond; so the calendar arithmetic in the two directions is mutually inverse and
  the text form is unique.
\<close>

theorem server_time_round_trip:
  assumes "ms < 253402300800000"
  shows
  "(server_time_parse (server_time_format ms) = Some ms)
   \<and> (n < 253402300800000 \<longrightarrow> server_time_format n = server_time_format ms \<longrightarrow> n = ms)"
  by (intro conjI impI; use server_time_round_trip_parts [OF assms] in blast)

theorem server_time_round_trip_witness:
  "server_time_parse (server_time_format 1788688800123) = Some 1788688800123"
  using server_time_round_trip [of 1788688800123] by simp

end
