(* ===== verification/Formatting.thy ===== *)
theory Formatting
  imports Rust_Str "HOL-Library.Word" "HOL-Library.Sublist"
begin

text \<open>
  mIRC formatting codes and CTCP framing inside a message body (\<open>obby-proto/src/format.rs\<close>). Every code
  is ASCII, so the iterator over scalars is the string of the bytes still ahead. A \<open>u8\<close> is an
  \<open>8 word\<close>.
\<close>

unbundle bit_operations_syntax

definition BOLD :: char where "BOLD = CHR 0x02"
definition ITALIC :: char where "ITALIC = CHR 0x1D"
definition UNDERLINE :: char where "UNDERLINE = CHR 0x1F"
definition STRIKETHROUGH :: char where "STRIKETHROUGH = CHR 0x1E"
definition MONOSPACE :: char where "MONOSPACE = CHR 0x11"
definition REVERSE :: char where "REVERSE = CHR 0x16"
definition RESET :: char where "RESET = CHR 0x0F"
definition COLOUR :: char where "COLOUR = CHR 0x03"
definition HEX_COLOUR :: char where "HEX_COLOUR = CHR 0x04"
definition CTCP_DELIM :: char where "CTCP_DELIM = CHR 0x01"

lemmas code_chars = BOLD_def ITALIC_def UNDERLINE_def STRIKETHROUGH_def MONOSPACE_def REVERSE_def
  RESET_def COLOUR_def HEX_COLOUR_def

datatype colour = Numbered "8 word" | Hex "8 word" "8 word" "8 word"

type_synonym emphasis = "8 word"

definition EM_BOLD :: emphasis where "EM_BOLD = 1"
definition EM_ITALIC :: emphasis where "EM_ITALIC = 2"
definition EM_UNDERLINE :: emphasis where "EM_UNDERLINE = 4"
definition EM_STRIKETHROUGH :: emphasis where "EM_STRIKETHROUGH = 8"
definition EM_MONOSPACE :: emphasis where "EM_MONOSPACE = 16"
definition EM_REVERSE :: emphasis where "EM_REVERSE = 32"

definition em_active :: "emphasis \<Rightarrow> emphasis \<Rightarrow> bool" where
  "em_active flag e \<longleftrightarrow> e AND flag \<noteq> 0"

definition em_toggle :: "emphasis \<Rightarrow> emphasis \<Rightarrow> emphasis" where
  "em_toggle flag e = e XOR flag"

record style =
  sty_emphasis :: emphasis
  sty_foreground :: "colour option"
  sty_background :: "colour option"

definition style_default :: style where
  "style_default = \<lparr>sty_emphasis = 0, sty_foreground = None, sty_background = None\<rparr>"

record span =
  spn_text :: string
  spn_style :: style

record ctcp =
  ctcp_command :: string
  ctcp_params :: string

definition parse_ctcp :: "string \<Rightarrow> ctcp option" where
  "parse_ctcp body =
     (case strip_prefix [CTCP_DELIM] body of
        None \<Rightarrow> None
      | Some inner \<Rightarrow>
          (let inner = (case strip_suffix [CTCP_DELIM] inner of Some s \<Rightarrow> s | None \<Rightarrow> inner);
               (command, params) = (case split_once sp inner of Some p \<Rightarrow> p | None \<Rightarrow> (inner, []))
           in Some \<lparr>ctcp_command = command, ctcp_params = params\<rparr>))"

section \<open>Colour codes\<close>

text \<open>Each reader returns what it read and the iterator after it, unchanged when nothing was read.\<close>

fun digits_loop :: "nat \<Rightarrow> nat \<Rightarrow> 8 word \<Rightarrow> string \<Rightarrow> nat \<times> 8 word \<times> string" where
  "digits_loop limit count v [] = (count, v, [])"
| "digits_loop limit count v (c # cs) =
     (if count < limit \<and> is_ascii_digit c
      then digits_loop limit (count + 1) (v * 10 + of_nat (digit_value c)) cs
      else (count, v, c # cs))"

definition take_digits :: "nat \<Rightarrow> string \<Rightarrow> 8 word option \<times> string" where
  "take_digits limit s =
     (case digits_loop limit 0 0 s of (count, v, probe) \<Rightarrow> if count = 0 then (None, s) else (Some v, probe))"

definition take_comma_digits :: "string \<Rightarrow> 8 word option \<times> string" where
  "take_comma_digits s =
     (case s of
        c # probe \<Rightarrow>
          if c \<noteq> CHR '','' then (None, s)
          else (case take_digits 2 probe of (None, _) \<Rightarrow> (None, s) | (Some v, probe) \<Rightarrow> (Some v, probe))
      | [] \<Rightarrow> (None, s))"

definition hex_byte :: "string \<Rightarrow> (8 word \<times> string) option" where
  "hex_byte s =
     (case s of
        hi # lo # rest \<Rightarrow>
          (case (hex_value hi, hex_value lo) of
             (Some h, Some l) \<Rightarrow> Some (push_bit 4 (of_nat h) OR of_nat l, rest)
           | _ \<Rightarrow> None)
      | _ \<Rightarrow> None)"

definition take_hex_triple :: "string \<Rightarrow> (8 word \<times> 8 word \<times> 8 word) option \<times> string" where
  "take_hex_triple s =
     (case hex_byte s of
        None \<Rightarrow> (None, s)
      | Some (r, s1) \<Rightarrow>
          (case hex_byte s1 of
             None \<Rightarrow> (None, s)
           | Some (g, s2) \<Rightarrow>
               (case hex_byte s2 of None \<Rightarrow> (None, s) | Some (b, s3) \<Rightarrow> (Some (r, g, b), s3))))"

definition take_comma_hex_triple :: "string \<Rightarrow> colour option \<times> string" where
  "take_comma_hex_triple s =
     (case s of
        c # probe \<Rightarrow>
          if c \<noteq> CHR '','' then (None, s)
          else (case take_hex_triple probe of
                  (None, _) \<Rightarrow> (None, s)
                | (Some (r, g, b), probe) \<Rightarrow> (Some (Hex r g b), probe))
      | [] \<Rightarrow> (None, s))"

definition parse_numbered_colour :: "string \<Rightarrow> (colour \<times> colour option) option \<times> string" where
  "parse_numbered_colour s =
     (case take_digits 2 s of
        (None, s) \<Rightarrow> (None, s)
      | (Some foreground, s) \<Rightarrow>
          (case take_comma_digits s of
             (background, s) \<Rightarrow> (Some (Numbered foreground, map_option Numbered background), s)))"

definition parse_hex_colour :: "string \<Rightarrow> (colour \<times> colour option) option \<times> string" where
  "parse_hex_colour s =
     (case take_hex_triple s of
        (None, s) \<Rightarrow> (None, s)
      | (Some (r, g, b), s) \<Rightarrow>
          (case take_comma_hex_triple s of (background, s) \<Rightarrow> (Some (Hex r g b, background), s)))"

definition apply_colour :: "(colour \<times> colour option) option \<Rightarrow> style \<Rightarrow> style" where
  "apply_colour parsed st =
     (case parsed of
        Some (foreground, background) \<Rightarrow>
          (let st = st\<lparr>sty_foreground := Some foreground\<rparr> in
           case background of Some b \<Rightarrow> st\<lparr>sty_background := Some b\<rparr> | None \<Rightarrow> st)
      | None \<Rightarrow> st\<lparr>sty_foreground := None, sty_background := None\<rparr>)"

text \<open>A reader leaves a suffix of what it was given, so the loop below ends.\<close>

lemma digits_loop_suffix: "suffix (snd (snd (digits_loop limit n v s))) s"
  by (induction limit n v s rule: digits_loop.induct) (auto simp: suffix_Cons)

lemma take_digits_suffix: "suffix (snd (take_digits limit s)) s"
  using digits_loop_suffix [of limit 0 0 s] by (auto simp: take_digits_def split: prod.splits)

lemma take_comma_digits_suffix: "suffix (snd (take_comma_digits s)) s"
proof (cases s)
  case (Cons c cs)
  have "suffix (snd (take_digits 2 cs)) s"
    using take_digits_suffix [of 2 cs] by (simp add: Cons suffix_Cons)
  then show ?thesis
    by (auto simp: take_comma_digits_def Cons split: prod.splits option.splits)
qed (simp add: take_comma_digits_def)

lemma hex_byte_suffix: "hex_byte s = Some (b, r) \<Longrightarrow> suffix r s"
  by (auto simp: hex_byte_def suffix_Cons split: list.splits option.splits)

lemma take_hex_triple_suffix: "suffix (snd (take_hex_triple s)) s"
  by (auto simp: take_hex_triple_def split: option.splits prod.splits
      dest!: hex_byte_suffix intro: suffix_order.trans)

lemma take_comma_hex_triple_suffix: "suffix (snd (take_comma_hex_triple s)) s"
proof (cases s)
  case (Cons c cs)
  have "suffix (snd (take_hex_triple cs)) s"
    using take_hex_triple_suffix [of cs] by (simp add: Cons suffix_Cons)
  then show ?thesis
    by (auto simp: take_comma_hex_triple_def Cons split: prod.splits option.splits)
qed (simp add: take_comma_hex_triple_def)

lemma parse_numbered_colour_suffix: "suffix (snd (parse_numbered_colour s)) s"
proof -
  obtain d r where d: "take_digits 2 s = (d, r)" by force
  have "suffix r s" "suffix (snd (take_comma_digits r)) r"
    using take_digits_suffix [of 2 s] take_comma_digits_suffix [of r] by (simp_all add: d)
  then show ?thesis
    by (auto simp: parse_numbered_colour_def d split: option.splits prod.splits intro: suffix_order.trans)
qed

lemma parse_hex_colour_suffix: "suffix (snd (parse_hex_colour s)) s"
proof -
  obtain d r where d: "take_hex_triple s = (d, r)" by force
  have "suffix r s" "suffix (snd (take_comma_hex_triple r)) r"
    using take_hex_triple_suffix [of s] take_comma_hex_triple_suffix [of r] by (simp_all add: d)
  then show ?thesis
    by (auto simp: parse_hex_colour_def d split: option.splits prod.splits intro: suffix_order.trans)
qed

section \<open>Spans\<close>

definition flush :: "string \<Rightarrow> style \<Rightarrow> span list" where
  "flush current st = (if current = [] then [] else [\<lparr>spn_text = current, spn_style = st\<rparr>])"

definition toggle_style :: "emphasis \<Rightarrow> style \<Rightarrow> style" where
  "toggle_style flag st = st\<lparr>sty_emphasis := em_toggle flag (sty_emphasis st)\<rparr>"

function spans_loop :: "style \<Rightarrow> string \<Rightarrow> string \<Rightarrow> span list" where
  "spans_loop st current [] = flush current st"
| "spans_loop st current (c # cs) =
     (if c = BOLD then flush current st @ spans_loop (toggle_style EM_BOLD st) [] cs
      else if c = ITALIC then flush current st @ spans_loop (toggle_style EM_ITALIC st) [] cs
      else if c = UNDERLINE then flush current st @ spans_loop (toggle_style EM_UNDERLINE st) [] cs
      else if c = STRIKETHROUGH then flush current st @ spans_loop (toggle_style EM_STRIKETHROUGH st) [] cs
      else if c = MONOSPACE then flush current st @ spans_loop (toggle_style EM_MONOSPACE st) [] cs
      else if c = REVERSE then flush current st @ spans_loop (toggle_style EM_REVERSE st) [] cs
      else if c = RESET then flush current st @ spans_loop style_default [] cs
      else if c = COLOUR then
        (let (parsed, rest) = parse_numbered_colour cs in
         flush current st @ spans_loop (apply_colour parsed st) [] rest)
      else if c = HEX_COLOUR then
        (let (parsed, rest) = parse_hex_colour cs in
         flush current st @ spans_loop (apply_colour parsed st) [] rest)
      else spans_loop st (current @ [c]) cs)"
  by pat_completeness auto
termination
proof (relation "measure (\<lambda>(_, _, s). length s)", goal_cases)
  case (9 st current c cs x y z)
  then show ?case
    using suffix_length_le [OF parse_numbered_colour_suffix [of cs]]
    by (cases "parse_numbered_colour cs") auto
next
  case (10 st current c cs x y z)
  then show ?case
    using suffix_length_le [OF parse_hex_colour_suffix [of cs]]
    by (cases "parse_hex_colour cs") auto
qed auto

declare spans_loop.simps(2) [simp del]

definition parse_spans :: "string \<Rightarrow> span list" where
  "parse_spans body = spans_loop style_default [] body"

definition strip_formatting :: "string \<Rightarrow> string" where
  "strip_formatting body = concat (map spn_text (parse_spans body))"

section \<open>What is kept and what is removed\<close>

definition is_code :: "char \<Rightarrow> bool" where
  "is_code c \<longleftrightarrow> c \<in> {BOLD, ITALIC, UNDERLINE, STRIKETHROUGH, MONOSPACE, REVERSE, RESET, COLOUR, HEX_COLOUR}"

lemma flush_text [simp]: "concat (map spn_text (flush current st)) = current"
  by (simp add: flush_def)

definition loop_text :: "style \<Rightarrow> string \<Rightarrow> string \<Rightarrow> string" where
  "loop_text st current s = concat (map spn_text (spans_loop st current s))"

lemma spans_loop_plain: "\<not> is_code c \<Longrightarrow> spans_loop st current (c # cs) = spans_loop st (current @ [c]) cs"
  by (simp add: is_code_def spans_loop.simps)

lemma spans_loop_code:
  assumes "is_code c"
  shows "\<exists>st' rest. suffix rest cs \<and> spans_loop st current (c # cs) = flush current st @ spans_loop st' [] rest"
proof -
  obtain p r where n: "parse_numbered_colour cs = (p, r)" by force
  obtain q t where h: "parse_hex_colour cs = (q, t)" by force
  have suffixes: "suffix r cs" "suffix t cs" "suffix cs cs"
    using parse_numbered_colour_suffix [of cs] parse_hex_colour_suffix [of cs] by (simp_all add: n h)
  have "\<exists>st' rest. suffix rest cs \<and> flush current st @ spans_loop st1 [] s = flush current st @ spans_loop st' [] rest"
    if "suffix s cs" for st1 s
    using that by blast
  note ends = this [OF suffixes(1)] this [OF suffixes(2)] this [OF suffixes(3)]
  show ?thesis
    using assms unfolding is_code_def spans_loop.simps n h Let_def prod.case
    by (auto simp only: ends split: if_split)
qed

text \<open>The induction that follows the loop: a plain byte joins the run, a code ends it.\<close>

lemma spans_loop_induct [case_names Nil plain code]:
  assumes "\<And>st current. P st current []"
    and "\<And>st current c cs. \<not> is_code c \<Longrightarrow> P st (current @ [c]) cs \<Longrightarrow> P st current (c # cs)"
    and "\<And>st current c cs st' rest. is_code c \<Longrightarrow> suffix rest cs \<Longrightarrow>
      spans_loop st current (c # cs) = flush current st @ spans_loop st' [] rest \<Longrightarrow>
      P st' [] rest \<Longrightarrow> P st current (c # cs)"
  shows "P st current s"
proof (induction s arbitrary: st current rule: length_induct)
  case (1 s)
  show ?case
  proof (cases s)
    case Nil
    then show ?thesis using assms(1) by simp
  next
    case (Cons c cs)
    show ?thesis
    proof (cases "is_code c")
      case True
      obtain st' rest where r: "suffix rest cs"
          "spans_loop st current (c # cs) = flush current st @ spans_loop st' [] rest"
        using spans_loop_code [OF True] by blast
      have "P st' [] rest"
        using 1 suffix_length_le [OF r(1)] by (simp add: Cons)
      then show ?thesis
        unfolding Cons using assms(3) [OF True r] by blast
    next
      case False
      then show ?thesis
        using 1 assms(2) by (simp add: Cons)
    qed
  qed
qed

lemma loop_text_free:
  "list_all (\<lambda>c. \<not> is_code c) current \<Longrightarrow> list_all (\<lambda>c. \<not> is_code c) (loop_text st current s)"
proof (induction st current s rule: spans_loop_induct)
  case (plain st current c cs)
  then show ?case
    by (simp add: loop_text_def spans_loop_plain)
next
  case (code st current c cs st' rest)
  have "loop_text st current (c # cs) = current @ loop_text st' [] rest"
    by (simp add: loop_text_def code(3))
  then show ?case
    using code(4,5) by simp
qed (simp add: loop_text_def)

lemma loop_text_subseq: "subseq (loop_text st current s) (current @ s)"
proof (induction st current s rule: spans_loop_induct)
  case (plain st current c cs)
  then show ?case
    by (simp add: loop_text_def spans_loop_plain)
next
  case (code st current c cs st' rest)
  have "subseq (loop_text st' [] rest) (c # cs)"
    using code(2,4) by (auto simp: suffix_def intro: subseq_drop_many)
  then have "subseq (current @ loop_text st' [] rest) (current @ c # cs)"
    by (simp add: list_emb_append_mono)
  with code(3) show ?case
    by (simp add: loop_text_def)
qed (simp add: loop_text_def)

lemma loop_plain: "list_all (\<lambda>c. \<not> is_code c) s \<Longrightarrow> spans_loop st current s = flush (current @ s) st"
proof (induction st current s rule: spans_loop_induct)
  case (plain st current c cs)
  then show ?case
    by (simp add: spans_loop_plain)
qed simp_all

lemma loop_spans_not_empty: "list_all (\<lambda>s. spn_text s \<noteq> []) (spans_loop st current s)"
proof (induction st current s rule: spans_loop_induct)
  case (plain st current c cs)
  then show ?case
    by (simp add: spans_loop_plain)
next
  case (code st current c cs st' rest)
  then show ?case
    by (simp add: flush_def)
qed (simp add: flush_def)

lemma strip_formatting_plain: "list_all (\<lambda>c. \<not> is_code c) s \<Longrightarrow> strip_formatting s = s"
  by (simp add: strip_formatting_def parse_spans_def loop_plain)

section \<open>Properties\<close>

text \<open>
  Stripping a body leaves no formatting code in it and nothing that was not there (the result is a
  subsequence of the body); a body without codes is unchanged, so stripping twice is stripping once;
  and no span of a parsed body is empty.
\<close>

theorem strip_formatting_clean:
  "list_all (\<lambda>c. \<not> is_code c) (strip_formatting body)
   \<and> subseq (strip_formatting body) body
   \<and> strip_formatting (strip_formatting body) = strip_formatting body
   \<and> (list_ex is_code body \<or> parse_spans body = flush body style_default)
   \<and> list_all (\<lambda>s. spn_text s \<noteq> []) (parse_spans body)"
proof -
  have eq: "strip_formatting body = loop_text style_default [] body"
    by (simp add: strip_formatting_def parse_spans_def loop_text_def)
  have free: "list_all (\<lambda>c. \<not> is_code c) (strip_formatting body)"
    unfolding eq by (rule loop_text_free) simp
  then have "strip_formatting (strip_formatting body) = strip_formatting body"
    by (rule strip_formatting_plain)
  moreover have "subseq (strip_formatting body) body"
    using loop_text_subseq [of style_default "[]" body] by (simp add: eq)
  moreover have "list_ex is_code body \<or> parse_spans body = flush body style_default"
    using loop_plain [of body style_default "[]"] by (auto simp: parse_spans_def list_ex_iff list_all_iff)
  ultimately show ?thesis
    using free loop_spans_not_empty [of style_default "[]" body] by (simp add: parse_spans_def)
qed

lemma emphasis_independent_parts:
  assumes "j < 6" "k < 6"
  shows "em_active (2 ^ k) (em_toggle (2 ^ j) e) = (if j = k then \<not> em_active (2 ^ k) e else em_active (2 ^ k) e)"
    and "em_toggle (2 ^ j) (em_toggle (2 ^ j) e) = e"
    and "[EM_BOLD, EM_ITALIC, EM_UNDERLINE, EM_STRIKETHROUGH, EM_MONOSPACE, EM_REVERSE] = map (\<lambda>n. 2 ^ n) [0..<6]"
proof -
  have bits: "em_active (2 ^ n) w \<longleftrightarrow> bit w n" for n w
    by (simp add: em_active_def and_exp_eq_0_iff_not_bit)
  have "k < LENGTH(8)"
    using assms by simp
  then show "em_active (2 ^ k) (em_toggle (2 ^ j) e) = (if j = k then \<not> em_active (2 ^ k) e else em_active (2 ^ k) e)"
    unfolding bits by (auto simp: em_toggle_def bit_xor_iff bit_exp_iff)
  show "em_toggle (2 ^ j) (em_toggle (2 ^ j) e) = e"
    by (simp add: em_toggle_def xor.assoc)
  show "[EM_BOLD, EM_ITALIC, EM_UNDERLINE, EM_STRIKETHROUGH, EM_MONOSPACE, EM_REVERSE] = map (\<lambda>n. 2 ^ n) [0..<6]"
    by (simp add: upt_conv_Cons EM_BOLD_def EM_ITALIC_def EM_UNDERLINE_def EM_STRIKETHROUGH_def EM_MONOSPACE_def EM_REVERSE_def)
qed

text \<open>
  The six decorations are independent bits: toggling one turns it on when it was off and off when
  it was on, leaves the other five alone, and toggling it again restores the byte.
\<close>

theorem emphasis_independent:
  assumes "j < 6" "k < 6"
  shows
  "(em_active (2 ^ k) (em_toggle (2 ^ j) e) = (if j = k then \<not> em_active (2 ^ k) e else em_active (2 ^ k) e))
   \<and> (em_toggle (2 ^ j) (em_toggle (2 ^ j) e) = e)
   \<and> ([EM_BOLD, EM_ITALIC, EM_UNDERLINE, EM_STRIKETHROUGH, EM_MONOSPACE, EM_REVERSE] = map (\<lambda>n. 2 ^ n) [0..<6])"
  by (intro conjI impI; use emphasis_independent_parts [OF assms] in blast)

theorem emphasis_independent_witness:
  "em_active EM_ITALIC (em_toggle EM_BOLD 2) \<and> em_active EM_BOLD (em_toggle EM_BOLD 2)"
  using emphasis_independent [where j = 0 and k = 1 and e = 2] emphasis_independent [where j = 0 and k = 0 and e = 2]
  by (simp add: em_active_def EM_ITALIC_def EM_BOLD_def)

lemma ctcp_framing_parts:
  assumes "sp \<notin> set command"
  shows "parse_ctcp ([CTCP_DELIM] @ command @ '' '' @ params @ [CTCP_DELIM]) =
      Some \<lparr>ctcp_command = command, ctcp_params = params\<rparr>"
    and "params \<noteq> [] \<Longrightarrow> last params \<noteq> CTCP_DELIM \<Longrightarrow>
      parse_ctcp ([CTCP_DELIM] @ command @ '' '' @ params) = Some \<lparr>ctcp_command = command, ctcp_params = params\<rparr>"
proof -
  have "strip_suffix [CTCP_DELIM] ((command @ '' '' @ params) @ [CTCP_DELIM]) = Some (command @ '' '' @ params)"
    by (simp only: strip_suffix_Some)
  then show "parse_ctcp ([CTCP_DELIM] @ command @ '' '' @ params @ [CTCP_DELIM]) =
      Some \<lparr>ctcp_command = command, ctcp_params = params\<rparr>"
    using assms by (simp add: parse_ctcp_def)
  show "parse_ctcp ([CTCP_DELIM] @ command @ '' '' @ params) = Some \<lparr>ctcp_command = command, ctcp_params = params\<rparr>"
    if "params \<noteq> []" "last params \<noteq> CTCP_DELIM"
  proof -
    have "strip_suffix [CTCP_DELIM] (command @ '' '' @ params) = None"
      using that by (cases params rule: rev_cases) (simp_all add: strip_suffix_def)
    then show ?thesis
      using assms by (simp add: parse_ctcp_def)
  qed
qed

text \<open>
  A CTCP body, with or without its closing delimiter, gives back the command and the parameters it
  was framed from, whatever the parameters hold.
\<close>

theorem ctcp_framing:
  assumes "sp \<notin> set command"
  shows
  "(parse_ctcp ([CTCP_DELIM] @ command @ '' '' @ params @ [CTCP_DELIM]) =
      Some \<lparr>ctcp_command = command, ctcp_params = params\<rparr>)
   \<and> (params \<noteq> [] \<longrightarrow> last params \<noteq> CTCP_DELIM \<longrightarrow>
      parse_ctcp ([CTCP_DELIM] @ command @ '' '' @ params) = Some \<lparr>ctcp_command = command, ctcp_params = params\<rparr>)"
  by (intro conjI impI; use ctcp_framing_parts [OF assms] in blast)

theorem ctcp_framing_witness:
  "parse_ctcp ([CTCP_DELIM] @ ''ACTION'' @ '' '' @ ''waves at you'' @ [CTCP_DELIM]) =
     Some \<lparr>ctcp_command = ''ACTION'', ctcp_params = ''waves at you''\<rparr>"
  using ctcp_framing [of "''ACTION''" "''waves at you''"] by simp

end
