(* ===== verification/Json.thy ===== *)
theory Json
  imports Rust_Str
begin

text \<open>
  The JSON values of the Obby extensions (\<open>json.rs\<close>, and the write half at the top of \<open>voice.rs\<close>).
  The parser of the source is a cursor over the bytes of a string; here a parsing function takes the
  bytes still ahead of the cursor and returns what it read with the bytes left, or nothing where the
  source returns \<open>None\<close>.
\<close>

section \<open>Values\<close>

datatype json =
    JNull
  | JBool bool
  | JNum int
  | JStr string
  | JArray "json list"
  | JObject "(string \<times> json) list"

definition json_field :: "json \<Rightarrow> string \<Rightarrow> json option" where
  "json_field j key = (case j of JObject fields \<Rightarrow> map_of fields key | _ \<Rightarrow> None)"

definition as_str :: "json \<Rightarrow> string option" where
  "as_str j = (case j of JStr s \<Rightarrow> Some s | _ \<Rightarrow> None)"

definition as_array :: "json \<Rightarrow> json list option" where
  "as_array j = (case j of JArray items \<Rightarrow> Some items | _ \<Rightarrow> None)"

definition field_string :: "json \<Rightarrow> string \<Rightarrow> string option" where
  "field_string j key = Option.bind (json_field j key) as_str"

section \<open>Reading\<close>

abbreviation quote :: char where "quote \<equiv> CHR 0x22"

definition json_ws :: "char \<Rightarrow> bool" where
  "json_ws c \<longleftrightarrow> c = sp \<or> c = CHR 0x09 \<or> c = nl \<or> c = cr"

definition skip_ws :: "string \<Rightarrow> string" where
  "skip_ws s = dropWhile json_ws s"

definition skip_digits :: "string \<Rightarrow> string" where
  "skip_digits s = dropWhile is_ascii_digit s"

definition expect_byte :: "char \<Rightarrow> string \<Rightarrow> string option" where
  "expect_byte c s = (case s of [] \<Rightarrow> None | x # xs \<Rightarrow> if x = c then Some xs else None)"

definition json_literal :: "string \<Rightarrow> json \<Rightarrow> string \<Rightarrow> (json \<times> string) option" where
  "json_literal word j s = map_option (Pair j) (strip_prefix word s)"

text \<open>
  A number: the sign and the integer digits are what is kept. A fraction and an exponent are skipped
  over and leave no trace in the value.
\<close>

definition skip_fraction :: "string \<Rightarrow> string" where
  "skip_fraction s = (case expect_byte (CHR ''.'') s of None \<Rightarrow> s | Some r \<Rightarrow> skip_digits r)"

definition skip_exponent :: "string \<Rightarrow> string" where
  "skip_exponent s =
     (case s of [] \<Rightarrow> s
      | c # r \<Rightarrow>
          if c = CHR ''e'' \<or> c = CHR ''E'' then
            skip_digits (case r of [] \<Rightarrow> r | d # r' \<Rightarrow> if d = CHR ''+'' \<or> d = CHR ''-'' then r' else r)
          else s)"

definition json_number :: "string \<Rightarrow> (json \<times> string) option" where
  "json_number s =
     (let (sign, rest) = (case s of c # cs \<Rightarrow> if c = CHR ''-'' then ([c], cs) else ([], s) | [] \<Rightarrow> ([], []));
          digits = takeWhile is_ascii_digit rest;
          left = skip_exponent (skip_fraction (skip_digits rest))
      in map_option (\<lambda>n. (JNum n, left)) (parse_i64 (sign @ digits)))"

text \<open>\<open>char::from_u32\<close>: the UTF-8 encoding of a scalar, nothing for a surrogate or a value past U+10FFFF.\<close>

definition char_from_u32 :: "nat \<Rightarrow> string option" where
  "char_from_u32 u =
     (if u < 0x80 then Some [char_of u]
      else if u < 0x800 then Some [char_of (0xC0 + u div 64), char_of (0x80 + u mod 64)]
      else if 0xD800 \<le> u \<and> u \<le> 0xDFFF then None
      else if u < 0x10000 then
        Some [char_of (0xE0 + u div 4096), char_of (0x80 + u div 64 mod 64), char_of (0x80 + u mod 64)]
      else if u \<le> 0x10FFFF then
        Some [char_of (0xF0 + u div 262144), char_of (0x80 + u div 4096 mod 64),
              char_of (0x80 + u div 64 mod 64), char_of (0x80 + u mod 64)]
      else None)"

definition json_hex4 :: "string \<Rightarrow> (nat \<times> string) option" where
  "json_hex4 s =
     (if length s < 4 \<or> \<not> valid_utf8 (take 4 s) then None
      else map_option (\<lambda>n. (n, drop 4 s)) (parse_hex u32_max (take 4 s)))"

definition json_unicode_escape :: "string \<Rightarrow> (string \<times> string) option" where
  "json_unicode_escape s =
     (case json_hex4 s of
        None \<Rightarrow> None
      | Some (unit, r) \<Rightarrow>
          if 0xD800 \<le> unit \<and> unit \<le> 0xDBFF then
            (case Option.bind (expect_byte backslash r) (expect_byte (CHR ''u'')) of
               None \<Rightarrow> None
             | Some r1 \<Rightarrow>
                 (case json_hex4 r1 of
                    None \<Rightarrow> None
                  | Some (low, r2) \<Rightarrow>
                      if \<not> (0xDC00 \<le> low \<and> low \<le> 0xDFFF) then None
                      else map_option (\<lambda>c. (c, r2))
                             (char_from_u32 (0x10000 + (unit - 0xD800) * 1024 + (low - 0xDC00)))))
          else map_option (\<lambda>c. (c, r)) (char_from_u32 unit))"

definition json_escape :: "string \<Rightarrow> (string \<times> string) option" where
  "json_escape s =
     (case s of
        [] \<Rightarrow> None
      | c # r \<Rightarrow>
          if c = quote then Some ([quote], r)
          else if c = backslash then Some ([backslash], r)
          else if c = CHR ''/'' then Some (''/'', r)
          else if c = CHR ''b'' then Some ([CHR 0x08], r)
          else if c = CHR ''f'' then Some ([CHR 0x0C], r)
          else if c = CHR ''n'' then Some ([nl], r)
          else if c = CHR ''r'' then Some ([cr], r)
          else if c = CHR ''t'' then Some ([CHR 0x09], r)
          else if c = CHR ''u'' then json_unicode_escape r
          else None)"

lemma json_hex4_rest: "json_hex4 s = Some (n, r) \<Longrightarrow> length r < length s"
  by (auto simp: json_hex4_def split: if_splits)

lemma expect_byte_Some: "expect_byte c s = Some r \<longleftrightarrow> s = c # r"
  by (auto simp: expect_byte_def split: list.splits if_splits)

lemma json_unicode_escape_rest: "json_unicode_escape s = Some (e, r) \<Longrightarrow> length r < length s"
  by (auto simp: json_unicode_escape_def expect_byte_Some bind_eq_Some_conv
      dest!: json_hex4_rest split: option.splits if_splits)

lemma json_escape_rest: "json_escape s = Some (e, r) \<Longrightarrow> length r < length s"
  by (auto simp: json_escape_def dest: json_unicode_escape_rest split: list.splits if_splits)

text \<open>
  The body of a string: what was decoded so far, the run of bytes since \<open>start\<close>, and the bytes ahead.
  The run is copied through when a quote or a backslash ends it.
\<close>

function json_chars :: "string \<Rightarrow> string \<Rightarrow> string \<Rightarrow> (string \<times> string) option" where
  "json_chars out run [] = None"
| "json_chars out run (c # cs) =
     (if c = quote then (if valid_utf8 run then Some (out @ run, cs) else None)
      else if c = backslash then
        (if valid_utf8 run then
           (case json_escape cs of None \<Rightarrow> None | Some (e, r) \<Rightarrow> json_chars (out @ run @ e) [] r)
         else None)
      else json_chars out (run @ [c]) cs)"
  by pat_completeness auto
termination
  by (relation "measure (\<lambda>(out, run, s). length s)") (auto dest: json_escape_rest)

definition json_string :: "string \<Rightarrow> (string \<times> string) option" where
  "json_string s = Option.bind (expect_byte quote s) (json_chars [] [])"

lemma length_skip_ws: "length (skip_ws s) \<le> length s"
  by (simp add: skip_ws_def length_dropWhile_le)

lemma json_chars_rest: "json_chars out run s = Some (t, r) \<Longrightarrow> length r < length s"
proof (induction out run s rule: json_chars.induct)
  case (2 out run c cs)
  then show ?case
    by (fastforce split: if_splits option.splits dest: json_escape_rest)
qed simp

lemma json_string_rest: "json_string s = Some (t, r) \<Longrightarrow> length r < length s"
  by (auto simp: json_string_def bind_eq_Some_conv expect_byte_Some dest!: json_chars_rest)

lemma json_literal_rest: "json_literal w j s = Some (v, r) \<Longrightarrow> w \<noteq> [] \<Longrightarrow> length r < length s"
  by (cases w) (auto simp: json_literal_def strip_prefix_Some)

lemma length_skip_digits: "length (skip_digits s) \<le> length s"
  by (simp add: skip_digits_def length_dropWhile_le)

lemma length_skip_fraction: "length (skip_fraction s) \<le> length s"
  using length_skip_digits [of "tl s"]
  by (auto simp: skip_fraction_def expect_byte_Some intro: le_trans split: option.splits)

lemma length_skip_exponent: "length (skip_exponent s) \<le> length s"
proof -
  have "length (skip_digits (case r of [] \<Rightarrow> r | d # r' \<Rightarrow> if d = CHR ''+'' \<or> d = CHR ''-'' then r' else r)) \<le> length r"
    for r :: string
    using length_skip_digits [of "tl r"] length_skip_digits [of r]
    by (cases r) (auto simp: skip_digits_def)
  then show ?thesis
    by (auto simp: skip_exponent_def le_Suc_eq split: list.split)
qed

lemma json_number_rest: "json_number s = Some (v, r) \<Longrightarrow> length r < length s"
proof -
  assume some: "json_number s = Some (v, r)"
  have shrinks: "length (skip_exponent (skip_fraction (skip_digits t))) \<le> length (skip_digits t)" for t
    by (rule le_trans [OF length_skip_exponent length_skip_fraction])
  show ?thesis
  proof (cases s)
    case Nil
    with some show ?thesis by (simp add: json_number_def parse_i64_def)
  next
    case (Cons c cs)
    show ?thesis
    proof (cases "c = CHR ''-''")
      case True
      then show ?thesis
        using some Cons shrinks [of cs] length_skip_digits [of cs] by (auto simp: json_number_def Let_def)
    next
      case False
      then have "is_ascii_digit c"
        using some Cons by (auto simp: json_number_def Let_def parse_i64_def split: if_splits list.splits)
      then show ?thesis
        using some Cons False shrinks [of s] length_skip_digits [of cs]
        by (auto simp: json_number_def Let_def skip_digits_def)
    qed
  qed
qed

text \<open>
  The recursive descent. \<open>json_items\<close> and \<open>json_fields\<close> are the loops of \<open>parse_array\<close> and
  \<open>parse_object\<close>, entered after the opening bracket when the container is not empty.
\<close>

function json_value :: "string \<Rightarrow> (json \<times> string) option"
  and json_items :: "string \<Rightarrow> (json list \<times> string) option"
  and json_fields :: "string \<Rightarrow> ((string \<times> json) list \<times> string) option" where
  "json_value s =
     (case skip_ws s of
        [] \<Rightarrow> None
      | c # r \<Rightarrow>
          if c = quote then map_option (apfst JStr) (json_string (c # r))
          else if c = CHR ''{'' then
            (case expect_byte (CHR ''}'') (skip_ws r) of
               Some r' \<Rightarrow> Some (JObject [], r')
             | None \<Rightarrow> map_option (apfst JObject) (json_fields (skip_ws r)))
          else if c = CHR ''['' then
            (case expect_byte (CHR '']'') (skip_ws r) of
               Some r' \<Rightarrow> Some (JArray [], r')
             | None \<Rightarrow> map_option (apfst JArray) (json_items (skip_ws r)))
          else if c = CHR ''t'' then json_literal ''true'' (JBool True) (c # r)
          else if c = CHR ''f'' then json_literal ''false'' (JBool False) (c # r)
          else if c = CHR ''n'' then json_literal ''null'' JNull (c # r)
          else if c = CHR ''-'' \<or> is_ascii_digit c then json_number (c # r)
          else None)"
| "json_items s =
     (case json_value s of
        None \<Rightarrow> None
      | Some (v, r) \<Rightarrow>
          (case skip_ws r of
             [] \<Rightarrow> None
           | c # r' \<Rightarrow>
               if c = CHR '','' then map_option (apfst ((#) v)) (json_items (skip_ws r'))
               else if c = CHR '']'' then Some ([v], r')
               else None))"
| "json_fields s =
     (case json_string (skip_ws s) of
        None \<Rightarrow> None
      | Some (key, r) \<Rightarrow>
          (case expect_byte (CHR '':'') (skip_ws r) of
             None \<Rightarrow> None
           | Some r1 \<Rightarrow>
               (case json_value r1 of
                  None \<Rightarrow> None
                | Some (v, r2) \<Rightarrow>
                    (case skip_ws r2 of
                       [] \<Rightarrow> None
                     | c # r3 \<Rightarrow>
                         if c = CHR '','' then map_option (apfst ((#) (key, v))) (json_fields r3)
                         else if c = CHR ''}'' then Some ([(key, v)], r3)
                         else None))))"
  by pat_completeness auto

lemma skip_ws_Cons: "skip_ws s = c # r \<Longrightarrow> length r < length s"
  using length_skip_ws [of s] by simp

lemma json_rest:
  "json_value_json_items_json_fields_dom (Inl s) \<Longrightarrow> json_value s = Some (v, r) \<Longrightarrow> length r < length s"
  "json_value_json_items_json_fields_dom (Inr (Inl s)) \<Longrightarrow> json_items s = Some (vs, r) \<Longrightarrow> length r < length s"
  "json_value_json_items_json_fields_dom (Inr (Inr s)) \<Longrightarrow> json_fields s = Some (fs, r) \<Longrightarrow> length r < length s"
proof (induction s and s and s arbitrary: v r and vs r and fs r rule: json_value_json_items_json_fields.pinduct)
  case (1 s)
  obtain c cs where s: "skip_ws s = c # cs"
    using 1(4) by (auto simp: json_value.psimps [OF 1(1)] split: list.splits)
  have cs: "length cs < length s" "length (skip_ws cs) \<le> length cs"
    using skip_ws_Cons [OF s] length_skip_ws by simp_all
  note fields = 1(2) [OF s] and items = 1(3) [OF s]
  show ?case
  proof (cases "c = CHR ''{'' \<or> c = CHR ''[''")
    case True
    then show ?thesis
      using 1(4) s cs fields items
      by (auto simp: json_value.psimps [OF 1(1)] expect_byte_Some split: option.splits)
  next
    case False
    then have "\<exists>w j. json_string (c # cs) = Some (w, r) \<or> json_number (c # cs) = Some (v, r)
        \<or> (w \<noteq> [] \<and> json_literal w j (c # cs) = Some (v, r))"
      using 1(4) s by (auto simp: json_value.psimps [OF 1(1)] split: if_splits)
    then show ?thesis
      using cs by (auto dest!: json_string_rest json_literal_rest json_number_rest)
  qed
next
  case (2 s)
  obtain v0 r0 where v0: "json_value s = Some (v0, r0)"
    using 2(4) by (auto simp: json_items.psimps [OF 2(1)] split: option.splits)
  obtain c r1 where r1: "skip_ws r0 = c # r1"
    using 2(4) v0 by (auto simp: json_items.psimps [OF 2(1)] split: list.splits)
  have "length r1 < length s" "length (skip_ws r1) \<le> length r1"
    using 2(2) [OF v0] skip_ws_Cons [OF r1] length_skip_ws by simp_all
  then show ?case
    using 2(4) v0 r1 2(3) [OF v0 refl r1]
    by (auto simp: json_items.psimps [OF 2(1)] split: if_splits)
next
  case (3 s)
  obtain key r0 where key: "json_string (skip_ws s) = Some (key, r0)"
    using 3(4) by (auto simp: json_fields.psimps [OF 3(1)] split: option.splits)
  obtain r1 where r1: "expect_byte (CHR '':'') (skip_ws r0) = Some r1"
    using 3(4) key by (auto simp: json_fields.psimps [OF 3(1)] split: option.splits)
  obtain v0 r2 where v0: "json_value r1 = Some (v0, r2)"
    using 3(4) key r1 by (auto simp: json_fields.psimps [OF 3(1)] split: option.splits)
  obtain c r3 where r3: "skip_ws r2 = c # r3"
    using 3(4) key r1 v0 by (auto simp: json_fields.psimps [OF 3(1)] split: list.splits)
  have "length r0 < length s"
    using json_string_rest [OF key] length_skip_ws [of s] by simp
  moreover have "length r1 < length r0" "length r3 < length r2"
    using r1 r3 by (auto simp: expect_byte_Some dest: skip_ws_Cons)
  moreover have "length r2 < length r1"
    by (rule 3(2) [OF key refl r1 v0])
  ultimately show ?case
    using 3(4) key r1 v0 r3 3(3) [OF key refl r1 v0 refl r3]
    by (auto simp: json_fields.psimps [OF 3(1)] split: if_splits)
qed

lemma skip_ws_step: "skip_ws s = c # r \<Longrightarrow> length (skip_ws r) < length s"
  by (rule le_less_trans [OF length_skip_ws skip_ws_Cons])

lemma json_key_rest:
  "json_string (skip_ws s) = Some (key, r) \<Longrightarrow> skip_ws r = c # r1 \<Longrightarrow> length r1 < length s"
  using json_string_rest [of "skip_ws s" key r] skip_ws_Cons [of r c r1] length_skip_ws [of s] by simp

termination json_value
proof (relation "measure (case_sum (\<lambda>s. 2 * length s) (case_sum (\<lambda>s. 2 * length s + 1) (\<lambda>s. 2 * length s)))",
    goal_cases)
  case (3 s c r)
  then show ?case using skip_ws_step [of s c r] by simp
next
  case (5 s p v r c r')
  then have "length r < length s" by (auto dest: json_rest)
  with 5 show ?case using skip_ws_step [of r c r'] by simp
next
  case (7 s p key r r1 p' v r2 c r3)
  then have "length r1 < length s" "length r2 < length r1"
    by (auto simp: expect_byte_Some dest: json_key_rest json_rest)
  with 7 show ?case using skip_ws_Cons [of r2 c r3] by simp
qed (auto simp: expect_byte_Some dest: skip_ws_step json_key_rest)

lemmas json_value_eval = json_value.simps json_items.simps json_fields.simps

declare json_value_eval [simp del]

text \<open>\<open>Json::parse\<close>: one value with white space around it, and nothing after.\<close>

definition json_parse :: "string \<Rightarrow> json option" where
  "json_parse text =
     (case json_value (skip_ws text) of
        None \<Rightarrow> None
      | Some (v, r) \<Rightarrow> if skip_ws r = [] then Some v else None)"

section \<open>Writing\<close>

definition hex_char :: "nat \<Rightarrow> char" where
  "hex_char d = (if d < 10 then char_of (48 + d) else char_of (87 + d))"

fun show_hex :: "nat \<Rightarrow> string" where
  "show_hex n = (if n < 16 then [hex_char n] else show_hex (n div 16) @ [hex_char (n mod 16)])"

declare show_hex.simps [simp del]

definition show_int :: "int \<Rightarrow> string" where
  "show_int n = (if n < 0 then CHR ''-'' # show_nat (nat (- n)) else show_nat (nat n))"

definition json_char :: "char \<Rightarrow> string" where
  "json_char c =
     (if c = quote then [backslash, quote]
      else if c = backslash then [backslash, backslash]
      else if c = nl then [backslash, CHR ''n'']
      else if c = cr then [backslash, CHR ''r'']
      else if c = CHR 0x09 then [backslash, CHR ''t'']
      else if of_char c < (0x20 :: nat) then [backslash, CHR ''u''] @ pad_left 4 (show_hex (of_char c))
      else [c])"

definition write_json_string :: "string \<Rightarrow> string" where
  "write_json_string s = quote # concat (map json_char s) @ [quote]"

fun json_write :: "json \<Rightarrow> string" where
  "json_write JNull = ''null''"
| "json_write (JBool b) = (if b then ''true'' else ''false'')"
| "json_write (JNum n) = show_int n"
| "json_write (JStr s) = write_json_string s"
| "json_write (JArray items) = ''['' @ join_with '','' (map json_write items) @ '']''"
| "json_write (JObject fields) =
     ''{'' @ join_with '','' (map (\<lambda>(key, v). write_json_string key @ '':'' @ json_write v) fields) @ ''}''"

section \<open>What is written reads back\<close>

subsection \<open>Text around an ASCII byte\<close>

lemma is_ascii_less: "is_ascii c \<longleftrightarrow> of_char c < (128 :: nat)"
  by (cases c) (auto simp: is_ascii_def of_char_def)

lemma is_cont_ge: "is_cont c \<Longrightarrow> 128 \<le> (of_char c :: nat)"
  by (cases c) (auto simp: is_cont_def of_char_def)

lemma second_ok_ge: "second_ok c d \<Longrightarrow> 128 \<le> (of_char d :: nat)"
  by (auto simp: second_ok_def between_def dest: is_cont_ge split: if_splits)

lemma ascii_not_second: "is_ascii d \<Longrightarrow> \<not> second_ok c d \<and> \<not> is_cont d"
  using second_ok_ge [of c d] is_cont_ge [of d] by (auto simp: is_ascii_less)

lemma conts_append_ascii: "is_ascii d \<Longrightarrow> conts n (a @ d # b) = conts n a"
  by (induction n a rule: conts.induct) (auto simp: gr0_conv_Suc is_ascii_def is_cont_def neq_Nil_conv
      dest: ascii_not_second elim: conts.elims)

lemma conts_le: "conts n s \<le> length s"
  by (induction n s rule: conts.induct) auto

lemma utf8_width_append_ascii: "is_ascii d \<Longrightarrow> utf8_width c (a @ d # b) = utf8_width c a"
  by (cases a) (auto simp: utf8_width_def Let_def conts_append_ascii ascii_not_second)

lemma utf8_width_le: "utf8_width c s = (True, k) \<Longrightarrow> 0 < k \<and> k \<le> Suc (length s)"
  by (auto simp: utf8_width_def Let_def conts_le split: list.splits if_splits)

lemma valid_utf8_ascii_Cons: "is_ascii c \<Longrightarrow> valid_utf8 (c # s) = valid_utf8 s"
  by (simp add: utf8_width_def utf8_lead_def)

lemma valid_utf8_split: "is_ascii d \<Longrightarrow> valid_utf8 (a @ d # b) = (valid_utf8 a \<and> valid_utf8 b)"
proof (induction a rule: valid_utf8.induct)
  case (2 c cs)
  obtain ok k where w: "utf8_width c cs = (ok, k)"
    by (cases "utf8_width c cs")
  show ?case
  proof (cases ok)
    case True
    then show ?thesis
      using 2 w utf8_width_le [of c cs k] by (auto simp: utf8_width_append_ascii)
  next
    case False
    then show ?thesis
      using 2(2) w by (simp add: utf8_width_append_ascii)
  qed
qed (simp add: valid_utf8_ascii_Cons del: valid_utf8.simps(2))

subsection \<open>Strings\<close>

lemma hex_char_eval [simp]:
  "hex_char 0 = CHR ''0''" "hex_char (Suc 0) = CHR ''1''" "hex_char 1 = CHR ''1''" "hex_char 2 = CHR ''2''"
  "hex_char 3 = CHR ''3''" "hex_char 4 = CHR ''4''" "hex_char 5 = CHR ''5''" "hex_char 6 = CHR ''6''"
  "hex_char 7 = CHR ''7''" "hex_char 8 = CHR ''8''" "hex_char 9 = CHR ''9''" "hex_char 10 = CHR ''a''"
  "hex_char 11 = CHR ''b''" "hex_char 12 = CHR ''c''" "hex_char 13 = CHR ''d''" "hex_char 14 = CHR ''e''"
  "hex_char 15 = CHR ''f''"
  by (simp_all add: hex_char_def char_of_def bit_0)

lemma hex_char_props:
  assumes "d < 16"
  shows "hex_value (hex_char d) = Some d" "is_ascii (hex_char d)" "hex_char d \<noteq> CHR ''+''"
proof -
  have "d \<in> {0, 1, 2, 3, 4, 5, 6, 7, 8, 9, 10, 11, 12, 13, 14, 15}"
    using assms by simp presburger
  then show "hex_value (hex_char d) = Some d" "is_ascii (hex_char d)" "hex_char d \<noteq> CHR ''+''"
    by (auto simp: hex_value_def is_ascii_digit_def less_eq_char_def is_ascii_def)
qed

lemma pad_left_4: "pad_left 4 [a] = [CHR ''0'', CHR ''0'', CHR ''0'', a]" "pad_left 4 [a, b] = [CHR ''0'', CHR ''0'', a, b]"
  by (simp_all add: pad_left_def numeral_2_eq_2 numeral_3_eq_3)

lemma control_hex:
  assumes "n < 256"
  shows "pad_left 4 (show_hex n) = [hex_char 0, hex_char 0, hex_char (n div 16), hex_char (n mod 16)]"
proof (cases "n < 16")
  case False
  moreover have "n div 16 < 16"
    using assms by simp
  ultimately have "show_hex n = [hex_char (n div 16), hex_char (n mod 16)]"
    by (simp add: show_hex.simps [of n] show_hex.simps [of "n div 16"])
  then show ?thesis
    by (simp add: pad_left_4)
qed (simp add: show_hex.simps [of n] pad_left_4)

lemma json_hex4_control:
  assumes "n < 256"
  shows "json_hex4 (pad_left 4 (show_hex n) @ r) = Some (n, r)"
proof -
  define t where "t = pad_left 4 (show_hex n)"
  have t: "t = [hex_char 0, hex_char 0, hex_char (n div 16), hex_char (n mod 16)]"
    using assms by (simp only: t_def control_hex)
  have "list_all is_ascii t"
    using assms by (simp add: t hex_char_props del: hex_char_eval)
  moreover have "parse_hex u32_max t = Some n"
    using assms unfolding t parse_hex_def
    by (simp add: hex_char_props u32_max_def del: hex_char_eval)
  moreover have "length t = 4"
    by (simp add: t)
  ultimately show ?thesis
    by (simp add: json_hex4_def ascii_valid flip: t_def)
qed

definition plain_char :: "char \<Rightarrow> bool" where
  "plain_char c \<longleftrightarrow> c \<noteq> quote \<and> c \<noteq> backslash \<and> 0x20 \<le> (of_char c :: nat)"

lemma json_char_plain: "plain_char c \<Longrightarrow> json_char c = [c]"
  by (auto simp: plain_char_def json_char_def)

lemma json_char_escape:
  "\<not> plain_char c \<Longrightarrow> is_ascii c \<and> (\<exists>e. json_char c = backslash # e \<and> (\<forall>r. json_escape (e @ r) = Some ([c], r)))"
  by (auto simp: plain_char_def json_char_def json_escape_def json_unicode_escape_def json_hex4_control
      char_from_u32_def is_ascii_less)

lemma json_chars_write:
  "valid_utf8 (run @ s) \<Longrightarrow> json_chars out run (concat (map json_char s) @ quote # r) = Some (out @ run @ s, r)"
proof (induction s arbitrary: out run)
  case (Cons c s)
  show ?case
  proof (cases "plain_char c")
    case True
    then show ?thesis
      using Cons.IH [of "run @ [c]"] Cons.prems by (auto simp: json_char_plain) (auto simp: plain_char_def)
  next
    case False
    then obtain e where c: "is_ascii c" "json_char c = backslash # e"
      "\<And>r. json_escape (e @ r) = Some ([c], r)"
      using json_char_escape by blast
    then show ?thesis
      using Cons.IH [of "[]"] Cons.prems by (simp add: valid_utf8_split)
  qed
qed simp

lemma json_string_write: "valid_utf8 s \<Longrightarrow> json_string (write_json_string s @ r) = Some (s, r)"
  by (simp add: json_string_def write_json_string_def expect_byte_def json_chars_write)

subsection \<open>Numbers\<close>

definition ends_value :: "string \<Rightarrow> bool" where
  "ends_value r \<longleftrightarrow> r = [] \<or> hd r \<in> {CHR '','', CHR '']'', CHR ''}''}"

lemma ends_value_skips:
  assumes "ends_value r"
  shows "skip_digits r = r" "skip_fraction r = r" "skip_exponent r = r" "takeWhile is_ascii_digit r = []"
    "skip_ws r = r"
  using assms
  by (cases r; auto simp: ends_value_def skip_digits_def skip_fraction_def skip_exponent_def expect_byte_def
      skip_ws_def json_ws_def is_ascii_digit_def less_eq_char_def)+

lemma minus_not_digit [simp]: "\<not> is_ascii_digit CHR ''-''"
  by (simp add: is_ascii_digit_def less_eq_char_def)

lemma takeWhile_show_nat: "takeWhile is_ascii_digit r = [] \<Longrightarrow> takeWhile is_ascii_digit (show_nat n @ r) = show_nat n"
  using show_nat_digits [of n] by (simp add: takeWhile_append2 list_all_iff)

lemma skip_digits_show_nat: "skip_digits (show_nat n @ r) = skip_digits r"
  using show_nat_digits [of n] by (simp add: skip_digits_def dropWhile_append2 list_all_iff)

lemma show_nat_Cons: "\<exists>c cs. show_nat n = c # cs \<and> is_ascii_digit c"
  using show_nat_digits [of n] by (cases "show_nat n") auto

lemma parse_i64_show_int: "in_i64 n \<Longrightarrow> parse_i64 (show_int n) = Some n"
proof -
  assume n: "in_i64 n"
  obtain c cs where c: "show_nat (nat n) = c # cs" "is_ascii_digit c"
    using show_nat_Cons by blast
  have "parse_digits (c # cs) = Some (nat n)"
    using c parse_digits_show [of "nat n"] by simp
  then show ?thesis
    using n c by (auto simp: parse_i64_def show_int_def checked_i64_def)
qed

lemma json_number_write: "in_i64 n \<Longrightarrow> ends_value r \<Longrightarrow> json_number (show_int n @ r) = Some (JNum n, r)"
proof -
  assume n: "in_i64 n" and r: "ends_value r"
  obtain c cs where c: "show_nat (nat n) = c # cs" "is_ascii_digit c"
    using show_nat_Cons by blast
  have minus: "c \<noteq> CHR ''-''"
    using c by auto
  have "takeWhile is_ascii_digit (c # cs @ r) = c # cs" "skip_digits (c # cs @ r) = r"
    using c takeWhile_show_nat [of r "nat n"] skip_digits_show_nat [of "nat n" r] ends_value_skips [OF r]
    by simp_all
  then show ?thesis
    using parse_i64_show_int [OF n] c minus
    by (auto simp: json_number_def show_int_def ends_value_skips [OF r] takeWhile_show_nat skip_digits_show_nat)
qed

subsection \<open>Values\<close>

text \<open>What the crate writes: numbers that are \<open>i64\<close>s and strings that are text.\<close>

fun json_ok :: "json \<Rightarrow> bool" where
  "json_ok (JNum n) = in_i64 n"
| "json_ok (JStr s) = valid_utf8 s"
| "json_ok (JArray items) = (\<forall>v\<in>set items. json_ok v)"
| "json_ok (JObject fields) = (\<forall>(key, v)\<in>set fields. valid_utf8 key \<and> json_ok v)"
| "json_ok _ = True"

lemma skip_ws_id [simp]: "\<not> json_ws c \<Longrightarrow> skip_ws (c # s) = c # s"
  by (simp add: skip_ws_def)

lemma json_ws_eval [simp]:
  "\<not> json_ws quote" "\<not> json_ws CHR '',''" "\<not> json_ws CHR '':''" "\<not> json_ws CHR '']''" "\<not> json_ws CHR ''}''"
  "\<not> json_ws CHR ''['' " "\<not> json_ws CHR ''{'' "
  by (simp_all add: json_ws_def)

lemma json_write_head:
  "\<exists>c cs. json_write v = c # cs \<and> \<not> json_ws c \<and> c \<noteq> CHR '']'' \<and> c \<noteq> CHR ''}''"
proof (cases v)
  case (JNum n)
  obtain c cs where "show_nat (nat n) = c # cs" "is_ascii_digit c"
    using show_nat_Cons by blast
  with JNum show ?thesis
    by (auto simp: show_int_def json_ws_def is_ascii_digit_def less_eq_char_def)
qed (auto simp: json_ws_def write_json_string_def)

lemma skip_ws_write: "skip_ws (json_write v @ r) = json_write v @ r"
  using json_write_head [of v] by auto

lemma json_items_write:
  "items \<noteq> [] \<Longrightarrow>
   (\<And>v r. v \<in> set items \<Longrightarrow> ends_value r \<Longrightarrow> json_value (json_write v @ r) = Some (v, r)) \<Longrightarrow>
   json_items (join_with '','' (map json_write items) @ CHR '']'' # r) = Some (items, r)"
proof (induction items)
  case (Cons v items)
  have v: "json_value (json_write v @ r') = Some (v, r')" if "ends_value r'" for r'
    using Cons.prems(2) that by simp
  show ?case
  proof (cases items)
    case Nil
    then show ?thesis
      using v [of "CHR '']'' # r"] by (simp add: json_items.simps ends_value_def)
  next
    case (Cons w items')
    define t where "t = join_with '','' (map json_write items) @ CHR '']'' # r"
    have t: "skip_ws t = t"
      using json_write_head [of w] Cons by (cases items') (auto simp: t_def)
    have "json_items t = Some (items, r)"
      unfolding t_def using Cons.IH Cons.prems Cons by simp
    moreover have "join_with '','' (map json_write (v # items)) @ CHR '']'' # r = json_write v @ CHR '','' # t"
      using Cons by (simp add: t_def)
    ultimately show ?thesis
      using v [of "CHR '','' # t"] t by (simp add: json_items.simps [of "json_write v @ _"] ends_value_def)
  qed
qed simp

lemma json_fields_write:
  "fields \<noteq> [] \<Longrightarrow>
   (\<And>key v r. (key, v) \<in> set fields \<Longrightarrow> ends_value r \<Longrightarrow>
      valid_utf8 key \<and> json_value (json_write v @ r) = Some (v, r)) \<Longrightarrow>
   json_fields (join_with '','' (map (\<lambda>(key, v). write_json_string key @ '':'' @ json_write v) fields)
     @ CHR ''}'' # r) = Some (fields, r)"
proof (induction fields)
  case (Cons f fields)
  obtain key v where f: "f = (key, v)"
    by (cases f)
  have v: "valid_utf8 key" "json_value (json_write v @ r') = Some (v, r')" if "ends_value r'" for r'
    using Cons.prems(2) [of key v r'] that f by simp_all
  have valid: "valid_utf8 key"
    by (rule v(1) [of "[]"]) (simp add: ends_value_def)
  have ws: "skip_ws (write_json_string key @ t) = write_json_string key @ t" for t
    by (simp add: write_json_string_def)
  note step = json_fields.simps [of "write_json_string key @ _"] ws json_string_write [OF valid] expect_byte_def
  show ?case
  proof (cases fields)
    case Nil
    then show ?thesis
      using v(2) [of "CHR ''}'' # r"] f by (simp add: step ends_value_def)
  next
    case (Cons g fields')
    define t where "t = join_with '','' (map (\<lambda>(key, v). write_json_string key @ '':'' @ json_write v) fields)
      @ CHR ''}'' # r"
    have "json_fields t = Some (fields, r)"
      unfolding t_def
    proof (rule Cons.IH)
      fix k w r' assume "(k, w) \<in> set fields" "ends_value r'"
      then show "valid_utf8 k \<and> json_value (json_write w @ r') = Some (w, r')"
        by (intro Cons.prems(2)) auto
    qed (simp add: Cons)
    moreover have "join_with '','' (map (\<lambda>(key, v). write_json_string key @ '':'' @ json_write v) (f # fields))
        @ CHR ''}'' # r = write_json_string key @ CHR '':'' # json_write v @ CHR '','' # t"
      using Cons f by (simp add: t_def)
    ultimately show ?thesis
      using v(2) [of "CHR '','' # t"] f by (simp add: step ends_value_def)
  qed
qed simp

lemma json_value_write: "json_ok v \<Longrightarrow> ends_value r \<Longrightarrow> json_value (json_write v @ r) = Some (v, r)"
proof (induction v arbitrary: r rule: json_write.induct)
  case (3 n)
  obtain c cs where c: "show_int n = c # cs" "c = CHR ''-'' \<or> is_ascii_digit c"
    using show_nat_Cons [of "nat n"] show_nat_Cons [of "nat (- n)"]
    by (cases "n < 0") (auto simp: show_int_def)
  then have "\<not> json_ws c" "c \<notin> {quote, CHR ''{'', CHR ''['', CHR ''t'', CHR ''f'', CHR ''n''}"
    by (auto simp: json_ws_def is_ascii_digit_def less_eq_char_def)
  then show ?case
    using c json_number_write [of n r] 3 by (simp add: json_value.simps [of "_ # _"])
next
  case (4 s)
  then show ?case
    using json_string_write [of s r] by (simp add: json_value.simps [of "_ # _"] write_json_string_def)
next
  case (5 items)
  show ?case
  proof (cases items)
    case (Cons w ws)
    obtain c cs where c: "json_write w = c # cs" "\<not> json_ws c" "c \<noteq> CHR '']''"
      using json_write_head by blast
    have "json_items (join_with '','' (map json_write items) @ CHR '']'' # r) = Some (items, r)"
      using 5 Cons by (intro json_items_write) auto
    then show ?thesis
      using Cons c by (cases ws) (simp_all add: json_value.simps [of "_ # _"] expect_byte_def)
  qed (simp add: json_value.simps [of "_ # _"] expect_byte_def)
next
  case (6 fields)
  show ?case
  proof (cases fields)
    case (Cons f fs)
    have "json_fields (join_with '','' (map (\<lambda>(key, v). write_json_string key @ '':'' @ json_write v) fields)
        @ CHR ''}'' # r) = Some (fields, r)"
    proof (rule json_fields_write)
      fix key v r' assume field: "(key, v) \<in> set fields" and r': "ends_value r'"
      then have "valid_utf8 key" "json_ok v"
        using 6(2) by auto
      then show "valid_utf8 key \<and> json_value (json_write v @ r') = Some (v, r')"
        using 6(1) [OF field refl _ r'] by simp
    qed (simp add: Cons)
    then show ?thesis
      using Cons by (cases fs; cases f)
        (simp_all add: json_value.simps [of "_ # _"] expect_byte_def write_json_string_def)
  qed (simp add: json_value.simps [of "_ # _"] expect_byte_def)
qed (auto simp: json_value.simps json_ws_def json_literal_def)

theorem json_parse_write: "json_ok v \<Longrightarrow> json_parse (json_write v) = Some v"
  using json_value_write [of v "[]"] skip_ws_write [of v "[]"]
  by (simp add: json_parse_def ends_value_def skip_ws_def)

end
