(* ===== verification/Tags.thy ===== *)
theory Tags
  imports Rust_Str
begin

text \<open>
  Message tags and their escaping (\<open>obby-proto/src/tags.rs\<close>). A \<open>Tags\<close> is the list of tags in wire
  order, duplicates included. Escaping is written byte by byte: every escaped character is ASCII, and
  a backslash in front of a longer scalar drops only the backslash.
\<close>

record tag =
  tag_key :: string
  tag_value :: "string option"

type_synonym tags = "tag list"

definition tag_new :: "string \<Rightarrow> string \<Rightarrow> tag" where
  "tag_new key value = \<lparr>tag_key = key, tag_value = Some value\<rparr>"

definition tag_flag :: "string \<Rightarrow> tag" where
  "tag_flag key = \<lparr>tag_key = key, tag_value = None\<rparr>"

definition is_client_only :: "tag \<Rightarrow> bool" where
  "is_client_only t \<longleftrightarrow> starts_with ''+'' (tag_key t)"

definition key_of :: "string \<Rightarrow> string" where
  "key_of part = (case split_once (CHR ''='') part of Some (key, _) \<Rightarrow> key | None \<Rightarrow> part)"

definition unescape_char :: "char \<Rightarrow> char" where
  "unescape_char c =
     (if c = CHR '':'' then CHR '';''
      else if c = CHR ''s'' then sp
      else if c = CHR ''r'' then cr
      else if c = CHR ''n'' then nl
      else c)"

fun unescape_loop :: "string \<Rightarrow> string" where
  "unescape_loop [] = []"
| "unescape_loop [c] = (if c = backslash then [] else [c])"
| "unescape_loop (c # d # cs) =
     (if c = backslash then unescape_char d # unescape_loop cs else c # unescape_loop (d # cs))"

definition unescape :: "string \<Rightarrow> string" where
  "unescape value = (if backslash \<in> set value then unescape_loop value else value)"

definition escape_char :: "char \<Rightarrow> string" where
  "escape_char c =
     (if c = CHR '';'' then [backslash, CHR '':'']
      else if c = sp then [backslash, CHR ''s'']
      else if c = backslash then [backslash, backslash]
      else if c = cr then [backslash, CHR ''r'']
      else if c = nl then [backslash, CHR ''n'']
      else [c])"

definition escaped :: "string \<Rightarrow> string" where
  "escaped value = concat (map escape_char value)"

definition tag_parse :: "string \<Rightarrow> tag" where
  "tag_parse part =
     (case split_once (CHR ''='') part of
        None \<Rightarrow> tag_flag (key_of part)
      | Some (key, value) \<Rightarrow>
          if value = [] then tag_flag (key_of part) else tag_new key (unescape value))"

definition tags_parse :: "string \<Rightarrow> tags" where
  "tags_parse raw = map tag_parse (filter (\<lambda>part. part \<noteq> []) (split_on (CHR '';'') raw))"

definition tags_get :: "tags \<Rightarrow> string \<Rightarrow> string option" where
  "tags_get ts key = (case find (\<lambda>t. tag_key t = key) (rev ts) of None \<Rightarrow> None | Some t \<Rightarrow> tag_value t)"

definition tags_contains :: "tags \<Rightarrow> string \<Rightarrow> bool" where
  "tags_contains ts key \<longleftrightarrow> list_ex (\<lambda>t. tag_key t = key) ts"

fun tags_set :: "tag \<Rightarrow> tags \<Rightarrow> tags" where
  "tags_set t [] = [t]"
| "tags_set t (e # es) = (if tag_key e = tag_key t then t # es else e # tags_set t es)"

definition tags_remove :: "string \<Rightarrow> tags \<Rightarrow> tags" where
  "tags_remove key ts = filter (\<lambda>t. tag_key t \<noteq> key) ts"

definition tag_display :: "tag \<Rightarrow> string" where
  "tag_display t = tag_key t @ (case tag_value t of Some v \<Rightarrow> ''='' @ escaped v | None \<Rightarrow> [])"

definition tags_display :: "tags \<Rightarrow> string" where
  "tags_display ts = join_with '';'' (map tag_display ts)"

section \<open>Escaping\<close>

lemma escape_char_not_Nil [simp]: "escape_char c \<noteq> []"
  by (simp add: escape_char_def)

lemma unescape_loop_escape_char: "unescape_loop (escape_char c @ s) = c # unescape_loop s"
  by (cases s) (auto simp: escape_char_def unescape_char_def)

lemma escaped_Cons: "escaped (c # s) = escape_char c @ escaped s"
  by (simp add: escaped_def)

lemma unescape_loop_escaped: "unescape_loop (escaped s) = s"
  by (induction s) (simp_all add: escaped_Cons unescape_loop_escape_char, simp add: escaped_def)

lemma escaped_plain: "backslash \<notin> set (escaped s) \<Longrightarrow> escaped s = s"
  by (induction s) (auto simp: escaped_Cons escape_char_def split: if_splits, simp add: escaped_def)

lemma unescape_escaped [simp]: "unescape (escaped s) = s"
  using escaped_plain [of s] by (simp add: unescape_def unescape_loop_escaped)

lemma escaped_chars: "c \<in> set (escaped s) \<Longrightarrow> c \<notin> {CHR '';'', sp, cr, nl}"
  by (auto simp: escaped_def escape_char_def split: if_splits)

lemma escaped_eq_Nil [simp]: "escaped s = [] \<longleftrightarrow> s = []"
  by (cases s) (auto simp: escaped_def)

text \<open>What is not a backslash survives unescaping, and a result longer than the input is impossible.\<close>

lemma unescape_loop_length: "length (unescape_loop s) \<le> length s"
  by (induction s rule: unescape_loop.induct) auto

interpretation tag_value_codec: wire_codec escaped "\<lambda>s. Some (unescape s)" "\<lambda>_. True"
  by unfold_locales simp

section \<open>The tag section\<close>

definition tag_wf :: "tag \<Rightarrow> bool" where
  "tag_wf t \<longleftrightarrow>
     CHR '';'' \<notin> set (tag_key t) \<and> CHR ''='' \<notin> set (tag_key t)
     \<and> (tag_key t \<noteq> [] \<or> tag_value t \<noteq> None) \<and> tag_value t \<noteq> Some []"

lemma tag_parse_display: "tag_wf t \<Longrightarrow> tag_parse (tag_display t) = t"
proof (cases "tag_value t")
  case None
  assume "tag_wf t"
  then have "split_once (CHR ''='') (tag_key t) = None"
    by (simp add: tag_wf_def split_once_None)
  with None show ?thesis
    by (simp add: tag_parse_def tag_display_def key_of_def tag_flag_def)
next
  case (Some v)
  assume "tag_wf t"
  with Some show ?thesis
    by (auto simp: tag_wf_def tag_parse_def tag_display_def tag_new_def)
qed

lemma tag_display_free: "tag_wf t \<Longrightarrow> CHR '';'' \<notin> set (tag_display t)"
  by (auto simp: tag_wf_def tag_display_def split: option.splits dest: escaped_chars)

lemma tag_display_not_Nil: "tag_wf t \<Longrightarrow> tag_display t \<noteq> []"
  by (auto simp: tag_wf_def tag_display_def split: option.splits)

lemma tags_parse_display: "list_all tag_wf ts \<Longrightarrow> tags_parse (tags_display ts) = ts"
proof (cases "ts = []")
  case False
  assume wf: "list_all tag_wf ts"
  have "split_on (CHR '';'') (tags_display ts) = map tag_display ts"
    unfolding tags_display_def
    by (rule split_on_join) (use wf False in \<open>auto simp: list_all_iff tag_display_free\<close>)
  moreover have "filter (\<lambda>part. part \<noteq> []) (map tag_display ts) = map tag_display ts"
    using wf by (auto simp: list_all_iff tag_display_not_Nil intro!: filter_True)
  moreover have "map tag_parse (map tag_display ts) = ts"
    using wf by (auto simp: list_all_iff tag_parse_display intro!: map_idI)
  ultimately show ?thesis
    by (simp add: tags_parse_def)
qed (simp add: tags_parse_def tags_display_def)

lemma tags_display_eq_Nil: "list_all tag_wf ts \<Longrightarrow> tags_display ts = [] \<longleftrightarrow> ts = []"
  by (cases ts; cases "tl ts") (auto simp: tags_display_def tag_display_not_Nil)

interpretation tags_codec: wire_codec tags_display "\<lambda>s. Some (tags_parse s)" "list_all tag_wf"
  by unfold_locales (simp add: tags_parse_display)

text \<open>What every parsed tag section satisfies: keys free of the two separators, no empty part.\<close>

lemma split_once_Some_set: "split_once c s = Some (a, b) \<Longrightarrow> set a \<subseteq> set s \<and> set b \<subseteq> set s"
  by (auto simp: split_once_Some)

lemma tag_parse_key:
  "CHR '';'' \<notin> set part \<Longrightarrow> CHR '';'' \<notin> set (tag_key (tag_parse part)) \<and> CHR ''='' \<notin> set (tag_key (tag_parse part))"
  by (auto simp: tag_parse_def key_of_def tag_flag_def tag_new_def split_once_Some split_once_None split: option.splits)

lemma tag_parse_key_or_value: "part \<noteq> [] \<Longrightarrow> part \<noteq> ''='' \<Longrightarrow>
    tag_key (tag_parse part) \<noteq> [] \<or> tag_value (tag_parse part) \<noteq> None"
  by (auto simp: tag_parse_def key_of_def tag_flag_def tag_new_def split_once_Some split: option.splits)

section \<open>Lookup after an update\<close>

lemma tags_get_snoc: "tags_get (ts @ [t]) k = (if tag_key t = k then tag_value t else tags_get ts k)"
  by (simp add: tags_get_def)

lemma tags_contains_iff: "tags_contains ts k \<longleftrightarrow> k \<in> tag_key ` set ts"
  by (auto simp: tags_contains_def list_ex_iff)

lemma tags_find: "tags_contains ts k \<longleftrightarrow> find (\<lambda>t. tag_key t = k) (rev ts) \<noteq> None"
  by (auto simp: tags_contains_def list_ex_iff find_None_iff)

lemma tags_get_absent: "\<not> tags_contains ts k \<Longrightarrow> tags_get ts k = None"
  by (simp add: tags_get_def tags_find)

lemma tags_get_Cons:
  "tags_get (t # ts) k = (if tags_contains ts k then tags_get ts k else if tag_key t = k then tag_value t else None)"
  by (auto simp: tags_get_def tags_find find_snoc)

lemma tags_contains_set: "tags_contains (tags_set t ts) k \<longleftrightarrow> k = tag_key t \<or> tags_contains ts k"
  by (induction ts) (auto simp: tags_contains_def)

lemma tags_get_remove: "tags_get (tags_remove k ts) k' = (if k' = k then None else tags_get ts k')"
  by (induction ts rule: rev_induct) (auto simp: tags_remove_def tags_get_snoc, simp_all add: tags_get_def)

lemma tags_get_set:
  "distinct (map tag_key ts) \<Longrightarrow>
     tags_get (tags_set t ts) k = (if k = tag_key t then tag_value t else tags_get ts k)"
proof (induction ts)
  case Nil
  then show ?case by (simp add: tags_get_def)
next
  case (Cons e es)
  have "tag_key e = tag_key t \<Longrightarrow> \<not> tags_contains es (tag_key t)"
    using Cons.prems by (simp add: tags_contains_iff)
  with Cons show ?case
    by (auto simp: tags_get_Cons tags_contains_set)
qed

lemma tags_set_distinct: "distinct (map tag_key ts) \<Longrightarrow> distinct (map tag_key (tags_set t ts))"
proof (induction ts)
  case (Cons e es)
  have "tag_key ` set (tags_set t es) = insert (tag_key t) (tag_key ` set es)"
    by (induction es) auto
  with Cons show ?case by auto
qed simp

section \<open>Properties\<close>

text \<open>
  A tag section written by \<open>Display\<close> parses back to the same tags, in order and with duplicates,
  whatever bytes the values hold: the escaping hides every separator. The conditions are the ones the
  wire imposes on a key, and that a value, when there is one, is not empty.
\<close>

theorem tags_round_trip: "list_all tag_wf ts \<Longrightarrow> tags_parse (tags_display ts) = ts"
  by (rule tags_parse_display)

theorem tags_round_trip_witness:
  "tags_parse (tags_display [tag_new ''+x'' ''a; b'', tag_flag ''k'', tag_new ''+x'' [backslash, nl]])
     = [tag_new ''+x'' ''a; b'', tag_flag ''k'', tag_new ''+x'' [backslash, nl]]"
  by (rule tags_round_trip) (simp add: tag_wf_def tag_new_def tag_flag_def)

text \<open>
  The value of a tag written on the wire holds none of the bytes that delimit a tag section
  (semicolon, space, CR, LF), and reading it back gives the value; so two different values never share
  a wire form.
\<close>

theorem tag_value_escaping:
  "unescape (escaped v) = v
   \<and> set (escaped v) \<inter> {CHR '';'', sp, cr, nl} = {}
   \<and> (escaped v = escaped w \<longleftrightarrow> v = w)"
  using escaped_chars [of _ v] tag_value_codec.encode_inj [of v w] by (auto simp: disjoint_iff)

text \<open>
  \<open>set\<close> replaces the first tag with the key while \<open>get\<close> reads the last one, so on tags that carry
  a key twice the value just set is not the one read back; on tags without duplicates it is.
\<close>

theorem tags_set_then_get:
  "(\<exists>ts t. tags_get (tags_set t ts) (tag_key t) \<noteq> tag_value t)
   \<and> (distinct (map tag_key ts) \<longrightarrow>
        tags_get (tags_set t ts) k = (if k = tag_key t then tag_value t else tags_get ts k)
        \<and> distinct (map tag_key (tags_set t ts)))"
proof -
  have "tags_get (tags_set (tag_new ''a'' ''3'') [tag_new ''a'' ''1'', tag_new ''a'' ''2''])
      (tag_key (tag_new ''a'' ''3'')) \<noteq> tag_value (tag_new ''a'' ''3'')"
    by (simp add: tag_new_def tags_get_def)
  then show ?thesis
    using tags_get_set [of ts t k] tags_set_distinct [of ts t] by blast
qed

theorem tags_set_then_get_witness:
  "tags_get (tags_set (tag_new ''a'' ''3'') [tag_flag ''b'', tag_new ''a'' ''1'']) ''a'' = Some ''3''"
  using tags_set_then_get [of "[tag_flag ''b'', tag_new ''a'' ''1'']" "tag_new ''a'' ''3''" "''a''"]
  by (simp add: tag_new_def tag_flag_def)

end
