(* ===== verification/Message.thy ===== *)
theory Message
  imports Tags
begin

text \<open>
  One IRC protocol line (\<open>obby-proto/src/message.rs\<close>): the source of a message, the message itself,
  the parser and the printer. The only parse error of the source is a line without a command.
\<close>

datatype parse_error = MissingCommand

record source =
  src_name :: string
  src_user :: "string option"
  src_host :: "string option"

definition source_parse :: "string \<Rightarrow> source" where
  "source_parse raw =
     (let (name, rest) = (case split_once (CHR ''!'') raw of Some (n, r) \<Rightarrow> (n, Some r) | None \<Rightarrow> (raw, None)) in
      case rest of
        Some rest \<Rightarrow>
          (let (user, host) = (case split_once (CHR ''@'') rest of Some (u, h) \<Rightarrow> (u, Some h) | None \<Rightarrow> (rest, None))
           in \<lparr>src_name = name, src_user = Some user, src_host = host\<rparr>)
      | None \<Rightarrow>
          (let (name, host) = (case split_once (CHR ''@'') name of Some (n, h) \<Rightarrow> (n, Some h) | None \<Rightarrow> (name, None))
           in \<lparr>src_name = name, src_user = None, src_host = host\<rparr>))"

definition looks_like_server :: "source \<Rightarrow> bool" where
  "looks_like_server s \<longleftrightarrow> src_user s = None \<and> CHR ''.'' \<in> set (src_name s)"

definition source_display :: "source \<Rightarrow> string" where
  "source_display s =
     src_name s
     @ (case src_user s of Some user \<Rightarrow> ''!'' @ user | None \<Rightarrow> [])
     @ (case src_host s of Some host \<Rightarrow> ''@'' @ host | None \<Rightarrow> [])"

record message =
  msg_tags :: tags
  msg_source :: "source option"
  msg_command :: string
  msg_params :: "string list"

definition message_new :: "string \<Rightarrow> string list \<Rightarrow> message" where
  "message_new command params =
     \<lparr>msg_tags = [], msg_source = None, msg_command = command, msg_params = params\<rparr>"

abbreviation is_space :: "char \<Rightarrow> bool" where "is_space \<equiv> \<lambda>c. c = sp"
abbreviation is_crlf :: "char \<Rightarrow> bool" where "is_crlf \<equiv> \<lambda>c. c = cr \<or> c = nl"

text \<open>The parameter loop of the parser, from the text after the command.\<close>

function params_loop :: "string \<Rightarrow> string list" where
  "params_loop rest =
     (let rest = trim_start is_space rest in
      if rest = [] then []
      else case strip_prefix '':'' rest of
          Some trailing \<Rightarrow> [trailing]
        | None \<Rightarrow>
            (case split_once sp rest of
               Some (param, remainder) \<Rightarrow> param # params_loop remainder
             | None \<Rightarrow> [rest]))"
  by pat_completeness auto
termination
proof (relation "measure length")
  fix rest x and y :: "string \<times> string" and a b :: string
  assume "x = trim_start is_space rest" "split_once sp x = Some y" "(a, b) = y"
  then have "length b < length x" and "length x \<le> length rest"
    by (auto simp: split_once_Some length_trim_start)
  then show "(b, rest) \<in> measure length"
    by simp
qed simp

declare params_loop.simps [simp del]

text \<open>The parser's optional section with a leading marker: its raw text and what is left.\<close>

definition leading_section :: "char \<Rightarrow> string \<Rightarrow> parse_error + (string option \<times> string)" where
  "leading_section mark rest =
     (case strip_prefix [mark] rest of
        None \<Rightarrow> Inr (None, rest)
      | Some after \<Rightarrow>
          (case split_once sp after of
             None \<Rightarrow> Inl MissingCommand
           | Some (raw, remainder) \<Rightarrow> Inr (Some raw, trim_start is_space remainder)))"

definition message_parse :: "string \<Rightarrow> parse_error + message" where
  "message_parse line =
     (case leading_section (CHR ''@'') (trim_end is_crlf line) of
        Inl e \<Rightarrow> Inl e
      | Inr (raw_tags, rest) \<Rightarrow>
          (case leading_section (CHR '':'') rest of
             Inl e \<Rightarrow> Inl e
           | Inr (raw_source, rest) \<Rightarrow>
               (let (command, rest) = (case split_once sp rest of Some p \<Rightarrow> p | None \<Rightarrow> (rest, [])) in
                if command = [] then Inl MissingCommand
                else Inr \<lparr>msg_tags = (case raw_tags of Some raw \<Rightarrow> tags_parse raw | None \<Rightarrow> []),
                          msg_source = map_option source_parse raw_source,
                          msg_command = command,
                          msg_params = params_loop rest\<rparr>)))"

definition msg_is :: "message \<Rightarrow> string \<Rightarrow> bool" where
  "msg_is m command \<longleftrightarrow> eq_ignore_ascii_case (msg_command m) command"

definition msg_param :: "message \<Rightarrow> nat \<Rightarrow> string option" where
  "msg_param m i = nth_opt (msg_params m) i"

definition msg_trailing :: "message \<Rightarrow> string option" where
  "msg_trailing m = last_opt (msg_params m)"

definition msg_tag :: "message \<Rightarrow> string \<Rightarrow> string option" where
  "msg_tag m key = tags_get (msg_tags m) key"

definition needs_colon :: "string \<Rightarrow> bool" where
  "needs_colon param \<longleftrightarrow> param = [] \<or> sp \<in> set param \<or> starts_with '':'' param"

fun params_display :: "string list \<Rightarrow> string" where
  "params_display [] = []"
| "params_display [param] = (if needs_colon param then '' :'' @ param else '' '' @ param)"
| "params_display (param # p # ps) = '' '' @ param @ params_display (p # ps)"

definition message_display :: "message \<Rightarrow> string" where
  "message_display m =
     (if msg_tags m \<noteq> [] then ''@'' @ tags_display (msg_tags m) @ '' '' else [])
     @ (case msg_source m of Some s \<Rightarrow> '':'' @ source_display s @ '' '' | None \<Rightarrow> [])
     @ msg_command m
     @ params_display (msg_params m)"

section \<open>Sources\<close>

lemma source_display_parse [simp]: "source_display (source_parse raw) = raw"
  by (auto simp: source_parse_def source_display_def Let_def split_once_Some split: option.splits)

definition source_wf :: "source \<Rightarrow> bool" where
  "source_wf s \<longleftrightarrow>
     CHR ''!'' \<notin> set (src_name s)
     \<and> (case src_user s of
          Some u \<Rightarrow> CHR ''@'' \<notin> set u
        | None \<Rightarrow> CHR ''@'' \<notin> set (src_name s)
            \<and> (case src_host s of Some h \<Rightarrow> CHR ''!'' \<notin> set h | None \<Rightarrow> True))
     \<and> sp \<notin> set (source_display s)"

lemma source_parse_display: "source_wf s \<Longrightarrow> source_parse (source_display s) = s"
proof -
  assume wf: "source_wf s"
  show ?thesis
  proof (cases "src_user s")
    case None
    then have no_bang: "CHR ''!'' \<notin> set (source_display s)"
      using wf by (auto simp: source_wf_def source_display_def split: option.splits)
    show ?thesis
      using wf None no_bang
      by (cases "src_host s") (auto simp: source_wf_def source_parse_def source_display_def Let_def)
  next
    case (Some u)
    then have "split_once (CHR ''!'') (source_display s) =
        Some (src_name s, u @ (case src_host s of Some h \<Rightarrow> ''@'' @ h | None \<Rightarrow> []))"
      using wf by (auto simp: source_wf_def source_display_def)
    then show ?thesis
      using wf Some by (cases "src_host s") (auto simp: source_wf_def source_parse_def Let_def)
  qed
qed

section \<open>Parameters\<close>

text \<open>A parameter that may stand in the middle of a line.\<close>

definition middle_ok :: "string \<Rightarrow> bool" where
  "middle_ok p \<longleftrightarrow> p \<noteq> [] \<and> sp \<notin> set p \<and> hd p \<noteq> CHR '':''"

definition params_wf :: "string list \<Rightarrow> bool" where
  "params_wf ps \<longleftrightarrow> list_all middle_ok (butlast ps)"

lemma strip_colon_None: "p \<noteq> [] \<Longrightarrow> hd p \<noteq> CHR '':'' \<Longrightarrow> strip_prefix '':'' (p @ s) = None"
  by (cases p) auto

lemma trim_start_lead: "p \<noteq> [] \<Longrightarrow> sp \<notin> set p \<Longrightarrow> trim_start is_space (p @ s) = p @ s"
  by (cases p) (auto simp: trim_start_def)

lemma params_wf_Nil [simp]: "params_wf []"
  by (simp add: params_wf_def)

lemma params_loop_Nil [simp]: "params_loop [] = []"
  by (simp add: params_loop.simps)

lemma params_loop_space: "params_loop (sp # s) = params_loop s"
  by (simp add: params_loop.simps [of "sp # s"] params_loop.simps [of s] trim_start_def)

lemma params_loop_colon: "params_loop (CHR '':'' # s) = [s]"
  by (simp add: params_loop.simps trim_start_def)

lemma params_loop_middle: "middle_ok p \<Longrightarrow> params_loop (p @ sp # s) = p # params_loop s"
  by (subst params_loop.simps)
    (auto simp: middle_ok_def trim_start_lead strip_colon_None Let_def)

lemma params_loop_last: "middle_ok p \<Longrightarrow> params_loop p = [p]"
  using strip_colon_None [of p "[]"] trim_start_lead [of p "[]"]
  by (subst params_loop.simps) (auto simp: middle_ok_def)

lemma not_needs_colon: "\<not> needs_colon p \<longleftrightarrow> middle_ok p"
  by (cases p) (auto simp: needs_colon_def middle_ok_def)

lemma params_display_starts: "ps \<noteq> [] \<Longrightarrow> \<exists>s. params_display ps = sp # s"
  by (cases ps rule: params_display.cases) auto

lemma params_loop_display: "params_wf ps \<Longrightarrow> params_loop (params_display ps) = ps"
proof (induction ps rule: params_display.induct)
  case (2 p)
  then show ?case
    using not_needs_colon [of p] by (auto simp: params_loop_space params_loop_colon params_loop_last)
next
  case (3 p q ps)
  obtain s where s: "params_display (q # ps) = sp # s"
    using params_display_starts by blast
  have "middle_ok p" "params_wf (q # ps)"
    using "3.prems" by (auto simp: params_wf_def)
  then show ?case
    using "3.IH" by (simp add: params_loop_space s params_loop_middle)
qed simp

lemma params_loop_wf: "params_wf (params_loop s)"
proof (induction s rule: params_loop.induct)
  case (1 s)
  define r where "r = trim_start is_space s"
  have lead: "r \<noteq> [] \<Longrightarrow> hd r \<noteq> sp"
    using hd_dropWhile [of is_space s] by (simp add: r_def trim_start_def)
  show ?case
  proof (cases "r = [] \<or> strip_prefix '':'' r \<noteq> None \<or> split_once sp r = None")
    case True
    then show ?thesis
      by (auto simp: params_loop.simps [of s] params_wf_def Let_def r_def [symmetric] split: option.splits)
  next
    case False
    then obtain p t where pt: "split_once sp r = Some (p, t)"
      by auto
    then have "middle_ok p"
      using False lead by (cases p) (auto simp: middle_ok_def split_once_Some)
    moreover have "params_wf (params_loop t)"
      using "1.IH" [OF r_def] False pt by auto
    ultimately show ?thesis
      using False pt
      by (cases "params_loop t") (auto simp: params_loop.simps [of s] params_wf_def Let_def r_def [symmetric])
  qed
qed

section \<open>Messages\<close>

definition command_wf :: "message \<Rightarrow> bool" where
  "command_wf m \<longleftrightarrow>
     msg_command m \<noteq> [] \<and> sp \<notin> set (msg_command m)
     \<and> (msg_source m = None \<longrightarrow> hd (msg_command m) \<noteq> CHR '':'')
     \<and> (msg_source m = None \<and> msg_tags m = [] \<longrightarrow> hd (msg_command m) \<noteq> CHR ''@'')"

definition message_wf :: "message \<Rightarrow> bool" where
  "message_wf m \<longleftrightarrow>
     list_all (\<lambda>t. tag_wf t \<and> sp \<notin> set (tag_key t)) (msg_tags m)
     \<and> (case msg_source m of Some s \<Rightarrow> source_wf s | None \<Rightarrow> True)
     \<and> command_wf m \<and> params_wf (msg_params m)
     \<and> list_all (\<lambda>p. cr \<notin> set p \<and> nl \<notin> set p) (msg_command m # msg_params m)"

lemma leading_section_absent: "s = [] \<or> hd s \<noteq> mark \<Longrightarrow> leading_section mark s = Inr (None, s)"
  by (cases s) (auto simp: leading_section_def)

lemma leading_section_present:
  "sp \<notin> set raw \<Longrightarrow> s = [] \<or> hd s \<noteq> sp \<Longrightarrow>
     leading_section mark (mark # raw @ sp # s) = Inr (Some raw, s)"
  by (simp add: leading_section_def trim_start_id)

lemma set_params_display: "c \<in> set (params_display ps) \<Longrightarrow> c \<in> {sp, CHR '':''} \<or> (\<exists>p\<in>set ps. c \<in> set p)"
  by (induction ps rule: params_display.induct) (auto split: if_splits)

lemma tags_display_no_space:
  "list_all (\<lambda>t. tag_wf t \<and> sp \<notin> set (tag_key t)) ts \<Longrightarrow> sp \<notin> set (tags_display ts)"
  using escaped_chars [of sp]
  by (auto simp: tags_display_def tag_display_def list_all_iff dest!: set_join_with split: option.splits)

text \<open>The end of a displayed line: the command and its parameters carry no line end.\<close>

lemma command_end:
  assumes "message_wf m"
  shows "\<not> is_crlf (last (msg_command m @ params_display (msg_params m)))"
proof -
  let ?s = "msg_command m @ params_display (msg_params m)"
  have "last ?s \<in> set ?s"
    using assms by (intro last_in_set) (auto simp: message_wf_def command_wf_def)
  then show ?thesis
    using assms set_params_display [of "last ?s" "msg_params m"]
    by (auto simp: message_wf_def list_all_iff simp del: last_append)
qed

lemma message_display_end:
  assumes "message_wf m"
  shows "message_display m \<noteq> [] \<and> \<not> is_crlf (last (message_display m))"
  using assms command_end [OF assms]
  by (auto simp: message_display_def message_wf_def command_wf_def last_append split: if_splits option.splits)

text \<open>The three suffixes of a displayed line the parser works on in turn.\<close>

definition body_of :: "message \<Rightarrow> string" where
  "body_of m = msg_command m @ params_display (msg_params m)"

definition sourced_of :: "message \<Rightarrow> string" where
  "sourced_of m = (case msg_source m of Some s \<Rightarrow> '':'' @ source_display s @ '' '' | None \<Rightarrow> []) @ body_of m"

lemma split_command:
  assumes "message_wf m"
  shows "(case split_once sp (body_of m) of Some p \<Rightarrow> p | None \<Rightarrow> (body_of m, [])) =
    (msg_command m, case params_display (msg_params m) of [] \<Rightarrow> [] | _ # s \<Rightarrow> s)"
proof (cases "msg_params m")
  case Nil
  then show ?thesis
    using assms by (auto simp: message_wf_def command_wf_def body_of_def)
next
  case (Cons p ps)
  obtain s where "params_display (msg_params m) = sp # s"
    using params_display_starts [of "msg_params m"] Cons by auto
  then show ?thesis
    using assms by (auto simp: message_wf_def command_wf_def body_of_def)
qed

lemma body_of_hd:
  assumes "message_wf m"
  shows "msg_command m \<noteq> []" "hd (body_of m) = hd (msg_command m)" "body_of m \<noteq> []" "hd (body_of m) \<noteq> sp"
  using assms by (cases "msg_command m"; auto simp: message_wf_def command_wf_def body_of_def)+

lemma source_section:
  assumes "message_wf m"
  shows "leading_section (CHR '':'') (sourced_of m) = Inr (map_option source_display (msg_source m), body_of m)"
  using assms body_of_hd [OF assms] leading_section_present [of "source_display _" "body_of m" "CHR '':''"]
  by (cases "msg_source m")
    (auto simp: sourced_of_def message_wf_def command_wf_def source_wf_def leading_section_absent)

lemma tag_section:
  assumes wf: "message_wf m"
  shows "leading_section (CHR ''@'') (message_display m) =
    Inr (if msg_tags m = [] then None else Some (tags_display (msg_tags m)), sourced_of m)"
proof (cases "msg_tags m = []")
  case True
  then have "sourced_of m = [] \<or> hd (sourced_of m) \<noteq> CHR ''@''"
    using wf body_of_hd [OF wf]
    by (cases "msg_source m") (auto simp: sourced_of_def message_wf_def command_wf_def)
  moreover have "message_display m = sourced_of m"
    using True by (simp add: message_display_def sourced_of_def body_of_def)
  ultimately show ?thesis
    using True by (simp add: leading_section_absent)
next
  case False
  have "hd (sourced_of m) \<noteq> sp"
    using body_of_hd [OF wf] by (cases "msg_source m") (auto simp: sourced_of_def)
  moreover have "sp \<notin> set (tags_display (msg_tags m))"
    using wf by (intro tags_display_no_space) (simp add: message_wf_def)
  ultimately have "leading_section (CHR ''@'') (CHR ''@'' # tags_display (msg_tags m) @ sp # sourced_of m)
      = Inr (Some (tags_display (msg_tags m)), sourced_of m)"
    by (intro leading_section_present) auto
  then show ?thesis
    using False by (simp add: message_display_def sourced_of_def body_of_def)
qed

lemma params_loop_tail: "params_wf ps \<Longrightarrow> params_loop (case params_display ps of [] \<Rightarrow> [] | _ # s \<Rightarrow> s) = ps"
  using params_loop_display [of ps] params_display_starts [of ps]
  by (cases "ps = []") (auto simp: params_loop_space)

lemma message_parse_display:
  assumes wf: "message_wf m" and ends: "list_all is_crlf ends"
  shows "message_parse (message_display m @ ends) = Inr m"
proof -
  have trim: "trim_end is_crlf (message_display m @ ends) = message_display m"
    using ends message_display_end [OF wf] by (simp add: trim_end_append trim_end_id)
  have tags: "tags_parse (tags_display (msg_tags m)) = msg_tags m"
    using wf by (intro tags_parse_display) (auto simp: message_wf_def list_all_iff)
  have source: "map_option source_parse (map_option source_display (msg_source m)) = msg_source m"
    using wf by (cases "msg_source m") (auto simp: message_wf_def source_parse_display)
  have params: "params_loop (case params_display (msg_params m) of [] \<Rightarrow> [] | _ # s \<Rightarrow> s) = msg_params m"
    using wf by (intro params_loop_tail) (simp add: message_wf_def)
  show ?thesis
    using body_of_hd(1) [OF wf] tags source params
    by (simp add: message_parse_def trim tag_section [OF wf] source_section [OF wf] split_command [OF wf])
qed

text \<open>What every parsed line satisfies.\<close>

lemma message_parse_sound:
  assumes "message_parse line = Inr m"
  shows "msg_command m \<noteq> [] \<and> sp \<notin> set (msg_command m) \<and> params_wf (msg_params m)"
  using assms
  by (auto simp: message_parse_def Let_def params_loop_wf split_once_Some split_once_None
      split: sum.splits prod.splits option.splits if_splits)

interpretation message_codec:
  wire_codec message_display "\<lambda>s. case message_parse s of Inr m \<Rightarrow> Some m | Inl _ \<Rightarrow> None" message_wf
proof unfold_locales
  fix m
  assume "message_wf m"
  then show "(case message_parse (message_display m) of Inr m \<Rightarrow> Some m | Inl _ \<Rightarrow> None) = Some m"
    using message_parse_display [of m "[]"] by simp
qed

section \<open>Properties\<close>

text \<open>
  C39: a message that can travel on one line, written by \<open>Display\<close> and ended by any run of CR and LF,
  parses back to the same message: tags with their values, the three parts of the source, the command
  and every parameter, the last one with spaces, colons or nothing in it.
\<close>

theorem message_round_trip:
  "message_wf m \<Longrightarrow> list_all is_crlf ends \<Longrightarrow> message_parse (message_display m @ ends) = Inr m"
  by (rule message_parse_display)

definition sample_message :: message where
  "sample_message =
     \<lparr>msg_tags = [tag_new ''time'' ''a b;c''],
      msg_source = Some \<lparr>src_name = ''nick'', src_user = Some ''user'', src_host = Some ''host''\<rparr>,
      msg_command = ''PRIVMSG'', msg_params = [''#rust'', '':hi there'']\<rparr>"

theorem message_round_trip_witness:
  "message_parse (message_display sample_message @ [cr, nl]) = Inr sample_message"
  by (rule message_round_trip)
    (simp_all add: sample_message_def message_wf_def tag_wf_def tag_new_def source_wf_def
      source_display_def command_wf_def params_wf_def middle_ok_def)

text \<open>
  Every line either parses to a message whose command is a non-empty word and whose parameters,
  except the last, are non-empty words that do not start with a colon, or is reported as carrying no
  command; and a source, printed again, is the text it was read from.
\<close>

theorem message_parse_total:
  "(message_parse line = Inl MissingCommand
    \<or> (\<exists>m. message_parse line = Inr m \<and> msg_command m \<noteq> [] \<and> sp \<notin> set (msg_command m)
          \<and> list_all middle_ok (butlast (msg_params m))))
   \<and> source_display (source_parse raw) = raw"
proof (cases "message_parse line")
  case (Inl e)
  then show ?thesis by (cases e) simp
next
  case (Inr m)
  with message_parse_sound [OF Inr] show ?thesis by (simp add: params_wf_def)
qed

end
