(* ===== verification/Sasl.thy ===== *)
theory Sasl
  imports Rust_Str
begin

text \<open>
  SASL authentication (\<open>obby-client/src/sasl.rs\<close>): credentials, the payloads of the \<open>AUTHENTICATE\<close>
  lines, and how far an exchange has got. What the client takes from other crates is collected in
  \<open>externals\<close>, a parameter of every definition that needs it: the base64 engine, HMAC and SHA-256, and
  the Unicode table that says which scalars beyond ASCII are alphanumeric.
\<close>

record externals =
  ext_base64_encode :: "string \<Rightarrow> string"
  ext_base64_decode :: "string \<Rightarrow> string option"
  ext_hmac_sha256 :: "string \<Rightarrow> string \<Rightarrow> string option"
  ext_sha256 :: "string \<Rightarrow> string"
  ext_alphanumeric :: "string \<Rightarrow> bool"

text \<open>What the base64 crate documents of its standard engine.\<close>

definition base64_laws :: "externals \<Rightarrow> bool" where
  "base64_laws e \<longleftrightarrow>
     (\<forall>x. ext_base64_decode e (ext_base64_encode e x) = Some x
        \<and> length (ext_base64_encode e x) = 4 * ((length x + 2) div 3)
        \<and> list_all (\<lambda>c. is_ascii c \<and> c \<noteq> CHR '','') (ext_base64_encode e x))"

definition CHUNK :: nat where "CHUNK = 400"

datatype credentials =
    Plain (cred_username: string) (cred_password: string)
  | External
  | Scram (cred_username: string) (cred_password: string) (cred_nonce: string)

definition mechanism :: "credentials \<Rightarrow> string" where
  "mechanism c = (case c of Plain _ _ \<Rightarrow> ''PLAIN'' | External \<Rightarrow> ''EXTERNAL'' | Scram _ _ _ \<Rightarrow> ''SCRAM-SHA-256'')"

definition cred_response :: "credentials \<Rightarrow> string" where
  "cred_response c =
     (case c of
        Plain username password \<Rightarrow> [CHR 0x00] @ username @ [CHR 0x00] @ password
      | External \<Rightarrow> []
      | Scram _ _ _ \<Rightarrow> [])"

definition is_challenge_response :: "credentials \<Rightarrow> bool" where
  "is_challenge_response c = (case c of Scram _ _ _ \<Rightarrow> True | _ \<Rightarrow> False)"

definition encode_response :: "externals \<Rightarrow> string \<Rightarrow> string list" where
  "encode_response e payload =
     (if payload = [] then [''+'']
      else
        (let encoded = ext_base64_encode e payload;
             lines = map from_utf8_lossy (chunks CHUNK encoded)
         in if length encoded mod CHUNK = 0 then lines @ [''+''] else lines))"

definition decode_challenge :: "externals \<Rightarrow> string \<Rightarrow> string option" where
  "decode_challenge e payload = (if payload = ''+'' then Some [] else ext_base64_decode e payload)"

definition sasl_offers :: "string option \<Rightarrow> string \<Rightarrow> bool" where
  "sasl_offers advertised m =
     (case advertised of
        None \<Rightarrow> True
      | Some list \<Rightarrow> list = [] \<or> list_ex (\<lambda>x. eq_ignore_ascii_case x m) (split_on (CHR '','') list))"

datatype sasl_failure = Rejected | TooLong | Aborted | AlreadyAuthenticated | NoSharedMechanism | ServerNotVerified

datatype sasl_state = Idle | Offered | Responded | ScramChallenged | ScramProved | Settled

definition in_flight :: "sasl_state \<Rightarrow> bool" where
  "in_flight s \<longleftrightarrow> s = Offered \<or> s = Responded \<or> s = ScramChallenged \<or> s = ScramProved"

section \<open>A base64 engine\<close>

text \<open>
  A concrete engine with the standard alphabet, to show the laws can hold and to evaluate examples.
\<close>

definition b64_alphabet :: string where
  "b64_alphabet = ''ABCDEFGHIJKLMNOPQRSTUVWXYZabcdefghijklmnopqrstuvwxyz0123456789+/''"

type_synonym sextet = "bool \<times> bool \<times> bool \<times> bool \<times> bool \<times> bool"

fun b64_char :: "sextet \<Rightarrow> char" where
  "b64_char (b5, b4, b3, b2, b1, b0) =
     b64_alphabet ! (32 * of_bool b5 + 16 * of_bool b4 + 8 * of_bool b3 + 4 * of_bool b2 + 2 * of_bool b1 + of_bool b0)"

fun b64_sextet :: "char \<Rightarrow> sextet option" where
  "b64_sextet c =
     map_option (\<lambda>n. (odd (n div 32), odd (n div 16), odd (n div 8), odd (n div 4), odd (n div 2), odd n))
       (find_index (\<lambda>x. x = c) b64_alphabet)"

fun b64_encode :: "string \<Rightarrow> string" where
  "b64_encode [] = []"
| "b64_encode [Char a0 a1 a2 a3 a4 a5 a6 a7] =
     [b64_char (a7, a6, a5, a4, a3, a2), b64_char (a1, a0, False, False, False, False), CHR ''='', CHR ''='']"
| "b64_encode [Char a0 a1 a2 a3 a4 a5 a6 a7, Char b0 b1 b2 b3 b4 b5 b6 b7] =
     [b64_char (a7, a6, a5, a4, a3, a2), b64_char (a1, a0, b7, b6, b5, b4),
      b64_char (b3, b2, b1, b0, False, False), CHR ''='']"
| "b64_encode (Char a0 a1 a2 a3 a4 a5 a6 a7 # Char b0 b1 b2 b3 b4 b5 b6 b7 # Char c0 c1 c2 c3 c4 c5 c6 c7 # r) =
     [b64_char (a7, a6, a5, a4, a3, a2), b64_char (a1, a0, b7, b6, b5, b4),
      b64_char (b3, b2, b1, b0, c7, c6), b64_char (c5, c4, c3, c2, c1, c0)] @ b64_encode r"

fun b64_decode :: "string \<Rightarrow> string option" where
  "b64_decode [] = Some []"
| "b64_decode (w # x # y # z # r) =
     (if z = CHR ''='' then
        (if r \<noteq> [] then None
         else if y = CHR ''='' then
           (case (b64_sextet w, b64_sextet x) of
              (Some (a7, a6, a5, a4, a3, a2), Some (a1, a0, _)) \<Rightarrow> Some [Char a0 a1 a2 a3 a4 a5 a6 a7]
            | _ \<Rightarrow> None)
         else
           (case (b64_sextet w, b64_sextet x, b64_sextet y) of
              (Some (a7, a6, a5, a4, a3, a2), Some (a1, a0, b7, b6, b5, b4), Some (b3, b2, b1, b0, _)) \<Rightarrow>
                Some [Char a0 a1 a2 a3 a4 a5 a6 a7, Char b0 b1 b2 b3 b4 b5 b6 b7]
            | _ \<Rightarrow> None))
      else
        (case (b64_sextet w, b64_sextet x, b64_sextet y, b64_sextet z) of
           (Some (a7, a6, a5, a4, a3, a2), Some (a1, a0, b7, b6, b5, b4), Some (b3, b2, b1, b0, c7, c6),
              Some (c5, c4, c3, c2, c1, c0)) \<Rightarrow>
             map_option (\<lambda>s. Char a0 a1 a2 a3 a4 a5 a6 a7 # Char b0 b1 b2 b3 b4 b5 b6 b7
               # Char c0 c1 c2 c3 c4 c5 c6 c7 # s) (b64_decode r)
         | _ \<Rightarrow> None))"
| "b64_decode _ = None"

lemma b64_alphabet_facts:
  "length b64_alphabet = 64" "distinct b64_alphabet"
  "list_all (\<lambda>c. is_ascii c \<and> c \<noteq> CHR ''='' \<and> c \<noteq> CHR '','') b64_alphabet"
  by (simp_all add: b64_alphabet_def is_ascii_def)

lemma b64_index: "n < 64 \<Longrightarrow> find_index (\<lambda>x. x = b64_alphabet ! n) b64_alphabet = Some n"
  using b64_alphabet_facts by (auto simp: find_index_Some_iff nth_eq_iff_index_eq)

definition sextet_value :: "sextet \<Rightarrow> nat" where
  "sextet_value = (\<lambda>(b5, b4, b3, b2, b1, b0).
     32 * of_bool b5 + 16 * of_bool b4 + 8 * of_bool b3 + 4 * of_bool b2 + 2 * of_bool b1 + of_bool b0)"

lemma sextet_value_less: "sextet_value s < 64"
  by (cases s) (auto simp: sextet_value_def)

lemma sextet_value_bits:
  "(let n = sextet_value s in (odd (n div 32), odd (n div 16), odd (n div 8), odd (n div 4), odd (n div 2), odd n)) = s"
proof (cases s)
  case (fields b5 b4 b3 b2 b1 b0)
  then show ?thesis
    by (cases b5; cases b4; cases b3; cases b2; cases b1; cases b0) (simp_all add: sextet_value_def)
qed

lemma b64_char_value: "b64_char s = b64_alphabet ! sextet_value s"
  by (cases s) (simp add: sextet_value_def)

lemma b64_char_facts:
  "b64_sextet (b64_char s) = Some s" "b64_char s \<noteq> CHR ''=''" "b64_char s \<noteq> CHR '',''" "is_ascii (b64_char s)"
proof -
  show "b64_sextet (b64_char s) = Some s"
    using b64_index [OF sextet_value_less [of s]] sextet_value_bits [of s]
    by (simp add: b64_char_value Let_def del: b64_char.simps)
  have "b64_char s \<in> set b64_alphabet"
    unfolding b64_char_value using b64_alphabet_facts(1) sextet_value_less by (intro nth_mem) simp
  then show "b64_char s \<noteq> CHR ''=''" "b64_char s \<noteq> CHR '',''" "is_ascii (b64_char s)"
    using b64_alphabet_facts(3) by (auto simp: list_all_iff simp del: b64_char.simps)
qed

declare b64_char.simps [simp del] b64_sextet.simps [simp del]

lemma b64_round_trip: "b64_decode (b64_encode s) = Some s"
  by (induction s rule: b64_encode.induct) (simp_all add: b64_char_facts)

lemma b64_length: "length (b64_encode s) = 4 * ((length s + 2) div 3)"
proof (induction s rule: b64_encode.induct)
  case (4 a0 a1 a2 a3 a4 a5 a6 a7 b0 b1 b2 b3 b4 b5 b6 b7 c0 c1 c2 c3 c4 c5 c6 c7 r)
  have "(3 + (length r + 2)) div 3 = (length r + 2) div 3 + 1"
    by simp
  moreover have "Suc (Suc (Suc (length r))) + 2 = 3 + (length r + 2)"
    by simp
  ultimately show ?case
    using 4 by (simp only: b64_encode.simps length_append length_Cons list.size) simp
qed simp_all

lemma b64_plain: "list_all (\<lambda>c. is_ascii c \<and> c \<noteq> CHR '','') (b64_encode s)"
  by (induction s rule: b64_encode.induct) (simp_all add: b64_char_facts, simp_all add: is_ascii_def)

definition sample_externals :: externals where
  "sample_externals =
     \<lparr>ext_base64_encode = b64_encode, ext_base64_decode = b64_decode,
      ext_hmac_sha256 = (\<lambda>key text. Some (replicate 32 (CHR 0x00))), ext_sha256 = (\<lambda>s. replicate 32 (CHR 0x00)),
      ext_alphanumeric = (\<lambda>_. False)\<rparr>"

lemma sample_base64_laws: "base64_laws sample_externals"
  by (simp add: base64_laws_def sample_externals_def b64_round_trip b64_length b64_plain)

section \<open>Chunking\<close>

text \<open>What a server does with the lines of one response: a lone plus sign adds nothing.\<close>

definition rejoin :: "string list \<Rightarrow> string" where
  "rejoin lines = concat (filter (\<lambda>l. l \<noteq> ''+'') lines)"

lemma chunks_last:
  "xs \<noteq> [] \<Longrightarrow> 0 < n \<Longrightarrow> chunks n xs \<noteq> [] \<and> (length xs mod n \<noteq> 0 \<longrightarrow> length (last (chunks n xs)) < n)"
proof (induction n xs rule: chunks.induct)
  case (1 n xs)
  then have step: "chunks n xs = take n xs # chunks n (drop n xs)"
    by (simp add: chunks_step)
  show ?case
  proof (cases "length xs \<le> n")
    case True
    then show ?thesis
      using "1.prems" by (auto simp: step le_less)
  next
    case False
    then have "length (drop n xs) mod n = length xs mod n"
      by (simp add: le_mod_geq)
    then show ?thesis
      using 1 False by (auto simp: step)
  qed
qed

lemma chunks_length_dvd: "d dvd n \<Longrightarrow> d dvd length xs \<Longrightarrow> c \<in> set (chunks n xs) \<Longrightarrow> d dvd length c"
proof (induction n xs rule: chunks.induct)
  case (1 n xs)
  show ?case
  proof (cases "xs = [] \<or> n = 0")
    case True
    then show ?thesis
      using "1.prems"(3) by (auto simp: chunks.simps [of n xs])
  next
    case False
    then have "c = take n xs \<or> c \<in> set (chunks n (drop n xs))"
      using "1.prems"(3) by (simp add: chunks_step)
    moreover have "d dvd length (drop n xs)"
      using "1.prems"(1,2) by (cases "n \<le> length xs") (auto simp: dvd_diff_nat)
    ultimately show ?thesis
      using 1 False by (auto simp: min_def)
  qed
qed

lemma encode_response_lines:
  assumes "base64_laws e" "payload \<noteq> []"
  defines "encoded \<equiv> ext_base64_encode e payload"
  shows "map from_utf8_lossy (chunks CHUNK encoded) = chunks CHUNK encoded"
    and "filter (\<lambda>l. l \<noteq> ''+'') (chunks CHUNK encoded) = chunks CHUNK encoded"
    and "encoded \<noteq> []"
proof -
  have len: "length encoded = 4 * ((length payload + 2) div 3)" and ascii: "list_all is_ascii encoded"
    using assms(1) by (auto simp: base64_laws_def encoded_def list_all_iff)
  show "encoded \<noteq> []"
    using len assms(2) by (cases payload) (auto simp del: length_0_conv simp flip: length_0_conv)
  show "map from_utf8_lossy (chunks CHUNK encoded) = chunks CHUNK encoded"
  proof (rule map_idI)
    fix c
    assume "c \<in> set (chunks CHUNK encoded)"
    then have "set c \<subseteq> set encoded"
      by (intro chunks_set [of CHUNK]) (auto simp: CHUNK_def)
    then show "from_utf8_lossy c = c"
      using ascii by (intro ascii_lossy) (auto simp: list_all_iff)
  qed
  have four: "4 dvd length encoded" "(4 :: nat) dvd CHUNK"
    by (simp_all add: len CHUNK_def)
  have "c \<noteq> ''+''" if "c \<in> set (chunks CHUNK encoded)" for c
    using chunks_length_dvd [OF four(2,1) that] by auto
  then show "filter (\<lambda>l. l \<noteq> ''+'') (chunks CHUNK encoded) = chunks CHUNK encoded"
    by (simp add: filter_id_conv)
qed

section \<open>Properties\<close>

lemma sasl_response_chunks_parts:
  assumes "base64_laws e"
  shows "decode_challenge e (rejoin (encode_response e payload)) = Some payload"
    and "encode_response e payload \<noteq> [] \<and> length (last (encode_response e payload)) < CHUNK"
    and "list_all (\<lambda>line. length line \<le> CHUNK) (encode_response e payload)"
proof -
  let ?enc = "ext_base64_encode e payload"
  have dec: "ext_base64_decode e (ext_base64_encode e x) = Some x" for x
    using assms by (simp add: base64_laws_def)
  have empty: "ext_base64_encode e [] = []"
  proof -
    have "length (ext_base64_encode e []) = 4 * ((length ([] :: string) + 2) div 3)"
      using assms unfolding base64_laws_def by blast
    then show ?thesis by simp
  qed
  have bound: "list_all (\<lambda>line. length line \<le> CHUNK) (chunks CHUNK ?enc)"
    using chunks_bounded [of _ CHUNK ?enc] by (auto simp: list_all_iff)
  have cat: "concat (chunks CHUNK ?enc) = ?enc"
    by (simp add: concat_chunks CHUNK_def)
  show "decode_challenge e (rejoin (encode_response e payload)) = Some payload"
  proof (cases "payload = []")
    case True
    then show ?thesis
      using dec [of "[]"] by (simp add: encode_response_def rejoin_def decode_challenge_def empty)
  next
    case False
    note lines = encode_response_lines [OF assms False]
    have "4 dvd length ?enc"
      using assms by (simp add: base64_laws_def)
    then have "?enc \<noteq> ''+''"
      by (metis One_nat_def dvd_1_iff_1 length_Cons list.size(3) numeral_eq_one_iff semiring_norm(83))
    then show ?thesis
      using False dec [of payload] by (simp add: encode_response_def Let_def lines rejoin_def decode_challenge_def cat)
  qed
  show "encode_response e payload \<noteq> [] \<and> length (last (encode_response e payload)) < CHUNK"
  proof (cases "payload = []")
    case False
    note lines = encode_response_lines [OF assms False]
    show ?thesis
      using False chunks_last [OF lines(3), of CHUNK] by (simp add: encode_response_def Let_def lines) (simp add: CHUNK_def)
  qed (simp add: encode_response_def CHUNK_def)
  show "list_all (\<lambda>line. length line \<le> CHUNK) (encode_response e payload)"
  proof (cases "payload = []")
    case False
    note lines = encode_response_lines [OF assms False]
    show ?thesis
      using bound by (simp add: encode_response_def Let_def lines) (simp add: CHUNK_def)
  qed (simp add: encode_response_def CHUNK_def)
qed

text \<open>
  The lines of a SASL response, put together by the server, decode to the payload; there is always
  at least one line, no line is longer than 400 bytes and the last one is shorter than that, so the
  server can tell that it is the last.
\<close>

theorem sasl_response_chunks:
  assumes "base64_laws e"
  shows
  "(decode_challenge e (rejoin (encode_response e payload)) = Some payload)
   \<and> (encode_response e payload \<noteq> [] \<and> length (last (encode_response e payload)) < CHUNK)
   \<and> (list_all (\<lambda>line. length line \<le> CHUNK) (encode_response e payload))"
  by (intro conjI impI; use sasl_response_chunks_parts [OF assms] in blast)

theorem sasl_response_chunks_witness:
  "decode_challenge sample_externals (rejoin (encode_response sample_externals (cred_response (Plain ''jo'' ''pw'')))) =
     Some (cred_response (Plain ''jo'' ''pw''))"
  using sasl_response_chunks [OF sample_base64_laws] by blast

end
