(* ===== verification/Extensions.thy ===== *)
theory Extensions
  imports Json BTree Message Sasl
begin

text \<open>
  The Obby extensions (\<open>obby-client/src/extensions.rs\<close>): link previews, the commands the server says
  we may use, invitations, and the bots of a network with the commands they may offer. The base64
  engine is the one of \<open>externals\<close>.
\<close>

section \<open>Link previews\<close>

record link_preview =
  lp_title :: string
  lp_snippet :: "string option"
  lp_image :: "string option"

definition link_preview_parse :: "message \<Rightarrow> (string \<times> link_preview) option" where
  "link_preview_parse line =
     (case msg_tag line ''obsidianirc/link-preview-title'' of
        None \<Rightarrow> None
      | Some title \<Rightarrow>
          (case (case msg_tag line ''+reply'' of Some r \<Rightarrow> Some r | None \<Rightarrow> msg_tag line ''+draft/reply'') of
             None \<Rightarrow> None
           | Some msgid \<Rightarrow>
               Some (msgid, \<lparr>lp_title = title,
                             lp_snippet = msg_tag line ''obsidianirc/link-preview-snippet'',
                             lp_image = msg_tag line ''obsidianirc/link-preview-meta''\<rparr>)))"

section \<open>The commands we may use\<close>

type_synonym commands = "string list"

definition commands_new :: commands where "commands_new = []"

definition commands_token :: "string \<Rightarrow> commands \<Rightarrow> commands" where
  "commands_token token available =
     (case strip_prefix ''+'' token of
        Some name \<Rightarrow> bs_insert (to_ascii_uppercase name) available
      | None \<Rightarrow>
          (case strip_prefix ''-'' token of
             Some name \<Rightarrow> bs_remove (to_ascii_uppercase name) available
           | None \<Rightarrow> available))"

definition commands_apply :: "message \<Rightarrow> commands \<Rightarrow> commands" where
  "commands_apply line available = fold commands_token (concat (map split_whitespace (msg_params line))) available"

definition commands_contains :: "commands \<Rightarrow> string \<Rightarrow> bool" where
  "commands_contains available name \<longleftrightarrow> to_ascii_uppercase name \<in> set available"

section \<open>Invitations\<close>

record invitation =
  inv_share_id :: string
  inv_channel :: "string option"
  inv_url :: string
  inv_created :: "string option"
  inv_redeemed :: nat
  inv_description :: "string option"

definition channel_or_network :: "string \<Rightarrow> string option" where
  "channel_or_network v = (if v \<noteq> ''*'' then Some v else None)"

definition invitation_parse_created :: "message \<Rightarrow> invitation option" where
  "invitation_parse_created line =
     (case msg_param line 0 of
        None \<Rightarrow> None
      | Some share_id \<Rightarrow>
          if eq_ignore_ascii_case share_id ''ENTRY'' then None
          else (case (msg_param line 1, msg_param line 2) of
                  (Some channel, Some url) \<Rightarrow>
                    Some \<lparr>inv_share_id = share_id, inv_channel = channel_or_network channel, inv_url = url,
                          inv_created = None, inv_redeemed = 0, inv_description = None\<rparr>
                | _ \<Rightarrow> None))"

definition invitation_parse_entry :: "message \<Rightarrow> invitation option" where
  "invitation_parse_entry line =
     (case msg_param line 0 of
        None \<Rightarrow> None
      | Some entry \<Rightarrow>
          if \<not> eq_ignore_ascii_case entry ''ENTRY'' then None
          else (case (msg_param line 1, msg_param line 2, msg_param line 3, msg_param line 5) of
                  (Some share_id, Some channel, Some created, Some url) \<Rightarrow>
                    Some \<lparr>inv_share_id = share_id, inv_channel = channel_or_network channel, inv_url = url,
                          inv_created = Some created,
                          inv_redeemed = (case Option.bind (msg_param line 4) parse_u32 of Some n \<Rightarrow> n | None \<Rightarrow> 0),
                          inv_description = msg_param line 6\<rparr>
                | _ \<Rightarrow> None))"

section \<open>Bots\<close>

record bot_command =
  bc_name :: string
  bc_description :: "string option"

record bot =
  bot_nick :: string
  bot_id :: "string option"
  bot_from_config :: bool
  bot_commands :: "bot_command list"

definition PRIVILEGED_COMMANDS :: "string list" where
  "PRIVILEGED_COMMANDS =
     [''oper'', ''identify'', ''nickserv'', ''chanserv'', ''ns'', ''cs'', ''register'', ''pass'', ''auth'', ''login'']"

definition BOT_INFO_TAG :: string where "BOT_INFO_TAG = ''obby.world/bot-info''"
definition BOT_COMMANDS_TAG :: string where "BOT_COMMANDS_TAG = ''+draft/bot-cmds''"

definition is_privileged :: "string \<Rightarrow> bool" where
  "is_privileged name \<longleftrightarrow> (\<exists>reserved\<in>set PRIVILEGED_COMMANDS. eq_ignore_ascii_case name reserved)"

record bot_info =
  bi_removed :: bool
  bi_bot :: bot
  bi_commands :: "bot_command list"

definition bot_command_of :: "json \<Rightarrow> bot_command option" where
  "bot_command_of command =
     map_option (\<lambda>name. \<lparr>bc_name = name, bc_description = field_string command ''description''\<rparr>)
       (field_string command ''name'')"

definition commands_of :: "json \<Rightarrow> bot_command list" where
  "commands_of v =
     List.map_filter bot_command_of
       (case Option.bind (json_field v ''commands'') as_array of Some items \<Rightarrow> items | None \<Rightarrow> [])"

definition decode_tag_json :: "externals \<Rightarrow> string \<Rightarrow> json option" where
  "decode_tag_json e payload =
     (case ext_base64_decode e payload of
        None \<Rightarrow> None
      | Some bytes \<Rightarrow> if valid_utf8 bytes then json_parse bytes else None)"

definition bot_info_decode :: "externals \<Rightarrow> string \<Rightarrow> bot_info option" where
  "bot_info_decode e payload =
     (case decode_tag_json e payload of
        None \<Rightarrow> None
      | Some v \<Rightarrow>
          (case field_string v ''nick'' of
             None \<Rightarrow> None
           | Some nick \<Rightarrow>
               Some \<lparr>bi_removed = (field_string v ''event'' = Some ''remove''),
                     bi_bot = \<lparr>bot_nick = nick, bot_id = field_string v ''bot_id'',
                               bot_from_config = (json_field v ''from_config'' = Some (JBool True)),
                               bot_commands = []\<rparr>,
                     bi_commands = commands_of v\<rparr>))"

definition decode_bot_commands :: "externals \<Rightarrow> string \<Rightarrow> bot_command list option" where
  "decode_bot_commands e payload = map_option commands_of (decode_tag_json e payload)"

subsection \<open>The registry\<close>

type_synonym bots = "(string, bot) btree"

definition bots_new :: bots where "bots_new = []"

definition bots_insert :: "string \<Rightarrow> bot \<Rightarrow> bots \<Rightarrow> bots" where
  "bots_insert key b known = bt_insert key b known"

definition bots_remove :: "string \<Rightarrow> bots \<Rightarrow> bots" where
  "bots_remove key known = bt_remove key known"

definition bots_forget :: "bots \<Rightarrow> bots" where
  "bots_forget known = []"

definition bots_get :: "bots \<Rightarrow> string \<Rightarrow> bot option" where
  "bots_get known key = map_of known key"

definition bots_set_commands :: "string \<Rightarrow> bot_command list \<Rightarrow> bots \<Rightarrow> bool \<times> bots" where
  "bots_set_commands key commands known =
     (case map_of known key of
        None \<Rightarrow> (False, known)
      | Some b \<Rightarrow>
          (True, bt_modify key (\<lambda>b. b\<lparr>bot_commands :=
                    (if bot_from_config b then commands
                     else filter (\<lambda>c. \<not> is_privileged (bc_name c)) commands)\<rparr>) known))"

section \<open>What a bot may offer\<close>

text \<open>A bot that registered itself offers no reserved name.\<close>

definition entitled :: "bot \<Rightarrow> bool" where
  "entitled b \<longleftrightarrow> bot_from_config b \<or> (\<forall>c\<in>set (bot_commands b). \<not> is_privileged (bc_name c))"

definition bots_ok :: "bots \<Rightarrow> bool" where
  "bots_ok known \<longleftrightarrow> bt_wf known \<and> bt_all (\<lambda>_. entitled) known"

lemma bots_ok_new [simp, inv_intros]: "bots_ok []"
  by (simp add: bots_ok_def)

lemma bots_ok_insert [inv_intros]: "bots_ok known \<Longrightarrow> entitled b \<Longrightarrow> bots_ok (bots_insert key b known)"
  by (simp add: bots_ok_def bots_insert_def bt_all_insert)

lemma bots_ok_remove [simp, inv_intros]: "bots_ok known \<Longrightarrow> bots_ok (bots_remove key known)"
  by (simp add: bots_ok_def bots_remove_def bt_all_remove)

lemma bots_ok_set_commands [simp, inv_intros]: "bots_ok known \<Longrightarrow> bots_ok (snd (bots_set_commands key commands known))"
  by (auto simp: bots_ok_def bots_set_commands_def entitled_def intro!: bt_all_modify split: option.split)

lemma bot_info_decode_entitled: "bot_info_decode e payload = Some info \<Longrightarrow> entitled (bi_bot info)"
  by (auto simp: bot_info_decode_def entitled_def split: option.splits)

lemma bots_set_commands_unknown: "fst (bots_set_commands key commands known) = bt_contains known key"
  by (simp add: bots_set_commands_def bt_contains_def split: option.split)

lemma bots_get_entitled: "bots_ok known \<Longrightarrow> bots_get known key = Some b \<Longrightarrow> entitled b"
  by (auto simp: bots_ok_def bots_get_def dest: bt_all_lookup)

subsection \<open>The commands list\<close>

lemma commands_wf_apply [inv_intros]: "bs_wf available \<Longrightarrow> bs_wf (commands_apply line available)"
  unfolding commands_apply_def
  by (rule fold_keeps [where P = bs_wf]) (auto simp: commands_token_def split: option.split)

end
