(* ===== verification/Model.thy ===== *)
theory Model
  imports Isupport Extensions
begin

text \<open>
  The client model (\<open>obby-client/src/model.rs\<close>): the messages of one channel or conversation, what a
  member holds in a channel, the people, the \<open>WHOIS\<close> records and everything the connection knows. An
  operation of the source that lends a mutable reference is an update with the function that the
  borrower applies. The build modelled here has no \<open>obby\<close> feature, so a message has no link preview.
\<close>

definition DEFAULT_RETENTION :: nat where "DEFAULT_RETENTION = 5000"
definition MAX_WHOIS_RECORDS :: nat where "MAX_WHOIS_RECORDS = 64"

section \<open>Messages\<close>

datatype message_key = Message_Key (key_time_ms: nat) (key_seq: nat)

instantiation message_key :: linorder
begin

definition less_eq_message_key :: "message_key \<Rightarrow> message_key \<Rightarrow> bool" where
  "less_eq_message_key a b \<longleftrightarrow> (key_time_ms a, key_seq a) \<le> (key_time_ms b, key_seq b)"

definition less_message_key :: "message_key \<Rightarrow> message_key \<Rightarrow> bool" where
  "less_message_key a b \<longleftrightarrow> (key_time_ms a, key_seq a) < (key_time_ms b, key_seq b)"

instance
  by intro_classes (auto simp: less_eq_message_key_def less_message_key_def message_key.expand)

end

datatype message_kind =
    Privmsg | Notice | Ctcp string | Tagmsg | Join | Part | Quit | Kick string | Nick string | Topic | Mode

record chat_message =
  chat_key :: message_key
  chat_msgid :: "string option"
  chat_sender :: string
  chat_kind :: message_kind
  chat_text :: string
  chat_account :: "string option"
  chat_historical :: bool
  chat_own :: bool
  chat_reply_to :: "string option"
  chat_reactions :: "(string, string list) btree"
  chat_link_preview :: "link_preview option"
  chat_redacted :: bool

definition chat_message_new :: "message_key \<Rightarrow> string \<Rightarrow> message_kind \<Rightarrow> chat_message" where
  "chat_message_new key sender kind =
     \<lparr>chat_key = key, chat_msgid = None, chat_sender = sender, chat_kind = kind, chat_text = [],
      chat_account = None, chat_historical = False, chat_own = False, chat_reply_to = None,
      chat_reactions = [], chat_link_preview = None, chat_redacted = False\<rparr>"

section \<open>The message log\<close>

record message_log =
  log_messages :: "(message_key, chat_message) btree"
  log_by_msgid :: "(string, message_key) btree"
  log_retention :: nat

definition log_with_retention :: "nat \<Rightarrow> message_log" where
  "log_with_retention retention =
     \<lparr>log_messages = [], log_by_msgid = [], log_retention = max retention 1\<rparr>"

definition log_default :: message_log where
  "log_default = log_with_retention DEFAULT_RETENTION"

definition log_has_twin :: "message_log \<Rightarrow> chat_message \<Rightarrow> bool" where
  "log_has_twin log candidate \<longleftrightarrow>
     (let lo = Message_Key (key_time_ms (chat_key candidate)) 0;
          hi = Message_Key (sat_add64 (key_time_ms (chat_key candidate)) 1) 0
      in list_ex (\<lambda>(k, held). lo \<le> k \<and> k < hi \<and> chat_sender held = chat_sender candidate
            \<and> chat_text held = chat_text candidate \<and> chat_kind held = chat_kind candidate) (log_messages log))"

text \<open>The loop of \<open>trim\<close>: \<open>pop_first\<close> takes the head of the ordered list.\<close>

fun trim_loop :: "nat \<Rightarrow> (message_key, chat_message) btree \<Rightarrow> (string, message_key) btree
    \<Rightarrow> (message_key, chat_message) btree \<times> (string, message_key) btree" where
  "trim_loop retention [] ids = ([], ids)"
| "trim_loop retention ((k, dropped) # messages) ids =
     (if length ((k, dropped) # messages) > retention
      then trim_loop retention messages
             (case chat_msgid dropped of Some msgid \<Rightarrow> bt_remove msgid ids | None \<Rightarrow> ids)
      else ((k, dropped) # messages, ids))"

definition log_trim :: "message_log \<Rightarrow> message_log" where
  "log_trim log =
     (case trim_loop (log_retention log) (log_messages log) (log_by_msgid log) of
        (messages, ids) \<Rightarrow> log\<lparr>log_messages := messages, log_by_msgid := ids\<rparr>)"

definition log_contains :: "message_log \<Rightarrow> string \<Rightarrow> bool" where
  "log_contains log msgid \<longleftrightarrow> bt_contains (log_by_msgid log) msgid"

definition log_insert :: "chat_message \<Rightarrow> message_log \<Rightarrow> bool \<times> message_log" where
  "log_insert m log =
     (if (case chat_msgid m of Some msgid \<Rightarrow> bt_contains (log_by_msgid log) msgid | None \<Rightarrow> log_has_twin log m)
      then (False, log)
      else
        (let ids = (case chat_msgid m of
                      Some msgid \<Rightarrow> bt_insert msgid (chat_key m) (log_by_msgid log)
                    | None \<Rightarrow> log_by_msgid log)
         in (True, log_trim (log\<lparr>log_by_msgid := ids, log_messages := bt_insert (chat_key m) m (log_messages log)\<rparr>))))"

definition log_get :: "message_log \<Rightarrow> string \<Rightarrow> chat_message option" where
  "log_get log msgid =
     (case map_of (log_by_msgid log) msgid of None \<Rightarrow> None | Some key \<Rightarrow> map_of (log_messages log) key)"

text \<open>\<open>get_mut\<close>, with what is done to the message it lends.\<close>

definition log_get_mut :: "string \<Rightarrow> (chat_message \<Rightarrow> chat_message) \<Rightarrow> message_log \<Rightarrow> message_log" where
  "log_get_mut msgid f log =
     (case map_of (log_by_msgid log) msgid of
        None \<Rightarrow> log
      | Some key \<Rightarrow> log\<lparr>log_messages := bt_modify key f (log_messages log)\<rparr>)"

definition log_get_by_key :: "message_log \<Rightarrow> message_key \<Rightarrow> chat_message option" where
  "log_get_by_key log key = map_of (log_messages log) key"

definition log_iter :: "message_log \<Rightarrow> chat_message list" where
  "log_iter log = map snd (log_messages log)"

definition log_last :: "message_log \<Rightarrow> chat_message option" where
  "log_last log = map_option snd (last_opt (log_messages log))"

definition log_first :: "message_log \<Rightarrow> chat_message option" where
  "log_first log = map_option snd (hd_opt (log_messages log))"

definition log_len :: "message_log \<Rightarrow> nat" where
  "log_len log = length (log_messages log)"

section \<open>Membership, people and \<open>WHOIS\<close> records\<close>

record membership = mem_prefixes :: string

definition membership_default :: membership where
  "membership_default = \<lparr>mem_prefixes = []\<rparr>"

definition top_prefix :: "membership \<Rightarrow> string option" where
  "top_prefix m = hd_opt (chars (mem_prefixes m))"

definition rank_or_max :: "prefix \<Rightarrow> string \<Rightarrow> nat" where
  "rank_or_max order c = (case prefix_rank order c of Some r \<Rightarrow> r | None \<Rightarrow> u64_max)"

definition grant :: "string \<Rightarrow> prefix \<Rightarrow> membership \<Rightarrow> membership" where
  "grant c order m =
     (if c \<in> set (chars (mem_prefixes m)) then m
      else m\<lparr>mem_prefixes := concat (sort_key (rank_or_max order) (chars (mem_prefixes m @ c)))\<rparr>)"

definition revoke :: "string \<Rightarrow> membership \<Rightarrow> membership" where
  "revoke c m = m\<lparr>mem_prefixes := concat (filter (\<lambda>x. x \<noteq> c) (chars (mem_prefixes m)))\<rparr>"

record person =
  per_nick :: string
  per_account :: "string option"
  per_away :: "string option"
  per_bot :: bool
  per_username :: "string option"
  per_host :: "string option"
  per_realname :: "string option"
  per_operator :: bool
  per_metadata :: "(string, string) btree"

definition person_default :: person where
  "person_default =
     \<lparr>per_nick = [], per_account = None, per_away = None, per_bot = False, per_username = None,
      per_host = None, per_realname = None, per_operator = False, per_metadata = []\<rparr>"

record whois =
  who_nick :: string
  who_username :: "string option"
  who_host :: "string option"
  who_realname :: "string option"
  who_server :: "string option"
  who_server_info :: "string option"
  who_operator :: "string option"
  who_idle_secs :: "nat option"
  who_signon_ms :: "nat option"
  who_channels :: "string list"
  who_account :: "string option"
  who_actual_host :: "string option"
  who_secure :: bool
  who_complete :: bool

definition whois_default :: whois where
  "whois_default =
     \<lparr>who_nick = [], who_username = None, who_host = None, who_realname = None, who_server = None,
      who_server_info = None, who_operator = None, who_idle_secs = None, who_signon_ms = None,
      who_channels = [], who_account = None, who_actual_host = None, who_secure = False,
      who_complete = False\<rparr>"

section \<open>Channels, conversations and ourselves\<close>

record channel =
  ch_name :: string
  ch_topic :: "string option"
  ch_topic_by :: "string option"
  ch_modes :: "(string, string option) btree"
  ch_members :: "(case_folded, membership) btree"
  ch_log :: message_log
  ch_unread :: nat
  ch_mentions :: nat
  ch_metadata :: "(string, string) btree"
  ch_read_marker :: "string option"
  ch_typing :: "case_folded list"
  ch_named_modes :: "(string, string option) btree"

definition channel_default :: channel where
  "channel_default =
     \<lparr>ch_name = [], ch_topic = None, ch_topic_by = None, ch_modes = [], ch_members = [],
      ch_log = log_default, ch_unread = 0, ch_mentions = 0, ch_metadata = [], ch_read_marker = None,
      ch_typing = [], ch_named_modes = []\<rparr>"

record conversation =
  cv_nick :: string
  cv_log :: message_log
  cv_unread :: nat
  cv_read_marker :: "string option"
  cv_typing :: "case_folded list"

definition conversation_default :: conversation where
  "conversation_default =
     \<lparr>cv_nick = [], cv_log = log_default, cv_unread = 0, cv_read_marker = None, cv_typing = []\<rparr>"

record local_user =
  me_nick :: string
  me_account :: "string option"
  me_modes :: string
  me_metadata :: "(string, string) btree"
  me_away :: "string option"

definition local_user_default :: local_user where
  "local_user_default =
     \<lparr>me_nick = [], me_account = None, me_modes = [], me_metadata = [], me_away = None\<rparr>"

section \<open>Everything the connection knows\<close>

record model =
  mdl_me :: local_user
  mdl_channels :: "(case_folded, channel) btree"
  mdl_conversations :: "(case_folded, conversation) btree"
  mdl_people :: "(case_folded, person) btree"
  mdl_whois :: "(case_folded, whois) btree"
  mdl_retention :: nat
  mdl_next_seq :: nat

definition model_with_retention :: "nat \<Rightarrow> model" where
  "model_with_retention retention =
     \<lparr>mdl_me = local_user_default, mdl_channels = [], mdl_conversations = [], mdl_people = [],
      mdl_whois = [], mdl_retention = max retention 1, mdl_next_seq = 0\<rparr>"

definition next_message_key :: "nat \<Rightarrow> model \<Rightarrow> message_key \<times> model" where
  "next_message_key time_ms m =
     (Message_Key time_ms (mdl_next_seq m), m\<lparr>mdl_next_seq := wrapping_add64 (mdl_next_seq m) 1\<rparr>)"

definition model_channel :: "model \<Rightarrow> case_folded \<Rightarrow> channel option" where
  "model_channel m key = map_of (mdl_channels m) key"

definition channel_or_insert :: "case_folded \<Rightarrow> string \<Rightarrow> (channel \<Rightarrow> channel) \<Rightarrow> model \<Rightarrow> model" where
  "channel_or_insert key name f m =
     m\<lparr>mdl_channels := bt_entry key
         (channel_default\<lparr>ch_name := name, ch_log := log_with_retention (mdl_retention m)\<rparr>) f (mdl_channels m)\<rparr>"

definition channel_mut :: "case_folded \<Rightarrow> (channel \<Rightarrow> channel) \<Rightarrow> model \<Rightarrow> model" where
  "channel_mut key f m = m\<lparr>mdl_channels := bt_modify key f (mdl_channels m)\<rparr>"

definition channels_mut :: "(channel \<Rightarrow> channel) \<Rightarrow> model \<Rightarrow> model" where
  "channels_mut f m = m\<lparr>mdl_channels := bt_map f (mdl_channels m)\<rparr>"

definition remove_channel :: "case_folded \<Rightarrow> model \<Rightarrow> model" where
  "remove_channel key m = m\<lparr>mdl_channels := bt_remove key (mdl_channels m)\<rparr>"

definition model_conversation :: "model \<Rightarrow> case_folded \<Rightarrow> conversation option" where
  "model_conversation m key = map_of (mdl_conversations m) key"

definition conversation_or_insert ::
    "case_folded \<Rightarrow> string \<Rightarrow> (conversation \<Rightarrow> conversation) \<Rightarrow> model \<Rightarrow> model" where
  "conversation_or_insert key nick f m =
     m\<lparr>mdl_conversations := bt_entry key
         (conversation_default\<lparr>cv_nick := nick, cv_log := log_with_retention (mdl_retention m)\<rparr>) f
         (mdl_conversations m)\<rparr>"

definition conversation_mut :: "case_folded \<Rightarrow> (conversation \<Rightarrow> conversation) \<Rightarrow> model \<Rightarrow> model" where
  "conversation_mut key f m = m\<lparr>mdl_conversations := bt_modify key f (mdl_conversations m)\<rparr>"

text \<open>A set's \<open>insert\<close> or \<open>remove\<close> with its answer: whether it changed anything.\<close>

definition typing_update :: "bool \<Rightarrow> case_folded \<Rightarrow> case_folded list \<Rightarrow> bool \<times> case_folded list" where
  "typing_update typing who s =
     (if typing then (who \<notin> set s, bs_insert who s) else (who \<in> set s, bs_remove who s))"

definition model_set_typing :: "case_folded \<Rightarrow> case_folded \<Rightarrow> bool \<Rightarrow> model \<Rightarrow> bool \<times> model" where
  "model_set_typing target who typing m =
     (case model_channel m target of
        Some channel \<Rightarrow>
          (let (changed, s) = typing_update typing who (ch_typing channel)
           in (changed, channel_mut target (\<lambda>c. c\<lparr>ch_typing := s\<rparr>) m))
      | None \<Rightarrow>
          (case model_conversation m target of
             Some query \<Rightarrow>
               (let (changed, s) = typing_update typing who (cv_typing query)
                in (changed, conversation_mut target (\<lambda>c. c\<lparr>cv_typing := s\<rparr>) m))
           | None \<Rightarrow> (False, m)))"

definition model_person :: "model \<Rightarrow> case_folded \<Rightarrow> person option" where
  "model_person m key = map_of (mdl_people m) key"

definition person_or_insert :: "case_folded \<Rightarrow> string \<Rightarrow> (person \<Rightarrow> person) \<Rightarrow> model \<Rightarrow> model" where
  "person_or_insert key nick f m =
     m\<lparr>mdl_people := bt_entry key (person_default\<lparr>per_nick := nick\<rparr>) f (mdl_people m)\<rparr>"

definition model_whois :: "model \<Rightarrow> case_folded \<Rightarrow> whois option" where
  "model_whois m key = map_of (mdl_whois m) key"

definition whois_mut :: "case_folded \<Rightarrow> (whois \<Rightarrow> whois) \<Rightarrow> model \<Rightarrow> model" where
  "whois_mut key f m = m\<lparr>mdl_whois := bt_modify key f (mdl_whois m)\<rparr>"

text \<open>The record that makes room: the first complete one, or else the first, in folded order.\<close>

definition stale_whois :: "(case_folded, whois) btree \<Rightarrow> case_folded option" where
  "stale_whois records =
     (case find (\<lambda>(_, record). who_complete record) records of
        Some (key, _) \<Rightarrow> Some key
      | None \<Rightarrow> map_option fst (hd_opt records))"

definition whois_or_insert :: "case_folded \<Rightarrow> string \<Rightarrow> (whois \<Rightarrow> whois) \<Rightarrow> model \<Rightarrow> model" where
  "whois_or_insert key nick f m =
     (let records = mdl_whois m;
          records =
            (if MAX_WHOIS_RECORDS \<le> length records \<and> \<not> bt_contains records key
             then (case stale_whois records of Some stale \<Rightarrow> bt_remove stale records | None \<Rightarrow> records)
             else records)
      in m\<lparr>mdl_whois := bt_entry key whois_default
           (\<lambda>record. f (if who_complete record \<or> who_nick record = []
                        then whois_default\<lparr>who_nick := nick\<rparr> else record)) records\<rparr>)"

text \<open>The move a rename makes in each channel's members.\<close>

definition rename_member :: "case_folded \<Rightarrow> case_folded \<Rightarrow> channel \<Rightarrow> channel" where
  "rename_member old new channel =
     (case map_of (ch_members channel) old of
        Some membership \<Rightarrow> channel\<lparr>ch_members := bt_insert new membership (bt_remove old (ch_members channel))\<rparr>
      | None \<Rightarrow> channel)"

definition model_rename :: "casemapping \<Rightarrow> string \<Rightarrow> string \<Rightarrow> model \<Rightarrow> model" where
  "model_rename cm from to m =
     (let old = case_fold cm from; new = case_fold cm to;
          m = channels_mut (rename_member old new) m;
          m = (case map_of (mdl_conversations m) old of
                 Some query \<Rightarrow> m\<lparr>mdl_conversations :=
                    bt_insert new (query\<lparr>cv_nick := to\<rparr>) (bt_remove old (mdl_conversations m))\<rparr>
               | None \<Rightarrow> m);
          m = (case map_of (mdl_people m) old of
                 Some person \<Rightarrow> m\<lparr>mdl_people :=
                    bt_insert new (person\<lparr>per_nick := to\<rparr>) (bt_remove old (mdl_people m))\<rparr>
               | None \<Rightarrow> m)
      in if case_eq cm (me_nick (mdl_me m)) from then m\<lparr>mdl_me := (mdl_me m)\<lparr>me_nick := to\<rparr>\<rparr> else m)"

definition model_rename_channel :: "casemapping \<Rightarrow> string \<Rightarrow> string \<Rightarrow> model \<Rightarrow> bool \<times> model" where
  "model_rename_channel cm from to m =
     (case map_of (mdl_channels m) (case_fold cm from) of
        None \<Rightarrow> (False, m)
      | Some channel \<Rightarrow>
          (True, m\<lparr>mdl_channels := bt_insert (case_fold cm to) (channel\<lparr>ch_name := to\<rparr>)
                     (bt_remove (case_fold cm from) (mdl_channels m))\<rparr>))"

definition shared_keys :: "model \<Rightarrow> case_folded list" where
  "shared_keys m =
     map fst (mdl_conversations m) @ concat (map (\<lambda>(_, channel). map fst (ch_members channel)) (mdl_channels m))"

definition forget_strangers :: "model \<Rightarrow> model" where
  "forget_strangers m =
     (let keep = shared_keys m; me = me_nick (mdl_me m)
      in m\<lparr>mdl_people := bt_retain (\<lambda>key person. key \<in> set keep \<or> per_nick person = me) (mdl_people m),
           mdl_whois := bt_retain (\<lambda>key _. key \<in> set keep) (mdl_whois m)\<rparr>)"

definition forget_whois :: "model \<Rightarrow> model" where
  "forget_whois m = m\<lparr>mdl_whois := []\<rparr>"

definition remove_everywhere :: "case_folded \<Rightarrow> model \<Rightarrow> case_folded list \<times> model" where
  "remove_everywhere who m =
     (map fst (filter (\<lambda>(_, channel). bt_contains (ch_members channel) who) (mdl_channels m)),
      channels_mut (\<lambda>channel. channel\<lparr>ch_members := bt_remove who (ch_members channel)\<rparr>) m)"

section \<open>The log's invariant\<close>

text \<open>
  Every message sits under its own key, and the index by network id lists exactly the messages held
  that have one.
\<close>

definition index_ok :: "(message_key, chat_message) btree \<Rightarrow> (string, message_key) btree \<Rightarrow> bool" where
  "index_ok ms ids \<longleftrightarrow> bt_wf ms \<and> bt_wf ids
     \<and> bt_all (\<lambda>k m. chat_key m = k \<and> (case chat_msgid m of Some i \<Rightarrow> map_of ids i = Some k | None \<Rightarrow> True)) ms
     \<and> bt_all (\<lambda>i k. case map_of ms k of Some m \<Rightarrow> chat_msgid m = Some i | None \<Rightarrow> False) ids"

definition log_ok :: "message_log \<Rightarrow> bool" where
  "log_ok log \<longleftrightarrow> index_ok (log_messages log) (log_by_msgid log) \<and> 0 < log_retention log
     \<and> length (log_messages log) \<le> log_retention log"

lemma bt_all_iff: "bt_wf m \<Longrightarrow> bt_all P m \<longleftrightarrow> (\<forall>k v. map_of m k = Some v \<longrightarrow> P k v)"
  by (auto simp: bt_all_def list_all_iff bt_mem_iff)

lemma index_ok_iff:
  "index_ok ms ids \<longleftrightarrow> bt_wf ms \<and> bt_wf ids
     \<and> (\<forall>k m. map_of ms k = Some m \<longrightarrow> chat_key m = k)
     \<and> (\<forall>i k. map_of ids i = Some k \<longleftrightarrow> (\<exists>m. map_of ms k = Some m \<and> chat_msgid m = Some i))"
proof (cases "bt_wf ms \<and> bt_wf ids")
  case True
  have msgs: "(case x of Some i \<Rightarrow> map_of ids i = Some k | None \<Rightarrow> True) \<longleftrightarrow> (\<forall>i. x = Some i \<longrightarrow> map_of ids i = Some k)" for x k
    by (simp split: option.split)
  have names: "(case map_of ms k of Some m \<Rightarrow> chat_msgid m = Some i | None \<Rightarrow> False)
      \<longleftrightarrow> (\<exists>m. map_of ms k = Some m \<and> chat_msgid m = Some i)" for i k
    by (simp split: option.split)
  from True show ?thesis
    unfolding index_ok_def by (simp only: bt_all_iff msgs names) blast
next
  case False
  then show ?thesis
    unfolding index_ok_def by blast
qed

lemma index_ok_pop:
  assumes ok: "index_ok ((k, d) # ms) ids"
  shows "index_ok ms (case chat_msgid d of Some i \<Rightarrow> bt_remove i ids | None \<Rightarrow> ids)"
proof -
  have wf: "bt_wf ms" and gone: "map_of ms k = None"
    using ok bt_wf_distinct [of "(k, d) # ms"]
    by (auto simp: index_ok_iff bt_wf_Cons map_of_eq_None_iff)
  have held: "map_of ((k, d) # ms) x = (if x = k then Some d else map_of ms x)" for x
    by simp
  have ids: "map_of ids i = Some x \<longleftrightarrow> (\<exists>m. map_of ((k, d) # ms) x = Some m \<and> chat_msgid m = Some i)" for i x
    using ok unfolding index_ok_iff by blast
  have keys: "map_of ms x = Some m \<Longrightarrow> chat_key m = x" for x m
    using ok gone unfolding index_ok_iff held by (metis option.distinct(1))
  have wfi: "bt_wf ids"
    using ok by (simp add: index_ok_iff)
  have rest: "map_of ids i = Some x \<and> chat_msgid d \<noteq> Some i \<longleftrightarrow> (\<exists>m. map_of ms x = Some m \<and> chat_msgid m = Some i)" for i x
  proof (cases "x = k")
    case True
    then show ?thesis
      using gone by (simp add: ids)
  next
    case False
    then have "map_of ids i = Some x \<longleftrightarrow> (\<exists>m. map_of ms x = Some m \<and> chat_msgid m = Some i)"
      by (simp add: ids)
    moreover have "chat_msgid d = Some i \<Longrightarrow> map_of ids i = Some k"
      by (simp add: ids)
    ultimately show ?thesis
      using False by (metis option.inject)
  qed
  show ?thesis
  proof (cases "chat_msgid d")
    case None
    then have "map_of ids i = Some x \<longleftrightarrow> (\<exists>m. map_of ms x = Some m \<and> chat_msgid m = Some i)" for i x
      using rest [of i x] by simp
    with None show ?thesis
      unfolding index_ok_iff using wf wfi keys by simp
  next
    case (Some j)
    have "map_of (bt_remove j ids) i = Some x \<longleftrightarrow> (\<exists>m. map_of ms x = Some m \<and> chat_msgid m = Some i)" for i x
      using rest [of i x] Some by auto
    with Some show ?thesis
      unfolding index_ok_iff using wf wfi keys by simp
  qed
qed

lemma trim_loop_spec:
  "index_ok ms ids \<Longrightarrow>
     fst (trim_loop r ms ids) = drop (length ms - r) ms
     \<and> index_ok (fst (trim_loop r ms ids)) (snd (trim_loop r ms ids))"
proof (induction r ms ids rule: trim_loop.induct)
  case (2 r k d ms ids)
  show ?case
  proof (cases "length ((k, d) # ms) > r")
    case True
    then show ?thesis
      using "2.IH" [OF True index_ok_pop [OF "2.prems"]] by (auto simp: Suc_diff_le)
  next
    case False
    then show ?thesis
      using "2.prems" by simp
  qed
qed simp

lemma log_trim_fields:
  "log_messages (log_trim l) = fst (trim_loop (log_retention l) (log_messages l) (log_by_msgid l))"
  "log_by_msgid (log_trim l) = snd (trim_loop (log_retention l) (log_messages l) (log_by_msgid l))"
  "log_retention (log_trim l) = log_retention l"
  by (simp_all add: log_trim_def split: prod.splits)

text \<open>Whether the log already has the message, which is what \<open>insert\<close> asks before anything else.\<close>

definition log_known :: "message_log \<Rightarrow> chat_message \<Rightarrow> bool" where
  "log_known l m =
     (case chat_msgid m of Some i \<Rightarrow> log_contains l i | None \<Rightarrow> log_has_twin l m)"

lemma log_insert_known: "log_known l m \<Longrightarrow> log_insert m l = (False, l)"
  by (auto simp: log_known_def log_insert_def log_contains_def split: option.splits)

lemma index_ok_insert:
  assumes ok: "index_ok ms ids" and fresh: "map_of ms (chat_key m) = None"
    and new: "\<And>i. chat_msgid m = Some i \<Longrightarrow> map_of ids i = None"
  shows "index_ok (bt_insert (chat_key m) m ms)
     (case chat_msgid m of Some i \<Rightarrow> bt_insert i (chat_key m) ids | None \<Rightarrow> ids)"
  using ok fresh new unfolding index_ok_iff
  by (auto split: option.splits) (metis option.distinct(1))+

lemma log_insert_new:
  assumes ok: "log_ok l" and fresh: "log_get_by_key l (chat_key m) = None" and new: "\<not> log_known l m"
  shows "fst (log_insert m l)"
    "log_messages (snd (log_insert m l)) =
       drop (Suc (length (log_messages l)) - log_retention l) (bt_insert (chat_key m) m (log_messages l))"
    "log_ok (snd (log_insert m l))"
    "log_retention (snd (log_insert m l)) = log_retention l"
proof -
  let ?ids = "case chat_msgid m of Some i \<Rightarrow> bt_insert i (chat_key m) (log_by_msgid l) | None \<Rightarrow> log_by_msgid l"
  let ?ms = "bt_insert (chat_key m) m (log_messages l)"
  have ix: "index_ok ?ms ?ids"
    using ok fresh new
    by (intro index_ok_insert) (auto simp: log_ok_def log_get_by_key_def log_known_def log_contains_def bt_contains_def)
  have ins: "log_insert m l = (True, log_trim (l\<lparr>log_by_msgid := ?ids, log_messages := ?ms\<rparr>))"
    using new by (auto simp: log_insert_def log_known_def log_contains_def Let_def split: option.splits)
  have len: "length ?ms = Suc (length (log_messages l))"
    using ok fresh by (simp add: length_bt_insert log_ok_def index_ok_def log_get_by_key_def bt_contains_def)
  note t = trim_loop_spec [OF ix, of "log_retention l"]
  show "fst (log_insert m l)"
    by (simp add: ins)
  show ms: "log_messages (snd (log_insert m l)) = drop (Suc (length (log_messages l)) - log_retention l) ?ms"
    using t len by (simp add: ins log_trim_fields)
  show "log_ok (snd (log_insert m l))"
    using t len ok ms by (auto simp: log_ok_def ins log_trim_fields)
  show "log_retention (snd (log_insert m l)) = log_retention l"
    by (simp add: ins log_trim_fields)
qed

lemma log_insert_ok [inv_intros]:
  "log_ok l \<Longrightarrow> log_get_by_key l (chat_key m) = None \<Longrightarrow> log_ok (snd (log_insert m l))"
  by (cases "log_known l m") (simp_all add: log_insert_known log_insert_new)

lemma log_insert_retention [simp]: "log_retention (snd (log_insert m l)) = log_retention l"
  by (auto simp: log_insert_def Let_def log_trim_fields)

lemma log_iter_iff:
  "log_ok l \<Longrightarrow> m \<in> set (log_iter l) \<longleftrightarrow> map_of (log_messages l) (chat_key m) = Some m"
proof -
  assume ok: "log_ok l"
  then have wf: "bt_wf (log_messages l)" and keys: "\<And>k x. map_of (log_messages l) k = Some x \<Longrightarrow> chat_key x = k"
    by (auto simp: log_ok_def index_ok_iff)
  have "m \<in> set (log_iter l) \<longleftrightarrow> (\<exists>k. (k, m) \<in> set (log_messages l))"
    by (force simp: log_iter_def)
  also have "\<dots> \<longleftrightarrow> (\<exists>k. map_of (log_messages l) k = Some m)"
    by (simp add: bt_mem_iff [OF wf])
  finally show ?thesis
    using keys by blast
qed

lemma log_index:
  "log_ok l \<Longrightarrow> map_of (log_by_msgid l) i = Some k \<longleftrightarrow>
     (\<exists>m. map_of (log_messages l) k = Some m \<and> chat_msgid m = Some i)"
  unfolding log_ok_def index_ok_iff by blast

lemma log_keys: "log_ok l \<Longrightarrow> map_of (log_messages l) k = Some m \<Longrightarrow> chat_key m = k"
  unfolding log_ok_def index_ok_iff by blast

lemma log_get_iff:
  assumes ok: "log_ok l"
  shows "log_get l i = Some m \<longleftrightarrow> m \<in> set (log_iter l) \<and> chat_msgid m = Some i"
proof -
  have "log_get l i = Some m \<longleftrightarrow> (\<exists>k. map_of (log_by_msgid l) i = Some k \<and> map_of (log_messages l) k = Some m)"
    by (auto simp: log_get_def split: option.split)
  also have "\<dots> \<longleftrightarrow> (\<exists>k. map_of (log_messages l) k = Some m \<and> chat_msgid m = Some i)"
    using log_index [OF ok] by (metis option.inject)
  also have "\<dots> \<longleftrightarrow> m \<in> set (log_iter l) \<and> chat_msgid m = Some i"
    using log_iter_iff [OF ok] log_keys [OF ok] by metis
  finally show ?thesis .
qed

lemma log_contains_get: "log_ok l \<Longrightarrow> log_contains l i \<longleftrightarrow> log_get l i \<noteq> None"
  using log_index [of l i] by (fastforce simp: log_contains_def bt_contains_def log_get_def split: option.split)

lemma log_contains_iff:
  "log_ok l \<Longrightarrow> log_contains l i \<longleftrightarrow> (\<exists>m\<in>set (log_iter l). chat_msgid m = Some i)"
  using log_get_iff [of l i] by (auto simp: log_contains_get)

lemma log_get_mut_ok [inv_intros]:
  assumes ok: "log_ok l" and f: "\<And>m. chat_key (f m) = chat_key m \<and> chat_msgid (f m) = chat_msgid m"
  shows "log_ok (log_get_mut i f l)"
proof (cases "map_of (log_by_msgid l) i")
  case (Some key)
  have "index_ok (bt_modify key f (log_messages l)) (log_by_msgid l)"
    using ok f unfolding log_ok_def index_ok_iff by (auto simp: log_index [OF ok])
  then show ?thesis
    using ok by (simp add: log_get_mut_def Some log_ok_def)
qed (use ok in \<open>simp add: log_get_mut_def\<close>)

lemma log_get_mut_fields [simp]:
  "log_retention (log_get_mut i f l) = log_retention l"
  "map fst (log_messages (log_get_mut i f l)) = map fst (log_messages l)"
  by (simp_all add: log_get_mut_def split: option.splits)

lemma log_with_retention_ok [simp, inv_intros]: "log_ok (log_with_retention n)"
  by (simp add: log_with_retention_def log_ok_def index_ok_def)

lemma log_with_retention_fields [simp]:
  "log_messages (log_with_retention n) = []" "log_retention (log_with_retention n) = max n 1"
  by (simp_all add: log_with_retention_def)

text \<open>The twins of a message without an id: same instant, same words, same kind, same sender.\<close>

lemma log_has_twin_iff:
  assumes "log_ok l" "key_time_ms (chat_key m) < u64_max"
  shows "log_has_twin l m \<longleftrightarrow> (\<exists>held\<in>set (log_iter l). key_time_ms (chat_key held) = key_time_ms (chat_key m)
     \<and> chat_sender held = chat_sender m \<and> chat_text held = chat_text m \<and> chat_kind held = chat_kind m)"
proof -
  have keys: "(k, held) \<in> set (log_messages l) \<Longrightarrow> chat_key held = k" for k held
    using assms(1) by (auto simp: log_ok_def index_ok_iff bt_mem_iff)
  have "sat_add64 (key_time_ms (chat_key m)) 1 = Suc (key_time_ms (chat_key m))"
    using assms(2) by (simp add: saturating_add_exact)
  then have range: "Message_Key (key_time_ms (chat_key m)) 0 \<le> k
      \<and> k < Message_Key (sat_add64 (key_time_ms (chat_key m)) 1) 0 \<longleftrightarrow> key_time_ms k = key_time_ms (chat_key m)" for k
    by (auto simp: less_eq_message_key_def less_message_key_def)
  have "log_has_twin l m \<longleftrightarrow> (\<exists>(k, held)\<in>set (log_messages l). key_time_ms k = key_time_ms (chat_key m)
     \<and> chat_sender held = chat_sender m \<and> chat_text held = chat_text m \<and> chat_kind held = chat_kind m)"
    unfolding log_has_twin_def Let_def list_ex_iff using range by blast
  also have "\<dots> \<longleftrightarrow> (\<exists>(k, held)\<in>set (log_messages l). key_time_ms (chat_key held) = key_time_ms (chat_key m)
     \<and> chat_sender held = chat_sender m \<and> chat_text held = chat_text m \<and> chat_kind held = chat_kind m)"
    using keys by fastforce
  finally show ?thesis
    by (force simp: log_iter_def)
qed

end
