(* ===== verification/Model_Inv.thy ===== *)
theory Model_Inv
  imports Model
begin

text \<open>
  What the client model keeps: the well-formedness of everything it holds, the bounds on it, and the
  functional behaviour of the operations that change it. The session's lines are built from these
  operations, so their invariant is proved here once for each.
\<close>

section \<open>Prefixes of a member\<close>

text \<open>One scalar of text, which is what a Rust \<open>char\<close> is; and text that begins with one.\<close>

definition is_scalar :: "string \<Rightarrow> bool" where
  "is_scalar g \<longleftrightarrow> g \<noteq> [] \<and> \<not> is_cont (hd g) \<and> list_all is_cont (tl g)"

definition starts_scalar :: "string \<Rightarrow> bool" where
  "starts_scalar s \<longleftrightarrow> (case s of [] \<Rightarrow> True | c # _ \<Rightarrow> \<not> is_cont c)"

lemma scalars_groups: "list_all is_scalar gs \<Longrightarrow> scalar_groups gs"
  by (induction gs) (auto simp: scalar_groups_Cons is_scalar_def neq_Nil_conv)

lemma chars_scalars: "starts_scalar s \<Longrightarrow> list_all is_scalar (chars s)"
proof -
  assume s: "starts_scalar s"
  have gs: "scalar_groups (chars s)"
    by (rule scalar_groups_chars)
  have "chars s \<noteq> [] \<Longrightarrow> \<not> is_cont (hd (hd (chars s)))"
    using s by (cases s) (auto simp: starts_scalar_def)
  with gs show ?thesis
    by (cases "chars s") (auto simp: scalar_groups_def is_scalar_def list_all_iff)
qed

lemma starts_scalar_concat: "list_all is_scalar gs \<Longrightarrow> starts_scalar (concat gs)"
  by (cases gs) (auto simp: starts_scalar_def is_scalar_def neq_Nil_conv)

lemma chars_concat_scalars: "list_all is_scalar gs \<Longrightarrow> chars (concat gs) = gs"
  by (simp add: chars_concat scalars_groups)

lemma chars_snoc:
  assumes "starts_scalar s" "is_scalar c"
  shows "chars (s @ c) = chars s @ [c]"
proof -
  have "list_all is_scalar (chars s @ [c])"
    using assms by (simp add: chars_scalars)
  then have "chars (concat (chars s @ [c])) = chars s @ [c]"
    by (rule chars_concat_scalars)
  then show ?thesis by simp
qed

lemma grant_chars:
  assumes "starts_scalar (mem_prefixes m)" "is_scalar c"
  shows "chars (mem_prefixes (grant c order m)) =
    (if c \<in> set (chars (mem_prefixes m)) then chars (mem_prefixes m)
     else sort_key (rank_or_max order) (chars (mem_prefixes m) @ [c]))"
proof -
  have "list_all is_scalar (sort_key (rank_or_max order) (chars (mem_prefixes m) @ [c]))"
    using assms chars_scalars [of "mem_prefixes m"] by (simp add: list_all_iff set_insort_key)
  then show ?thesis
    using assms by (simp add: grant_def chars_snoc chars_concat_scalars)
qed

lemma revoke_chars:
  assumes "starts_scalar (mem_prefixes m)"
  shows "chars (mem_prefixes (revoke c m)) = filter (\<lambda>x. x \<noteq> c) (chars (mem_prefixes m))"
proof -
  have "list_all is_scalar (filter (\<lambda>x. x \<noteq> c) (chars (mem_prefixes m)))"
    using chars_scalars [OF assms] by (simp add: list_all_iff)
  then show ?thesis
    by (simp add: revoke_def chars_concat_scalars)
qed

text \<open>A member's prefixes in the server's order: sorted by rank, none twice.\<close>

definition ranked :: "prefix \<Rightarrow> membership \<Rightarrow> bool" where
  "ranked order m \<longleftrightarrow> starts_scalar (mem_prefixes m)
     \<and> sorted (map (rank_or_max order) (chars (mem_prefixes m))) \<and> distinct (chars (mem_prefixes m))"

lemma ranked_default [simp]: "ranked order membership_default"
  by (simp add: ranked_def membership_default_def starts_scalar_def)

lemma grant_ranked:
  assumes "ranked order m" "is_scalar c"
  shows "ranked order (grant c order m)"
proof -
  have "starts_scalar (mem_prefixes (grant c order m))"
    using assms chars_scalars [of "mem_prefixes m"]
    by (simp add: grant_def ranked_def chars_snoc starts_scalar_concat list_all_iff)
  then show ?thesis
    using assms by (simp add: ranked_def grant_chars)
qed

lemma revoke_ranked:
  assumes "ranked order m"
  shows "ranked order (revoke c m)"
proof -
  have "starts_scalar (mem_prefixes (revoke c m))"
    using assms chars_scalars [of "mem_prefixes m"]
    by (simp add: revoke_def ranked_def starts_scalar_concat list_all_iff)
  then show ?thesis
    using assms by (simp add: ranked_def revoke_chars sorted_map_filter)
qed

section \<open>The model's invariant\<close>

text \<open>
  A log keeps at most the model's retention, and its sequence numbers are ones already handed out. A
  channel never counts more mentions than unread messages, and neither count leaves 32 bits.
\<close>

definition log_bounded :: "nat \<Rightarrow> nat \<Rightarrow> message_log \<Rightarrow> bool" where
  "log_bounded seq retention l \<longleftrightarrow> log_ok l \<and> log_retention l = retention
     \<and> bt_all (\<lambda>k _. key_seq k < seq) (log_messages l)"

definition channel_ok :: "nat \<Rightarrow> nat \<Rightarrow> channel \<Rightarrow> bool" where
  "channel_ok seq retention c \<longleftrightarrow> log_bounded seq retention (ch_log c)
     \<and> bt_wf (ch_members c) \<and> bt_wf (ch_modes c) \<and> bt_wf (ch_metadata c) \<and> bt_wf (ch_named_modes c)
     \<and> bs_wf (ch_typing c) \<and> ch_mentions c \<le> ch_unread c \<and> ch_unread c \<le> u32_max"

definition conversation_ok :: "nat \<Rightarrow> nat \<Rightarrow> conversation \<Rightarrow> bool" where
  "conversation_ok seq retention c \<longleftrightarrow> log_bounded seq retention (cv_log c)
     \<and> bs_wf (cv_typing c) \<and> cv_unread c \<le> u32_max"

text \<open>Everyone who is in a channel is somebody we know.\<close>

definition members_known :: "model \<Rightarrow> bool" where
  "members_known m \<longleftrightarrow>
     bt_all (\<lambda>_ c. list_all (bt_contains (mdl_people m)) (map fst (ch_members c))) (mdl_channels m)"

definition model_ok :: "model \<Rightarrow> bool" where
  "model_ok m \<longleftrightarrow> bt_wf (mdl_channels m) \<and> bt_wf (mdl_conversations m) \<and> bt_wf (mdl_people m)
     \<and> bt_wf (mdl_whois m) \<and> 0 < mdl_retention m \<and> length (mdl_whois m) \<le> MAX_WHOIS_RECORDS
     \<and> bt_all (\<lambda>_. channel_ok (mdl_next_seq m) (mdl_retention m)) (mdl_channels m)
     \<and> bt_all (\<lambda>_. conversation_ok (mdl_next_seq m) (mdl_retention m)) (mdl_conversations m)
     \<and> members_known m"

text \<open>Every entry sits under the folded form of the name it shows.\<close>

definition model_keyed :: "casemapping \<Rightarrow> model \<Rightarrow> bool" where
  "model_keyed cm m \<longleftrightarrow>
     bt_all (\<lambda>k c. k = case_fold cm (ch_name c)) (mdl_channels m)
     \<and> bt_all (\<lambda>k c. k = case_fold cm (cv_nick c)) (mdl_conversations m)
     \<and> bt_all (\<lambda>k p. k = case_fold cm (per_nick p)) (mdl_people m)
     \<and> bt_all (\<lambda>k w. k = case_fold cm (who_nick w)) (mdl_whois m)"

lemma bt_contains_keys: "bt_contains m k \<longleftrightarrow> k \<in> set (map fst m)"
  by (simp add: bt_contains_def map_of_eq_None_iff)

lemma bt_contains_simps [simp]:
  "bt_contains (bt_insert k v m) k' \<longleftrightarrow> k' = k \<or> bt_contains m k'"
  "bt_contains (bt_remove k m) k' \<longleftrightarrow> k' \<noteq> k \<and> bt_contains m k'"
  "bt_contains (bt_modify k f m) k' \<longleftrightarrow> bt_contains m k'"
  "bt_contains (bt_entry k d f m) k' \<longleftrightarrow> k' = k \<or> bt_contains m k'"
  "bt_contains (bt_map g m) k' \<longleftrightarrow> bt_contains m k'"
  "\<not> bt_contains [] k'"
  by (auto simp: bt_contains_def)

lemma members_known_iff:
  "bt_wf (mdl_channels m) \<Longrightarrow> members_known m \<longleftrightarrow>
     (\<forall>key c k. map_of (mdl_channels m) key = Some c \<longrightarrow> bt_contains (ch_members c) k \<longrightarrow> bt_contains (mdl_people m) k)"
  by (auto simp: members_known_def bt_all_iff list_all_iff bt_contains_keys [of "ch_members _"])

lemma model_ok_wf:
  assumes "model_ok m"
  shows "bt_wf (mdl_channels m)" "bt_wf (mdl_conversations m)" "bt_wf (mdl_people m)" "bt_wf (mdl_whois m)"
  using assms by (simp_all add: model_ok_def)

lemma model_ok_channel:
  "model_ok m \<Longrightarrow> map_of (mdl_channels m) k = Some c \<Longrightarrow> channel_ok (mdl_next_seq m) (mdl_retention m) c"
  by (auto simp: model_ok_def bt_all_iff)

lemma model_ok_member:
  "model_ok m \<Longrightarrow> map_of (mdl_channels m) key = Some c \<Longrightarrow> bt_contains (ch_members c) k \<Longrightarrow> bt_contains (mdl_people m) k"
  by (auto simp: model_ok_def members_known_iff)

text \<open>The same, over lookups.\<close>

lemma model_ok_iff:
  "model_ok m \<longleftrightarrow> bt_wf (mdl_channels m) \<and> bt_wf (mdl_conversations m) \<and> bt_wf (mdl_people m)
     \<and> bt_wf (mdl_whois m) \<and> 0 < mdl_retention m \<and> length (mdl_whois m) \<le> MAX_WHOIS_RECORDS
     \<and> (\<forall>k c. map_of (mdl_channels m) k = Some c \<longrightarrow> channel_ok (mdl_next_seq m) (mdl_retention m) c)
     \<and> (\<forall>k c. map_of (mdl_conversations m) k = Some c \<longrightarrow> conversation_ok (mdl_next_seq m) (mdl_retention m) c)
     \<and> (\<forall>key c k. map_of (mdl_channels m) key = Some c \<longrightarrow> bt_contains (ch_members c) k \<longrightarrow> bt_contains (mdl_people m) k)"
  unfolding model_ok_def using members_known_iff [of m] by (metis (mono_tags, lifting) bt_all_iff)

lemma channel_new_ok:
  "0 < r \<Longrightarrow> channel_ok seq r (channel_default\<lparr>ch_name := name, ch_log := log_with_retention r\<rparr>)"
  by (simp add: channel_ok_def channel_default_def log_bounded_def)

lemma conversation_new_ok:
  "0 < r \<Longrightarrow> conversation_ok seq r (conversation_default\<lparr>cv_nick := nick, cv_log := log_with_retention r\<rparr>)"
  by (simp add: conversation_ok_def conversation_default_def log_bounded_def)

lemma log_bounded_mono: "log_bounded seq r l \<Longrightarrow> seq \<le> seq' \<Longrightarrow> log_bounded seq' r l"
  by (auto simp: log_bounded_def bt_all_def list_all_iff)

section \<open>Every operation keeps it\<close>

lemma model_with_retention_ok [simp, inv_intros]: "model_ok (model_with_retention n)"
  by (simp add: model_with_retention_def model_ok_def members_known_def)

lemma next_message_key_ok [inv_intros]:
  assumes "model_ok m" "mdl_next_seq m < u64_max"
  shows "model_ok (snd (next_message_key t m))"
    "key_seq (fst (next_message_key t m)) < mdl_next_seq (snd (next_message_key t m))"
    "mdl_next_seq (snd (next_message_key t m)) = Suc (mdl_next_seq m)"
proof -
  have seq: "wrapping_add64 (mdl_next_seq m) 1 = Suc (mdl_next_seq m)"
    using assms(2) by (simp add: wrapping_add64_def u64_max_def)
  have "log_bounded (mdl_next_seq m) r l \<Longrightarrow> log_bounded (Suc (mdl_next_seq m)) r l" for r l
    by (erule log_bounded_mono) simp
  with assms(1) show "model_ok (snd (next_message_key t m))"
    unfolding next_message_key_def snd_conv seq
    by (simp add: model_ok_iff channel_ok_def conversation_ok_def)
  show "key_seq (fst (next_message_key t m)) < mdl_next_seq (snd (next_message_key t m))"
    "mdl_next_seq (snd (next_message_key t m)) = Suc (mdl_next_seq m)"
    using seq by (simp_all add: next_message_key_def)
qed

lemma channel_mut_ok [inv_intros]:
  assumes ok: "model_ok m"
    and f: "\<And>c. map_of (mdl_channels m) key = Some c \<Longrightarrow> channel_ok (mdl_next_seq m) (mdl_retention m) c \<Longrightarrow>
      channel_ok (mdl_next_seq m) (mdl_retention m) (f c)"
    and members: "\<And>c k. map_of (mdl_channels m) key = Some c \<Longrightarrow> bt_contains (ch_members (f c)) k \<Longrightarrow>
      bt_contains (ch_members c) k \<or> bt_contains (mdl_people m) k"
  shows "model_ok (channel_mut key f m)"
  using ok f members unfolding model_ok_iff channel_mut_def
  by (simp add: map_option_case split: option.splits if_splits) metis

lemma channel_or_insert_ok [inv_intros]:
  assumes ok: "model_ok m"
    and f: "\<And>c. channel_ok (mdl_next_seq m) (mdl_retention m) c \<Longrightarrow> channel_ok (mdl_next_seq m) (mdl_retention m) (f c)"
    and members: "\<And>c. ch_members (f c) = ch_members c"
  shows "model_ok (channel_or_insert key name f m)"
proof -
  let ?new = "channel_default\<lparr>ch_name := name, ch_log := log_with_retention (mdl_retention m)\<rparr>"
  have new: "channel_ok (mdl_next_seq m) (mdl_retention m) ?new" "ch_members ?new = []"
    using ok by (auto intro: channel_new_ok simp: model_ok_iff) (simp add: channel_default_def)
  show ?thesis
    using ok f members new unfolding model_ok_iff channel_or_insert_def
    by (auto split: option.splits if_splits)
qed

lemma conversation_or_insert_ok [inv_intros]:
  assumes ok: "model_ok m"
    and f: "\<And>c. conversation_ok (mdl_next_seq m) (mdl_retention m) c \<Longrightarrow> conversation_ok (mdl_next_seq m) (mdl_retention m) (f c)"
  shows "model_ok (conversation_or_insert key nick f m)"
proof -
  have new: "conversation_ok (mdl_next_seq m) (mdl_retention m)
      (conversation_default\<lparr>cv_nick := nick, cv_log := log_with_retention (mdl_retention m)\<rparr>)"
    using ok by (auto intro: conversation_new_ok simp: model_ok_iff)
  show ?thesis
    using ok f new unfolding model_ok_iff conversation_or_insert_def
    by (auto split: option.splits if_splits)
qed

lemma conversation_mut_ok [inv_intros]:
  assumes ok: "model_ok m"
    and f: "\<And>c. map_of (mdl_conversations m) key = Some c \<Longrightarrow> conversation_ok (mdl_next_seq m) (mdl_retention m) c \<Longrightarrow>
      conversation_ok (mdl_next_seq m) (mdl_retention m) (f c)"
  shows "model_ok (conversation_mut key f m)"
  using ok f unfolding model_ok_iff conversation_mut_def
  by (simp add: map_option_case split: option.splits if_splits)

lemma remove_channel_ok [inv_intros]: "model_ok m \<Longrightarrow> model_ok (remove_channel key m)"
  unfolding model_ok_iff remove_channel_def by simp

lemma person_or_insert_ok [inv_intros]: "model_ok m \<Longrightarrow> model_ok (person_or_insert key nick f m)"
  unfolding model_ok_iff person_or_insert_def by (simp; metis)

lemma whois_mut_ok [inv_intros]: "model_ok m \<Longrightarrow> model_ok (whois_mut key f m)"
  unfolding model_ok_iff whois_mut_def by (simp; metis)

lemma channels_mut_ok [inv_intros]:
  assumes ok: "model_ok m"
    and f: "\<And>c. channel_ok (mdl_next_seq m) (mdl_retention m) c \<Longrightarrow> channel_ok (mdl_next_seq m) (mdl_retention m) (f c)"
    and members: "\<And>c k. bt_contains (ch_members (f c)) k \<Longrightarrow> bt_contains (ch_members c) k"
  shows "model_ok (channels_mut f m)"
  using ok f members unfolding model_ok_iff channels_mut_def by (simp; metis)

lemma me_update_ok [inv_intros]: "model_ok m \<Longrightarrow> model_ok (m\<lparr>mdl_me := u\<rparr>)"
  unfolding model_ok_iff by simp

lemma rename_member_ok:
  "channel_ok seq r c \<Longrightarrow> channel_ok seq r (rename_member old new c)"
  by (auto simp: rename_member_def channel_ok_def split: option.splits)

lemma rename_member_look:
  "map_of (ch_members (rename_member old new c)) k =
     (case map_of (ch_members c) old of
        None \<Rightarrow> map_of (ch_members c) k
      | Some x \<Rightarrow> if k = new then Some x else if k = old then None else map_of (ch_members c) k)"
  by (simp add: rename_member_def bt.move_look split: option.splits)

lemma model_rename_fields:
  "mdl_channels (model_rename cm from to m) = bt_map (rename_member (case_fold cm from) (case_fold cm to)) (mdl_channels m)"
  "mdl_conversations (model_rename cm from to m) =
     (case map_of (mdl_conversations m) (case_fold cm from) of
        Some q \<Rightarrow> bt_insert (case_fold cm to) (q\<lparr>cv_nick := to\<rparr>) (bt_remove (case_fold cm from) (mdl_conversations m))
      | None \<Rightarrow> mdl_conversations m)"
  "mdl_people (model_rename cm from to m) =
     (case map_of (mdl_people m) (case_fold cm from) of
        Some p \<Rightarrow> bt_insert (case_fold cm to) (p\<lparr>per_nick := to\<rparr>) (bt_remove (case_fold cm from) (mdl_people m))
      | None \<Rightarrow> mdl_people m)"
  "mdl_whois (model_rename cm from to m) = mdl_whois m"
  "mdl_retention (model_rename cm from to m) = mdl_retention m"
  "mdl_next_seq (model_rename cm from to m) = mdl_next_seq m"
  "mdl_me (model_rename cm from to m) =
     (if case_eq cm (me_nick (mdl_me m)) from then (mdl_me m)\<lparr>me_nick := to\<rparr> else mdl_me m)"
  by (simp_all add: model_rename_def Let_def channels_mut_def split: option.splits)

lemma model_rename_ok [inv_intros]:
  assumes ok: "model_ok m"
  shows "model_ok (model_rename cm from to m)"
proof -
  let ?old = "case_fold cm from" and ?new = "case_fold cm to"
  have known: "bt_contains (mdl_people (model_rename cm from to m)) k"
    if c: "map_of (mdl_channels m) key = Some c" and k: "bt_contains (ch_members (rename_member ?old ?new c)) k" for key c k
  proof (cases "bt_contains (ch_members c) ?old")
    case True
    with model_ok_member [OF ok c] obtain p where p: "map_of (mdl_people m) ?old = Some p"
      by (auto simp: bt_contains_def)
    show ?thesis
      using k True model_ok_member [OF ok c, of k]
      by (auto simp: model_rename_fields p bt_contains_def rename_member_look split: option.splits if_splits)
  next
    case False
    then have kc: "bt_contains (ch_members c) k" "k \<noteq> ?old"
      using k by (auto simp: bt_contains_def rename_member_look split: option.splits)
    then show ?thesis
      using model_ok_member [OF ok c, of k]
      by (simp add: model_rename_fields split: option.splits)
  qed
  have "conversation_ok (mdl_next_seq m) (mdl_retention m) c"
    if "map_of (mdl_conversations (model_rename cm from to m)) k = Some c" for k c
    using that ok unfolding model_rename_fields model_ok_iff
    by (auto simp: conversation_ok_def split: option.splits if_splits)
  moreover have "bt_wf (mdl_conversations (model_rename cm from to m))" "bt_wf (mdl_people (model_rename cm from to m))"
    using model_ok_wf [OF ok] by (simp_all add: model_rename_fields split: option.splits)
  ultimately show ?thesis
    using ok known rename_member_ok unfolding model_ok_iff
    by (simp add: model_rename_fields(1,4,5,6)) blast
qed

lemma model_rename_channel_ok [inv_intros]:
  "model_ok m \<Longrightarrow> model_ok (snd (model_rename_channel cm from to m))"
  unfolding model_ok_iff model_rename_channel_def
  by (auto simp: channel_ok_def split: option.splits if_splits)

lemma shared_keys_iff:
  "k \<in> set (shared_keys m) \<longleftrightarrow>
     bt_contains (mdl_conversations m) k \<or> (\<exists>(key, c)\<in>set (mdl_channels m). bt_contains (ch_members c) k)"
  by (auto simp: shared_keys_def bt_contains_keys)

lemma shared_keys_member:
  "map_of (mdl_channels m) key = Some c \<Longrightarrow> bt_contains (ch_members c) k \<Longrightarrow> k \<in> set (shared_keys m)"
  by (auto simp: shared_keys_iff dest: map_of_SomeD)

lemma forget_strangers_ok [inv_intros]:
  assumes ok: "model_ok m"
  shows "model_ok (forget_strangers m)"
proof -
  have "bt_contains (bt_retain (\<lambda>key person. key \<in> set (shared_keys m) \<or> per_nick person = me_nick (mdl_me m)) (mdl_people m)) k"
    if "map_of (mdl_channels m) key = Some c" "bt_contains (ch_members c) k" for key c k
    using model_ok_member [OF ok that] shared_keys_member [OF that] model_ok_wf(3) [OF ok]
    by (auto simp: bt_contains_def)
  moreover have "length (bt_retain P (mdl_whois m)) \<le> MAX_WHOIS_RECORDS" for P
    using ok length_bt_retain_le [of P "mdl_whois m"] by (simp add: model_ok_iff)
  ultimately show ?thesis
    using ok unfolding model_ok_iff forget_strangers_def Let_def by simp
qed

lemma forget_whois_ok [inv_intros]: "model_ok m \<Longrightarrow> model_ok (forget_whois m)"
  unfolding model_ok_iff forget_whois_def by simp

lemma remove_everywhere_ok [inv_intros]: "model_ok m \<Longrightarrow> model_ok (snd (remove_everywhere who m))"
  by (auto simp: remove_everywhere_def channel_ok_def intro!: channels_mut_ok)

lemma length_bt_remove_there:
  assumes "bt_wf m" "bt_contains m k"
  shows "Suc (length (bt_remove k m)) = length m"
  using assms
proof (induction m)
  case (Cons kv m)
  show ?case
  proof (cases "fst kv = k")
    case True
    then have "map_of m k = None"
      using Cons.prems bt_wf_distinct [of "kv # m"] by (auto simp: map_of_eq_None_iff)
    from bt_remove_absent [OF this] True show ?thesis
      by (simp add: bt_remove_def case_prod_unfold)
  next
    case False
    then show ?thesis
      using Cons by (cases kv) (auto simp: bt_wf_Cons bt_contains_def bt_remove_def)
  qed
qed simp

lemma stale_whois_there:
  "rs \<noteq> [] \<Longrightarrow> \<exists>k. stale_whois rs = Some k \<and> bt_contains rs k"
proof (cases "find (\<lambda>(_, record). who_complete record) rs")
  case None
  assume "rs \<noteq> []"
  then show ?thesis
    using None by (cases rs) (auto simp: stale_whois_def bt_contains_def)
next
  case (Some kr)
  then show ?thesis
    using find_mem [OF Some] by (cases kr) (force simp: stale_whois_def bt_contains_keys)
qed

text \<open>The records a reply is merged into: the ones held, less the one that makes room.\<close>

definition whois_room :: "case_folded \<Rightarrow> (case_folded, whois) btree \<Rightarrow> (case_folded, whois) btree" where
  "whois_room key rs =
     (if MAX_WHOIS_RECORDS \<le> length rs \<and> \<not> bt_contains rs key
      then (case stale_whois rs of Some stale \<Rightarrow> bt_remove stale rs | None \<Rightarrow> rs) else rs)"

lemma whois_or_insert_room:
  "mdl_whois (whois_or_insert key nick f m) = bt_entry key whois_default
     (\<lambda>record. f (if who_complete record \<or> who_nick record = [] then whois_default\<lparr>who_nick := nick\<rparr> else record))
     (whois_room key (mdl_whois m))"
  by (simp add: whois_or_insert_def whois_room_def Let_def)

lemma whois_room_wf [simp]: "bt_wf rs \<Longrightarrow> bt_wf (whois_room key rs)"
  by (simp add: whois_room_def split: option.split)

lemma whois_room_look [simp]: "map_of (whois_room key rs) key = map_of rs key"
  by (auto simp: whois_room_def bt_contains_def split: option.split)

lemma whois_room_length:
  assumes "bt_wf rs" "length rs \<le> MAX_WHOIS_RECORDS"
  shows "bt_contains rs key \<or> length (whois_room key rs) < MAX_WHOIS_RECORDS"
    "length (whois_room key rs) \<le> MAX_WHOIS_RECORDS"
proof -
  have pos: "0 < MAX_WHOIS_RECORDS"
    by (simp add: MAX_WHOIS_RECORDS_def)
  show "bt_contains rs key \<or> length (whois_room key rs) < MAX_WHOIS_RECORDS"
  proof (cases "MAX_WHOIS_RECORDS \<le> length rs")
    case True
    then obtain k where "stale_whois rs = Some k" "bt_contains rs k"
      using stale_whois_there [of rs] pos by fastforce
    then show ?thesis
      using length_bt_remove_there [OF assms(1), of k] assms(2) by (auto simp: whois_room_def)
  qed (simp add: whois_room_def)
  show "length (whois_room key rs) \<le> MAX_WHOIS_RECORDS"
    using assms(2) by (auto simp: whois_room_def split: option.split intro: order_trans [OF length_bt_remove_le])
qed

lemma whois_or_insert_length:
  assumes "bt_wf (mdl_whois m)" "length (mdl_whois m) \<le> MAX_WHOIS_RECORDS"
  shows "length (mdl_whois (whois_or_insert key nick f m)) \<le> MAX_WHOIS_RECORDS"
  using whois_room_length [OF assms, of key] assms(1)
  by (auto simp: whois_or_insert_room bt_entry_def length_bt_insert bt_contains_def split: if_splits)

lemma whois_or_insert_ok [inv_intros]:
  assumes ok: "model_ok m"
  shows "model_ok (whois_or_insert key nick f m)"
proof -
  have "length (mdl_whois (whois_or_insert key nick f m)) \<le> MAX_WHOIS_RECORDS"
    using ok by (intro whois_or_insert_length) (simp_all add: model_ok_iff)
  moreover have "bt_wf (mdl_whois (whois_or_insert key nick f m))"
    using model_ok_wf(4) [OF ok] by (simp add: whois_or_insert_room)
  ultimately show ?thesis
    using ok unfolding model_ok_iff by (simp add: whois_or_insert_def Let_def; metis)
qed

lemma model_set_typing_ok [inv_intros]:
  assumes ok: "model_ok m"
  shows "model_ok (snd (model_set_typing target who typing m))"
proof -
  have wf: "bs_wf s \<Longrightarrow> bs_wf (snd (typing_update typing who s))" for s
    by (simp add: typing_update_def)
  show ?thesis
  proof (cases "model_channel m target")
    case (Some c)
    have "channel_ok (mdl_next_seq m) (mdl_retention m) c"
      using model_ok_channel [OF ok] Some by (simp add: model_channel_def)
    with wf have "bs_wf (snd (typing_update typing who (ch_typing c)))"
      by (simp add: channel_ok_def)
    then show ?thesis
      using ok Some by (auto simp: model_set_typing_def Let_def case_prod_unfold channel_ok_def intro!: channel_mut_ok)
  next
    case None
    show ?thesis
    proof (cases "model_conversation m target")
      case (Some c)
      have "conversation_ok (mdl_next_seq m) (mdl_retention m) c"
        using ok Some by (auto simp: model_ok_iff model_conversation_def)
      with wf have "bs_wf (snd (typing_update typing who (cv_typing c)))"
        by (simp add: conversation_ok_def)
      then show ?thesis
        using ok None Some by (auto simp: model_set_typing_def Let_def case_prod_unfold conversation_ok_def intro!: conversation_mut_ok)
    qed (use ok None in \<open>simp add: model_set_typing_def\<close>)
  qed
qed

section \<open>Entries stay under the folded form of their names\<close>

lemma keyed_new [simp]: "model_keyed cm (model_with_retention n)"
  by (simp add: model_keyed_def model_with_retention_def)

lemma keyed_next_message_key [inv_intros]: "model_keyed cm m \<Longrightarrow> model_keyed cm (snd (next_message_key t m))"
  by (simp add: model_keyed_def next_message_key_def)

lemma keyed_me [inv_intros]: "model_keyed cm m \<Longrightarrow> model_keyed cm (m\<lparr>mdl_me := u\<rparr>)"
  by (simp add: model_keyed_def)

lemma keyed_channel_mut [inv_intros]:
  "model_keyed cm m \<Longrightarrow> (\<And>c. ch_name (f c) = ch_name c) \<Longrightarrow> model_keyed cm (channel_mut k f m)"
  by (auto simp: model_keyed_def channel_mut_def intro: bt_all_modify)

lemma keyed_channels_mut [inv_intros]:
  "model_keyed cm m \<Longrightarrow> (\<And>c. ch_name (f c) = ch_name c) \<Longrightarrow> model_keyed cm (channels_mut f m)"
  by (auto simp: model_keyed_def channels_mut_def intro: bt_all_map)

lemma keyed_channel_or_insert [inv_intros]:
  "model_keyed cm m \<Longrightarrow> k = case_fold cm name \<Longrightarrow> (\<And>c. ch_name (f c) = ch_name c) \<Longrightarrow>
     model_keyed cm (channel_or_insert k name f m)"
  by (auto simp: model_keyed_def channel_or_insert_def intro: bt_all_entry)

lemma keyed_conversation_or_insert [inv_intros]:
  "model_keyed cm m \<Longrightarrow> k = case_fold cm nick \<Longrightarrow> (\<And>c. cv_nick (f c) = cv_nick c) \<Longrightarrow>
     model_keyed cm (conversation_or_insert k nick f m)"
  by (auto simp: model_keyed_def conversation_or_insert_def intro: bt_all_entry)

lemma keyed_conversation_mut [inv_intros]:
  "model_keyed cm m \<Longrightarrow> (\<And>c. cv_nick (f c) = cv_nick c) \<Longrightarrow> model_keyed cm (conversation_mut k f m)"
  by (auto simp: model_keyed_def conversation_mut_def intro: bt_all_modify)

lemma keyed_person_or_insert [inv_intros]:
  "model_keyed cm m \<Longrightarrow> k = case_fold cm nick \<Longrightarrow>
     (\<And>p. case_fold cm (per_nick p) = k \<Longrightarrow> case_fold cm (per_nick (f p)) = k) \<Longrightarrow>
     model_keyed cm (person_or_insert k nick f m)"
  unfolding model_keyed_def person_or_insert_def
  by (auto intro!: bt_all_entry)

lemma keyed_remove_channel [inv_intros]: "model_keyed cm m \<Longrightarrow> model_keyed cm (remove_channel k m)"
  by (simp add: model_keyed_def remove_channel_def bt_all_remove)

lemma keyed_whois_mut [inv_intros]:
  "model_keyed cm m \<Longrightarrow> (\<And>w. who_nick (f w) = who_nick w) \<Longrightarrow> model_keyed cm (whois_mut k f m)"
  by (auto simp: model_keyed_def whois_mut_def intro: bt_all_modify)

lemma keyed_whois_or_insert [inv_intros]:
  assumes m: "model_keyed cm m" and k: "k = case_fold cm nick" and f: "\<And>w. who_nick (f w) = who_nick w"
  shows "model_keyed cm (whois_or_insert k nick f m)"
proof -
  let ?P = "\<lambda>k w. k = case_fold cm (who_nick w)"
  have "bt_all ?P (mdl_whois m)"
    using m by (simp add: model_keyed_def)
  then have room: "bt_all ?P (whois_room k (mdl_whois m))"
    by (simp add: whois_room_def bt_all_remove split: option.split)
  have "bt_all ?P (mdl_whois (whois_or_insert k nick f m))"
    unfolding whois_or_insert_room bt_entry_def
    using bt_all_lookup [OF room, of k] f k
    by (intro bt_all_insert [OF room]) (auto simp: whois_default_def split: option.split)
  then show ?thesis
    using m by (simp add: model_keyed_def whois_or_insert_def Let_def)
qed

lemma keyed_forget [inv_intros]:
  "model_keyed cm m \<Longrightarrow> model_keyed cm (forget_strangers m)"
  "model_keyed cm m \<Longrightarrow> model_keyed cm (forget_whois m)"
  by (simp_all add: model_keyed_def forget_strangers_def forget_whois_def Let_def bt_all_retain)

lemma keyed_remove_everywhere [inv_intros]:
  "model_keyed cm m \<Longrightarrow> model_keyed cm (snd (remove_everywhere who m))"
  by (auto simp: remove_everywhere_def intro: keyed_channels_mut)

lemma rename_member_name [simp]: "ch_name (rename_member old new c) = ch_name c"
  by (simp add: rename_member_def split: option.split)

lemma keyed_model_rename [inv_intros]:
  "model_keyed cm m \<Longrightarrow> model_keyed cm (model_rename cm from to m)"
  by (auto simp: model_keyed_def model_rename_fields intro!: bt_all_insert bt_all_remove bt_all_map split: option.split)

lemma keyed_rename_channel [inv_intros]:
  "model_keyed cm m \<Longrightarrow> model_keyed cm (snd (model_rename_channel cm from to m))"
  by (auto simp: model_keyed_def model_rename_channel_def intro!: bt_all_insert bt_all_remove split: option.split)

section \<open>Properties\<close>

text \<open>
  Inserting a message answers whether it was new, and it is known exactly when a message with its
  id is held or, for a message without one, when one with the same instant, sender, kind and text is.
  A known message changes nothing; a new one is put in its place in time and the oldest are dropped,
  so exactly the newest ones up to the retention remain. The index by id stays the ids of the
  messages held.
\<close>

theorem message_log_insert:
  assumes "log_ok l" "log_get_by_key l (chat_key m) = None"
  shows "log_ok (snd (log_insert m l))
    \<and> (fst (log_insert m l) \<longleftrightarrow> \<not> log_known l m)
    \<and> (log_known l m \<longrightarrow> snd (log_insert m l) = l)
    \<and> (\<not> log_known l m \<longrightarrow> log_messages (snd (log_insert m l)) =
         drop (Suc (log_len l) - log_retention l) (bt_insert (chat_key m) m (log_messages l)))
    \<and> (\<forall>i. chat_msgid m = Some i \<longrightarrow> log_known l m = (\<exists>held\<in>set (log_iter l). chat_msgid held = Some i))
    \<and> (chat_msgid m = None \<and> key_time_ms (chat_key m) < u64_max \<longrightarrow>
         log_known l m = (\<exists>held\<in>set (log_iter l). key_time_ms (chat_key held) = key_time_ms (chat_key m)
           \<and> chat_sender held = chat_sender m \<and> chat_text held = chat_text m \<and> chat_kind held = chat_kind m))
    \<and> log_len (snd (log_insert m l)) \<le> log_retention l"
proof (intro conjI allI impI)
  show ok: "log_ok (snd (log_insert m l))"
    using assms by (rule log_insert_ok)
  show "fst (log_insert m l) \<longleftrightarrow> \<not> log_known l m"
    using log_insert_known log_insert_new(1) [OF assms] by (metis fst_conv)
  show "log_len (snd (log_insert m l)) \<le> log_retention l"
    using ok by (simp add: log_ok_def log_len_def)
next
  fix i assume "chat_msgid m = Some i"
  then show "log_known l m = (\<exists>held\<in>set (log_iter l). chat_msgid held = Some i)"
    using assms(1) by (simp add: log_known_def log_contains_iff)
qed (use assms in \<open>simp_all add: log_insert_known log_insert_new(2) log_len_def log_known_def log_has_twin_iff\<close>)

definition sample_log :: message_log where
  "sample_log = snd (log_insert ((chat_message_new (Message_Key 5 0) ''bob'' Privmsg)\<lparr>chat_msgid := Some ''a'', chat_text := ''hi''\<rparr>)
     (log_with_retention 1))"

theorem message_log_insert_witness:
  "log_messages (snd (log_insert (chat_message_new (Message_Key 6 1) ''bob'' Privmsg) sample_log)) =
     [(Message_Key 6 1, chat_message_new (Message_Key 6 1) ''bob'' Privmsg)]"
proof -
  have ok: "log_ok sample_log"
    unfolding sample_log_def by (rule log_insert_ok) (simp_all add: log_get_by_key_def)
  have sample: "sample_log = \<lparr>log_messages = [(Message_Key 5 0,
        (chat_message_new (Message_Key 5 0) ''bob'' Privmsg)\<lparr>chat_msgid := Some ''a'', chat_text := ''hi''\<rparr>)],
      log_by_msgid = [(''a'', Message_Key 5 0)], log_retention = 1\<rparr>"
    by (simp add: sample_log_def log_insert_def log_with_retention_def chat_message_new_def bt_contains_def
        log_trim_def Let_def)
  have "log_get_by_key sample_log (chat_key (chat_message_new (Message_Key 6 1) ''bob'' Privmsg)) = None"
    by (simp add: sample log_get_by_key_def chat_message_new_def)
  from message_log_insert [OF ok this] show ?thesis
    by (simp add: sample log_known_def log_has_twin_def chat_message_new_def log_len_def less_eq_message_key_def
        less_message_key_def Let_def)
qed

text \<open>
  A member's prefixes stay in the server's rank order, none twice, whatever is granted and revoked:
  granting adds exactly the prefix, revoking removes exactly it, and the first one shown is the highest
  held.
\<close>

theorem member_prefixes:
  assumes "ranked order m" "is_scalar c"
  shows "ranked order (grant c order m) \<and> ranked order (revoke c m)
    \<and> set (chars (mem_prefixes (grant c order m))) = insert c (set (chars (mem_prefixes m)))
    \<and> set (chars (mem_prefixes (revoke c m))) = set (chars (mem_prefixes m)) - {c}
    \<and> (\<forall>top held. top_prefix m = Some top \<longrightarrow> held \<in> set (chars (mem_prefixes m)) \<longrightarrow>
         rank_or_max order top \<le> rank_or_max order held)"
proof (intro conjI allI impI)
  have starts: "starts_scalar (mem_prefixes m)"
    using assms(1) by (simp add: ranked_def)
  show "ranked order (grant c order m)" "ranked order (revoke c m)"
    using assms by (simp_all add: grant_ranked revoke_ranked)
  show "set (chars (mem_prefixes (grant c order m))) = insert c (set (chars (mem_prefixes m)))"
    using grant_chars [OF starts assms(2)] by (auto simp: set_insort_key)
  show "set (chars (mem_prefixes (revoke c m))) = set (chars (mem_prefixes m)) - {c}"
    using revoke_chars [OF starts] by auto
next
  fix top held assume "top_prefix m = Some top" "held \<in> set (chars (mem_prefixes m))"
  then show "rank_or_max order top \<le> rank_or_max order held"
    using assms(1) by (cases "chars (mem_prefixes m)") (auto simp: ranked_def top_prefix_def)
qed

theorem member_prefixes_witness:
  "ranked prefix_default (grant ''@'' prefix_default \<lparr>mem_prefixes = ''+''\<rparr>)
   \<and> set (chars (mem_prefixes (grant ''@'' prefix_default \<lparr>mem_prefixes = ''+''\<rparr>))) = {''@'', ''+''}"
proof -
  have "ranked prefix_default \<lparr>mem_prefixes = ''+''\<rparr>" "is_scalar ''@''"
    by (simp_all add: ranked_def starts_scalar_def is_scalar_def is_cont_def)
  from member_prefixes [OF this] show ?thesis
    by simp
qed

text \<open>
  Renaming someone moves them everywhere at once: whoever was a member under the old folded nick is
  the same member under the new one, the conversation and the person move with their history and take
  the new spelling, nothing is left under the old nick, and our own nick follows when it was ours. The
  model stays well-formed, and every entry stays under the folded form of its name.
\<close>

theorem model_rename_moves:
  assumes "model_ok m" "model_keyed cm m"
    and "old = case_fold cm nick" "new = case_fold cm renamed" "m' = model_rename cm nick renamed m"
  shows "model_ok m' \<and> model_keyed cm m'
    \<and> (\<forall>key c. model_channel m key = Some c \<longrightarrow>
         (\<exists>c'. model_channel m' key = Some c' \<and> ch_log c' = ch_log c
            \<and> (\<forall>x. map_of (ch_members c) old = Some x \<longrightarrow> map_of (ch_members c') new = Some x)
            \<and> (old \<noteq> new \<longrightarrow> \<not> bt_contains (ch_members c') old)))
    \<and> (\<forall>q. model_conversation m old = Some q \<longrightarrow> model_conversation m' new = Some (q\<lparr>cv_nick := renamed\<rparr>))
    \<and> (\<forall>p. model_person m old = Some p \<longrightarrow> model_person m' new = Some (p\<lparr>per_nick := renamed\<rparr>))
    \<and> (old \<noteq> new \<longrightarrow> model_conversation m' old = None \<and> model_person m' old = None)
    \<and> me_nick (mdl_me m') = (if case_eq cm (me_nick (mdl_me m)) nick then renamed else me_nick (mdl_me m))"
proof (intro conjI allI impI)
  show "model_ok m'" "model_keyed cm m'"
    using assms by (auto intro: inv_intros)
next
  fix key c assume c: "model_channel m key = Some c"
  have "model_channel m' key = Some (rename_member old new c)"
    using c by (simp add: assms(3-5) model_rename_fields model_channel_def)
  moreover have "ch_log (rename_member old new c) = ch_log c"
    by (simp add: rename_member_def split: option.split)
  ultimately show "\<exists>c'. model_channel m' key = Some c' \<and> ch_log c' = ch_log c
      \<and> (\<forall>x. map_of (ch_members c) old = Some x \<longrightarrow> map_of (ch_members c') new = Some x)
      \<and> (old \<noteq> new \<longrightarrow> \<not> bt_contains (ch_members c') old)"
    by (auto simp: rename_member_look bt_contains_def split: option.split)
qed (auto simp: assms(3-5) model_rename_fields model_conversation_def model_person_def split: option.split)

definition sample_model :: model where
  "sample_model =
     (model_with_retention 2)\<lparr>
       mdl_me := local_user_default\<lparr>me_nick := ''me''\<rparr>,
       mdl_channels := [(''#a'', channel_default\<lparr>ch_name := ''#A'', ch_log := log_with_retention 2,
         ch_members := [(''bob'', \<lparr>mem_prefixes = ''@''\<rparr>), (''me'', membership_default)]\<rparr>)],
       mdl_people := [(''bob'', person_default\<lparr>per_nick := ''Bob''\<rparr>), (''me'', person_default\<lparr>per_nick := ''me''\<rparr>)]\<rparr>"

lemma bt_wf_eval: "bt_wf [(k, v)]" "k < k' \<Longrightarrow> bt_wf [(k, v), (k', v')]"
  by (simp_all add: bt_wf_def)

lemma sample_model_ok: "model_ok sample_model"
  by (simp add: sample_model_def model_ok_def model_with_retention_def bt_wf_eval members_known_def bt_all_def
      channel_ok_def log_bounded_def channel_default_def bt_contains_def)

lemma sample_model_keyed: "model_keyed Rfc1459 sample_model"
  by (simp add: sample_model_def model_keyed_def model_with_retention_def bt_all_def channel_default_def
      person_default_def case_fold_def fold_char_def fold_byte_def ascii_lower_def is_ascii_upper_def is_cont_def)

theorem model_rename_moves_witness:
  "model_ok (model_rename Rfc1459 ''BOB'' ''Rob'' sample_model)
   \<and> model_person (model_rename Rfc1459 ''BOB'' ''Rob'' sample_model) (case_fold Rfc1459 ''BOB'') = None"
proof -
  have "case_fold Rfc1459 ''BOB'' \<noteq> case_fold Rfc1459 ''Rob''"
    by (simp add: case_fold_def fold_char_def fold_byte_def ascii_lower_def is_ascii_upper_def is_cont_def)
  with model_rename_moves [OF sample_model_ok sample_model_keyed refl refl refl, where nick = "''BOB''" and renamed = "''Rob''"]
  show ?thesis by blast
qed

text \<open>
  Forgetting strangers keeps exactly the people and \<open>WHOIS\<close> records under a key that a channel or a
  conversation of ours still has, and the person who carries our own nick; channels and conversations
  are untouched, doing it twice changes nothing more, and everybody in a channel is still known.
\<close>

theorem forget_strangers_exact:
  assumes "model_ok m"
  shows "(\<forall>k. model_person (forget_strangers m) k =
           (case model_person m k of
              Some p \<Rightarrow> if k \<in> set (shared_keys m) \<or> per_nick p = me_nick (mdl_me m) then Some p else None
            | None \<Rightarrow> None))
    \<and> (\<forall>k. model_whois (forget_strangers m) k = (if k \<in> set (shared_keys m) then model_whois m k else None))
    \<and> mdl_channels (forget_strangers m) = mdl_channels m
    \<and> mdl_conversations (forget_strangers m) = mdl_conversations m
    \<and> forget_strangers (forget_strangers m) = forget_strangers m
    \<and> model_ok (forget_strangers m)"
proof (intro conjI allI)
  have wf: "bt_wf (mdl_people m)" "bt_wf (mdl_whois m)"
    using assms by (simp_all add: model_ok_iff)
  fix k
  show "model_person (forget_strangers m) k =
           (case model_person m k of
              Some p \<Rightarrow> if k \<in> set (shared_keys m) \<or> per_nick p = me_nick (mdl_me m) then Some p else None
            | None \<Rightarrow> None)"
    using wf by (simp add: model_person_def forget_strangers_def Let_def split: option.split)
  show "model_whois (forget_strangers m) k = (if k \<in> set (shared_keys m) then model_whois m k else None)"
    using wf by (simp add: model_whois_def forget_strangers_def Let_def split: option.split)
next
  have "shared_keys (forget_strangers m) = shared_keys m"
    by (simp add: shared_keys_def forget_strangers_def Let_def)
  then show "forget_strangers (forget_strangers m) = forget_strangers m"
    by (simp add: forget_strangers_def Let_def bt_retain_def)
qed (use assms in \<open>auto simp: forget_strangers_def Let_def intro: forget_strangers_ok [unfolded forget_strangers_def Let_def]\<close>)

theorem forget_strangers_exact_witness:
  "model_person (forget_strangers sample_model) ''bob'' = Some (person_default\<lparr>per_nick := ''Bob''\<rparr>)"
  using conjunct1 [OF forget_strangers_exact [OF sample_model_ok], THEN spec [of _ "''bob''"]]
  by (simp add: sample_model_def model_person_def shared_keys_def model_with_retention_def channel_default_def)

text \<open>
  At most 64 \<open>WHOIS\<close> records are held, however many nicks the server names. Filling one in
  starts from an empty record when none is held or the one held was already closed, and from the open
  one otherwise; the record that makes room is a complete one when there is any, and no other record is
  lost.
\<close>

theorem whois_records_bounded:
  assumes "model_ok m" "nick \<noteq> []" "m' = whois_or_insert key nick f m"
  shows "length (mdl_whois m') \<le> MAX_WHOIS_RECORDS
    \<and> model_whois m' key = Some (f (case model_whois m key of
         Some r \<Rightarrow> if who_complete r \<or> who_nick r = [] then whois_default\<lparr>who_nick := nick\<rparr> else r
       | None \<Rightarrow> whois_default\<lparr>who_nick := nick\<rparr>))
    \<and> (\<forall>k. k \<noteq> key \<longrightarrow> model_whois m' k = model_whois m k
         \<or> model_whois m' k = None \<and> length (mdl_whois m) = MAX_WHOIS_RECORDS \<and> model_whois m key = None
           \<and> stale_whois (mdl_whois m) = Some k)
    \<and> (\<forall>k r. stale_whois (mdl_whois m) = Some k \<longrightarrow> model_whois m k = Some r \<longrightarrow> who_complete r
         \<or> (\<forall>k r. model_whois m k = Some r \<longrightarrow> \<not> who_complete r))"
proof (intro conjI allI impI)
  have len: "length (mdl_whois m) \<le> MAX_WHOIS_RECORDS" and wf: "bt_wf (mdl_whois m)"
    using assms(1) by (simp_all add: model_ok_iff)
  show "length (mdl_whois m') \<le> MAX_WHOIS_RECORDS"
    unfolding assms(3) by (rule whois_or_insert_length [OF wf len])
  show "model_whois m' key = Some (f (case model_whois m key of
         Some r \<Rightarrow> if who_complete r \<or> who_nick r = [] then whois_default\<lparr>who_nick := nick\<rparr> else r
       | None \<Rightarrow> whois_default\<lparr>who_nick := nick\<rparr>))"
    by (simp add: assms(3) model_whois_def whois_or_insert_room whois_default_def split: option.split)
  fix k
  assume "k \<noteq> key"
  then show "model_whois m' k = model_whois m k
         \<or> model_whois m' k = None \<and> length (mdl_whois m) = MAX_WHOIS_RECORDS \<and> model_whois m key = None
           \<and> stale_whois (mdl_whois m) = Some k"
    using len by (auto simp: assms(3) model_whois_def whois_or_insert_room whois_room_def bt_contains_def split: option.split)
next
  fix k r
  assume s: "stale_whois (mdl_whois m) = Some k" and r: "model_whois m k = Some r"
  have wf: "bt_wf (mdl_whois m)"
    using assms(1) by (simp add: model_ok_iff)
  show "who_complete r \<or> (\<forall>k r. model_whois m k = Some r \<longrightarrow> \<not> who_complete r)"
  proof (cases "find (\<lambda>(_, record). who_complete record) (mdl_whois m)")
    case None
    then show ?thesis
      using find_None_iff [of "\<lambda>(_, record). who_complete record" "mdl_whois m"] by (fastforce simp: model_whois_def dest: map_of_SomeD)
  next
    case (Some kr)
    then have "kr \<in> set (mdl_whois m)" "fst kr = k" "who_complete (snd kr)"
      using s find_mem [OF Some] by (auto simp: stale_whois_def)
    then have "map_of (mdl_whois m) k = Some (snd kr)"
      using bt_mem_iff [OF wf, of k "snd kr"] by auto
    then show ?thesis
      using r \<open>who_complete (snd kr)\<close> by (simp add: model_whois_def)
  qed
qed

theorem whois_records_bounded_witness:
  "model_whois (whois_or_insert ''bob'' ''Bob'' (\<lambda>r. r\<lparr>who_secure := True\<rparr>) sample_model) ''bob'' =
     Some (whois_default\<lparr>who_nick := ''Bob'', who_secure := True\<rparr>)"
  using whois_records_bounded [OF sample_model_ok _ refl, of "''Bob''" "''bob''" "\<lambda>r. r\<lparr>who_secure := True\<rparr>"]
  by (simp add: sample_model_def model_whois_def model_with_retention_def)

end
