(* ===== verification/Session.thy ===== *)
theory Session
  imports Model_Inv Message Modes Server_Time Formatting Sasl
begin

text \<open>
  Turning protocol lines into model changes (\<open>obby-client/src/session.rs\<close>). A handler takes the context
  and the line and returns what changed with the context after it. The \<open>externals\<close> parameter is used
  only for the Unicode table behind \<open>char::is_alphanumeric\<close>, beyond ASCII. The build modelled has no
  \<open>obby\<close> feature, so a TAGMSG is never a link preview.
\<close>

datatype change =
    MessageAdded string message_key
  | ChannelJoined string
  | ChannelParted string
  | ChannelMembersChanged string
  | ChannelTopicChanged string
  | NickChanged string string
  | ChannelModesChanged string
  | ReadMarkerMoved string
  | MessageReacted string string
  | MessageRedacted string string
  | MetadataChanged string string
  | WhoisReceived string
  | ChannelRenamed string string

definition WHOX_TOKEN :: string where "WHOX_TOKEN = ''332''"
definition WHOX_FIELDS :: string where "WHOX_FIELDS = ''%tcuhnfar''"

section \<open>Mentions\<close>

definition is_nick_char :: "externals \<Rightarrow> string \<Rightarrow> bool" where
  "is_nick_char e c =
     (case c of
        [b] \<Rightarrow> if is_ascii b then is_ascii_alphanumeric b \<or> b \<in> set (backslash # ''[]`_^{|}-'') else ext_alphanumeric e c
      | _ \<Rightarrow> ext_alphanumeric e c)"

text \<open>
  The search loop. A needle is never empty here, because a nick is not and folding keeps every scalar;
  the first test only makes the recursion total.
\<close>

function mentions_loop :: "externals \<Rightarrow> string \<Rightarrow> string \<Rightarrow> nat \<Rightarrow> bool" where
  "mentions_loop e needle folded start_at =
     (if needle = [] then False
      else case Option.bind (str_get_from start_at folded) (find_str needle) of
        None \<Rightarrow> False
      | Some offset \<Rightarrow>
          (let start = start_at + offset;
               end_at = start + length needle;
               before = Option.bind (str_get 0 start folded) (\<lambda>s. last_opt (chars s));
               after = Option.bind (str_get_from end_at folded) (\<lambda>s. hd_opt (chars s))
           in if \<not> (case before of Some c \<Rightarrow> is_nick_char e c | None \<Rightarrow> False)
                 \<and> \<not> (case after of Some c \<Rightarrow> is_nick_char e c | None \<Rightarrow> False)
              then True
              else mentions_loop e needle folded end_at))"
  by pat_completeness auto

lemma find_str_within: "find_str p s = Some i \<Longrightarrow> i + length p \<le> length s"
proof (induction s arbitrary: i)
  case (Cons c cs)
  then show ?case
    by (auto simp: starts_with_iff split: if_splits) (metis length_Cons length_append le_add1)
qed (simp split: if_splits)

termination mentions_loop
proof (relation "measure (\<lambda>(e, needle, folded, start_at). length folded - start_at)", goal_cases)
  case (2 e needle folded start_at offset start end_at before after)
  from 2(2) obtain rest where "str_get_from start_at folded = Some rest" "find_str needle rest = Some offset"
    by (auto simp: Option.bind_eq_Some_conv)
  then have "start_at + offset + length needle \<le> length folded"
    using find_str_within [of needle rest offset] by (auto simp: str_get_from_def split: if_splits)
  with 2(1,3,4) show ?case
    by (cases needle) auto
qed simp

declare mentions_loop.simps [simp del]

definition mentions :: "externals \<Rightarrow> casemapping \<Rightarrow> string \<Rightarrow> string \<Rightarrow> bool" where
  "mentions e cm message_text nick =
     (if nick = [] then False
      else mentions_loop e (case_fold cm nick) (concat (map (fold_char cm) (chars message_text))) 0)"

section \<open>The context\<close>

record session_context =
  ctx_model :: model
  ctx_isupport :: isupport
  ctx_latest_ms :: nat
  ctx_historical :: bool

abbreviation ctx_update :: "(model \<Rightarrow> model) \<Rightarrow> session_context \<Rightarrow> session_context" where
  "ctx_update f ctx \<equiv> ctx\<lparr>ctx_model := f (ctx_model ctx)\<rparr>"

definition ctx_casemapping :: "session_context \<Rightarrow> casemapping" where
  "ctx_casemapping ctx = isu_casemapping (ctx_isupport ctx)"

definition ctx_fold :: "session_context \<Rightarrow> string \<Rightarrow> case_folded" where
  "ctx_fold ctx name = isupport_fold (ctx_isupport ctx) name"

definition ctx_stamp :: "message \<Rightarrow> session_context \<Rightarrow> nat \<times> session_context" where
  "ctx_stamp line ctx =
     (let stamped = (case Option.bind (msg_tag line ''time'') server_time_parse of
                       Some t \<Rightarrow> t | None \<Rightarrow> ctx_latest_ms ctx)
      in (stamped, ctx\<lparr>ctx_latest_ms := max (ctx_latest_ms ctx) stamped\<rparr>))"

definition ctx_is_me :: "session_context \<Rightarrow> string \<Rightarrow> bool" where
  "ctx_is_me ctx nick \<longleftrightarrow> case_eq (ctx_casemapping ctx) (me_nick (mdl_me (ctx_model ctx))) nick"

definition line_sender :: "message \<Rightarrow> string" where
  "line_sender line = (case msg_source line of Some s \<Rightarrow> src_name s | None \<Rightarrow> [])"

abbreviation unwrap_or_default :: "string option \<Rightarrow> string" where
  "unwrap_or_default x \<equiv> (case x of Some s \<Rightarrow> s | None \<Rightarrow> [])"

section \<open>Messages\<close>

definition reply_tag :: "message \<Rightarrow> string option" where
  "reply_tag line =
     (case msg_tag line ''+reply'' of Some r \<Rightarrow> Some r | None \<Rightarrow> msg_tag line ''+draft/reply'')"

text \<open>The log a name refers to: the channel's, or else the conversation's; with an update of it.\<close>

definition target_log :: "case_folded \<Rightarrow> model \<Rightarrow> message_log option" where
  "target_log folded m =
     (case model_channel m folded of
        Some c \<Rightarrow> Some (ch_log c)
      | None \<Rightarrow> map_option cv_log (model_conversation m folded))"

definition target_log_mut :: "case_folded \<Rightarrow> (message_log \<Rightarrow> message_log) \<Rightarrow> model \<Rightarrow> model" where
  "target_log_mut folded f m =
     (case model_channel m folded of
        Some _ \<Rightarrow> channel_mut folded (\<lambda>c. c\<lparr>ch_log := f (ch_log c)\<rparr>) m
      | None \<Rightarrow> conversation_mut folded (\<lambda>c. c\<lparr>cv_log := f (cv_log c)\<rparr>) m)"

definition react :: "string \<Rightarrow> string \<Rightarrow> bool \<Rightarrow> chat_message \<Rightarrow> chat_message" where
  "react emoji who adding m =
     (let reactors = (case map_of (chat_reactions m) emoji of Some r \<Rightarrow> r | None \<Rightarrow> []) in
      if adding
      then m\<lparr>chat_reactions := bt_insert emoji (if who \<in> set reactors then reactors else reactors @ [who]) (chat_reactions m)\<rparr>
      else
        (let reactors = filter (\<lambda>r. r \<noteq> who) reactors in
         if reactors = [] then m\<lparr>chat_reactions := bt_remove emoji (chat_reactions m)\<rparr>
         else m\<lparr>chat_reactions := bt_insert emoji reactors (chat_reactions m)\<rparr>))"

definition session_reaction :: "session_context \<Rightarrow> message \<Rightarrow> (change list \<times> session_context) option" where
  "session_reaction ctx line =
     (case (case msg_tag line ''+draft/react'' of
              Some emoji \<Rightarrow> Some (emoji, True)
            | None \<Rightarrow> map_option (\<lambda>emoji. (emoji, False)) (msg_tag line ''+draft/unreact'')) of
        None \<Rightarrow> None
      | Some (emoji, adding) \<Rightarrow>
          Option.bind (reply_tag line) (\<lambda>msgid.
            (let who = ctx_fold ctx (line_sender line) in
             Option.bind (msg_param line 0) (\<lambda>name.
               (let folded = ctx_fold ctx name in
                Option.bind (target_log folded (ctx_model ctx)) (\<lambda>log.
                Option.bind (log_get log msgid) (\<lambda>_.
                  Some ([MessageReacted name msgid],
                    ctx_update (target_log_mut folded (log_get_mut msgid (react emoji who adding))) ctx))))))))"

text \<open>A preview of a link is attached to the message it describes, or dropped when there is no such message.\<close>

definition session_link_preview :: "session_context \<Rightarrow> message \<Rightarrow> (change list \<times> session_context) option" where
  "session_link_preview ctx line =
     (case link_preview_parse line of
        None \<Rightarrow> None
      | Some (msgid, preview) \<Rightarrow>
          Some (case msg_param line 0 of
                  None \<Rightarrow> ([], ctx)
                | Some name \<Rightarrow>
                    (let folded = ctx_fold ctx name in
                     case Option.bind (target_log folded (ctx_model ctx)) (\<lambda>log. log_get log msgid) of
                       None \<Rightarrow> ([], ctx)
                     | Some m \<Rightarrow>
                         ([MessageAdded name (chat_key m)],
                          ctx_update (target_log_mut folded
                            (log_get_mut msgid (\<lambda>m. m\<lparr>chat_link_preview := Some preview\<rparr>))) ctx))))"

text \<open>The lines without text that are about a message already filed.\<close>

definition session_annotation :: "session_context \<Rightarrow> message \<Rightarrow> (change list \<times> session_context) option" where
  "session_annotation ctx line =
     (case session_reaction ctx line of Some r \<Rightarrow> Some r | None \<Rightarrow> session_link_preview ctx line)"

definition message_body :: "string \<Rightarrow> message \<Rightarrow> message_kind \<times> string" where
  "message_body command line =
     (let body = (if command = ''TAGMSG'' then [] else unwrap_or_default (msg_param line 1)) in
      if command = ''TAGMSG'' then (Tagmsg, body)
      else if command = ''NOTICE'' then (Notice, body)
      else case parse_ctcp body of
          Some ctcp \<Rightarrow> (Ctcp (to_ascii_uppercase (ctcp_command ctcp)), ctcp_params ctcp)
        | None \<Rightarrow> (Privmsg, body))"

definition build_message :: "session_context \<Rightarrow> message \<Rightarrow> string \<Rightarrow> message_key \<Rightarrow> chat_message" where
  "build_message ctx line command key =
     (let (kind, body) = message_body command line; sender = line_sender line in
      (chat_message_new key sender kind)
        \<lparr>chat_text := body, chat_msgid := msg_tag line ''msgid'', chat_account := msg_tag line ''account'',
         chat_own := ctx_is_me ctx sender, chat_historical := ctx_historical ctx,
         chat_reply_to := reply_tag line\<rparr>)"

text \<open>Where a message belongs: its channel without the status prefix, or the conversation.\<close>

definition message_home :: "isupport \<Rightarrow> string \<Rightarrow> bool \<Rightarrow> string \<Rightarrow> string \<times> bool" where
  "message_home i target own sender =
     (let addressed = concat (dropWhile (is_statusmsg i) (chars target)) in
      if is_channel i addressed then (addressed, True)
      else if own then (target, False)
      else (sender, False))"

definition file_in_channel :: "chat_message \<Rightarrow> bool \<Rightarrow> bool \<Rightarrow> channel \<Rightarrow> channel" where
  "file_in_channel m counts addressed c =
     (let (accepted, log) = log_insert m (ch_log c); c = c\<lparr>ch_log := log\<rparr> in
      if accepted \<and> counts
      then c\<lparr>ch_unread := saturating_add u32_max (ch_unread c) 1,
             ch_mentions := (if addressed then saturating_add u32_max (ch_mentions c) 1 else ch_mentions c)\<rparr>
      else c)"

definition file_in_conversation :: "chat_message \<Rightarrow> bool \<Rightarrow> conversation \<Rightarrow> conversation" where
  "file_in_conversation m counts c =
     (let (accepted, log) = log_insert m (cv_log c); c = c\<lparr>cv_log := log\<rparr> in
      if accepted \<and> counts then c\<lparr>cv_unread := saturating_add u32_max (cv_unread c) 1\<rparr> else c)"

text \<open>The answer of \<open>insert\<close> on the log of the channel or conversation, created if it is not there.\<close>

definition channel_accepts :: "model \<Rightarrow> case_folded \<Rightarrow> chat_message \<Rightarrow> bool" where
  "channel_accepts m folded msg =
     fst (log_insert msg (case model_channel m folded of
        Some c \<Rightarrow> ch_log c | None \<Rightarrow> log_with_retention (mdl_retention m)))"

definition conversation_accepts :: "model \<Rightarrow> case_folded \<Rightarrow> chat_message \<Rightarrow> bool" where
  "conversation_accepts m folded msg =
     fst (log_insert msg (case model_conversation m folded of
        Some c \<Rightarrow> cv_log c | None \<Rightarrow> log_with_retention (mdl_retention m)))"

definition session_message :: "externals \<Rightarrow> session_context \<Rightarrow> message \<Rightarrow> string \<Rightarrow> change list \<times> session_context" where
  "session_message e ctx line command =
     (case msg_param line 0 of
        None \<Rightarrow> ([], ctx)
      | Some target \<Rightarrow>
          (case (if command = ''TAGMSG'' then session_annotation ctx line else None) of
             Some r \<Rightarrow> r
           | None \<Rightarrow>
               (let (time_ms, ctx) = ctx_stamp line ctx;
                    (key, m) = next_message_key time_ms (ctx_model ctx);
                    ctx = ctx\<lparr>ctx_model := m\<rparr>;
                    msg = build_message ctx line command key;
                    (name, in_channel) = message_home (ctx_isupport ctx) target (chat_own msg) (line_sender line);
                    counts = (\<not> chat_own msg \<and> \<not> chat_historical msg);
                    addressed = (counts \<and> mentions e (ctx_casemapping ctx) (chat_text msg) (me_nick (mdl_me m)));
                    folded = ctx_fold ctx name
                in if in_channel \<and> model_channel m folded = None then ([], ctx)
                   else if in_channel
                   then (if channel_accepts m folded msg then [MessageAdded name key] else [],
                         ctx_update (channel_or_insert folded name (file_in_channel msg counts addressed)) ctx)
                   else (if conversation_accepts m folded msg then [MessageAdded name key] else [],
                         ctx_update (conversation_or_insert folded name (file_in_conversation msg counts)) ctx))))"

definition session_redact :: "session_context \<Rightarrow> message \<Rightarrow> change list \<times> session_context" where
  "session_redact ctx line =
     (case (msg_param line 0, msg_param line 1) of
        (Some name, Some msgid) \<Rightarrow>
          (let folded = ctx_fold ctx name in
           (case Option.bind (target_log folded (ctx_model ctx)) (\<lambda>log. log_get log msgid) of
              None \<Rightarrow> ([], ctx)
            | Some _ \<Rightarrow>
                ([MessageRedacted name msgid],
                 ctx_update (target_log_mut folded (log_get_mut msgid (\<lambda>m. m\<lparr>chat_redacted := True\<rparr>))) ctx)))
      | _ \<Rightarrow> ([], ctx))"

definition session_mark_read :: "session_context \<Rightarrow> message \<Rightarrow> change list \<times> session_context" where
  "session_mark_read ctx line =
     (case (msg_param line 0, msg_param line 1) of
        (Some target, Some timestamp) \<Rightarrow>
          (let marker = (case strip_prefix ''timestamp='' timestamp of Some m \<Rightarrow> m | None \<Rightarrow> timestamp);
               folded = ctx_fold ctx target
           in if model_channel (ctx_model ctx) folded \<noteq> None
              then ([ReadMarkerMoved target],
                    ctx_update (channel_mut folded (\<lambda>c. c\<lparr>ch_read_marker := Some marker, ch_unread := 0, ch_mentions := 0\<rparr>)) ctx)
              else if model_conversation (ctx_model ctx) folded \<noteq> None
              then ([ReadMarkerMoved target],
                    ctx_update (conversation_mut folded (\<lambda>c. c\<lparr>cv_read_marker := Some marker, cv_unread := 0\<rparr>)) ctx)
              else ([], ctx))
      | _ \<Rightarrow> ([], ctx))"

section \<open>Joining, leaving, renaming\<close>

definition session_join :: "session_context \<Rightarrow> message \<Rightarrow> change list \<times> session_context" where
  "session_join ctx line =
     (case msg_param line 0 of
        None \<Rightarrow> ([], ctx)
      | Some name \<Rightarrow>
          (let who = line_sender line; folded = ctx_fold ctx name in
           if ctx_is_me ctx who
           then ([ChannelJoined name], ctx_update (channel_or_insert folded name (\<lambda>c. c)) ctx)
           else
             (let account = (case msg_param line 1 of Some a \<Rightarrow> if a = ''*'' then None else Some a | None \<Rightarrow> None);
                  key = ctx_fold ctx who
              in if model_channel (ctx_model ctx) folded = None then ([], ctx)
                 else
                   (let join_person = (\<lambda>p. let p = p\<lparr>per_nick := who\<rparr> in
                          if account \<noteq> None then p\<lparr>per_account := account\<rparr> else p);
                        join_member = (\<lambda>c. c\<lparr>ch_members := bt_entry key membership_default (\<lambda>x. x) (ch_members c)\<rparr>)
                    in ([ChannelMembersChanged name],
                        ctx_update (\<lambda>m. channel_mut folded join_member (person_or_insert key who join_person m)) ctx)))))"

definition session_part :: "session_context \<Rightarrow> message \<Rightarrow> change list \<times> session_context" where
  "session_part ctx line =
     (case msg_param line 0 of
        None \<Rightarrow> ([], ctx)
      | Some name \<Rightarrow>
          (let who = line_sender line; folded = ctx_fold ctx name in
           if ctx_is_me ctx who then ([ChannelParted name], ctx_update (remove_channel folded) ctx)
           else ([ChannelMembersChanged name],
                 ctx_update (\<lambda>m. forget_strangers
                   (channel_mut folded (\<lambda>c. c\<lparr>ch_members := bt_remove (ctx_fold ctx who) (ch_members c)\<rparr>) m)) ctx)))"

definition session_quit :: "session_context \<Rightarrow> message \<Rightarrow> change list \<times> session_context" where
  "session_quit ctx line =
     (let (left, m) = remove_everywhere (ctx_fold ctx (line_sender line)) (ctx_model ctx);
          m = forget_strangers m
      in (List.map_filter (\<lambda>key. map_option (\<lambda>c. ChannelMembersChanged (ch_name c)) (model_channel m key)) left,
          ctx\<lparr>ctx_model := m\<rparr>))"

definition session_kick :: "session_context \<Rightarrow> message \<Rightarrow> change list \<times> session_context" where
  "session_kick ctx line =
     (case (msg_param line 0, msg_param line 1) of
        (Some name, Some target) \<Rightarrow>
          (let folded = ctx_fold ctx name in
           if ctx_is_me ctx target then ([ChannelParted name], ctx_update (remove_channel folded) ctx)
           else ([ChannelMembersChanged name],
                 ctx_update (\<lambda>m. forget_strangers
                   (channel_mut folded (\<lambda>c. c\<lparr>ch_members := bt_remove (ctx_fold ctx target) (ch_members c)\<rparr>) m)) ctx))
      | _ \<Rightarrow> ([], ctx))"

definition session_nick :: "session_context \<Rightarrow> message \<Rightarrow> change list \<times> session_context" where
  "session_nick ctx line =
     (case msg_param line 0 of
        None \<Rightarrow> ([], ctx)
      | Some renamed \<Rightarrow>
          (let old = line_sender line in
           ([NickChanged old renamed], ctx_update (model_rename (ctx_casemapping ctx) old renamed) ctx)))"

definition session_rename_channel :: "session_context \<Rightarrow> message \<Rightarrow> change list \<times> session_context" where
  "session_rename_channel ctx line =
     (case (msg_param line 0, msg_param line 1) of
        (Some old, Some renamed) \<Rightarrow>
          (let (moved, m) = model_rename_channel (ctx_casemapping ctx) old renamed (ctx_model ctx) in
           if moved then ([ChannelRenamed old renamed], ctx\<lparr>ctx_model := m\<rparr>) else ([], ctx))
      | _ \<Rightarrow> ([], ctx))"

section \<open>Topics and names\<close>

definition set_topic :: "string \<Rightarrow> channel \<Rightarrow> channel" where
  "set_topic topic c = c\<lparr>ch_topic := (if topic = [] then None else Some topic)\<rparr>"

definition session_topic :: "session_context \<Rightarrow> message \<Rightarrow> change list \<times> session_context" where
  "session_topic ctx line =
     (case msg_param line 0 of
        None \<Rightarrow> ([], ctx)
      | Some name \<Rightarrow>
          (let folded = ctx_fold ctx name; topic = unwrap_or_default (msg_param line 1) in
           if model_channel (ctx_model ctx) folded = None then ([], ctx)
           else ([ChannelTopicChanged name],
                 ctx_update (channel_mut folded (\<lambda>c. (set_topic topic c)\<lparr>ch_topic_by := Some (line_sender line)\<rparr>)) ctx)))"

definition session_topic_reply :: "session_context \<Rightarrow> message \<Rightarrow> change list \<times> session_context" where
  "session_topic_reply ctx line =
     (case msg_param line 1 of
        None \<Rightarrow> ([], ctx)
      | Some name \<Rightarrow>
          (let folded = ctx_fold ctx name; topic = unwrap_or_default (msg_param line 2) in
           if model_channel (ctx_model ctx) folded = None then ([], ctx)
           else ([ChannelTopicChanged name], ctx_update (channel_mut folded (set_topic topic)) ctx)))"

text \<open>One entry of a NAMES reply after another; false once an entry finds that we are not in the channel.\<close>

fun names_loop :: "session_context \<Rightarrow> case_folded \<Rightarrow> string list \<Rightarrow> model \<Rightarrow> bool \<times> model" where
  "names_loop ctx folded [] m = (True, m)"
| "names_loop ctx folded (entry # entries) m =
     (let (prefixes, nick) = prefix_split (isu_prefix (ctx_isupport ctx)) entry;
          nick = hd (split_on (CHR ''!'') nick);
          key = ctx_fold ctx nick
      in if nick = [] then names_loop ctx folded entries m
         else if model_channel m folded = None then (False, m)
         else names_loop ctx folded entries
                (channel_mut folded (\<lambda>c. c\<lparr>ch_members := bt_entry key membership_default (\<lambda>x. x\<lparr>mem_prefixes := prefixes\<rparr>) (ch_members c)\<rparr>)
                  (person_or_insert key nick (\<lambda>p. p\<lparr>per_nick := nick\<rparr>) m)))"

definition session_names :: "session_context \<Rightarrow> message \<Rightarrow> change list \<times> session_context" where
  "session_names ctx line =
     (case msg_param line 2 of
        None \<Rightarrow> ([], ctx)
      | Some name \<Rightarrow>
          (let (done, m) = names_loop ctx (ctx_fold ctx name)
                 (split_whitespace (unwrap_or_default (msg_trailing line))) (ctx_model ctx)
           in (if done then [ChannelMembersChanged name] else [], ctx\<lparr>ctx_model := m\<rparr>)))"

section \<open>WHOIS\<close>

definition accumulates :: "string \<Rightarrow> bool" where
  "accumulates command \<longleftrightarrow>
     command \<in> {''311'', ''312'', ''313'', ''317'', ''319'', ''330'', ''338'', ''378'', ''671''}"

definition whois_fill :: "message \<Rightarrow> string \<Rightarrow> whois \<Rightarrow> whois" where
  "whois_fill line command r =
     (let trailing = msg_trailing line in
      if command = ''311''
      then r\<lparr>who_username := msg_param line 2, who_host := msg_param line 3, who_realname := trailing\<rparr>
      else if command = ''312'' then r\<lparr>who_server := msg_param line 2, who_server_info := trailing\<rparr>
      else if command = ''313'' then r\<lparr>who_operator := trailing\<rparr>
      else if command = ''317''
      then r\<lparr>who_idle_secs := Option.bind (msg_param line 2) (parse_unsigned u64_max),
             who_signon_ms := map_option (\<lambda>seconds. saturating_mul u64_max seconds 1000)
               (Option.bind (msg_param line 3) (parse_unsigned u64_max))\<rparr>
      else if command = ''319'' then r\<lparr>who_channels := split_whitespace (unwrap_or_default (msg_param line 2))\<rparr>
      else if command = ''330'' then r\<lparr>who_account := msg_param line 2\<rparr>
      else if command = ''338'' \<or> command = ''378''
      then r\<lparr>who_actual_host := (case msg_param line 3 of Some _ \<Rightarrow> msg_param line 2 | None \<Rightarrow> trailing)\<rparr>
      else if command = ''671'' then r\<lparr>who_secure := True\<rparr>
      else r)"

definition session_whois :: "session_context \<Rightarrow> message \<Rightarrow> string \<Rightarrow> change list \<times> session_context" where
  "session_whois ctx line command =
     (case msg_param line 1 of
        None \<Rightarrow> ([], ctx)
      | Some nick \<Rightarrow>
          (let key = ctx_fold ctx nick in
           if command = ''318''
           then (if model_whois (ctx_model ctx) key = None then ([], ctx)
                 else ([WhoisReceived nick], ctx_update (whois_mut key (\<lambda>r. r\<lparr>who_complete := True\<rparr>)) ctx))
           else ([], ctx_update (whois_or_insert key nick (whois_fill line command)) ctx)))"

section \<open>Metadata, presence and accounts\<close>

definition metadata_apply :: "string \<Rightarrow> string option \<Rightarrow> (string, string) btree \<Rightarrow> (string, string) btree" where
  "metadata_apply key new_value store =
     (case new_value of Some v \<Rightarrow> bt_insert key v store | None \<Rightarrow> bt_remove key store)"

definition session_metadata :: "session_context \<Rightarrow> message \<Rightarrow> nat \<Rightarrow> change list \<times> session_context" where
  "session_metadata ctx line offset =
     (case (msg_param line offset, msg_param line (offset + 1)) of
        (Some target, Some key) \<Rightarrow>
          (let target = (if target = ''*'' then me_nick (mdl_me (ctx_model ctx)) else target);
               new_value = (if msg_is line ''766'' then None else msg_param line (offset + 3));
               folded = ctx_fold ctx target
           in if is_channel (ctx_isupport ctx) target
              then (if model_channel (ctx_model ctx) folded = None then ([], ctx)
                    else ([MetadataChanged target key],
                          ctx_update (channel_mut folded (\<lambda>c. c\<lparr>ch_metadata := metadata_apply key new_value (ch_metadata c)\<rparr>)) ctx))
              else
                (let m = person_or_insert folded target
                       (\<lambda>p. p\<lparr>per_metadata := metadata_apply key new_value (per_metadata p)\<rparr>) (ctx_model ctx);
                     m = (if ctx_is_me ctx target
                          then m\<lparr>mdl_me := (mdl_me m)\<lparr>me_metadata := metadata_apply key new_value (me_metadata (mdl_me m))\<rparr>\<rparr>
                          else m)
                 in ([MetadataChanged target key], ctx\<lparr>ctx_model := m\<rparr>)))
      | _ \<Rightarrow> ([], ctx))"

definition person_changed :: "session_context \<Rightarrow> message \<Rightarrow> (person \<Rightarrow> person) \<Rightarrow> change list \<times> session_context" where
  "person_changed ctx line change_person =
     (let who = line_sender line;
          key = ctx_fold ctx who;
          m = person_or_insert key who change_person (ctx_model ctx);
          m = (if ctx_is_me ctx who
               then (let p = (case model_person m key of Some p \<Rightarrow> p | None \<Rightarrow> person_default)
                     in m\<lparr>mdl_me := (mdl_me m)\<lparr>me_away := per_away p, me_account := per_account p\<rparr>\<rparr>)
               else m)
      in (map (\<lambda>(_, c). ChannelMembersChanged (ch_name c))
            (filter (\<lambda>(_, c). bt_contains (ch_members c) key) (mdl_channels m)),
          ctx\<lparr>ctx_model := m\<rparr>))"

definition session_away :: "session_context \<Rightarrow> message \<Rightarrow> change list \<times> session_context" where
  "session_away ctx line = person_changed ctx line (\<lambda>p. p\<lparr>per_away := msg_param line 0\<rparr>)"

definition session_account :: "session_context \<Rightarrow> message \<Rightarrow> change list \<times> session_context" where
  "session_account ctx line =
     person_changed ctx line
       (\<lambda>p. p\<lparr>per_account := (case msg_param line 0 of Some a \<Rightarrow> if a = ''*'' then None else Some a | None \<Rightarrow> None)\<rparr>)"

section \<open>WHO\<close>

datatype who_login = Unknown | LoggedOut | As string

record who_row =
  row_channel :: string
  row_nick :: string
  row_user :: string
  row_host :: string
  row_flags :: string
  row_account :: who_login
  row_realname :: "string option"

definition who_person :: "who_row \<Rightarrow> person \<Rightarrow> person" where
  "who_person row p =
     (let p = p\<lparr>per_nick := row_nick row, per_username := Some (row_user row), per_host := Some (row_host row),
                per_operator := (CHR ''*'' \<in> set (row_flags row)), per_bot := (CHR ''B'' \<in> set (row_flags row))\<rparr>;
          p = (case row_realname row of Some r \<Rightarrow> p\<lparr>per_realname := Some r\<rparr> | None \<Rightarrow> p);
          p = (if starts_with ''G'' (row_flags row)
               then p\<lparr>per_away := (case per_away p of Some a \<Rightarrow> Some a | None \<Rightarrow> Some [])\<rparr>
               else p\<lparr>per_away := None\<rparr>)
      in case row_account row of
           Unknown \<Rightarrow> p
         | LoggedOut \<Rightarrow> p\<lparr>per_account := None\<rparr>
         | As account \<Rightarrow> p\<lparr>per_account := Some account\<rparr>)"

definition apply_who :: "session_context \<Rightarrow> who_row \<Rightarrow> change list \<times> session_context" where
  "apply_who ctx row =
     (let key = ctx_fold ctx (row_nick row);
          prefixes = concat (filter (\<lambda>c. prefix_rank (isu_prefix (ctx_isupport ctx)) c \<noteq> None) (chars (row_flags row)));
          m = person_or_insert key (row_nick row) (who_person row) (ctx_model ctx);
          folded = ctx_fold ctx (row_channel row)
      in if \<not> is_channel (ctx_isupport ctx) (row_channel row) \<or> model_channel m folded = None
         then ([], ctx\<lparr>ctx_model := m\<rparr>)
         else ([ChannelMembersChanged (row_channel row)],
               ctx\<lparr>ctx_model := channel_mut folded
                 (\<lambda>c. c\<lparr>ch_members := bt_entry key membership_default (\<lambda>x. x\<lparr>mem_prefixes := prefixes\<rparr>) (ch_members c)\<rparr>) m\<rparr>))"

definition session_who_reply :: "session_context \<Rightarrow> message \<Rightarrow> change list \<times> session_context" where
  "session_who_reply ctx line =
     (case (msg_param line 1, msg_param line 2, msg_param line 3, msg_param line 5, msg_param line 6) of
        (Some channel, Some user, Some host, Some nick, Some flags) \<Rightarrow>
          apply_who ctx
            \<lparr>row_channel = channel, row_nick = nick, row_user = user, row_host = host, row_flags = flags,
             row_account = Unknown,
             row_realname = map_option snd (Option.bind (msg_trailing line) (split_once sp))\<rparr>
      | _ \<Rightarrow> ([], ctx))"

definition session_whox_reply :: "session_context \<Rightarrow> message \<Rightarrow> change list \<times> session_context" where
  "session_whox_reply ctx line =
     (if msg_param line 1 \<noteq> Some WHOX_TOKEN then ([], ctx)
      else case (msg_param line 2, msg_param line 3, msg_param line 4, msg_param line 5, msg_param line 6, msg_param line 7) of
          (Some channel, Some user, Some host, Some nick, Some flags, Some account) \<Rightarrow>
            apply_who ctx
              \<lparr>row_channel = channel, row_nick = nick, row_user = user, row_host = host, row_flags = flags,
               row_account = (if account = ''0'' \<or> account = ''*'' then LoggedOut else As account),
               row_realname = msg_param line 8\<rparr>
        | _ \<Rightarrow> ([], ctx))"

section \<open>Modes\<close>

definition named_step :: "string \<Rightarrow> (string, string option) btree \<Rightarrow> (string, string option) btree" where
  "named_step entry modes =
     (case strip_prefix ''+'' entry of
        Some rest \<Rightarrow>
          (case split_once (CHR ''='') rest of
             Some (name, param) \<Rightarrow> bt_insert name (Some param) modes
           | None \<Rightarrow> bt_insert rest None modes)
      | None \<Rightarrow>
          (case strip_prefix ''-'' entry of
             Some name \<Rightarrow> bt_remove (hd (split_on (CHR ''='') name)) modes
           | None \<Rightarrow> modes))"

definition apply_named :: "case_folded \<Rightarrow> string list \<Rightarrow> model \<Rightarrow> bool \<times> model" where
  "apply_named folded entries m =
     (if model_channel m folded = None then (False, m)
      else (True, channel_mut folded (\<lambda>c. c\<lparr>ch_named_modes := fold named_step entries (ch_named_modes c)\<rparr>) m))"

definition report_named :: "session_context \<Rightarrow> string \<Rightarrow> string list \<Rightarrow> change list \<times> session_context" where
  "report_named ctx name entries =
     (let (known, m) = apply_named (ctx_fold ctx name) entries (ctx_model ctx)
      in (if known then [ChannelModesChanged name] else [], ctx\<lparr>ctx_model := m\<rparr>))"

definition session_prop :: "session_context \<Rightarrow> message \<Rightarrow> change list \<times> session_context" where
  "session_prop ctx line =
     (case msg_param line 0 of None \<Rightarrow> ([], ctx) | Some name \<Rightarrow> report_named ctx name (drop 1 (msg_params line)))"

definition session_prop_list :: "session_context \<Rightarrow> message \<Rightarrow> change list \<times> session_context" where
  "session_prop_list ctx line =
     (case msg_param line 1 of
        None \<Rightarrow> ([], ctx)
      | Some name \<Rightarrow>
          report_named ctx name (map (\<lambda>entry. ''+'' @ entry) (concat (map split_whitespace (drop 2 (msg_params line))))))"

definition user_mode_step :: "mode_change \<Rightarrow> string \<Rightarrow> string" where
  "user_mode_step change modes =
     (if mc_set change
      then (if mc_mode change \<in> set (chars modes) then modes else modes @ mc_mode change)
      else concat (filter (\<lambda>m. m \<noteq> mc_mode change) (chars modes)))"

text \<open>One change of a channel's modes, with whether a member has been touched so far.\<close>

definition channel_mode_step :: "session_context \<Rightarrow> case_folded \<Rightarrow> mode_change \<Rightarrow> bool \<times> model \<Rightarrow> bool \<times> model" where
  "channel_mode_step ctx folded change state =
     (let (touched, m) = state; order = isu_prefix (ctx_isupport ctx) in
      if mc_membership change
      then (case mc_arg change of
              None \<Rightarrow> (touched, m)
            | Some nick \<Rightarrow>
                (case char_for_mode order (mc_mode change) of
                   None \<Rightarrow> (touched, m)
                 | Some mark \<Rightarrow>
                     (let key = ctx_fold ctx nick in
                      if (case model_channel m folded of Some c \<Rightarrow> bt_contains (ch_members c) key | None \<Rightarrow> False)
                      then (True, channel_mut folded (\<lambda>c. c\<lparr>ch_members := bt_modify key
                              (if mc_set change then grant mark order else revoke mark) (ch_members c)\<rparr>) m)
                      else (touched, m))))
      else (touched, channel_mut folded (\<lambda>c. c\<lparr>ch_modes :=
              (if mc_set change then bt_insert (mc_mode change) (mc_arg change) (ch_modes c)
               else bt_remove (mc_mode change) (ch_modes c))\<rparr>) m))"

definition session_mode :: "session_context \<Rightarrow> message \<Rightarrow> change list \<times> session_context" where
  "session_mode ctx line =
     (case msg_param line 0 of
        None \<Rightarrow> ([], ctx)
      | Some target \<Rightarrow>
          if \<not> is_channel (ctx_isupport ctx) target
          then ([], ctx_update (\<lambda>m. m\<lparr>mdl_me := (mdl_me m)\<lparr>me_modes :=
                  fold user_mode_step (parse_user_modes (unwrap_or_default (msg_param line 1))) (me_modes (mdl_me m))\<rparr>\<rparr>) ctx)
          else
            (let folded = ctx_fold ctx target;
                 changes = parse_channel_modes (ctx_isupport ctx) (drop 1 (msg_params line));
                 (touched, m) = fold (channel_mode_step ctx folded) changes (False, ctx_model ctx)
             in (if touched then [ChannelModesChanged target, ChannelMembersChanged target] else [ChannelModesChanged target],
                 ctx\<lparr>ctx_model := m\<rparr>)))"

section \<open>The dispatcher\<close>

definition session_apply :: "externals \<Rightarrow> session_context \<Rightarrow> message \<Rightarrow> change list \<times> session_context" where
  "session_apply e ctx line =
     (let command = to_ascii_uppercase (msg_command line) in
      if command \<in> {''PRIVMSG'', ''NOTICE'', ''TAGMSG''} then session_message e ctx line command
      else if command = ''JOIN'' then session_join ctx line
      else if command = ''PART'' then session_part ctx line
      else if command = ''QUIT'' then session_quit ctx line
      else if command = ''KICK'' then session_kick ctx line
      else if command = ''NICK'' then session_nick ctx line
      else if command = ''RENAME'' then session_rename_channel ctx line
      else if command = ''TOPIC'' then session_topic ctx line
      else if command = ''MODE'' then session_mode ctx line
      else if command = ''332'' then session_topic_reply ctx line
      else if command = ''MARKREAD'' then session_mark_read ctx line
      else if command = ''REDACT'' then session_redact ctx line
      else if command = ''AWAY'' then session_away ctx line
      else if command = ''ACCOUNT'' then session_account ctx line
      else if command = ''METADATA'' then session_metadata ctx line 0
      else if command \<in> {''760'', ''761'', ''766''} then session_metadata ctx line 1
      else if command \<in> {''311'', ''312'', ''313'', ''317'', ''318'', ''319'', ''330'', ''338'', ''378'', ''671''}
      then session_whois ctx line command
      else if command = ''353'' then session_names ctx line
      else if command = ''352'' then session_who_reply ctx line
      else if command = ''354'' then session_whox_reply ctx line
      else if command = ''PROP'' then session_prop ctx line
      else if command = ''961'' then session_prop_list ctx line
      else ([], ctx))"

end
