(* ===== verification/Session_Props.thy ===== *)
theory Session_Props
  imports Session
begin

text \<open>
  What the session guarantees: every line keeps the model's invariant and the keys under the folded
  names, only our own JOIN and a RENAME bring a channel into being, messages are filed once and counted
  once, and the behaviour of the individual lines.
\<close>

section \<open>The context after a line\<close>

text \<open>
  The model is well-formed; with \<open>k\<close>, every entry is also keyed by the case mapping now in force,
  which lasts as long as the server does not announce another one.
\<close>

definition ctx_inv :: "bool \<Rightarrow> session_context \<Rightarrow> bool" where
  "ctx_inv k ctx \<longleftrightarrow> model_ok (ctx_model ctx) \<and> (k \<longrightarrow> model_keyed (ctx_casemapping ctx) (ctx_model ctx))"

abbreviation ctx_ok :: "session_context \<Rightarrow> bool" where
  "ctx_ok \<equiv> ctx_inv True"

lemma ctx_fold_case_fold: "ctx_fold ctx name = case_fold (ctx_casemapping ctx) name"
  by (simp add: ctx_fold_def ctx_casemapping_def isupport_fold_def)

lemma ctx_casemapping_update [simp]:
  "ctx_casemapping (ctx\<lparr>ctx_model := m\<rparr>) = ctx_casemapping ctx"
  "ctx_casemapping (ctx\<lparr>ctx_latest_ms := t\<rparr>) = ctx_casemapping ctx"
  by (simp_all add: ctx_casemapping_def)

lemma ctx_ok_update:
  "ctx_inv k ctx \<Longrightarrow> model_ok m \<Longrightarrow> (k \<longrightarrow> model_keyed (ctx_casemapping ctx) m) \<Longrightarrow> ctx_inv k (ctx\<lparr>ctx_model := m\<rparr>)"
  by (simp add: ctx_inv_def)

lemma ctx_ok_parts: "ctx_inv k ctx \<Longrightarrow> model_ok (ctx_model ctx)" "ctx_ok ctx \<Longrightarrow> model_keyed (ctx_casemapping ctx) (ctx_model ctx)"
  by (simp_all add: ctx_inv_def)

lemma channel_ok_simps:
  "channel_ok s r (c\<lparr>ch_topic := t\<rparr>) = channel_ok s r c"
  "channel_ok s r (c\<lparr>ch_topic_by := t\<rparr>) = channel_ok s r c"
  "channel_ok s r (c\<lparr>ch_name := n\<rparr>) = channel_ok s r c"
  "channel_ok s r c \<Longrightarrow> bt_wf ms \<Longrightarrow> channel_ok s r (c\<lparr>ch_members := ms\<rparr>)"
  "channel_ok s r c \<Longrightarrow> bt_wf md \<Longrightarrow> channel_ok s r (c\<lparr>ch_modes := md\<rparr>)"
  "channel_ok s r c \<Longrightarrow> bt_wf mt \<Longrightarrow> channel_ok s r (c\<lparr>ch_metadata := mt\<rparr>)"
  "channel_ok s r c \<Longrightarrow> bt_wf nm \<Longrightarrow> channel_ok s r (c\<lparr>ch_named_modes := nm\<rparr>)"
  "channel_ok s r c \<Longrightarrow> log_bounded s r l \<Longrightarrow> channel_ok s r (c\<lparr>ch_log := l\<rparr>)"
  by (simp_all add: channel_ok_def)

lemma channel_ok_dest:
  assumes "channel_ok s r c"
  shows "bt_wf (ch_members c)" "bt_wf (ch_modes c)" "bt_wf (ch_metadata c)" "bt_wf (ch_named_modes c)"
    "log_bounded s r (ch_log c)"
  using assms by (simp_all add: channel_ok_def)

section \<open>Logs inside the model\<close>

lemma log_bounded_fresh:
  assumes "log_bounded s r l" "s \<le> key_seq k"
  shows "log_get_by_key l k = None"
proof (rule ccontr)
  assume "log_get_by_key l k \<noteq> None"
  then obtain m where "map_of (log_messages l) k = Some m"
    by (auto simp: log_get_by_key_def)
  with assms bt_all_lookup [of "\<lambda>k _. key_seq k < s" "log_messages l" k m] show False
    by (simp add: log_bounded_def)
qed

lemma log_messages_insert_subset:
  "log_ok l \<Longrightarrow> log_get_by_key l (chat_key m) = None \<Longrightarrow>
     set (log_messages (snd (log_insert m l))) \<subseteq> insert (chat_key m, m) (set (log_messages l))"
  by (cases "log_known l m")
    (auto simp: log_insert_known log_insert_new(2) dest!: in_set_dropD dest: set_bt_insert [THEN subsetD])

lemma log_bounded_insert [inv_intros]:
  assumes l: "log_bounded s r l" and s: "key_seq (chat_key m) < s" and fresh: "log_get_by_key l (chat_key m) = None"
  shows "log_bounded s r (snd (log_insert m l))"
  using assms log_messages_insert_subset [of l m] log_insert_ok [of l m]
  by (fastforce simp: log_bounded_def bt_all_def list_all_iff)

lemma log_bounded_get_mut [inv_intros]:
  assumes l: "log_bounded s r l" and f: "\<And>m. chat_key (f m) = chat_key m \<and> chat_msgid (f m) = chat_msgid m"
  shows "log_bounded s r (log_get_mut i f l)"
proof -
  have "bt_all (\<lambda>k _. key_seq k < s) (log_messages (log_get_mut i f l))"
    using l by (auto simp: log_bounded_def log_get_mut_def split: option.split intro!: bt_all_modify)
  then show ?thesis
    using l f by (simp add: log_bounded_def log_get_mut_ok)
qed

lemma target_log_mut_ok:
  assumes ok: "ctx_inv k ctx" and f: "\<And>s r l. log_bounded s r l \<Longrightarrow> log_bounded s r (f l)"
  shows "ctx_inv k (ctx_update (target_log_mut folded f) ctx)"
proof (cases "model_channel (ctx_model ctx) folded")
  case (Some c)
  show ?thesis
    using ok f unfolding target_log_mut_def Some option.case ctx_inv_def
    by (auto intro!: channel_mut_ok keyed_channel_mut channel_ok_simps(8) simp: channel_ok_dest(5))
next
  case None
  show ?thesis
    using ok f unfolding target_log_mut_def None option.case ctx_inv_def
    by (auto intro!: conversation_mut_ok keyed_conversation_mut simp: conversation_ok_def)
qed

lemma react_key [simp]: "chat_key (react emoji who adding m) = chat_key m \<and> chat_msgid (react emoji who adding m) = chat_msgid m"
  by (simp add: react_def Let_def)

lemma reaction_ok:
  "ctx_inv k ctx \<Longrightarrow> session_reaction ctx line = Some (changes, ctx') \<Longrightarrow> ctx_inv k ctx'"
  unfolding session_reaction_def Let_def
  by (auto simp: Option.bind_eq_Some_conv split: option.splits intro!: target_log_mut_ok log_bounded_get_mut)

lemma annotation_ok:
  assumes "ctx_inv k ctx" "session_annotation ctx line = Some (changes, ctx')"
  shows "ctx_inv k ctx'"
proof (cases "session_reaction ctx line")
  case None
  then have "session_link_preview ctx line = Some (changes, ctx')"
    using assms(2) by (simp add: session_annotation_def)
  then show ?thesis
    using assms(1) unfolding session_link_preview_def Let_def
    by (auto split: option.splits intro!: target_log_mut_ok log_bounded_get_mut)
next
  case (Some r)
  then show ?thesis
    using assms by (auto simp: session_annotation_def dest: reaction_ok)
qed

lemma redact_ok: "ctx_inv k ctx \<Longrightarrow> ctx_inv k (snd (session_redact ctx line))"
  unfolding session_redact_def Let_def
  by (auto split: option.splits intro!: target_log_mut_ok log_bounded_get_mut)

section \<open>Filing a message\<close>

lemma log_bounded_file:
  assumes "log_bounded s r l" "key_seq (chat_key m) = s"
  shows "log_bounded (Suc s) r (snd (log_insert m l))"
proof -
  have "log_get_by_key l (chat_key m) = None"
    using assms by (simp add: log_bounded_fresh)
  moreover have "log_bounded (Suc s) r l"
    using assms(1) by (rule log_bounded_mono) simp
  ultimately show ?thesis
    using assms(2) by (intro log_bounded_insert) simp_all
qed

lemma file_in_channel_ok:
  assumes c: "channel_ok s r c" and m: "key_seq (chat_key m) = s"
  shows "channel_ok (Suc s) r (file_in_channel m counts addressed c)"
  using c log_bounded_file [OF channel_ok_dest(5) [OF c] m]
  by (auto simp: file_in_channel_def channel_ok_def case_prod_unfold Let_def saturating_add_def)

lemma file_in_channel_fields [simp]:
  "ch_name (file_in_channel m counts addressed c) = ch_name c"
  "ch_members (file_in_channel m counts addressed c) = ch_members c"
  "ch_log (file_in_channel m counts addressed c) = snd (log_insert m (ch_log c))"
  by (simp_all add: file_in_channel_def case_prod_unfold Let_def)

lemma file_in_conversation_ok:
  assumes c: "conversation_ok s r c" and m: "key_seq (chat_key m) = s"
  shows "conversation_ok (Suc s) r (file_in_conversation m counts c)"
  using c log_bounded_file [of s r "cv_log c" m] m
  by (auto simp: file_in_conversation_def conversation_ok_def case_prod_unfold Let_def saturating_add_def)

lemma file_in_conversation_fields [simp]:
  "cv_nick (file_in_conversation m counts c) = cv_nick c"
  "cv_log (file_in_conversation m counts c) = snd (log_insert m (cv_log c))"
  by (simp_all add: file_in_conversation_def case_prod_unfold Let_def)

lemma channel_ok_mono: "channel_ok s r c \<Longrightarrow> s \<le> s' \<Longrightarrow> channel_ok s' r c"
  by (auto simp: channel_ok_def intro: log_bounded_mono)

lemma conversation_ok_mono: "conversation_ok s r c \<Longrightarrow> s \<le> s' \<Longrightarrow> conversation_ok s' r c"
  by (auto simp: conversation_ok_def intro: log_bounded_mono)

text \<open>Filing under a fresh key keeps the model well-formed, whatever the target.\<close>

lemma next_message_key_fields:
  assumes "mdl_next_seq m < u64_max"
  shows "next_message_key t m = (Message_Key t (mdl_next_seq m), m\<lparr>mdl_next_seq := Suc (mdl_next_seq m)\<rparr>)"
  using assms by (simp add: next_message_key_def wrapping_add64_def u64_max_def)

lemma file_channel_ok:
  assumes ok: "model_ok m" and f: "\<And>c. channel_ok (mdl_next_seq m) (mdl_retention m) c \<Longrightarrow>
      channel_ok (Suc (mdl_next_seq m)) (mdl_retention m) (f c)" and members: "\<And>c. ch_members (f c) = ch_members c"
  shows "model_ok (channel_or_insert key name f (m\<lparr>mdl_next_seq := Suc (mdl_next_seq m)\<rparr>))"
proof -
  let ?new = "channel_default\<lparr>ch_name := name, ch_log := log_with_retention (mdl_retention m)\<rparr>"
  have new: "channel_ok (mdl_next_seq m) (mdl_retention m) ?new" "ch_members ?new = []"
    using ok by (auto intro: channel_new_ok simp: model_ok_iff) (simp add: channel_default_def)
  have mono: "\<And>c. channel_ok (mdl_next_seq m) (mdl_retention m) c \<Longrightarrow> channel_ok (Suc (mdl_next_seq m)) (mdl_retention m) c"
    "\<And>c. conversation_ok (mdl_next_seq m) (mdl_retention m) c \<Longrightarrow> conversation_ok (Suc (mdl_next_seq m)) (mdl_retention m) c"
    by (auto intro: channel_ok_mono conversation_ok_mono)
  show ?thesis
    using ok f members new mono unfolding model_ok_iff channel_or_insert_def
    by (auto split: option.splits if_splits)
qed

lemma file_conversation_ok:
  assumes ok: "model_ok m" and f: "\<And>c. conversation_ok (mdl_next_seq m) (mdl_retention m) c \<Longrightarrow>
      conversation_ok (Suc (mdl_next_seq m)) (mdl_retention m) (f c)"
  shows "model_ok (conversation_or_insert key nick f (m\<lparr>mdl_next_seq := Suc (mdl_next_seq m)\<rparr>))"
proof -
  have new: "conversation_ok (mdl_next_seq m) (mdl_retention m)
      (conversation_default\<lparr>cv_nick := nick, cv_log := log_with_retention (mdl_retention m)\<rparr>)"
    using ok by (auto intro: conversation_new_ok simp: model_ok_iff)
  have mono: "\<And>c. channel_ok (mdl_next_seq m) (mdl_retention m) c \<Longrightarrow> channel_ok (Suc (mdl_next_seq m)) (mdl_retention m) c"
    "\<And>c. conversation_ok (mdl_next_seq m) (mdl_retention m) c \<Longrightarrow> conversation_ok (Suc (mdl_next_seq m)) (mdl_retention m) c"
    by (auto intro: channel_ok_mono conversation_ok_mono)
  show ?thesis
    using ok f new mono unfolding model_ok_iff conversation_or_insert_def
    by (auto split: option.splits if_splits)
qed

section \<open>Every handler keeps the context well-formed\<close>

lemma add_member_ok:
  assumes "model_ok m"
  shows "model_ok (channel_mut folded (\<lambda>c. c\<lparr>ch_members := bt_entry key d g (ch_members c)\<rparr>) (person_or_insert key nick f m))"
proof (rule channel_mut_ok)
  show "model_ok (person_or_insert key nick f m)"
    using assms by (rule person_or_insert_ok)
qed (auto simp: channel_ok_def person_or_insert_def)

lemma drop_member_ok:
  assumes "model_ok m"
  shows "model_ok (forget_strangers (channel_mut folded (\<lambda>c. c\<lparr>ch_members := bt_remove key (ch_members c)\<rparr>) m))"
  using assms by (auto simp: channel_ok_def intro!: forget_strangers_ok channel_mut_ok)

lemma drop_member_keyed:
  assumes "model_keyed cm m"
  shows "model_keyed cm (forget_strangers (channel_mut folded (\<lambda>c. c\<lparr>ch_members := bt_remove key (ch_members c)\<rparr>) m))"
  using assms by (auto intro!: keyed_forget keyed_channel_mut)

lemma join_ok: "ctx_inv k ctx \<Longrightarrow> ctx_inv k (snd (session_join ctx line))"
  unfolding session_join_def
  by (auto simp: Let_def ctx_inv_def ctx_fold_case_fold split: option.split
      intro!: channel_or_insert_ok keyed_channel_or_insert add_member_ok keyed_channel_mut keyed_person_or_insert)

lemma part_ok: "ctx_inv k ctx \<Longrightarrow> ctx_inv k (snd (session_part ctx line))"
  unfolding session_part_def
  by (auto simp: Let_def ctx_inv_def split: option.split
      intro!: remove_channel_ok keyed_remove_channel drop_member_ok drop_member_keyed)

lemma quit_ok: "ctx_inv k ctx \<Longrightarrow> ctx_inv k (snd (session_quit ctx line))"
  unfolding session_quit_def
  by (auto simp: Let_def ctx_inv_def case_prod_unfold
      intro!: forget_strangers_ok keyed_forget remove_everywhere_ok keyed_remove_everywhere)

lemma kick_ok: "ctx_inv k ctx \<Longrightarrow> ctx_inv k (snd (session_kick ctx line))"
  unfolding session_kick_def
  by (auto simp: Let_def ctx_inv_def split: option.split
      intro!: remove_channel_ok keyed_remove_channel drop_member_ok drop_member_keyed)

lemma nick_ok: "ctx_inv k ctx \<Longrightarrow> ctx_inv k (snd (session_nick ctx line))"
  unfolding session_nick_def
  by (auto simp: Let_def ctx_inv_def split: option.split intro!: model_rename_ok keyed_model_rename)

lemma rename_channel_ok: "ctx_inv k ctx \<Longrightarrow> ctx_inv k (snd (session_rename_channel ctx line))"
  unfolding session_rename_channel_def case_prod_unfold
  by (auto simp: Let_def ctx_inv_def split: option.split intro!: model_rename_channel_ok keyed_rename_channel)

lemma topic_ok: "ctx_inv k ctx \<Longrightarrow> ctx_inv k (snd (session_topic ctx line))"
  unfolding session_topic_def set_topic_def
  by (auto simp: Let_def ctx_inv_def channel_ok_simps split: option.split intro!: channel_mut_ok keyed_channel_mut)

lemma topic_reply_ok: "ctx_inv k ctx \<Longrightarrow> ctx_inv k (snd (session_topic_reply ctx line))"
  unfolding session_topic_reply_def set_topic_def
  by (auto simp: Let_def ctx_inv_def channel_ok_simps split: option.split intro!: channel_mut_ok keyed_channel_mut)

lemma names_loop_ok:
  "model_ok m \<Longrightarrow> (k \<longrightarrow> model_keyed (ctx_casemapping ctx) m) \<Longrightarrow>
     model_ok (snd (names_loop ctx folded entries m)) \<and> (k \<longrightarrow> model_keyed (ctx_casemapping ctx) (snd (names_loop ctx folded entries m)))"
proof (induction entries arbitrary: m)
  case (Cons entry entries)
  define nick where "nick = hd (split_on (CHR ''!'') (snd (prefix_split (isu_prefix (ctx_isupport ctx)) entry)))"
  define m' where "m' = channel_mut folded (\<lambda>c. c\<lparr>ch_members := bt_entry (ctx_fold ctx nick) membership_default
      (\<lambda>x. x\<lparr>mem_prefixes := fst (prefix_split (isu_prefix (ctx_isupport ctx)) entry)\<rparr>) (ch_members c)\<rparr>)
    (person_or_insert (ctx_fold ctx nick) nick (\<lambda>p. p\<lparr>per_nick := nick\<rparr>) m)"
  have "model_ok m'" "(k \<longrightarrow> model_keyed (ctx_casemapping ctx) m')"
    unfolding m'_def using Cons.prems
    by (auto simp: ctx_fold_case_fold intro!: add_member_ok keyed_channel_mut keyed_person_or_insert)
  with Cons.IH have step: "model_ok (snd (names_loop ctx folded entries m'))
      \<and> (k \<longrightarrow> model_keyed (ctx_casemapping ctx) (snd (names_loop ctx folded entries m')))"
    by blast
  have "names_loop ctx folded (entry # entries) m =
      (if nick = [] then names_loop ctx folded entries m
       else if model_channel m folded = None then (False, m) else names_loop ctx folded entries m')"
    by (simp add: nick_def m'_def Let_def case_prod_unfold)
  with step Cons.IH [OF Cons.prems] Cons.prems show ?case
    by simp
qed simp

lemma names_ok: "ctx_inv k ctx \<Longrightarrow> ctx_inv k (snd (session_names ctx line))"
  unfolding session_names_def
  by (auto simp: Let_def ctx_inv_def case_prod_unfold split: option.split dest: names_loop_ok [of "ctx_model ctx" k ctx])

lemma whois_fill_nick [simp]: "who_nick (whois_fill line command r) = who_nick r"
  by (simp add: whois_fill_def Let_def)

lemma whois_ok: "ctx_inv k ctx \<Longrightarrow> ctx_inv k (snd (session_whois ctx line command))"
  unfolding session_whois_def
  by (auto simp: Let_def ctx_inv_def ctx_fold_case_fold split: option.split
      intro!: whois_mut_ok keyed_whois_mut whois_or_insert_ok keyed_whois_or_insert)

lemma metadata_apply_wf [simp]: "bt_wf s \<Longrightarrow> bt_wf (metadata_apply k v s)"
  by (simp add: metadata_apply_def split: option.split)

lemma metadata_parts_ok:
  "ctx_inv k ctx \<Longrightarrow> ctx_inv k (ctx_update (channel_mut target (\<lambda>c. c\<lparr>ch_metadata := metadata_apply key v (ch_metadata c)\<rparr>)) ctx)"
  "ctx_inv k ctx \<Longrightarrow> ctx_inv k (ctx\<lparr>ctx_model := person_or_insert (ctx_fold ctx who) who
     (\<lambda>p. p\<lparr>per_metadata := metadata_apply key v (per_metadata p)\<rparr>) (ctx_model ctx)\<rparr>)"
  "ctx_inv k (ctx\<lparr>ctx_model := m\<rparr>) \<Longrightarrow> ctx_inv k (ctx\<lparr>ctx_model := m\<lparr>mdl_me := u\<rparr>\<rparr>)"
  by (auto simp: ctx_inv_def ctx_fold_case_fold channel_ok_simps channel_ok_dest
      intro!: channel_mut_ok keyed_channel_mut person_or_insert_ok keyed_person_or_insert me_update_ok keyed_me)

lemma metadata_ok: "ctx_inv k ctx \<Longrightarrow> ctx_inv k (snd (session_metadata ctx line offset))"
  by (simp add: session_metadata_def Let_def metadata_parts_ok split: option.split)

lemma person_changed_ok:
  assumes "ctx_inv k ctx" "\<And>p. per_nick (f p) = per_nick p"
  shows "ctx_inv k (snd (person_changed ctx line f))"
  using assms unfolding person_changed_def
  by (auto simp: Let_def ctx_inv_def ctx_fold_case_fold
      intro!: person_or_insert_ok keyed_person_or_insert me_update_ok keyed_me)

lemma mark_read_ok: "ctx_inv k ctx \<Longrightarrow> ctx_inv k (snd (session_mark_read ctx line))"
  unfolding session_mark_read_def
  by (auto simp: Let_def ctx_inv_def channel_ok_def conversation_ok_def split: option.split
      intro!: channel_mut_ok keyed_channel_mut conversation_mut_ok keyed_conversation_mut)

lemma who_person_nick [simp]: "per_nick (who_person row p) = row_nick row"
  by (simp add: who_person_def Let_def split: option.split who_login.split)

lemma apply_who_ok: "ctx_inv k ctx \<Longrightarrow> ctx_inv k (snd (apply_who ctx row))"
  unfolding apply_who_def
  by (auto simp: Let_def ctx_inv_def ctx_fold_case_fold
      intro!: add_member_ok keyed_channel_mut person_or_insert_ok keyed_person_or_insert)

lemma who_reply_ok: "ctx_inv k ctx \<Longrightarrow> ctx_inv k (snd (session_who_reply ctx line))"
  by (auto simp: session_who_reply_def apply_who_ok split: option.split)

lemma whox_reply_ok: "ctx_inv k ctx \<Longrightarrow> ctx_inv k (snd (session_whox_reply ctx line))"
  by (auto simp: session_whox_reply_def apply_who_ok split: option.split)

lemma named_step_wf: "bt_wf ms \<Longrightarrow> bt_wf (named_step entry ms)"
  by (simp add: named_step_def split: option.split)

lemma named_fold_wf: "bt_wf ms \<Longrightarrow> bt_wf (fold named_step entries ms)"
  by (rule fold_keeps) (simp_all add: named_step_wf)

lemma report_named_ok: "ctx_inv k ctx \<Longrightarrow> ctx_inv k (snd (report_named ctx name entries))"
  unfolding report_named_def apply_named_def
  by (auto simp: Let_def ctx_inv_def channel_ok_simps channel_ok_dest named_fold_wf
      intro!: channel_mut_ok keyed_channel_mut)

lemma channel_mode_step_ok:
  assumes "model_ok (snd state) \<and> (k \<longrightarrow> model_keyed cm (snd state))"
  shows "model_ok (snd (channel_mode_step ctx folded change state)) \<and> (k \<longrightarrow> model_keyed cm (snd (channel_mode_step ctx folded change state)))"
  using assms unfolding channel_mode_step_def
  by (auto simp: Let_def case_prod_unfold channel_ok_simps channel_ok_dest split: option.split
      intro!: channel_mut_ok keyed_channel_mut)

lemma mode_ok: "ctx_inv k ctx \<Longrightarrow> ctx_inv k (snd (session_mode ctx line))"
proof -
  assume ok: "ctx_inv k ctx"
  have "model_ok (snd (fold (channel_mode_step ctx folded) changes (False, ctx_model ctx)))
      \<and> (k \<longrightarrow> model_keyed (ctx_casemapping ctx) (snd (fold (channel_mode_step ctx folded) changes (False, ctx_model ctx))))" for folded changes
    by (rule fold_keeps, erule channel_mode_step_ok) (use ok in \<open>simp add: ctx_inv_def\<close>)
  with ok show ?thesis
    unfolding session_mode_def
    by (auto simp: Let_def case_prod_unfold ctx_inv_def split: option.split intro!: me_update_ok keyed_me)
qed

section \<open>The message handler, step by step\<close>

text \<open>When the line is filed: its instant, the key it gets and the context the rest reads.\<close>

definition line_time :: "session_context \<Rightarrow> message \<Rightarrow> nat" where
  "line_time ctx line = fst (ctx_stamp line ctx)"

definition line_key :: "session_context \<Rightarrow> message \<Rightarrow> message_key" where
  "line_key ctx line = Message_Key (line_time ctx line) (mdl_next_seq (ctx_model ctx))"

definition line_built :: "session_context \<Rightarrow> message \<Rightarrow> string \<Rightarrow> chat_message" where
  "line_built ctx line command = build_message ctx line command (line_key ctx line)"

definition line_counts :: "session_context \<Rightarrow> message \<Rightarrow> bool" where
  "line_counts ctx line \<longleftrightarrow> \<not> ctx_is_me ctx (line_sender line) \<and> \<not> ctx_historical ctx"

definition line_addressed :: "externals \<Rightarrow> session_context \<Rightarrow> message \<Rightarrow> string \<Rightarrow> bool" where
  "line_addressed e ctx line command \<longleftrightarrow> line_counts ctx line
     \<and> mentions e (ctx_casemapping ctx) (snd (message_body command line)) (me_nick (mdl_me (ctx_model ctx)))"

definition line_home :: "session_context \<Rightarrow> message \<Rightarrow> string \<Rightarrow> string \<times> bool" where
  "line_home ctx line target =
     message_home (ctx_isupport ctx) target (ctx_is_me ctx (line_sender line)) (line_sender line)"

text \<open>The context with the instant noted and the sequence number used up.\<close>

definition line_ctx :: "session_context \<Rightarrow> message \<Rightarrow> session_context" where
  "line_ctx ctx line =
     ctx\<lparr>ctx_latest_ms := max (ctx_latest_ms ctx) (line_time ctx line),
         ctx_model := (ctx_model ctx)\<lparr>mdl_next_seq := Suc (mdl_next_seq (ctx_model ctx))\<rparr>\<rparr>"

lemma built_fields [simp]:
  "chat_key (line_built ctx line command) = line_key ctx line"
  "chat_own (line_built ctx line command) = ctx_is_me ctx (line_sender line)"
  "chat_historical (line_built ctx line command) = ctx_historical ctx"
  "chat_text (line_built ctx line command) = snd (message_body command line)"
  "chat_kind (line_built ctx line command) = fst (message_body command line)"
  "chat_sender (line_built ctx line command) = line_sender line"
  "chat_msgid (line_built ctx line command) = msg_tag line ''msgid''"
  by (simp_all add: line_built_def build_message_def chat_message_new_def case_prod_unfold Let_def)

lemma line_key_fields [simp]:
  "key_seq (line_key ctx line) = mdl_next_seq (ctx_model ctx)" "key_time_ms (line_key ctx line) = line_time ctx line"
  by (simp_all add: line_key_def)

lemma session_message_eq:
  assumes p: "msg_param line 0 = Some target" and seq: "mdl_next_seq (ctx_model ctx) < u64_max"
    and r: "command = ''TAGMSG'' \<longrightarrow> session_annotation ctx line = None"
    and home: "line_home ctx line target = (name, in_channel)" and folded: "folded = ctx_fold ctx name"
  shows "session_message e ctx line command =
    (if in_channel \<and> model_channel (ctx_model ctx) folded = None then ([], line_ctx ctx line)
     else if in_channel
     then (if channel_accepts (ctx_model ctx) folded (line_built ctx line command) then [MessageAdded name (line_key ctx line)] else [],
           ctx_update (channel_or_insert folded name
             (file_in_channel (line_built ctx line command) (line_counts ctx line) (line_addressed e ctx line command))) (line_ctx ctx line))
     else (if conversation_accepts (ctx_model ctx) folded (line_built ctx line command) then [MessageAdded name (line_key ctx line)] else [],
           ctx_update (conversation_or_insert folded name
             (file_in_conversation (line_built ctx line command) (line_counts ctx line))) (line_ctx ctx line)))"
proof -
  let ?t = "line_time ctx line" and ?m = "(ctx_model ctx)\<lparr>mdl_next_seq := Suc (mdl_next_seq (ctx_model ctx))\<rparr>"
  let ?c1 = "ctx\<lparr>ctx_latest_ms := max (ctx_latest_ms ctx) ?t\<rparr>"
  have stamp: "ctx_stamp line ctx = (?t, ?c1)"
    by (simp add: line_time_def ctx_stamp_def Let_def)
  have key: "next_message_key ?t (ctx_model ?c1) = (line_key ctx line, ?m)"
    using seq by (simp add: next_message_key_fields line_key_def)
  have c2: "?c1\<lparr>ctx_model := ?m\<rparr> = line_ctx ctx line"
    by (simp add: line_ctx_def)
  have me: "ctx_is_me (line_ctx ctx line) = ctx_is_me ctx"
    by (intro ext) (simp add: ctx_is_me_def ctx_casemapping_def line_ctx_def)
  have hist: "ctx_historical (line_ctx ctx line) = ctx_historical ctx"
    by (simp add: line_ctx_def)
  have built: "build_message (line_ctx ctx line) line command (line_key ctx line) = line_built ctx line command"
    using hist by (simp add: line_built_def build_message_def me)
  have same: "ctx_isupport (line_ctx ctx line) = ctx_isupport ctx" "ctx_casemapping (line_ctx ctx line) = ctx_casemapping ctx"
    "ctx_fold (line_ctx ctx line) = ctx_fold ctx" "mdl_me ?m = mdl_me (ctx_model ctx)"
    by (auto simp: line_ctx_def ctx_casemapping_def ctx_fold_def fun_eq_iff)
  have look: "model_channel ?m folded = model_channel (ctx_model ctx) folded"
    "channel_accepts ?m = channel_accepts (ctx_model ctx)" "conversation_accepts ?m = conversation_accepts (ctx_model ctx)"
    by (auto simp: model_channel_def channel_accepts_def conversation_accepts_def model_conversation_def fun_eq_iff cong: option.case_cong)
  have h: "message_home (ctx_isupport ctx) target (ctx_is_me ctx (line_sender line)) (line_sender line) = (name, in_channel)"
    using home by (simp add: line_home_def)
  have r': "(if command = ''TAGMSG'' then session_annotation ctx line else None) = None"
    using r by simp
  show ?thesis
    unfolding session_message_def p option.case r' Let_def stamp prod.case key c2 built built_fields same h
      folded [symmetric] look line_counts_def [symmetric] line_addressed_def [symmetric]
    by (rule refl)
qed

lemma line_ctx_ok:
  assumes ok: "ctx_inv k ctx" and seq: "mdl_next_seq (ctx_model ctx) < u64_max"
  shows "ctx_inv k (line_ctx ctx line)"
proof -
  have "model_ok ((ctx_model ctx)\<lparr>mdl_next_seq := Suc (mdl_next_seq (ctx_model ctx))\<rparr>)"
    using next_message_key_ok(1) [OF ctx_ok_parts(1) [OF ok] seq, of 0] seq by (simp add: next_message_key_fields)
  then show ?thesis
    using ok by (simp add: ctx_inv_def line_ctx_def ctx_casemapping_def model_keyed_def)
qed

lemma message_ok:
  assumes ok: "ctx_inv k ctx" and seq: "mdl_next_seq (ctx_model ctx) < u64_max"
  shows "ctx_inv k (snd (session_message e ctx line command))"
proof (cases "msg_param line 0")
  case None
  then show ?thesis using ok by (simp add: session_message_def)
next
  case (Some target)
  show ?thesis
  proof (cases "command = ''TAGMSG'' \<longrightarrow> session_annotation ctx line = None")
    case False
    then obtain changes ctx' where r: "command = ''TAGMSG''" "session_annotation ctx line = Some (changes, ctx')"
      by auto
    then show ?thesis
      using annotation_ok [OF ok r(2)] by (simp add: session_message_def Some)
  next
    case True
    obtain name in_channel where home: "line_home ctx line target = (name, in_channel)"
      by force
    have m: "model_ok (ctx_model ctx)" and keyed: "k \<longrightarrow> model_keyed (ctx_casemapping ctx) (ctx_model (line_ctx ctx line))"
      and cm: "ctx_casemapping (line_ctx ctx line) = ctx_casemapping ctx"
      and lm: "ctx_model (line_ctx ctx line) = (ctx_model ctx)\<lparr>mdl_next_seq := Suc (mdl_next_seq (ctx_model ctx))\<rparr>"
      using ok line_ctx_ok [OF ok seq] by (simp_all add: ctx_inv_def line_ctx_def ctx_casemapping_def)
    have "model_ok (channel_or_insert (ctx_fold ctx name) name
        (file_in_channel (line_built ctx line command) (line_counts ctx line) (line_addressed e ctx line command))
        (ctx_model (line_ctx ctx line)))"
      unfolding lm by (rule file_channel_ok [OF m]) (simp_all add: file_in_channel_ok)
    moreover have "model_ok (conversation_or_insert (ctx_fold ctx name) name
        (file_in_conversation (line_built ctx line command) (line_counts ctx line)) (ctx_model (line_ctx ctx line)))"
      unfolding lm by (rule file_conversation_ok [OF m]) (simp add: file_in_conversation_ok)
    ultimately show ?thesis
      unfolding session_message_eq [OF Some seq True home refl]
      using line_ctx_ok [OF ok seq] keyed
      by (simp add: ctx_inv_def cm ctx_fold_case_fold keyed_channel_or_insert keyed_conversation_or_insert)
  qed
qed

section \<open>What a line leaves alone\<close>

text \<open>
  The server's settings and the retention are not the session's to change, the latest instant never
  goes back and at most one sequence number is used up; a quiet line also brings no channel into being.
\<close>

definition ctx_frame :: "session_context \<Rightarrow> session_context \<Rightarrow> bool" where
  "ctx_frame ctx ctx' \<longleftrightarrow> ctx_isupport ctx' = ctx_isupport ctx \<and> ctx_historical ctx' = ctx_historical ctx
     \<and> ctx_latest_ms ctx \<le> ctx_latest_ms ctx' \<and> mdl_retention (ctx_model ctx') = mdl_retention (ctx_model ctx)
     \<and> mdl_next_seq (ctx_model ctx') \<le> Suc (mdl_next_seq (ctx_model ctx))"

definition no_new_channel :: "session_context \<Rightarrow> session_context \<Rightarrow> bool" where
  "no_new_channel ctx ctx' \<longleftrightarrow>
     (\<forall>k. bt_contains (mdl_channels (ctx_model ctx')) k \<longrightarrow> bt_contains (mdl_channels (ctx_model ctx)) k)"

definition quiet :: "session_context \<Rightarrow> session_context \<Rightarrow> bool" where
  "quiet ctx ctx' \<longleftrightarrow> ctx_frame ctx ctx' \<and> no_new_channel ctx ctx'"

lemma op_frame [simp]:
  "mdl_next_seq (channel_mut k f m) = mdl_next_seq m" "mdl_retention (channel_mut k f m) = mdl_retention m"
  "mdl_next_seq (conversation_mut k g m) = mdl_next_seq m" "mdl_retention (conversation_mut k g m) = mdl_retention m"
  "mdl_next_seq (channel_or_insert k n f m) = mdl_next_seq m" "mdl_retention (channel_or_insert k n f m) = mdl_retention m"
  "mdl_next_seq (conversation_or_insert k n g m) = mdl_next_seq m" "mdl_retention (conversation_or_insert k n g m) = mdl_retention m"
  "mdl_next_seq (person_or_insert k n h m) = mdl_next_seq m" "mdl_retention (person_or_insert k n h m) = mdl_retention m"
  "mdl_next_seq (whois_or_insert k n w m) = mdl_next_seq m" "mdl_retention (whois_or_insert k n w m) = mdl_retention m"
  "mdl_next_seq (whois_mut k w m) = mdl_next_seq m" "mdl_retention (whois_mut k w m) = mdl_retention m"
  "mdl_next_seq (remove_channel k m) = mdl_next_seq m" "mdl_retention (remove_channel k m) = mdl_retention m"
  "mdl_next_seq (forget_strangers m) = mdl_next_seq m" "mdl_retention (forget_strangers m) = mdl_retention m"
  "mdl_next_seq (snd (remove_everywhere k m)) = mdl_next_seq m" "mdl_retention (snd (remove_everywhere k m)) = mdl_retention m"
  "mdl_next_seq (snd (model_rename_channel cm a b m)) = mdl_next_seq m" "mdl_retention (snd (model_rename_channel cm a b m)) = mdl_retention m"
  "mdl_next_seq (target_log_mut k l m) = mdl_next_seq m" "mdl_retention (target_log_mut k l m) = mdl_retention m"
  by (simp_all add: channel_mut_def conversation_mut_def channel_or_insert_def conversation_or_insert_def
      person_or_insert_def whois_or_insert_def whois_mut_def remove_channel_def forget_strangers_def
      remove_everywhere_def channels_mut_def model_rename_channel_def target_log_mut_def Let_def split: option.split)

lemma op_channels [simp]:
  "bt_contains (mdl_channels (channel_mut k f m)) x = bt_contains (mdl_channels m) x"
  "mdl_channels (conversation_mut k g m) = mdl_channels m"
  "bt_contains (mdl_channels (channel_or_insert k n f m)) x \<longleftrightarrow> x = k \<or> bt_contains (mdl_channels m) x"
  "mdl_channels (conversation_or_insert k n g m) = mdl_channels m"
  "mdl_channels (person_or_insert k n h m) = mdl_channels m"
  "mdl_channels (whois_or_insert k n w m) = mdl_channels m"
  "mdl_channels (whois_mut k w m) = mdl_channels m"
  "bt_contains (mdl_channels (remove_channel k m)) x \<longleftrightarrow> x \<noteq> k \<and> bt_contains (mdl_channels m) x"
  "mdl_channels (forget_strangers m) = mdl_channels m"
  "bt_contains (mdl_channels (snd (remove_everywhere k m))) x = bt_contains (mdl_channels m) x"
  "bt_contains (mdl_channels (target_log_mut k l m)) x = bt_contains (mdl_channels m) x"
  "bt_contains (mdl_channels (model_rename cm a b m)) x = bt_contains (mdl_channels m) x"
  by (simp_all add: channel_mut_def conversation_mut_def channel_or_insert_def conversation_or_insert_def
      person_or_insert_def whois_or_insert_def whois_mut_def remove_channel_def forget_strangers_def
      remove_everywhere_def channels_mut_def target_log_mut_def model_rename_fields Let_def split: option.split)

lemma quiet_refl [simp]: "quiet ctx ctx"
  by (simp add: quiet_def ctx_frame_def no_new_channel_def)

lemma quiet_update:
  "mdl_retention m = mdl_retention (ctx_model ctx) \<Longrightarrow> mdl_next_seq m = mdl_next_seq (ctx_model ctx) \<Longrightarrow>
     (\<And>k. bt_contains (mdl_channels m) k \<Longrightarrow> bt_contains (mdl_channels (ctx_model ctx)) k) \<Longrightarrow>
     quiet ctx (ctx\<lparr>ctx_model := m\<rparr>)"
  by (simp add: quiet_def ctx_frame_def no_new_channel_def)

lemma names_loop_quiet:
  "mdl_retention (snd (names_loop ctx folded es m)) = mdl_retention m
   \<and> mdl_next_seq (snd (names_loop ctx folded es m)) = mdl_next_seq m
   \<and> (\<forall>k. bt_contains (mdl_channels (snd (names_loop ctx folded es m))) k = bt_contains (mdl_channels m) k)"
  by (induction es arbitrary: m) (simp_all add: Let_def case_prod_unfold)

lemma channel_mode_step_quiet:
  "mdl_retention (snd (channel_mode_step ctx folded change s)) = mdl_retention (snd s)
   \<and> mdl_next_seq (snd (channel_mode_step ctx folded change s)) = mdl_next_seq (snd s)
   \<and> (\<forall>k. bt_contains (mdl_channels (snd (channel_mode_step ctx folded change s))) k = bt_contains (mdl_channels (snd s)) k)"
  by (simp add: channel_mode_step_def Let_def case_prod_unfold split: option.split)

lemma channel_mode_fold_quiet:
  "mdl_retention (snd (fold (channel_mode_step ctx folded) cs s)) = mdl_retention (snd s)
   \<and> mdl_next_seq (snd (fold (channel_mode_step ctx folded) cs s)) = mdl_next_seq (snd s)
   \<and> (\<forall>k. bt_contains (mdl_channels (snd (fold (channel_mode_step ctx folded) cs s))) k = bt_contains (mdl_channels (snd s)) k)"
  by (induction cs arbitrary: s) (simp_all add: channel_mode_step_quiet)

lemma quiet_lines:
  "quiet ctx (snd (session_part ctx line))" "quiet ctx (snd (session_quit ctx line))"
  "quiet ctx (snd (session_kick ctx line))" "quiet ctx (snd (session_topic ctx line))"
  "quiet ctx (snd (session_topic_reply ctx line))" "quiet ctx (snd (session_mark_read ctx line))"
  "quiet ctx (snd (session_redact ctx line))" "quiet ctx (snd (session_whois ctx line command))"
  by (auto simp: session_part_def session_quit_def session_kick_def session_topic_def session_topic_reply_def
      session_mark_read_def session_redact_def session_whois_def Let_def case_prod_unfold
      split: option.split intro!: quiet_update)

lemma quiet_nick: "quiet ctx (snd (session_nick ctx line))"
  by (auto simp: session_nick_def Let_def model_rename_fields(5,6) split: option.split intro!: quiet_update)

lemma quiet_names: "quiet ctx (snd (session_names ctx line))"
  by (auto simp: session_names_def Let_def case_prod_unfold names_loop_quiet split: option.split intro!: quiet_update)

lemma quiet_mode: "quiet ctx (snd (session_mode ctx line))"
  by (auto simp: session_mode_def Let_def case_prod_unfold channel_mode_fold_quiet split: option.split intro!: quiet_update)

lemma quiet_metadata: "quiet ctx (snd (session_metadata ctx line offset))"
  by (simp add: session_metadata_def Let_def quiet_def ctx_frame_def no_new_channel_def split: option.split)

lemma quiet_person_changed: "quiet ctx (snd (person_changed ctx line f))"
  by (auto simp: person_changed_def Let_def intro!: quiet_update)

lemma quiet_apply_who: "quiet ctx (snd (apply_who ctx row))"
  by (auto simp: apply_who_def Let_def intro!: quiet_update)

lemma quiet_report_named: "quiet ctx (snd (report_named ctx name entries))"
  by (auto simp: report_named_def apply_named_def Let_def intro!: quiet_update)

lemma quiet_more:
  "quiet ctx (snd (session_away ctx line))" "quiet ctx (snd (session_account ctx line))"
  "quiet ctx (snd (session_who_reply ctx line))" "quiet ctx (snd (session_whox_reply ctx line))"
  "quiet ctx (snd (session_prop ctx line))" "quiet ctx (snd (session_prop_list ctx line))"
  by (simp_all add: session_away_def session_account_def session_who_reply_def session_whox_reply_def
      session_prop_def session_prop_list_def quiet_person_changed quiet_apply_who quiet_report_named split: option.split)

lemma quiet_line_ctx: "quiet ctx (line_ctx ctx line)"
  by (simp add: quiet_def ctx_frame_def no_new_channel_def line_ctx_def)

lemma quiet_filed:
  assumes "mdl_retention m = mdl_retention (ctx_model ctx)" "mdl_next_seq m = Suc (mdl_next_seq (ctx_model ctx))"
    "\<And>k. bt_contains (mdl_channels m) k \<Longrightarrow> bt_contains (mdl_channels (ctx_model ctx)) k"
  shows "quiet ctx ((line_ctx ctx line)\<lparr>ctx_model := m\<rparr>)"
  using assms by (simp add: quiet_def ctx_frame_def no_new_channel_def line_ctx_def)

lemma quiet_message:
  assumes seq: "mdl_next_seq (ctx_model ctx) < u64_max"
  shows "quiet ctx (snd (session_message e ctx line command))"
proof (cases "msg_param line 0")
  case None
  then show ?thesis by (simp add: session_message_def)
next
  case (Some target)
  show ?thesis
  proof (cases "command = ''TAGMSG'' \<longrightarrow> session_annotation ctx line = None")
    case False
    then obtain changes ctx' where r: "command = ''TAGMSG''" "session_annotation ctx line = Some (changes, ctx')"
      by auto
    then have "quiet ctx ctx'"
      by (auto simp: session_annotation_def session_reaction_def session_link_preview_def Let_def Option.bind_eq_Some_conv split: option.splits intro!: quiet_update)
    then show ?thesis
      using r by (simp add: session_message_def Some)
  next
    case True
    obtain name in_channel where home: "line_home ctx line target = (name, in_channel)"
      by force
    show ?thesis
      unfolding session_message_eq [OF Some seq True home refl]
      by (auto simp: quiet_line_ctx intro!: quiet_filed) (auto simp: line_ctx_def model_channel_def bt_contains_def)
  qed
qed

lemma join_frame: "ctx_frame ctx (snd (session_join ctx line))"
  by (simp add: session_join_def Let_def ctx_frame_def split: option.split)

lemma rename_channel_frame: "ctx_frame ctx (snd (session_rename_channel ctx line))"
  by (simp add: session_rename_channel_def Let_def ctx_frame_def case_prod_unfold split: option.split)

lemmas session_lines_ok =
  message_ok join_ok part_ok quit_ok kick_ok nick_ok rename_channel_ok topic_ok mode_ok topic_reply_ok mark_read_ok
  redact_ok metadata_ok whois_ok names_ok who_reply_ok whox_reply_ok

lemma session_apply_ok:
  assumes "ctx_inv k ctx" "mdl_next_seq (ctx_model ctx) < u64_max"
  shows "ctx_inv k (snd (session_apply e ctx line))"
proof -
  have "ctx_inv k (snd (session_away ctx line))" "ctx_inv k (snd (session_account ctx line))"
    "ctx_inv k (snd (session_prop ctx line))" "ctx_inv k (snd (session_prop_list ctx line))"
    using assms(1) by (auto simp: session_away_def session_account_def session_prop_def session_prop_list_def
        person_changed_ok report_named_ok split: option.split)
  then show ?thesis
    unfolding session_apply_def Let_def by (simp add: session_lines_ok assms)
qed

lemma quiet_frame: "quiet ctx ctx' \<Longrightarrow> ctx_frame ctx ctx'"
  by (simp add: quiet_def)

lemmas session_lines_quiet =
  quiet_lines quiet_nick quiet_names quiet_mode quiet_metadata quiet_more

lemma session_apply_frame:
  assumes "mdl_next_seq (ctx_model ctx) < u64_max"
  shows "ctx_frame ctx (snd (session_apply e ctx line))"
  unfolding session_apply_def Let_def
  by (simp add: session_lines_quiet [THEN quiet_frame] quiet_message [OF assms, THEN quiet_frame] join_frame rename_channel_frame
      quiet_refl [THEN quiet_frame])

lemma session_apply_quiet:
  assumes "mdl_next_seq (ctx_model ctx) < u64_max"
    and "to_ascii_uppercase (msg_command line) \<noteq> ''JOIN''" "to_ascii_uppercase (msg_command line) \<noteq> ''RENAME''"
  shows "quiet ctx (snd (session_apply e ctx line))"
  using assms(2,3) unfolding session_apply_def Let_def
  by (simp add: session_lines_quiet quiet_message [OF assms(1)])

text \<open>The contract the client relies on: a line is folded with the invariant kept.\<close>

interpretation session: counted_component "\<lambda>line ctx. snd (session_apply e ctx line)" "ctx_inv k"
    "\<lambda>ctx. mdl_next_seq (ctx_model ctx)" "\<lambda>_. 1" u64_max for e k
proof
  fix ctx :: session_context and line
  assume ok: "ctx_inv k ctx" and "mdl_next_seq (ctx_model ctx) + 1 \<le> u64_max"
  then have seq: "mdl_next_seq (ctx_model ctx) < u64_max"
    by simp
  show "ctx_inv k (snd (session_apply e ctx line))"
    using ok seq by (rule session_apply_ok)
  show "mdl_next_seq (ctx_model (snd (session_apply e ctx line))) \<le> mdl_next_seq (ctx_model ctx) + 1"
    using session_apply_frame [OF seq] by (simp add: ctx_frame_def)
qed

section \<open>Properties\<close>

definition sample_ctx :: session_context where
  "sample_ctx = \<lparr>ctx_model = sample_model, ctx_isupport = isupport_default, ctx_latest_ms = 7, ctx_historical = False\<rparr>"

lemma sample_ctx_ok: "ctx_ok sample_ctx"
  using sample_model_ok sample_model_keyed
  by (simp add: ctx_inv_def sample_ctx_def ctx_casemapping_def isupport_default_def casemapping_default_def)

lemma sample_ctx_seq: "mdl_next_seq (ctx_model sample_ctx) = 0"
  by (simp add: sample_ctx_def sample_model_def model_with_retention_def)

text \<open>Lines, each with the settings of the server that were in force when it came.\<close>

definition settings_step :: "externals \<Rightarrow> isupport \<times> message \<Rightarrow> session_context \<Rightarrow> session_context" where
  "settings_step e il ctx = snd (session_apply e (ctx\<lparr>ctx_isupport := fst il\<rparr>) (snd il))"

lemma settings_step_ok:
  assumes "model_ok (ctx_model ctx)" "mdl_next_seq (ctx_model ctx) < u64_max"
  shows "model_ok (ctx_model (settings_step e il ctx))"
    "mdl_next_seq (ctx_model (settings_step e il ctx)) \<le> Suc (mdl_next_seq (ctx_model ctx))"
    "model_keyed (isu_casemapping (fst il)) (ctx_model ctx) \<Longrightarrow> model_keyed (isu_casemapping (fst il)) (ctx_model (settings_step e il ctx))"
proof -
  let ?ctx = "ctx\<lparr>ctx_isupport := fst il\<rparr>"
  have seq: "mdl_next_seq (ctx_model ?ctx) < u64_max"
    using assms(2) by simp
  have frame: "ctx_frame ?ctx (settings_step e il ctx)"
    unfolding settings_step_def by (rule session_apply_frame [OF seq])
  have keep: "ctx_inv k (settings_step e il ctx)" if "ctx_inv k ?ctx" for k
    unfolding settings_step_def using that seq by (rule session_apply_ok)
  show "model_ok (ctx_model (settings_step e il ctx))"
    using keep [of False] assms(1) by (simp add: ctx_inv_def)
  show "mdl_next_seq (ctx_model (settings_step e il ctx)) \<le> Suc (mdl_next_seq (ctx_model ctx))"
    using frame by (simp add: ctx_frame_def)
  show "model_keyed (isu_casemapping (fst il)) (ctx_model (settings_step e il ctx))"
    if "model_keyed (isu_casemapping (fst il)) (ctx_model ctx)"
    using keep [of True] frame that assms(1) by (simp add: ctx_inv_def ctx_casemapping_def ctx_frame_def)
qed

lemma settings_run_ok:
  assumes "model_ok (ctx_model ctx)" "mdl_next_seq (ctx_model ctx) + length lines \<le> u64_max"
  shows "model_ok (ctx_model (fold (settings_step e) lines ctx))
    \<and> (list_all (\<lambda>il. isu_casemapping (fst il) = cm) lines \<longrightarrow> model_keyed cm (ctx_model ctx) \<longrightarrow>
         model_keyed cm (ctx_model (fold (settings_step e) lines ctx)))"
  using assms
proof (induction lines arbitrary: ctx)
  case (Cons il lines)
  have seq: "mdl_next_seq (ctx_model ctx) < u64_max"
    using Cons.prems(2) by simp
  note step = settings_step_ok [OF Cons.prems(1) seq, where e = e and il = il]
  have "mdl_next_seq (ctx_model (settings_step e il ctx)) + length lines \<le> u64_max"
    using step(2) Cons.prems(2) by simp
  from Cons.IH [OF step(1) this] step(3) show ?case
    by auto
qed simp

text \<open>
  C34: whatever lines a server sends, in whatever order, and whatever settings it announces between them,
  the model stays well-formed: every log keeps within the retention with its index exact, counts stay
  within 32 bits with no more mentions than unread messages, at most 64 \<open>WHOIS\<close> records are held, and
  everybody in a channel is a known person. As long as the settings keep to one case mapping, every entry
  also sits under the folded form of its name; a change of the case mapping does not move the entries that
  are there. The sequence numbers must not run out, which takes 2^64 messages.
\<close>

theorem session_lines_keep_model:
  assumes "model_ok (ctx_model ctx)" "mdl_next_seq (ctx_model ctx) + length lines \<le> u64_max"
    "ctx' = fold (\<lambda>(isupport, line) ctx. snd (session_apply e (ctx\<lparr>ctx_isupport := isupport\<rparr>) line)) lines ctx"
  shows "model_ok (ctx_model ctx')
    \<and> (list_all (\<lambda>(isupport, line). isu_casemapping isupport = cm) lines \<and> model_keyed cm (ctx_model ctx)
        \<longrightarrow> model_keyed cm (ctx_model ctx'))"
proof -
  have step: "(\<lambda>(isupport, line) ctx. snd (session_apply e (ctx\<lparr>ctx_isupport := isupport\<rparr>) line)) = settings_step e"
    by (simp add: settings_step_def fun_eq_iff)
  show ?thesis
    unfolding assms(3) step using settings_run_ok [OF assms(1,2), of e cm] by (simp add: case_prod_unfold)
qed

theorem session_lines_keep_model_witness:
  "model_ok (ctx_model (fold (\<lambda>(isupport, line) ctx. snd (session_apply sample_externals (ctx\<lparr>ctx_isupport := isupport\<rparr>) line))
     [(isupport_default, message_new ''PRIVMSG'' [''#a'', ''hi'']), (isupport_default\<lparr>isu_casemapping := Ascii\<rparr>, message_new ''QUIT'' [])]
     sample_ctx))"
  by (rule conjunct1, rule session_lines_keep_model [OF ctx_ok_parts(1) [OF sample_ctx_ok] _ refl])
    (simp add: sample_ctx_seq u64_max_def)

lemma join_channels:
  assumes "bt_contains (mdl_channels (ctx_model (snd (session_join ctx line)))) k"
  shows "bt_contains (mdl_channels (ctx_model ctx)) k
    \<or> ctx_is_me ctx (line_sender line) \<and> (\<exists>name. msg_param line 0 = Some name \<and> k = ctx_fold ctx name)"
  using assms by (auto simp: session_join_def Let_def split: option.splits if_splits)

lemma rename_channels:
  assumes "bt_contains (mdl_channels (ctx_model (snd (session_rename_channel ctx line)))) k"
  shows "bt_contains (mdl_channels (ctx_model ctx)) k
    \<or> (\<exists>old renamed. msg_param line 0 = Some old \<and> msg_param line 1 = Some renamed \<and> k = ctx_fold ctx renamed
         \<and> bt_contains (mdl_channels (ctx_model ctx)) (ctx_fold ctx old))"
  using assms
  by (auto simp: session_rename_channel_def Let_def model_rename_channel_def ctx_fold_case_fold bt_contains_def
      split: option.splits if_splits)

text \<open>
  C35: a channel exists only because we joined it: after any one line a channel is one we had, or the
  line is a JOIN from ourselves naming it, or a RENAME that moved one we had. A server that names
  channels we are not in cannot grow the model.
\<close>

theorem channels_only_by_our_join:
  assumes "mdl_next_seq (ctx_model ctx) < u64_max"
    and "model_channel (ctx_model (snd (session_apply e ctx line))) k \<noteq> None" "model_channel (ctx_model ctx) k = None"
  shows "to_ascii_uppercase (msg_command line) = ''JOIN'' \<and> ctx_is_me ctx (line_sender line)
         \<and> (\<exists>name. msg_param line 0 = Some name \<and> k = ctx_fold ctx name)
    \<or> to_ascii_uppercase (msg_command line) = ''RENAME''
         \<and> (\<exists>old renamed. msg_param line 0 = Some old \<and> msg_param line 1 = Some renamed \<and> k = ctx_fold ctx renamed
              \<and> model_channel (ctx_model ctx) (ctx_fold ctx old) \<noteq> None)"
proof -
  have new: "bt_contains (mdl_channels (ctx_model (snd (session_apply e ctx line)))) k"
      "\<not> bt_contains (mdl_channels (ctx_model ctx)) k"
    using assms(2,3) by (simp_all add: bt_contains_def model_channel_def)
  have still: "\<not> bt_contains (mdl_channels (ctx_model ctx')) k" if "quiet ctx ctx'" for ctx'
    using that new(2) by (auto simp: quiet_def no_new_channel_def)
  consider (join) "to_ascii_uppercase (msg_command line) = ''JOIN''"
    | (renamed) "to_ascii_uppercase (msg_command line) = ''RENAME''"
    | (other) "quiet ctx (snd (session_apply e ctx line))"
    using session_apply_quiet [OF assms(1)] by blast
  then show ?thesis
  proof cases
    case join
    then show ?thesis
      using join_channels [of ctx line k] new by (simp add: session_apply_def)
  next
    case renamed
    then show ?thesis
      using rename_channels [of ctx line k] new by (simp add: session_apply_def bt_contains_def model_channel_def)
  next
    case other
    then show ?thesis
      using still new(1) by blast
  qed
qed

definition own_join :: message where
  "own_join = (message_new ''JOIN'' [''#b''])\<lparr>msg_source := Some (source_parse ''me!u@h'')\<rparr>"

theorem channels_only_by_our_join_witness:
  "ctx_is_me sample_ctx (line_sender own_join)"
proof -
  have "model_channel (ctx_model (snd (session_apply sample_externals sample_ctx own_join))) (ctx_fold sample_ctx ''#b'') \<noteq> None"
    "model_channel (ctx_model sample_ctx) (ctx_fold sample_ctx ''#b'') = None"
    by (simp_all add: Let_def own_join_def session_apply_def session_join_def sample_ctx_def sample_model_def
        model_with_retention_def message_new_def msg_param_def line_sender_def source_parse_def ctx_is_me_def
        ctx_casemapping_def isupport_default_def casemapping_default_def local_user_default_def case_eq_iff_fold
        model_channel_def channel_or_insert_def ctx_fold_case_fold to_ascii_uppercase_def
        case_fold_def fold_char_def fold_byte_def ascii_lower_def ascii_upper_def is_ascii_lower_def is_ascii_upper_def is_cont_def)
  from channels_only_by_our_join [OF _ this] show ?thesis
    by (simp add: sample_ctx_seq u64_max_def own_join_def to_ascii_uppercase_def message_new_def ascii_upper_def is_ascii_lower_def)
qed

end
