(* ===== verification/Mentions.thy ===== *)
theory Mentions
  imports Session_Props
begin

text \<open>
  When a text addresses us: the search of \<open>session.rs\<close>, which jumps over a rejected match and slices the
  folded text by byte offsets, finds a nick exactly when the nick occurs, scalar by scalar, with no nick
  character on either side.
\<close>

section \<open>Finding a substring\<close>

lemma find_str_None: "find_str p s = None \<Longrightarrow> s \<noteq> x @ p @ y"
proof (induction s arbitrary: x)
  case (Cons c cs)
  show ?case
  proof (cases x)
    case Nil
    then show ?thesis
      using Cons.prems by (auto simp: starts_with_iff split: if_splits)
  next
    case (Cons a x')
    then show ?thesis
      using Cons.IH [of x'] Cons.prems by (auto split: if_splits)
  qed
qed (auto split: if_splits)

lemma find_str_Some:
  "find_str p s = Some i \<Longrightarrow> (\<exists>x y. s = x @ p @ y \<and> length x = i) \<and> (\<forall>x y. s = x @ p @ y \<longrightarrow> i \<le> length x)"
proof (induction s arbitrary: i)
  case (Cons c cs)
  show ?case
  proof (cases "starts_with p (c # cs)")
    case True
    then show ?thesis
      using Cons.prems by (auto simp: starts_with_iff intro: exI [of _ "[]"])
  next
    case False
    then obtain j where j: "find_str p cs = Some j" "i = Suc j"
      using Cons.prems by auto
    from Cons.IH [OF j(1)] obtain x y where xy: "cs = x @ p @ y" "length x = j"
        and least: "\<And>x y. cs = x @ p @ y \<Longrightarrow> j \<le> length x"
      by blast
    have "i \<le> length x'" if "c # cs = x' @ p @ y'" for x' y'
    proof (cases x')
      case Nil
      then show ?thesis
        using that False by (auto simp: starts_with_iff)
    next
      case (Cons a x'')
      then show ?thesis
        using that least [of x'' y'] j(2) by simp
    qed
    moreover have "c # cs = (c # x) @ p @ y \<and> length (c # x) = i"
      using xy j(2) by simp
    ultimately show ?thesis by blast
  qed
qed (auto split: if_splits)

section \<open>Text as scalars\<close>

text \<open>A scalar of valid UTF-8: as many bytes as its lead says, all but the first continuing it.\<close>

definition valid_scalar :: "string \<Rightarrow> bool" where
  "valid_scalar g \<longleftrightarrow> is_scalar g \<and> length g = utf8_lead (hd g)"

lemma valid_groups: "list_all valid_scalar gs \<Longrightarrow> list_all is_scalar gs"
  by (auto simp: valid_scalar_def list_all_iff)

lemma split_at_boundary:
  "list_all is_scalar gs \<Longrightarrow> concat gs = x @ z \<Longrightarrow> starts_scalar z \<Longrightarrow> \<exists>a b. gs = a @ b \<and> concat a = x \<and> concat b = z"
proof (induction gs arbitrary: x)
  case (Cons g gs)
  show ?case
  proof (cases "x = []")
    case True
    then show ?thesis
      using Cons.prems by (intro exI [of _ "[]"] exI [of _ "g # gs"]) simp
  next
    case False
    have g: "g \<noteq> []" "list_all is_cont (tl g)"
      using Cons.prems(1) by (auto simp: is_scalar_def)
    have "\<exists>x'. x = g @ x'"
    proof (rule ccontr)
      assume none: "\<nexists>x'. x = g @ x'"
      from Cons.prems(2) obtain t where "g = x @ t \<or> x = g @ t"
        by (auto simp: append_eq_append_conv2)
      with none have t: "g = x @ t" "t \<noteq> []"
        by auto
      with Cons.prems(2) have "z = t @ concat gs"
        by simp
      moreover have "is_cont (hd t)"
        using t False g(2) by (cases x) (auto simp: list_all_iff)
      ultimately show False
        using Cons.prems(3) t(2) by (cases t) (auto simp: starts_scalar_def)
    qed
    then obtain x' where "x = g @ x'" ..
    then show ?thesis
      using Cons.IH [of x'] Cons.prems by (auto intro: exI [of _ "g # _"]) (metis append_Cons concat.simps(2))
  qed
qed auto

lemma same_scalars:
  "list_all valid_scalar ns \<Longrightarrow> list_all valid_scalar gs \<Longrightarrow> concat gs = concat ns @ y \<Longrightarrow>
     \<exists>b. gs = ns @ b \<and> concat b = y"
proof (induction ns arbitrary: gs)
  case (Cons n ns)
  have n: "n \<noteq> []" "length n = utf8_lead (hd n)"
    using Cons.prems(1) by (auto simp: valid_scalar_def is_scalar_def)
  obtain g gs' where gs: "gs = g # gs'"
    using Cons.prems(3) n(1) by (cases gs) auto
  have g: "g \<noteq> []" "length g = utf8_lead (hd g)"
    using Cons.prems(2) by (auto simp: gs valid_scalar_def is_scalar_def)
  have eq: "g @ concat gs' = n @ concat ns @ y"
    using Cons.prems(3) by (simp add: gs)
  then have "hd g = hd n"
    using g(1) n(1) by (metis hd_append2)
  then have "g = n" "concat gs' = concat ns @ y"
    using eq g n by simp_all
  then show ?case
    using Cons.IH [of gs'] Cons.prems(1,2) by (auto simp: gs)
qed auto

lemma occurrence:
  assumes "list_all valid_scalar ns" "list_all valid_scalar gs" "ns \<noteq> []" "concat gs = x @ concat ns @ y"
  shows "\<exists>a b. gs = a @ ns @ b \<and> concat a = x \<and> concat b = y"
proof -
  have "starts_scalar (concat ns @ y)"
    using assms(1,3) by (cases ns) (auto simp: starts_scalar_def valid_scalar_def is_scalar_def neq_Nil_conv)
  from split_at_boundary [OF valid_groups [OF assms(2)] assms(4) this]
  obtain a b where ab: "gs = a @ b" "concat a = x" "concat b = concat ns @ y"
    by blast
  with same_scalars [OF assms(1), of b y] assms(2) show ?thesis
    by auto
qed

lemma boundary_concat:
  assumes "list_all is_scalar (a @ b)"
  shows "is_char_boundary (concat (a @ b)) (length (concat a))"
proof -
  have "starts_scalar (concat b)"
    using assms by (simp add: starts_scalar_concat)
  then show ?thesis
    by (cases "concat b") (auto simp: is_char_boundary_def starts_scalar_def nth_append)
qed

section \<open>The search\<close>

text \<open>The reference: an occurrence of the nick's scalars with no nick character on either side.\<close>

definition bounded_at :: "externals \<Rightarrow> string list \<Rightarrow> string list \<Rightarrow> bool" where
  "bounded_at e before after \<longleftrightarrow>
     (case last_opt before of Some c \<Rightarrow> \<not> is_nick_char e c | None \<Rightarrow> True)
     \<and> (case hd_opt after of Some c \<Rightarrow> \<not> is_nick_char e c | None \<Rightarrow> True)"

definition addressed_in :: "externals \<Rightarrow> string list \<Rightarrow> string list \<Rightarrow> bool" where
  "addressed_in e nick_chars text_chars \<longleftrightarrow>
     (\<exists>before after. text_chars = before @ nick_chars @ after \<and> bounded_at e before after)"

lemma mentions_loop_iff:
  assumes "list_all valid_scalar ns" "ns \<noteq> []" "list_all (is_nick_char e) ns" "list_all valid_scalar (a0 @ gs)"
  shows "mentions_loop e (concat ns) (concat (a0 @ gs)) (length (concat a0)) \<longleftrightarrow>
     (\<exists>a b. gs = a @ ns @ b \<and> bounded_at e (a0 @ a) b)"
  using assms(4)
proof (induction "length gs" arbitrary: a0 gs rule: less_induct)
  case less
  have ne: "concat ns \<noteq> []"
    using assms(1,2) by (cases ns) (auto simp: valid_scalar_def is_scalar_def)
  have sc: "list_all is_scalar (a0 @ gs)"
    using less.prems by (rule valid_groups)
  have rest: "str_get_from (length (concat a0)) (concat (a0 @ gs)) = Some (concat gs)"
    using boundary_concat [OF sc] by (simp add: str_get_from_def)
  show ?case
  proof (cases "find_str (concat ns) (concat gs)")
    case None
    have "gs \<noteq> a @ ns @ b" for a b
      using find_str_None [OF None, of "concat a" "concat b"] by auto
    then show ?thesis
      using None ne by (subst mentions_loop.simps) (simp add: rest del: concat_append concat_eq_Nil_conv)
  next
    case (Some off)
    obtain x y where xy: "concat gs = x @ concat ns @ y" "length x = off"
        and least: "\<And>x y. concat gs = x @ concat ns @ y \<Longrightarrow> off \<le> length x"
      using find_str_Some [OF Some] by blast
    have vgs: "list_all valid_scalar gs"
      using less.prems by simp
    obtain a b where ab: "gs = a @ ns @ b" "concat a = x" "concat b = y"
      using occurrence [OF assms(1) vgs assms(2) xy(1)] by blast
    have whole: "a0 @ gs = (a0 @ a) @ ns @ b"
      by (simp add: ab(1))
    have start: "length (concat a0) + off = length (concat (a0 @ a))"
      using ab(2) xy(2) by simp
    have end_at: "length (concat (a0 @ a)) + length (concat ns) = length (concat (a0 @ a @ ns))"
      by simp
    have before: "str_get 0 (length (concat (a0 @ a))) (concat (a0 @ gs)) = Some (concat (a0 @ a))"
      using boundary_concat [of "a0 @ a" "ns @ b"] boundary_concat [of "[]" "a0 @ gs"] sc
      by (simp add: whole str_get_def)
    have after: "str_get_from (length (concat (a0 @ a @ ns))) (concat (a0 @ gs)) = Some (concat b)"
      using boundary_concat [of "a0 @ a @ ns" b] sc by (simp add: whole str_get_from_def)
    have parts: "chars (concat (a0 @ a)) = a0 @ a" "chars (concat b) = b"
      using sc by (intro chars_concat_scalars; simp add: ab(1))+
    have "mentions_loop e (concat ns) (concat (a0 @ gs)) (length (concat a0)) =
        (if \<not> (case last_opt (a0 @ a) of Some c \<Rightarrow> is_nick_char e c | None \<Rightarrow> False)
            \<and> \<not> (case hd_opt b of Some c \<Rightarrow> is_nick_char e c | None \<Rightarrow> False)
         then True else mentions_loop e (concat ns) (concat (a0 @ gs)) (length (concat (a0 @ a @ ns))))"
      by (subst mentions_loop.simps)
        (simp only: ne if_False rest Option.bind.simps Some option.case Let_def start end_at before after parts)
    then have step: "mentions_loop e (concat ns) (concat (a0 @ gs)) (length (concat a0)) \<longleftrightarrow>
        bounded_at e (a0 @ a) b \<or> mentions_loop e (concat ns) (concat (a0 @ gs)) (length (concat (a0 @ a @ ns)))"
      by (simp only: bounded_at_def split: option.split) auto
    have IH: "mentions_loop e (concat ns) (concat (a0 @ gs)) (length (concat (a0 @ a @ ns))) \<longleftrightarrow>
        (\<exists>a' b'. b = a' @ ns @ b' \<and> bounded_at e ((a0 @ a @ ns) @ a') b')"
      using less.hyps [of b "a0 @ a @ ns"] less.prems assms(2) by (simp add: ab(1))
    have later: "\<exists>a' b'. b = a' @ ns @ b' \<and> bounded_at e ((a0 @ a @ ns) @ a') b'"
      if occ: "gs = a2 @ ns @ b2" "bounded_at e (a0 @ a2) b2" and first: "\<not> bounded_at e (a0 @ a) b" for a2 b2
    proof -
      have "off \<le> length (concat a2)"
        using least [of "concat a2" "concat b2"] occ(1) by simp
      have "a @ ns @ b = a2 @ ns @ b2"
        using ab(1) occ(1) by simp
      then obtain us where "a = a2 @ us \<or> a2 = a @ us"
        by (auto simp: append_eq_append_conv2)
      moreover have "us = []" if "a = a2 @ us"
        using that \<open>off \<le> length (concat a2)\<close> ab xy(2) sc by (cases us) (auto simp: is_scalar_def)
      ultimately obtain d where d: "a2 = a @ d"
        by fastforce
      then have "ns @ b = d @ ns @ b2"
        using ab(1) occ(1) by simp
      then obtain us where us: "ns = d @ us \<and> us @ b = ns @ b2 \<or> d = ns @ us \<and> b = us @ ns @ b2"
        unfolding append_eq_append_conv2 by metis
      show ?thesis
      proof (cases "d = ns @ us \<and> b = us @ ns @ b2")
        case True
        then show ?thesis
          using occ(2) d by (intro exI [of _ us] exI [of _ b2]) simp
      next
        case False
        with us have inside: "ns = d @ us" "us @ b = ns @ b2"
          by blast+
        have "d \<noteq> []"
          using inside first occ(2) d by auto
        then have "last_opt (a0 @ a2) = Some (last d)" "last d \<in> set ns"
          using inside(1) by (simp_all add: d last_opt_def)
        then show ?thesis
          using occ(2) assms(3) by (simp add: bounded_at_def list_all_iff)
      qed
    qed
    show ?thesis
      unfolding step IH using later ab(1) by (auto; metis append.assoc)
  qed
qed

section \<open>Properties\<close>

lemma fold_char_valid: "valid_scalar g \<Longrightarrow> valid_scalar (fold_char cm g)"
proof (cases g)
  case (Cons c cs)
  assume g: "valid_scalar g"
  show ?thesis
  proof (cases cs)
    case Nil
    have "is_ascii c"
    proof (rule ccontr)
      assume "\<not> is_ascii c"
      then show False
        using g by (auto simp: valid_scalar_def Cons Nil utf8_lead_def split: if_splits)
    qed
    then show ?thesis
      using g by (simp add: Cons Nil fold_char_def valid_scalar_def is_scalar_def utf8_lead_def)
  next
    case (Cons d ds)
    have "\<not> is_ascii c"
      using g by (auto simp: valid_scalar_def \<open>g = c # cs\<close> Cons utf8_lead_def split: if_splits)
    then show ?thesis
      using g by (simp add: \<open>g = c # cs\<close> Cons fold_char_def fold_byte_non_ascii)
  qed
qed (simp add: valid_scalar_def is_scalar_def)

text \<open>
  C38: we are mentioned exactly when our nick, folded, occurs in the folded text with no nick character
  before or after it, so \<open>bob\<close> is not found in \<open>bobby\<close> and a server that folds brackets finds
  \<open>{NICK}\<close> for \<open>[nick]\<close>. The search jumps over every occurrence it rejects, and its byte offsets
  always fall between scalars; neither loses an occurrence.
\<close>

theorem mentions_bounded_occurrence:
  assumes "nick \<noteq> []" "list_all valid_scalar (chars nick)" "list_all valid_scalar (chars message_text)"
    and "list_all (is_nick_char e) (map (fold_char cm) (chars nick))"
  shows "mentions e cm message_text nick \<longleftrightarrow>
     addressed_in e (map (fold_char cm) (chars nick)) (map (fold_char cm) (chars message_text))"
proof -
  let ?ns = "map (fold_char cm) (chars nick)" and ?gs = "map (fold_char cm) (chars message_text)"
  have "list_all valid_scalar ?ns" "list_all valid_scalar ([] @ ?gs)"
    using assms(2,3) by (simp_all add: list_all_iff fold_char_valid)
  from mentions_loop_iff [OF this(1) _ assms(4) this(2)] assms(1) show ?thesis
    by (simp add: mentions_def case_fold_def addressed_in_def)
qed

theorem mentions_bounded_occurrence_witness:
  "mentions sample_externals Rfc1459 ''hi {BOB}'' ''[bob]''"
proof -
  have f: "map (fold_char Rfc1459) (chars ''[bob]'') = [''{'', ''b'', ''o'', ''b'', ''}'']"
      "map (fold_char Rfc1459) (chars ''hi {BOB}'') = [''h'', ''i'', '' ''] @ [''{'', ''b'', ''o'', ''b'', ''}''] @ []"
    by (simp_all add: is_cont_def fold_char_def fold_byte_def ascii_lower_def is_ascii_upper_def)
  have "list_all valid_scalar (chars ''[bob]'')" "list_all valid_scalar (chars ''hi {BOB}'')"
    by (simp_all add: is_cont_def valid_scalar_def is_scalar_def utf8_lead_def is_ascii_def)
  moreover have "list_all (is_nick_char sample_externals) (map (fold_char Rfc1459) (chars ''[bob]''))"
    by (simp add: f del: chars.simps list.map add: is_nick_char_def is_ascii_def is_ascii_alphanumeric_def is_ascii_lower_def)
  moreover have "bounded_at sample_externals [''h'', ''i'', '' ''] []"
    by (simp add: bounded_at_def is_nick_char_def is_ascii_def is_ascii_alphanumeric_def is_ascii_lower_def is_ascii_upper_def
        is_ascii_digit_def)
  ultimately show ?thesis
    using mentions_bounded_occurrence [of "''[bob]''" "''hi {BOB}''" sample_externals Rfc1459]
    unfolding f addressed_in_def by blast
qed

end
