(* ===== verification/Session_Lines.thy ===== *)
theory Session_Lines
  imports Session_Props
begin

text \<open>
  The functional behaviour of the session's lines: how a message is filed and counted, who is in a
  channel after the lines that move people, deletion and reactions, and named modes.
\<close>

section \<open>Filing\<close>

lemma channel_accepts_known:
  "model_channel m folded = Some c \<Longrightarrow> channel_accepts m folded msg \<longleftrightarrow> fst (log_insert msg (ch_log c))"
  by (simp add: channel_accepts_def)

lemma log_insert_fst: "fst (log_insert m l) \<longleftrightarrow> \<not> log_known l m"
  by (auto simp: log_insert_def log_known_def log_contains_def Let_def split: option.split)

lemma file_in_channel_counts:
  "ch_unread (file_in_channel m counts addressed c) =
     (if counts \<and> \<not> log_known (ch_log c) m then saturating_add u32_max (ch_unread c) 1 else ch_unread c)"
  "ch_mentions (file_in_channel m counts addressed c) =
     (if counts \<and> \<not> log_known (ch_log c) m \<and> addressed then saturating_add u32_max (ch_mentions c) 1 else ch_mentions c)"
  using log_insert_fst [of m "ch_log c"] by (simp_all add: file_in_channel_def case_prod_unfold Let_def)

lemma line_ctx_model [simp]:
  "ctx_model (line_ctx ctx line) = (ctx_model ctx)\<lparr>mdl_next_seq := Suc (mdl_next_seq (ctx_model ctx))\<rparr>"
  by (simp add: line_ctx_def)

text \<open>A key that is not in any log.\<close>

definition unused_key :: "model \<Rightarrow> message_key \<Rightarrow> bool" where
  "unused_key m key \<longleftrightarrow>
     (\<forall>k c. model_channel m k = Some c \<longrightarrow> log_get_by_key (ch_log c) key = None)
   \<and> (\<forall>k c. model_conversation m k = Some c \<longrightarrow> log_get_by_key (cv_log c) key = None)"

lemma line_key_unused:
  assumes "model_ok (ctx_model ctx)"
  shows "unused_key (ctx_model ctx) (line_key ctx line)"
proof -
  let ?s = "mdl_next_seq (ctx_model ctx)" and ?r = "mdl_retention (ctx_model ctx)"
  have key: "\<not> key_seq (line_key ctx line) < ?s"
    by (simp add: line_key_def)
  have "log_bounded ?s ?r (ch_log c)" if "model_channel (ctx_model ctx) k = Some c" for k c
    using that model_ok_channel [OF assms, of k c] channel_ok_dest(5) [of ?s ?r c] by (simp add: model_channel_def)
  moreover have "log_bounded ?s ?r (cv_log c)" if "model_conversation (ctx_model ctx) k = Some c" for k c
    using that assms bt_all_lookup [of "\<lambda>_. conversation_ok ?s ?r" "mdl_conversations (ctx_model ctx)" k c]
    by (simp add: model_conversation_def model_ok_def conversation_ok_def)
  ultimately show ?thesis
    using log_bounded_fresh key by (fastforce simp: unused_key_def)
qed

lemma channel_message_filing:
  assumes "msg_param line 0 = Some target" "mdl_next_seq (ctx_model ctx) < u64_max" "command = ''TAGMSG'' \<longrightarrow> session_annotation ctx line = None"
    and "line_home ctx line target = (name, True)" "folded = ctx_fold ctx name"
    and "session_message e ctx line command = (changes, ctx')" "msg = line_built ctx line command"
  shows "(\<forall>c. model_channel (ctx_model ctx) folded = Some c \<longrightarrow>
       changes = (if log_known (ch_log c) msg then [] else [MessageAdded name (line_key ctx line)])
       \<and> (\<exists>c'. model_channel (ctx_model ctx') folded = Some c'
            \<and> ch_log c' = snd (log_insert msg (ch_log c)) \<and> ch_members c' = ch_members c
            \<and> ch_unread c' = (if line_counts ctx line \<and> \<not> log_known (ch_log c) msg
                 then saturating_add u32_max (ch_unread c) 1 else ch_unread c)
            \<and> ch_mentions c' = (if line_addressed e ctx line command \<and> \<not> log_known (ch_log c) msg
                 then saturating_add u32_max (ch_mentions c) 1 else ch_mentions c)
            \<and> (log_known (ch_log c) msg \<longrightarrow> c' = c)))
    \<and> (\<forall>k. k \<noteq> folded \<longrightarrow> model_channel (ctx_model ctx') k = model_channel (ctx_model ctx) k)
    \<and> mdl_conversations (ctx_model ctx') = mdl_conversations (ctx_model ctx)
    \<and> mdl_people (ctx_model ctx') = mdl_people (ctx_model ctx)
    \<and> (model_channel (ctx_model ctx) folded = None \<longrightarrow> changes = [] \<and> ctx' = line_ctx ctx line)"
proof -
  note eq = session_message_eq [OF assms(1,2) _ assms(4,5), of command e]
  have addressed: "line_addressed e ctx line command \<Longrightarrow> line_counts ctx line"
    by (simp add: line_addressed_def)
  show ?thesis
  proof (cases "model_channel (ctx_model ctx) folded")
    case None
    then show ?thesis
      using eq [OF assms(3)] assms(6) by (auto simp: model_channel_def)
  next
    case (Some c)
    let ?f = "file_in_channel msg (line_counts ctx line) (line_addressed e ctx line command)"
    have res: "changes = (if log_known (ch_log c) msg then [] else [MessageAdded name (line_key ctx line)])"
        "ctx' = ctx_update (channel_or_insert folded name ?f) (line_ctx ctx line)"
      using eq [OF assms(3)] assms(6,7) Some by (auto simp: channel_accepts_known log_insert_fst)
    have look: "model_channel (ctx_model ctx') k = (if k = folded then Some (?f c) else model_channel (ctx_model ctx) k)" for k
      using Some by (simp add: res(2) model_channel_def channel_or_insert_def)
    have known: "log_known (ch_log c) msg \<Longrightarrow> ?f c = c"
      by (simp add: file_in_channel_def log_insert_known)
    have counts: "ch_unread (?f c) = (if line_counts ctx line \<and> \<not> log_known (ch_log c) msg
          then saturating_add u32_max (ch_unread c) 1 else ch_unread c)"
        "ch_mentions (?f c) = (if line_addressed e ctx line command \<and> \<not> log_known (ch_log c) msg
          then saturating_add u32_max (ch_mentions c) 1 else ch_mentions c)"
      using addressed by (auto simp: file_in_channel_counts)
    have rest: "mdl_conversations (ctx_model ctx') = mdl_conversations (ctx_model ctx)"
        "mdl_people (ctx_model ctx') = mdl_people (ctx_model ctx)"
      by (simp_all add: res(2) channel_or_insert_def)
    show ?thesis
      using look [of folded] look known counts rest res(1) Some by simp
  qed
qed

text \<open>
  C36: a message to a channel we are in is filed there and nowhere else, once: a new one is reported
  under a key that no log holds yet, one that is already held is not reported and leaves the channel as it
  was. Unread goes up by one exactly for a new live message from somebody else, mentions exactly when it
  also addresses us, and both stop at the top of 32 bits. A message to a channel we are not in is not
  filed or reported: like any message it moves the clock and uses up a sequence number, and that is all
  it does. The model is well formed, as every line leaves it, and its sequence numbers are not used up.
  Lines without text that are a reaction to another message, or a preview of its link, are not messages
  in this sense.
\<close>

theorem channel_message_filed_once:
  assumes "msg_param line 0 = Some target" "mdl_next_seq (ctx_model ctx) < u64_max"
    and "command = ''TAGMSG'' \<longrightarrow> session_annotation ctx line = None" "model_ok (ctx_model ctx)"
    and "line_home ctx line target = (name, True)" "folded = ctx_fold ctx name"
    and "session_message e ctx line command = (changes, ctx')" "msg = line_built ctx line command"
  shows "unused_key (ctx_model ctx) (line_key ctx line) \<and> chat_key msg = line_key ctx line
    \<and> (\<forall>c. model_channel (ctx_model ctx) folded = Some c \<longrightarrow>
       changes = (if log_known (ch_log c) msg then [] else [MessageAdded name (line_key ctx line)])
       \<and> (\<exists>c'. model_channel (ctx_model ctx') folded = Some c'
            \<and> ch_log c' = snd (log_insert msg (ch_log c)) \<and> ch_members c' = ch_members c
            \<and> ch_unread c' = (if line_counts ctx line \<and> \<not> log_known (ch_log c) msg
                 then saturating_add u32_max (ch_unread c) 1 else ch_unread c)
            \<and> ch_mentions c' = (if line_addressed e ctx line command \<and> \<not> log_known (ch_log c) msg
                 then saturating_add u32_max (ch_mentions c) 1 else ch_mentions c)
            \<and> (log_known (ch_log c) msg \<longrightarrow> c' = c)))
    \<and> (\<forall>k. k \<noteq> folded \<longrightarrow> model_channel (ctx_model ctx') k = model_channel (ctx_model ctx) k)
    \<and> mdl_conversations (ctx_model ctx') = mdl_conversations (ctx_model ctx)
    \<and> mdl_people (ctx_model ctx') = mdl_people (ctx_model ctx)
    \<and> (model_channel (ctx_model ctx) folded = None \<longrightarrow> changes = []
        \<and> ctx' = ctx\<lparr>ctx_latest_ms := max (ctx_latest_ms ctx) (line_time ctx line),
                     ctx_model := (ctx_model ctx)\<lparr>mdl_next_seq := Suc (mdl_next_seq (ctx_model ctx))\<rparr>\<rparr>)"
proof -
  have eq: "ctx\<lparr>ctx_latest_ms := max (ctx_latest_ms ctx) (line_time ctx line),
      ctx_model := (ctx_model ctx)\<lparr>mdl_next_seq := Suc (mdl_next_seq (ctx_model ctx))\<rparr>\<rparr> = line_ctx ctx line"
    by (simp add: line_ctx_def)
  have "chat_key msg = line_key ctx line"
    by (simp add: assms(8))
  with line_key_unused [OF assms(4), of line] channel_message_filing [OF assms(1-3,5-8)] show ?thesis
    unfolding eq by blast
qed

definition sample_line :: message where
  "sample_line = (message_new ''PRIVMSG'' [''#a'', ''hello me''])\<lparr>msg_source := Some (source_parse ''bob!u@h'')\<rparr>"

lemmas fold_eval = case_fold_def fold_char_def fold_byte_def ascii_lower_def is_ascii_upper_def is_cont_def

lemma sample_line_facts:
  "msg_param sample_line 0 = Some ''#a''" "line_sender sample_line = ''bob''"
  "\<not> ctx_is_me sample_ctx ''bob''" "line_home sample_ctx sample_line ''#a'' = (''#a'', True)"
  "ctx_fold sample_ctx ''#a'' = ''#a''"
  by (simp_all add: sample_line_def message_new_def msg_param_def line_sender_def source_parse_def ctx_is_me_def
      sample_ctx_def sample_model_def ctx_casemapping_def isupport_default_def casemapping_default_def
      local_user_default_def case_eq_iff_fold model_with_retention_def line_home_def message_home_def is_statusmsg_def
      is_channel_def ctx_fold_case_fold Let_def fold_eval)

theorem channel_message_filed_once_witness:
  "fst (session_message sample_externals sample_ctx sample_line ''PRIVMSG'') = [MessageAdded ''#a'' (Message_Key 7 0)]"
proof -
  obtain changes ctx' where run: "session_message sample_externals sample_ctx sample_line ''PRIVMSG'' = (changes, ctx')"
    by force
  have known: "\<not> log_known (log_with_retention 2) (line_built sample_ctx sample_line ''PRIVMSG'')"
    by (simp add: log_known_def log_contains_def log_has_twin_def log_with_retention_def split: option.split)
  have key: "line_key sample_ctx sample_line = Message_Key 7 0"
    by (simp add: line_key_def line_time_def ctx_stamp_def sample_line_def message_new_def msg_tag_def tags_get_def
        sample_ctx_def sample_model_def model_with_retention_def Let_def)
  have c: "model_channel (ctx_model sample_ctx) ''#a'' = Some (channel_default\<lparr>ch_name := ''#A'', ch_log := log_with_retention 2,
         ch_members := [(''bob'', \<lparr>mem_prefixes = ''@''\<rparr>), (''me'', membership_default)]\<rparr>)"
    by (simp add: sample_ctx_def sample_model_def model_channel_def)
  have "mdl_next_seq (ctx_model sample_ctx) < u64_max" "''PRIVMSG'' = ''TAGMSG'' \<longrightarrow> session_annotation sample_ctx sample_line = None"
    "model_ok (ctx_model sample_ctx)"
    using ctx_ok_parts(1) [OF sample_ctx_ok] by (simp_all add: sample_ctx_seq u64_max_def)
  from channel_message_filed_once [OF sample_line_facts(1) this sample_line_facts(4) refl run refl]
  have "\<forall>c. model_channel (ctx_model sample_ctx) (ctx_fold sample_ctx ''#a'') = Some c \<longrightarrow>
      changes = (if log_known (ch_log c) (line_built sample_ctx sample_line ''PRIVMSG'') then []
        else [MessageAdded ''#a'' (line_key sample_ctx sample_line)])"
    by blast
  from this [unfolded sample_line_facts(5), rule_format, OF c] show ?thesis
    using known by (simp add: run key)
qed

section \<open>A repeat without a time and without an id\<close>

lemma last_bt_insert:
  "bt_wf ms \<Longrightarrow> (\<And>x. x \<in> fst ` set ms \<Longrightarrow> x < k) \<Longrightarrow> bt_insert k v ms = ms @ [(k, v)]"
proof (induction k v ms rule: bt_insert.induct)
  case (2 k v k' v' m)
  then have "k' < k"
    by simp
  then have "\<not> k < k'" "k \<noteq> k'"
    by auto
  with 2 show ?case
    by (simp add: bt_wf_Cons)
qed simp

lemma newest_is_kept:
  assumes l: "log_bounded s r l" and r: "0 < r" and k: "key_seq (chat_key m) = s"
    and t: "\<And>held. held \<in> set (log_iter l) \<Longrightarrow> key_time_ms (chat_key held) \<le> key_time_ms (chat_key m)"
    and new: "\<not> log_known l m"
  shows "m \<in> set (log_iter (snd (log_insert m l)))"
proof -
  have ok: "log_ok l" and ret: "log_retention l = r"
    using l by (simp_all add: log_bounded_def)
  have fresh: "log_get_by_key l (chat_key m) = None"
    using l k by (simp add: log_bounded_fresh)
  have wf: "bt_wf (log_messages l)"
    using ok by (simp add: log_ok_def index_ok_def)
  have "x < chat_key m" if x: "x \<in> fst ` set (log_messages l)" for x
  proof -
    from x obtain held where h: "map_of (log_messages l) x = Some held"
      using map_of_eq_None_iff [of "log_messages l" x] by auto
    then have "chat_key held = x" "held \<in> set (log_iter l)"
      using log_keys [OF ok h] log_iter_iff [OF ok, of held] by simp_all
    moreover have "key_seq x < s"
      using l h bt_all_lookup [of "\<lambda>k _. key_seq k < s" "log_messages l"] by (auto simp: log_bounded_def)
    ultimately show ?thesis
      using t [of held] k by (auto simp: less_message_key_def)
  qed
  then have "bt_insert (chat_key m) m (log_messages l) = log_messages l @ [(chat_key m, m)]"
    by (rule last_bt_insert [OF wf])
  then have "log_messages (snd (log_insert m l)) = drop (Suc (length (log_messages l)) - r) (log_messages l @ [(chat_key m, m)])"
    using log_insert_new(2) [OF ok fresh new] ret by simp
  moreover have "length (log_messages l) \<le> r"
    using ok ret by (simp add: log_ok_def)
  ultimately show ?thesis
    using r by (auto simp: log_iter_def)
qed

text \<open>
  Without \<open>server-time\<close> and without an id, a message that repeats the last words of its sender is
  taken for a replay: the second of two identical lines is dropped, although both were sent. Nothing is
  reported and the log does not change.
\<close>

theorem unstamped_repeat_dropped:
  assumes "ctx_ok ctx" "Suc (mdl_next_seq (ctx_model ctx)) < u64_max" "command \<noteq> ''TAGMSG''"
    and "msg_param line 0 = Some target" "msg_tag line ''time'' = None" "msg_tag line ''msgid'' = None"
    and "line_home ctx line target = (name, True)" "model_channel (ctx_model ctx) (ctx_fold ctx name) = Some c"
    and "\<forall>held\<in>set (log_iter (ch_log c)). key_time_ms (chat_key held) \<le> ctx_latest_ms ctx" "ctx_latest_ms ctx < u64_max"
    and "ctx' = snd (session_message e ctx line command)"
  shows "fst (session_message e ctx' line command) = []
    \<and> model_channel (ctx_model (snd (session_message e ctx' line command))) (ctx_fold ctx name) =
        model_channel (ctx_model ctx') (ctx_fold ctx name)"
proof -
  let ?folded = "ctx_fold ctx name" and ?msg = "line_built ctx line command" and ?msg' = "line_built ctx' line command"
  have seq: "mdl_next_seq (ctx_model ctx) < u64_max"
    using assms(2) by simp
  have annotation: "command = ''TAGMSG'' \<longrightarrow> session_annotation x line = None" for x
    using assms(3) by simp
  obtain changes where run: "session_message e ctx line command = (changes, ctx')"
    using assms(11) by (cases "session_message e ctx line command") simp
  note filed = channel_message_filing [OF assms(4) seq annotation assms(7) refl run refl]
  then obtain c' where c': "model_channel (ctx_model ctx') ?folded = Some c'" "ch_log c' = snd (log_insert ?msg (ch_log c))"
    using assms(8) by blast
  have time: "line_time ctx line = ctx_latest_ms ctx"
    using assms(5) by (simp add: line_time_def ctx_stamp_def Let_def)
  have fr: "ctx_isupport ctx' = ctx_isupport ctx" "mdl_me (ctx_model ctx') = mdl_me (ctx_model ctx)"
      "ctx_latest_ms ctx' = ctx_latest_ms ctx" "mdl_next_seq (ctx_model ctx') = Suc (mdl_next_seq (ctx_model ctx))"
    using session_message_eq [OF assms(4) seq _ assms(7) refl, of command e] run assms(3,8) time
    by (auto simp: line_ctx_def channel_or_insert_def split: if_splits)
  then have same: "line_home ctx' line target = (name, True)" "ctx_fold ctx' name = ?folded" "line_time ctx' line = ctx_latest_ms ctx"
    using assms(5,7) by (auto simp: line_home_def ctx_is_me_def ctx_casemapping_def ctx_fold_def line_time_def ctx_stamp_def Let_def)
  have cok: "channel_ok (mdl_next_seq (ctx_model ctx)) (mdl_retention (ctx_model ctx)) c" and r: "0 < mdl_retention (ctx_model ctx)"
    using assms(1,8) model_ok_channel [of "ctx_model ctx" ?folded c] by (auto simp: ctx_inv_def model_channel_def model_ok_def)
  note bnd = channel_ok_dest(5) [OF cok]
  have ok: "log_ok (ch_log c)" and ok': "log_ok (ch_log c')"
    using bnd log_insert_ok [of "ch_log c" ?msg] log_bounded_fresh [OF bnd, of "line_key ctx line"] c'(2)
    by (simp_all add: log_bounded_def)
  have "\<exists>held\<in>set (log_iter (ch_log c')). key_time_ms (chat_key held) = ctx_latest_ms ctx
     \<and> chat_sender held = line_sender line \<and> chat_text held = snd (message_body command line) \<and> chat_kind held = fst (message_body command line)"
  proof (cases "log_known (ch_log c) ?msg")
    case True
    then have "log_has_twin (ch_log c) ?msg"
      using assms(6) by (simp add: log_known_def)
    then show ?thesis
      using log_has_twin_iff [OF ok, of ?msg] assms(10) c'(2) log_insert_known [OF True] by (simp add: time)
  next
    case False
    then have "?msg \<in> set (log_iter (ch_log c'))"
      unfolding c'(2) using newest_is_kept [OF bnd r] assms(9) by (simp add: time)
    then show ?thesis
      by (intro bexI [of _ ?msg]) (simp_all add: time)
  qed
  then have known: "log_known (ch_log c') ?msg'"
    using log_has_twin_iff [OF ok', of ?msg'] assms(6,10) by (simp add: log_known_def same)
  obtain changes2 ctx2 where run2: "session_message e ctx' line command = (changes2, ctx2)"
    by force
  have seq2: "mdl_next_seq (ctx_model ctx') < u64_max"
    using fr assms(2) by simp
  from channel_message_filing [OF assms(4) seq2 annotation same(1) refl run2 refl] known c'(1) run2 show ?thesis
    by (auto simp: same)
qed

theorem unstamped_repeat_dropped_witness:
  "fst (session_message sample_externals (snd (session_message sample_externals sample_ctx sample_line ''PRIVMSG''))
      sample_line ''PRIVMSG'') = []"
proof -
  let ?c = "channel_default\<lparr>ch_name := ''#A'', ch_log := log_with_retention 2,
         ch_members := [(''bob'', \<lparr>mem_prefixes = ''@''\<rparr>), (''me'', membership_default)]\<rparr>"
  have tags: "msg_tag sample_line ''time'' = None" "msg_tag sample_line ''msgid'' = None"
    by (simp_all add: sample_line_def message_new_def msg_tag_def tags_get_def)
  have c: "model_channel (ctx_model sample_ctx) (ctx_fold sample_ctx ''#a'') = Some ?c"
    by (simp add: sample_line_facts(5)) (simp add: sample_ctx_def sample_model_def model_channel_def)
  have "\<forall>held\<in>set (log_iter (ch_log ?c)). key_time_ms (chat_key held) \<le> ctx_latest_ms sample_ctx"
    by (simp add: log_iter_def)
  moreover have "Suc (mdl_next_seq (ctx_model sample_ctx)) < u64_max" "ctx_latest_ms sample_ctx < u64_max" "''PRIVMSG'' \<noteq> ''TAGMSG''"
    by (simp_all add: sample_ctx_seq u64_max_def) (simp add: sample_ctx_def)
  ultimately show ?thesis
    using unstamped_repeat_dropped [OF sample_ctx_ok _ _ sample_line_facts(1) tags sample_line_facts(4) c _ _ refl,
        of "''PRIVMSG''" sample_externals] by blast
qed

section \<open>Who is in a channel\<close>

lemma join_member_kept:
  "map_of (bt_entry key membership_default (\<lambda>x. x) ms) k =
     (if k = key then Some (case map_of ms key of Some x \<Rightarrow> x | None \<Rightarrow> membership_default) else map_of ms k)"
  by simp

lemma channel_mut_look:
  "model_channel (channel_mut k f m) x = (if x = k then map_option f (model_channel m k) else model_channel m x)"
  by (simp add: model_channel_def channel_mut_def)

lemma look_frame [simp]:
  "model_channel (forget_strangers m) x = model_channel m x"
  "model_channel (person_or_insert k n f m) x = model_channel m x"
  by (simp_all add: model_channel_def)

lemma remove_channel_look: "model_channel (remove_channel k m) x = (if x = k then None else model_channel m x)"
  by (simp add: model_channel_def remove_channel_def)

text \<open>Who is in the channels we are in, each with the prefixes they hold.\<close>

definition members_of :: "session_context \<Rightarrow> case_folded \<Rightarrow> (case_folded \<Rightarrow> membership option) option" where
  "members_of ctx k = map_option (\<lambda>c. map_of (ch_members c)) (model_channel (ctx_model ctx) k)"

lemma map_of_remove: "map_of (bt_remove k ms) = (map_of ms)(k := None)"
  by (simp add: fun_eq_iff)

lemma map_of_join:
  "map_of (bt_entry key membership_default (\<lambda>x. x) ms)
     = (map_of ms)(key \<mapsto> (case map_of ms key of Some x \<Rightarrow> x | None \<Rightarrow> membership_default))"
  by (simp add: fun_eq_iff)

lemma members_join:
  "members_of (snd (session_join ctx line)) =
     (case msg_param line 0 of
        None \<Rightarrow> members_of ctx
      | Some name \<Rightarrow>
          (members_of ctx)(ctx_fold ctx name :=
             if ctx_is_me ctx (line_sender line)
             then Some (case members_of ctx (ctx_fold ctx name) of Some ms \<Rightarrow> ms | None \<Rightarrow> Map.empty)
             else map_option (\<lambda>ms. ms(ctx_fold ctx (line_sender line) \<mapsto>
                    (case ms (ctx_fold ctx (line_sender line)) of Some x \<Rightarrow> x | None \<Rightarrow> membership_default)))
                  (members_of ctx (ctx_fold ctx name))))"
proof (cases "msg_param line 0")
  case (Some name)
  show ?thesis
  proof (cases "ctx_is_me ctx (line_sender line)")
    case True
    with Some show ?thesis
      by (auto simp: session_join_def members_of_def channel_or_insert_def model_channel_def channel_default_def fun_eq_iff
          split: option.split)
  next
    case False
    with Some show ?thesis
      by (auto simp: session_join_def Let_def members_of_def channel_mut_look map_of_join fun_eq_iff split: option.split)
  qed
qed (simp add: session_join_def)

lemma members_part:
  "members_of (snd (session_part ctx line)) =
     (case msg_param line 0 of
        None \<Rightarrow> members_of ctx
      | Some name \<Rightarrow>
          (members_of ctx)(ctx_fold ctx name :=
             if ctx_is_me ctx (line_sender line) then None
             else map_option (\<lambda>ms. ms(ctx_fold ctx (line_sender line) := None)) (members_of ctx (ctx_fold ctx name))))"
  by (auto simp: session_part_def Let_def members_of_def channel_mut_look remove_channel_look map_of_remove
      option.map_comp comp_def split: option.split)

lemma members_kick:
  "members_of (snd (session_kick ctx line)) =
     (case (msg_param line 0, msg_param line 1) of
        (Some name, Some target) \<Rightarrow>
          (members_of ctx)(ctx_fold ctx name :=
             if ctx_is_me ctx target then None
             else map_option (\<lambda>ms. ms(ctx_fold ctx target := None)) (members_of ctx (ctx_fold ctx name)))
      | _ \<Rightarrow> members_of ctx)"
  by (auto simp: session_kick_def Let_def members_of_def channel_mut_look remove_channel_look map_of_remove
      option.map_comp comp_def split: option.split)

lemma members_quit:
  "members_of (snd (session_quit ctx line)) =
     (\<lambda>k. map_option (\<lambda>ms. ms(ctx_fold ctx (line_sender line) := None)) (members_of ctx k))"
  by (auto simp: session_quit_def Let_def case_prod_unfold members_of_def remove_everywhere_def channels_mut_def
      model_channel_def option.map_comp comp_def map_of_remove)

text \<open>
  C37: who is in which channel after a line that moves people. A JOIN by somebody else adds them to the
  channel, if we are in it, keeping the prefixes of one who was already there; our own puts us in the
  channel, with the members we know of if we were in it. A PART takes its sender, and a KICK the one it
  names, out of the one channel, and forgets the channel if that is us. A QUIT takes its sender out of
  every channel. Nobody else is touched, in that channel or in any other, and a line without the
  parameters it needs changes nothing.
\<close>

theorem membership_follows_lines:
  "members_of (snd (session_join ctx line)) =
     (case msg_param line 0 of
        None \<Rightarrow> members_of ctx
      | Some name \<Rightarrow>
          (members_of ctx)(ctx_fold ctx name :=
             if ctx_is_me ctx (line_sender line)
             then Some (case members_of ctx (ctx_fold ctx name) of Some ms \<Rightarrow> ms | None \<Rightarrow> Map.empty)
             else map_option (\<lambda>ms. ms(ctx_fold ctx (line_sender line) \<mapsto>
                    (case ms (ctx_fold ctx (line_sender line)) of Some x \<Rightarrow> x | None \<Rightarrow> membership_default)))
                  (members_of ctx (ctx_fold ctx name))))
   \<and> members_of (snd (session_part ctx line)) =
     (case msg_param line 0 of
        None \<Rightarrow> members_of ctx
      | Some name \<Rightarrow>
          (members_of ctx)(ctx_fold ctx name :=
             if ctx_is_me ctx (line_sender line) then None
             else map_option (\<lambda>ms. ms(ctx_fold ctx (line_sender line) := None)) (members_of ctx (ctx_fold ctx name))))
   \<and> members_of (snd (session_kick ctx line)) =
     (case (msg_param line 0, msg_param line 1) of
        (Some name, Some target) \<Rightarrow>
          (members_of ctx)(ctx_fold ctx name :=
             if ctx_is_me ctx target then None
             else map_option (\<lambda>ms. ms(ctx_fold ctx target := None)) (members_of ctx (ctx_fold ctx name)))
      | _ \<Rightarrow> members_of ctx)
   \<and> members_of (snd (session_quit ctx line)) =
     (\<lambda>k. map_option (\<lambda>ms. ms(ctx_fold ctx (line_sender line) := None)) (members_of ctx k))"
  by (intro conjI members_join members_part members_kick members_quit)

section \<open>Named modes\<close>

text \<open>What one entry says of a name, and what the last of a list of entries to say anything says.\<close>

definition entry_says :: "string \<Rightarrow> string \<Rightarrow> string option option option" where
  "entry_says entry n =
     (case strip_prefix ''+'' entry of
        Some rest \<Rightarrow>
          (case split_once (CHR ''='') rest of
             Some (name, param) \<Rightarrow> if name = n then Some (Some (Some param)) else None
           | None \<Rightarrow> if rest = n then Some (Some None) else None)
      | None \<Rightarrow>
          (case strip_prefix ''-'' entry of
             Some name \<Rightarrow> if hd (split_on (CHR ''='') name) = n then Some None else None
           | None \<Rightarrow> None))"

fun named_says :: "string list \<Rightarrow> string \<Rightarrow> string option option option" where
  "named_says [] n = None"
| "named_says (entry # entries) n = (case named_says entries n of Some x \<Rightarrow> Some x | None \<Rightarrow> entry_says entry n)"

lemma named_step_says:
  "map_of (named_step entry ms) n = (case entry_says entry n of Some x \<Rightarrow> x | None \<Rightarrow> map_of ms n)"
  by (auto simp: named_step_def entry_says_def split: option.split)

lemma named_fold_says:
  "map_of (fold named_step entries ms) n = (case named_says entries n of Some x \<Rightarrow> x | None \<Rightarrow> map_of ms n)"
  by (induction entries arbitrary: ms) (simp_all add: named_step_says split: option.split)

lemma bt_eqI:
  assumes wf: "bt_wf m" "bt_wf m'" and eq: "\<And>k. map_of m k = map_of m' k"
  shows "m = m'"
proof -
  have "(k, v) \<in> set m \<longleftrightarrow> (k, v) \<in> set m'" for k v
    by (simp add: bt_mem_iff wf eq)
  then have set: "set m = set m'"
    by auto
  have "inj_on fst (set m \<union> set m')"
    using bt_wf_distinct [OF wf(1)] by (simp add: set [symmetric] distinct_map)
  then show ?thesis
    using wf set by (intro map_sorted_distinct_set_unique [of fst]) (auto simp: bt_wf_def strict_sorted_iff)
qed

text \<open>
  A named mode ends as the last entry that names it leaves it, and one no entry names is untouched. So
  applying a change twice is applying it once, which is what makes it harmless that the server relays
  every MODE as a PROP as well.
\<close>

theorem named_modes_last_entry:
  assumes "ctx_ok ctx" "model_channel (ctx_model ctx) (ctx_fold ctx name) = Some c"
    and "ctx' = snd (report_named ctx name entries)"
  shows "(\<exists>c'. model_channel (ctx_model ctx') (ctx_fold ctx name) = Some c'
       \<and> (\<forall>n. map_of (ch_named_modes c') n =
            (case named_says entries n of Some x \<Rightarrow> x | None \<Rightarrow> map_of (ch_named_modes c) n)))
    \<and> report_named ctx' name entries = ([ChannelModesChanged name], ctx')"
proof -
  let ?k = "ctx_fold ctx name" and ?f = "\<lambda>c. c\<lparr>ch_named_modes := fold named_step entries (ch_named_modes c)\<rparr>"
  have ctx': "ctx' = ctx_update (channel_mut ?k ?f) ctx"
    using assms(2,3) by (simp add: report_named_def apply_named_def)
  have fold': "ctx_fold ctx' name = ?k"
    by (simp add: ctx' ctx_fold_def)
  have wf: "bt_wf (mdl_channels (ctx_model ctx))" "bt_wf (ch_named_modes c)"
    using assms(1,2) model_ok_channel [of "ctx_model ctx" ?k c]
    by (auto simp: ctx_inv_def model_ok_def model_channel_def channel_ok_def)
  have "fold named_step entries (fold named_step entries (ch_named_modes c)) = fold named_step entries (ch_named_modes c)"
    by (rule bt_eqI) (use wf in \<open>simp_all add: named_fold_wf named_fold_says split: option.split\<close>)
  then have again: "?f (?f c) = ?f c"
    by simp
  have "channel_mut ?k ?f (channel_mut ?k ?f (ctx_model ctx)) = channel_mut ?k ?f (ctx_model ctx)"
  proof -
    have "bt_modify ?k ?f (bt_modify ?k ?f (mdl_channels (ctx_model ctx))) = bt_modify ?k ?f (mdl_channels (ctx_model ctx))"
      by (rule bt_eqI) (use wf again assms(2) in \<open>auto simp: model_channel_def\<close>)
    then show ?thesis
      by (simp add: channel_mut_def)
  qed
  then have "report_named ctx' name entries = ([ChannelModesChanged name], ctx')"
    using assms(2) by (simp add: report_named_def fold' apply_named_def) (simp add: ctx' channel_mut_look)
  then show ?thesis
    using assms(2) by (simp add: ctx' channel_mut_look named_fold_says)
qed

theorem named_modes_last_entry_witness:
  "report_named (snd (report_named sample_ctx ''#a'' [''+key=x'', ''-key''])) ''#a'' [''+key=x'', ''-key''] =
     ([ChannelModesChanged ''#a''], snd (report_named sample_ctx ''#a'' [''+key=x'', ''-key'']))"
proof -
  have "\<exists>c. model_channel (ctx_model sample_ctx) (ctx_fold sample_ctx ''#a'') = Some c"
    by (simp add: sample_line_facts(5)) (simp add: sample_ctx_def sample_model_def model_channel_def)
  then obtain c where "model_channel (ctx_model sample_ctx) (ctx_fold sample_ctx ''#a'') = Some c" ..
  from named_modes_last_entry [OF sample_ctx_ok this refl] show ?thesis by blast
qed

section \<open>Deletion and reactions\<close>

lemma log_get_mut_get:
  assumes ok: "log_ok l" and f: "\<And>m. chat_key (f m) = chat_key m \<and> chat_msgid (f m) = chat_msgid m"
  shows "log_get (log_get_mut i f l) j = (if j = i then map_option f (log_get l i) else log_get l j)"
proof (cases "map_of (log_by_msgid l) i")
  case (Some k)
  have other: "k' \<noteq> k" if "map_of (log_by_msgid l) j = Some k'" "j \<noteq> i" for k'
    using that Some log_index [OF ok, of i k] log_index [OF ok, of j k'] by auto
  show ?thesis
  proof (cases "j = i")
    case True
    then show ?thesis
      by (simp add: log_get_def log_get_mut_def Some)
  next
    case False
    then show ?thesis
      using other by (cases "map_of (log_by_msgid l) j") (simp_all add: log_get_def log_get_mut_def Some)
  qed
qed (simp add: log_get_def log_get_mut_def)

lemma log_get_mut_iter:
  "map (\<lambda>m. (chat_key m, chat_text m)) (log_iter (log_get_mut i (\<lambda>m. m\<lparr>chat_redacted := b\<rparr>) l)) =
     map (\<lambda>m. (chat_key m, chat_text m)) (log_iter l)"
  by (auto simp: log_iter_def log_get_mut_def bt_modify_def split: option.split)

lemma target_log_mut_get:
  "target_log folded m = Some l \<Longrightarrow> target_log folded (target_log_mut folded f m) = Some (f l)"
  by (auto simp: target_log_def target_log_mut_def model_channel_def model_conversation_def channel_mut_def
      conversation_mut_def split: option.splits)

definition reactors :: "chat_message \<Rightarrow> string \<Rightarrow> string list" where
  "reactors m emoji = (case map_of (chat_reactions m) emoji of Some r \<Rightarrow> r | None \<Rightarrow> [])"

lemma react_reactors:
  "reactors (react emoji who adding m) x =
     (if x = emoji
      then (if adding then (if who \<in> set (reactors m emoji) then reactors m emoji else reactors m emoji @ [who])
            else filter (\<lambda>r. r \<noteq> who) (reactors m emoji))
      else reactors m x)"
  by (auto simp: react_def reactors_def Let_def split: option.split)

text \<open>
  Deleting a message marks it and keeps what it said: every message of the log still has its key and
  text, and the other messages are untouched. A reaction adds the reactor once however often it is sent,
  taking it back removes exactly that reactor, and taking back what was just added restores who had
  reacted.
\<close>

theorem deletion_and_reactions:
  assumes "ctx_ok ctx" "target_log (ctx_fold ctx name) (ctx_model ctx) = Some l" "log_ok l" "log_get l msgid = Some m"
    and "msg_param line 0 = Some name" "msg_param line 1 = Some msgid"
    and "session_redact ctx line = (changes, ctx')"
  shows "changes = [MessageRedacted name msgid]
    \<and> (\<exists>l'. target_log (ctx_fold ctx name) (ctx_model ctx') = Some l'
         \<and> log_get l' msgid = Some (m\<lparr>chat_redacted := True\<rparr>)
         \<and> (\<forall>other. other \<noteq> msgid \<longrightarrow> log_get l' other = log_get l other)
         \<and> map (\<lambda>m. (chat_key m, chat_text m)) (log_iter l') = map (\<lambda>m. (chat_key m, chat_text m)) (log_iter l))
    \<and> set (reactors (react emoji who True m) emoji) = insert who (set (reactors m emoji))
    \<and> reactors (react emoji who True (react emoji who True m)) = reactors (react emoji who True m)
    \<and> set (reactors (react emoji who False m) emoji) = set (reactors m emoji) - {who}
    \<and> (who \<notin> set (reactors m emoji) \<longrightarrow>
         reactors (react emoji who False (react emoji who True m)) = reactors m)"
proof -
  let ?f = "log_get_mut msgid (\<lambda>m. m\<lparr>chat_redacted := True\<rparr>)"
  have res: "changes = [MessageRedacted name msgid]" "ctx' = ctx_update (target_log_mut (ctx_fold ctx name) ?f) ctx"
    using assms(2,4-7) by (auto simp: session_redact_def Let_def)
  have "target_log (ctx_fold ctx name) (ctx_model ctx') = Some (?f l)"
    using target_log_mut_get [OF assms(2), of ?f] by (simp add: res(2))
  moreover have "log_get (?f l) other = (if other = msgid then Some (m\<lparr>chat_redacted := True\<rparr>) else log_get l other)" for other
    using log_get_mut_get [OF assms(3), of "\<lambda>m. m\<lparr>chat_redacted := True\<rparr>" msgid other] assms(4) by simp
  moreover have "filter (\<lambda>r. r \<noteq> who) (reactors m emoji) = reactors m emoji" if "who \<notin> set (reactors m emoji)"
    using that by (auto intro: filter_True)
  ultimately show ?thesis
    using res(1) by (auto simp: log_get_mut_iter react_reactors fun_eq_iff)
qed

definition sample_held :: session_context where
  "sample_held =
     (let said = (chat_message_new (Message_Key 5 0) ''bob'' Privmsg)\<lparr>chat_msgid := Some ''x1'', chat_text := ''hi''\<rparr>;
          held = \<lparr>log_messages = [(Message_Key 5 0, said)], log_by_msgid = [(''x1'', Message_Key 5 0)], log_retention = 2\<rparr>
      in sample_ctx\<lparr>ctx_model := (channel_mut ''#a'' (\<lambda>c. c\<lparr>ch_log := held\<rparr>) sample_model)\<lparr>mdl_next_seq := 1\<rparr>\<rparr>)"

lemma sample_held_ok: "ctx_ok sample_held"
proof -
  have "model_ok (ctx_model sample_held)"
    by (simp add: sample_held_def Let_def sample_ctx_def sample_model_def model_ok_def model_with_retention_def bt_wf_eval
        members_known_def bt_all_def channel_ok_def log_bounded_def channel_default_def bt_contains_def channel_mut_def
        bt_modify_def log_ok_def index_ok_def chat_message_new_def)
  moreover have "model_keyed (ctx_casemapping sample_held) (ctx_model sample_held)"
    using sample_model_keyed
    by (simp add: sample_held_def Let_def sample_ctx_def ctx_casemapping_def isupport_default_def casemapping_default_def
        model_keyed_def keyed_channel_mut channel_mut_def bt_all_modify)
  ultimately show ?thesis
    by (simp add: ctx_inv_def)
qed

theorem deletion_and_reactions_witness:
  "fst (session_redact sample_held (message_new ''REDACT'' [''#a'', ''x1''])) = [MessageRedacted ''#a'' ''x1'']"
proof -
  have fold: "ctx_fold sample_held ''#a'' = ''#a''"
    using sample_line_facts(5) by (simp add: sample_held_def Let_def ctx_fold_def)
  obtain l m where l: "target_log (ctx_fold sample_held ''#a'') (ctx_model sample_held) = Some l" "log_ok l" "log_get l ''x1'' = Some m"
    by (simp add: fold) (simp add: sample_held_def Let_def sample_ctx_def sample_model_def target_log_def model_channel_def
        channel_mut_def bt_modify_def log_ok_def index_ok_def bt_wf_eval bt_all_def chat_message_new_def log_get_def)
  have p: "msg_param (message_new ''REDACT'' [''#a'', ''x1'']) 0 = Some ''#a''"
      "msg_param (message_new ''REDACT'' [''#a'', ''x1'']) 1 = Some ''x1''"
    by (simp_all add: message_new_def msg_param_def)
  obtain changes ctx' where run: "session_redact sample_held (message_new ''REDACT'' [''#a'', ''x1'']) = (changes, ctx')"
    by force
  from deletion_and_reactions [OF sample_held_ok l(1,2,3) p run] show ?thesis
    by (simp add: run)
qed

end
