(* ===== verification/Caps.thy ===== *)
theory Caps
  imports BTree Rust_Str
begin

text \<open>
  Capability negotiation (\<open>obby-client/src/caps.rs\<close>): what the server offers, what is held, and what was
  requested and not answered yet. The wanted list is that of the default build, with the entries of the
  \<open>obby\<close> and \<open>voice\<close> features at its end.
\<close>

definition WANTED_CAPS :: "string list" where
  "WANTED_CAPS =
     [''message-tags'', ''server-time'', ''batch'', ''labeled-response'', ''echo-message'',
      ''draft/multiline'', ''multi-prefix'', ''userhost-in-names'', ''extended-join'', ''account-notify'',
      ''account-tag'', ''away-notify'', ''chghost'', ''invite-notify'', ''setname'', ''cap-notify'',
      ''monitor'', ''extended-monitor'', ''draft/chathistory'', ''draft/event-playback'',
      ''draft/read-marker'', ''draft/typing'', ''draft/message-redaction'', ''draft/channel-rename'',
      ''channel-context'', ''draft/channel-context'', ''standard-replies'', ''draft/named-modes'',
      ''draft/metadata-2'', ''draft/extended-isupport'', ''draft/extended-isupport-0.2'', ''sasl'',
      ''znc.in/playback'', ''obsidianirc/cmdslist'', ''obby.world/channel-bots'', ''draft/bot-cmds'',
      ''obby.world/whois'', ''obby.world/invitation'', ''draft/authtoken'', ''obsidianirc/voice'']"

record capability =
  cap_name :: string
  cap_value :: "string option"

record capabilities =
  caps_available :: "(string, string option) btree"
  caps_acknowledged :: "(string, string option) btree"
  caps_pending :: "string list"

definition capabilities_default :: capabilities where
  "capabilities_default = \<lparr>caps_available = [], caps_acknowledged = [], caps_pending = []\<rparr>"

definition split_value :: "string \<Rightarrow> string \<times> string option" where
  "split_value token = (case split_once (CHR ''='') token of Some (name, v) \<Rightarrow> (name, Some v) | None \<Rightarrow> (token, None))"

definition advertise_token :: "string \<Rightarrow> capabilities \<Rightarrow> capabilities" where
  "advertise_token token c =
     (let (name, v) = split_value token in c\<lparr>caps_available := bt_insert name v (caps_available c)\<rparr>)"

definition caps_advertise :: "string \<Rightarrow> capabilities \<Rightarrow> capabilities" where
  "caps_advertise list c = fold advertise_token (split_whitespace list) c"

definition withdraw_token :: "string \<Rightarrow> capabilities \<Rightarrow> capabilities" where
  "withdraw_token token c =
     (let name = fst (split_value token) in
      c\<lparr>caps_available := bt_remove name (caps_available c),
        caps_acknowledged := bt_remove name (caps_acknowledged c)\<rparr>)"

definition caps_withdraw :: "string \<Rightarrow> capabilities \<Rightarrow> capabilities" where
  "caps_withdraw list c = fold withdraw_token (split_whitespace list) c"

definition caps_to_request :: "capabilities \<Rightarrow> string list" where
  "caps_to_request c =
     filter (\<lambda>name. name \<notin> set (caps_pending c))
       (filter (\<lambda>name. \<not> bt_contains (caps_acknowledged c) name)
         (filter (\<lambda>name. bt_contains (caps_available c) name) WANTED_CAPS))"

definition caps_requested :: "string list \<Rightarrow> capabilities \<Rightarrow> capabilities" where
  "caps_requested names c = c\<lparr>caps_pending := caps_pending c @ names\<rparr>"

definition stop_waiting :: "string \<Rightarrow> capabilities \<Rightarrow> capabilities" where
  "stop_waiting name c = c\<lparr>caps_pending := filter (\<lambda>p. p \<noteq> name) (caps_pending c)\<rparr>"

definition ack_token :: "string \<Rightarrow> string list \<times> capabilities \<Rightarrow> string list \<times> capabilities" where
  "ack_token token ac =
     (let (acked, c) = ac in
      case strip_prefix ''-'' token of
        Some name \<Rightarrow>
          (acked, stop_waiting name (c\<lparr>caps_acknowledged := bt_remove name (caps_acknowledged c)\<rparr>))
      | None \<Rightarrow>
          (let (name, v) = split_value token;
               v = (case v of Some x \<Rightarrow> Some x
                    | None \<Rightarrow> (case map_of (caps_available c) name of Some x \<Rightarrow> x | None \<Rightarrow> None))
           in (acked @ [name],
               stop_waiting name (c\<lparr>caps_acknowledged := bt_insert name v (caps_acknowledged c)\<rparr>))))"

definition caps_acknowledge :: "string \<Rightarrow> capabilities \<Rightarrow> string list \<times> capabilities" where
  "caps_acknowledge list c = fold ack_token (split_whitespace list) ([], c)"

definition caps_reject :: "string \<Rightarrow> capabilities \<Rightarrow> capabilities" where
  "caps_reject list c = fold (\<lambda>token. stop_waiting (fst (split_value token))) (split_whitespace list) c"

definition caps_has :: "capabilities \<Rightarrow> string \<Rightarrow> bool" where
  "caps_has c name = bt_contains (caps_acknowledged c) name"

definition caps_value :: "capabilities \<Rightarrow> string \<Rightarrow> string option" where
  "caps_value c name = (case map_of (caps_acknowledged c) name of Some v \<Rightarrow> v | None \<Rightarrow> None)"

definition caps_offers :: "capabilities \<Rightarrow> string \<Rightarrow> bool" where
  "caps_offers c name = bt_contains (caps_available c) name"

definition caps_settled :: "capabilities \<Rightarrow> bool" where
  "caps_settled c \<longleftrightarrow> caps_pending c = []"

definition caps_enabled :: "capabilities \<Rightarrow> capability list" where
  "caps_enabled c = map (\<lambda>(name, v). \<lparr>cap_name = name, cap_value = v\<rparr>) (caps_acknowledged c)"

section \<open>Invariant\<close>

definition caps_ok :: "capabilities \<Rightarrow> bool" where
  "caps_ok c \<longleftrightarrow>
     bt_wf (caps_available c) \<and> bt_wf (caps_acknowledged c)
     \<and> set (caps_pending c) \<subseteq> set WANTED_CAPS \<and> distinct (caps_pending c)"

text \<open>What the client does with an offer: ask for what it wants of it, and remember having asked.\<close>

definition caps_ask :: "capabilities \<Rightarrow> capabilities" where
  "caps_ask c = caps_requested (caps_to_request c) c"

lemma wanted_distinct: "distinct WANTED_CAPS"
  by (simp add: WANTED_CAPS_def)

lemma caps_ok_default [simp]: "caps_ok capabilities_default"
  by (simp add: caps_ok_def capabilities_default_def)

lemma caps_ok_advertise: "caps_ok c \<Longrightarrow> caps_ok (caps_advertise s c)"
  unfolding caps_advertise_def
  by (rule fold_keeps) (auto simp: advertise_token_def caps_ok_def split: prod.splits)

lemma caps_ok_withdraw: "caps_ok c \<Longrightarrow> caps_ok (caps_withdraw s c)"
  unfolding caps_withdraw_def
  by (rule fold_keeps) (auto simp: withdraw_token_def caps_ok_def Let_def)

lemma caps_ok_stop [simp]: "caps_ok c \<Longrightarrow> caps_ok (stop_waiting name c)"
  by (auto simp: stop_waiting_def caps_ok_def)

lemma caps_ok_reject: "caps_ok c \<Longrightarrow> caps_ok (caps_reject s c)"
  unfolding caps_reject_def by (rule fold_keeps) auto

lemma caps_ok_acked: "caps_ok c \<Longrightarrow> bt_wf m \<Longrightarrow> caps_ok (c\<lparr>caps_acknowledged := m\<rparr>)"
  by (simp add: caps_ok_def)

lemma caps_ok_ack_token: "caps_ok (snd ac) \<Longrightarrow> caps_ok (snd (ack_token token ac))"
proof -
  assume ok: "caps_ok (snd ac)"
  then have "bt_wf (caps_acknowledged (snd ac))"
    by (simp add: caps_ok_def)
  with ok show ?thesis
    by (simp add: ack_token_def Let_def caps_ok_acked case_prod_unfold split: option.split)
qed

lemma caps_ok_acknowledge: "caps_ok c \<Longrightarrow> caps_ok (snd (caps_acknowledge s c))"
proof -
  have "caps_ok (snd ac) \<Longrightarrow> caps_ok (snd (fold ack_token ts ac))" for ts ac
    by (induction ts arbitrary: ac) (simp_all add: caps_ok_ack_token)
  then show "caps_ok c \<Longrightarrow> caps_ok (snd (caps_acknowledge s c))"
    by (simp add: caps_acknowledge_def)
qed

lemma caps_ok_ask: "caps_ok c \<Longrightarrow> caps_ok (caps_ask c)"
  using wanted_distinct by (auto simp: caps_ask_def caps_requested_def caps_to_request_def caps_ok_def)

datatype caps_op = CAdvertise string | CWithdraw string | CAsk | CAck string | CNak string

fun caps_step :: "caps_op \<Rightarrow> capabilities \<Rightarrow> capabilities" where
  "caps_step (CAdvertise s) c = caps_advertise s c"
| "caps_step (CWithdraw s) c = caps_withdraw s c"
| "caps_step CAsk c = caps_ask c"
| "caps_step (CAck s) c = snd (caps_acknowledge s c)"
| "caps_step (CNak s) c = caps_reject s c"

interpretation caps_run: stepped_component caps_step caps_ok
proof
  fix c e
  assume "caps_ok c"
  then show "caps_ok (caps_step e c)"
    by (cases e) (simp_all add: caps_ok_advertise caps_ok_withdraw caps_ok_ask caps_ok_acknowledge caps_ok_reject)
qed

section \<open>An answer settles what it names\<close>

lemma pending_fold_stop:
  "caps_pending (fold (\<lambda>token. stop_waiting (f token)) ts c) = filter (\<lambda>p. p \<notin> f ` set ts) (caps_pending c)"
  by (induction ts arbitrary: c) (auto simp: stop_waiting_def intro: filter_cong)

definition answered_name :: "string \<Rightarrow> string" where
  "answered_name token = (case strip_prefix ''-'' token of Some name \<Rightarrow> name | None \<Rightarrow> fst (split_value token))"

lemma pending_ack_token:
  "caps_pending (snd (ack_token token ac)) = filter (\<lambda>p. p \<noteq> answered_name token) (caps_pending (snd ac))"
  by (auto simp: ack_token_def answered_name_def stop_waiting_def Let_def split: prod.splits option.splits)

lemma pending_acknowledge:
  "caps_pending (snd (caps_acknowledge s c)) =
     filter (\<lambda>p. p \<notin> answered_name ` set (split_whitespace s)) (caps_pending c)"
proof -
  have "caps_pending (snd (fold ack_token ts ac)) = filter (\<lambda>p. p \<notin> answered_name ` set ts) (caps_pending (snd ac))" for ts ac
    by (induction ts arbitrary: ac) (auto simp: pending_ack_token intro: filter_cong)
  then show ?thesis by (simp add: caps_acknowledge_def)
qed

lemma pending_reject:
  "caps_pending (caps_reject s c) = filter (\<lambda>p. p \<notin> (fst \<circ> split_value) ` set (split_whitespace s)) (caps_pending c)"
  by (simp add: caps_reject_def pending_fold_stop o_def)

section \<open>Properties\<close>

text \<open>
  Over any exchange of offers, withdrawals, requests, grants and refusals, the client asks only for
  capabilities it knows how to use, never asks twice for one it is waiting on or holds, and never asks
  for one the server does not offer.
\<close>

theorem caps_requests_sensible:
  fixes ops
  defines "c \<equiv> fold caps_step ops capabilities_default"
  shows "set (caps_to_request c) = {n. n \<in> set WANTED_CAPS \<and> caps_offers c n \<and> \<not> caps_has c n \<and> n \<notin> set (caps_pending c)}
    \<and> distinct (caps_to_request c @ caps_pending c) \<and> set (caps_pending c) \<subseteq> set WANTED_CAPS"
proof -
  have "caps_ok c"
    unfolding c_def by (rule caps_run.run_invar) simp
  then show ?thesis
    using wanted_distinct by (auto simp: caps_ok_def caps_to_request_def caps_offers_def caps_has_def)
qed

lemma caps_answers_settle_parts:
  "caps_settled (snd (caps_acknowledge s c)) \<longleftrightarrow> set (caps_pending c) \<subseteq> answered_name ` set (split_whitespace s)"
  "caps_settled (caps_reject s c) \<longleftrightarrow> set (caps_pending c) \<subseteq> (fst \<circ> split_value) ` set (split_whitespace s)"
  "caps_settled (caps_ask c) \<longleftrightarrow> caps_settled c \<and> caps_to_request c = []"
  by (auto simp: caps_settled_def pending_acknowledge pending_reject filter_empty_conv caps_ask_def caps_requested_def)

text \<open>
  A grant or a refusal that names every capability still awaited settles the negotiation, whatever
  else it names; one that names none of them leaves it as it was. What is granted keeps the value that
  was advertised when the grant does not repeat it.
\<close>

theorem caps_answers_settle:
  "(caps_settled (snd (caps_acknowledge s c)) \<longleftrightarrow> set (caps_pending c) \<subseteq> answered_name ` set (split_whitespace s))
   \<and> (caps_settled (caps_reject s c) \<longleftrightarrow> set (caps_pending c) \<subseteq> (fst \<circ> split_value) ` set (split_whitespace s))
   \<and> (caps_settled (caps_ask c) \<longleftrightarrow> caps_settled c \<and> caps_to_request c = [])"
  by (intro conjI impI; use caps_answers_settle_parts in blast)

end
