(* ===== verification/Timers.thy ===== *)
theory Timers
  imports BTree
begin

text \<open>
  Deadline scheduling (\<open>obby-client/src/timer.rs\<close>): the named deadlines a client arms, the drain they
  share with the labelled commands, and the reconnect backoff. Instants are the host's monotonic
  milliseconds; nothing reads a clock.
\<close>

record now =
  now_monotonic_ms :: nat
  now_unix_ms :: nat

definition PING_KEEPALIVE_MS :: nat where "PING_KEEPALIVE_MS = 30000"
definition DEAD_LINK_MS :: nat where "DEAD_LINK_MS = 10000"
definition TYPING_EXPIRY_MS :: nat where "TYPING_EXPIRY_MS = 6000"

datatype deadline = PingKeepalive | DeadLink | Reconnect | Typing string string

text \<open>The derived order: by constructor, then by the fields.\<close>

fun deadline_key :: "deadline \<Rightarrow> nat \<times> string \<times> string" where
  "deadline_key PingKeepalive = (0, [], [])"
| "deadline_key DeadLink = (1, [], [])"
| "deadline_key Reconnect = (2, [], [])"
| "deadline_key (Typing a b) = (3, a, b)"

lemma deadline_key_inj: "deadline_key a = deadline_key b \<Longrightarrow> a = b"
  by (cases a; cases b) auto

instantiation deadline :: linorder
begin

definition less_eq_deadline :: "deadline \<Rightarrow> deadline \<Rightarrow> bool" where
  "less_eq_deadline a b \<longleftrightarrow> deadline_key a \<le> deadline_key b"

definition less_deadline :: "deadline \<Rightarrow> deadline \<Rightarrow> bool" where
  "less_deadline a b \<longleftrightarrow> deadline_key a < deadline_key b"

instance
  by intro_classes (auto simp: less_eq_deadline_def less_deadline_def intro: deadline_key_inj)

end

section \<open>The shared drain\<close>

fun drain_loop :: "(nat \<times> 'k) list \<Rightarrow> ('k, 'v) btree \<Rightarrow> ('k \<times> 'v) list \<times> ('k, 'v) btree" where
  "drain_loop [] m = ([], m)"
| "drain_loop ((_, key) # due) m =
     (case map_of m key of
        Some v \<Rightarrow> (let (taken, rest) = drain_loop due (bt_remove key m) in ((key, v) # taken, rest))
      | None \<Rightarrow> drain_loop due m)"

definition drain_due :: "('k, 'v) btree \<Rightarrow> nat \<Rightarrow> ('v \<Rightarrow> nat) \<Rightarrow> ('k \<times> 'v) list \<times> ('k, 'v) btree" where
  "drain_due m now_ms deadline_of =
     (let due = map (\<lambda>(key, v). (deadline_of v, key)) (filter (\<lambda>(_, v). deadline_of v \<le> now_ms) m)
      in drain_loop (sort_key fst due) m)"

section \<open>Timers\<close>

record timers = tm_deadlines :: "(deadline, nat) btree"

definition timers_new :: timers where
  "timers_new = \<lparr>tm_deadlines = []\<rparr>"

definition timers_set :: "deadline \<Rightarrow> nat \<Rightarrow> timers \<Rightarrow> timers" where
  "timers_set d at t = t\<lparr>tm_deadlines := bt_insert d at (tm_deadlines t)\<rparr>"

definition timers_clear :: "deadline \<Rightarrow> timers \<Rightarrow> timers" where
  "timers_clear d t = t\<lparr>tm_deadlines := bt_remove d (tm_deadlines t)\<rparr>"

definition timers_expire :: "now \<Rightarrow> timers \<Rightarrow> deadline list \<times> timers" where
  "timers_expire n t =
     (let (taken, rest) = drain_due (tm_deadlines t) (now_monotonic_ms n) (\<lambda>at. at)
      in (map fst taken, t\<lparr>tm_deadlines := rest\<rparr>))"

fun min_value :: "nat list \<Rightarrow> nat option" where
  "min_value [] = None"
| "min_value (x # xs) = Some (case min_value xs of None \<Rightarrow> x | Some y \<Rightarrow> min x y)"

definition timers_next :: "timers \<Rightarrow> nat option" where
  "timers_next t = min_value (map snd (tm_deadlines t))"

section \<open>Reconnect backoff\<close>

record backoff =
  bo_base_ms :: nat
  bo_cap_ms :: nat
  bo_max_attempts :: nat
  bo_attempts :: nat

definition backoff_new :: "nat \<Rightarrow> nat \<Rightarrow> nat \<Rightarrow> backoff" where
  "backoff_new base cap limit =
     \<lparr>bo_base_ms = base, bo_cap_ms = cap, bo_max_attempts = limit, bo_attempts = 0\<rparr>"

definition backoff_default :: backoff where
  "backoff_default = backoff_new 2000 300000 100"

definition checked_shl_one :: "nat \<Rightarrow> nat option" where
  "checked_shl_one n = (if n < 64 then Some (2 ^ n) else None)"

definition next_delay_ms :: "backoff \<Rightarrow> nat option \<times> backoff" where
  "next_delay_ms b =
     (if bo_attempts b \<ge> bo_max_attempts b then (None, b)
      else
        (let factor = (case checked_shl_one (bo_attempts b) of Some f \<Rightarrow> f | None \<Rightarrow> u64_max);
             delay = min (saturating_mul u64_max (bo_base_ms b) factor) (bo_cap_ms b)
         in (Some delay, b\<lparr>bo_attempts := bo_attempts b + 1\<rparr>)))"

definition backoff_reset :: "backoff \<Rightarrow> backoff" where
  "backoff_reset b = b\<lparr>bo_attempts := 0\<rparr>"

section \<open>What a drain returns and keeps\<close>

lemma drain_loop_spec:
  "distinct (map snd due) \<Longrightarrow> (\<forall>k\<in>snd ` set due. map_of m k \<noteq> None) \<Longrightarrow>
     drain_loop due m =
       (map (\<lambda>(_, k). (k, the (map_of m k))) due, filter (\<lambda>(k, _). k \<notin> snd ` set due) m)"
proof (induction due m rule: drain_loop.induct)
  case (2 at key due m)
  obtain v where v: "map_of m key = Some v"
    using "2.prems"(2) by auto
  have there: "\<forall>k\<in>snd ` set due. map_of (bt_remove key m) k \<noteq> None"
    using "2.prems" by auto
  have IH: "drain_loop due (bt_remove key m) =
      (map (\<lambda>(_, k). (k, the (map_of (bt_remove key m) k))) due,
       filter (\<lambda>(k, _). k \<notin> snd ` set due) (bt_remove key m))"
    using "2.IH"(2) [OF v _ there] "2.prems"(1) by simp
  have other: "map (\<lambda>(_, k). (k, the (map_of (bt_remove key m) k))) due = map (\<lambda>(_, k). (k, the (map_of m k))) due"
    using "2.prems"(1) by (auto simp: rev_image_eqI)
  have "filter (\<lambda>(k, _). k \<notin> snd ` set due) (bt_remove key m) = filter (\<lambda>(k, _). k \<notin> snd ` set ((at, key) # due)) m"
    by (auto simp: bt_remove_def intro!: filter_cong)
  then show ?case
    unfolding drain_loop.simps v option.case IH Let_def prod.case other by (simp add: v)
qed simp

lemma distinct_map_filter_key: "distinct (map fst m) \<Longrightarrow> distinct (map snd (map (\<lambda>(k, v). (d v, k)) (filter P m)))"
  by (induction m) (auto simp: image_iff split: if_splits)

lemma distinct_sort_key_snd: "distinct (map snd xs) \<Longrightarrow> distinct (map snd (sort_key fst xs))"
  by (metis distinct_map distinct_sort set_sort)

definition due_entries :: "('k, 'v) btree \<Rightarrow> nat \<Rightarrow> ('v \<Rightarrow> nat) \<Rightarrow> (nat \<times> 'k) list" where
  "due_entries m t dl = sort_key fst (map (\<lambda>(k, v). (dl v, k)) (filter (\<lambda>(_, v). dl v \<le> t) m))"

lemma due_entries_distinct: "bt_wf m \<Longrightarrow> distinct (map snd (due_entries m t dl))"
  unfolding due_entries_def by (intro distinct_sort_key_snd distinct_map_filter_key bt_wf_distinct)

lemma due_entries_mem:
  "bt_wf m \<Longrightarrow> (a, k) \<in> set (due_entries m t dl) \<longleftrightarrow> (\<exists>v. map_of m k = Some v \<and> a = dl v \<and> a \<le> t)"
  by (force simp: due_entries_def bt_mem_iff image_iff)

lemma due_entries_keys: "bt_wf m \<Longrightarrow> snd ` set (due_entries m t dl) = {k. \<exists>v. map_of m k = Some v \<and> dl v \<le> t}"
  using due_entries_mem [of m _ _ t dl] by (force simp: image_iff)

lemma drain_due_spec:
  assumes wf: "bt_wf m"
  shows "drain_due m t dl =
    (map (\<lambda>(_, k). (k, the (map_of m k))) (due_entries m t dl), filter (\<lambda>(_, v). \<not> dl v \<le> t) m)"
proof -
  have "filter (\<lambda>(k, _). k \<notin> snd ` set (due_entries m t dl)) m = filter (\<lambda>(_, v). \<not> dl v \<le> t) m"
    using wf by (intro filter_cong) (auto simp: due_entries_keys bt_mem_iff)
  moreover have "drain_due m t dl = drain_loop (due_entries m t dl) m"
    by (simp add: drain_due_def due_entries_def)
  moreover have "\<forall>k\<in>snd ` set (due_entries m t dl). map_of m k \<noteq> None"
    by (auto simp: due_entries_keys wf)
  ultimately show ?thesis
    using drain_loop_spec [OF due_entries_distinct [OF wf], of t dl m] by metis
qed

lemma drain_due_keys:
  "bt_wf m \<Longrightarrow> map fst (fst (drain_due m t dl)) = map snd (due_entries m t dl)"
  by (simp add: drain_due_spec o_def case_prod_unfold)

lemma drain_due_rest: "bt_wf m \<Longrightarrow> snd (drain_due m t dl) = bt_retain (\<lambda>_ v. \<not> dl v \<le> t) m"
  by (simp add: drain_due_spec bt_retain_def)

lemma due_entries_sorted:
  assumes "bt_wf m"
  shows "sorted (map (\<lambda>k. the (map_option dl (map_of m k))) (map snd (due_entries m t dl)))"
proof -
  have "map (\<lambda>k. the (map_option dl (map_of m k))) (map snd (due_entries m t dl)) = map fst (due_entries m t dl)"
    using assms by (auto simp: due_entries_mem)
  moreover have "sorted (map fst (due_entries m t dl))"
    by (simp add: due_entries_def)
  ultimately show ?thesis by metis
qed

text \<open>The contract of a queue of deadlines, for any map and any reading of the deadline of a value.\<close>

interpretation drain: due_queue "\<lambda>m k. map_option dl (map_of m k)"
    "\<lambda>t m. (map fst (fst (drain_due m t dl)), snd (drain_due m t dl))" bt_wf
  for dl :: "'v \<Rightarrow> nat"
proof
  fix m :: "('k::linorder, 'v) btree" and t :: nat and k :: 'k
  assume wf: "bt_wf m"
  show "set (fst (map fst (fst (drain_due m t dl)), snd (drain_due m t dl))) =
      {k. \<exists>ta. map_option dl (map_of m k) = Some ta \<and> ta \<le> t}"
    using due_entries_keys [OF wf, of t dl] by (auto simp: drain_due_keys wf)
  show "sorted (map (\<lambda>k. the (map_option dl (map_of m k))) (fst (map fst (fst (drain_due m t dl)), snd (drain_due m t dl))))"
    using due_entries_sorted [OF wf, of dl t] by (simp add: drain_due_keys wf)
  show "distinct (fst (map fst (fst (drain_due m t dl)), snd (drain_due m t dl)))"
    by (simp add: drain_due_keys wf due_entries_distinct)
  show "map_option dl (map_of (snd (map fst (fst (drain_due m t dl)), snd (drain_due m t dl))) k) =
      (case map_option dl (map_of m k) of None \<Rightarrow> None | Some ta \<Rightarrow> if ta \<le> t then None else Some ta)"
    by (auto simp: drain_due_rest wf split: option.splits)
  show "bt_wf (snd (map fst (fst (drain_due m t dl)), snd (drain_due m t dl)))"
    by (simp add: drain_due_rest wf)
qed

section \<open>Timers as a queue of deadlines\<close>

definition timers_wf :: "timers \<Rightarrow> bool" where
  "timers_wf t \<longleftrightarrow> bt_wf (tm_deadlines t)"

definition timers_at :: "timers \<Rightarrow> deadline \<Rightarrow> nat option" where
  "timers_at t d = map_of (tm_deadlines t) d"

lemma timers_wf_simps [simp, inv_intros]:
  "timers_wf timers_new"
  "timers_wf t \<Longrightarrow> timers_wf (timers_set d at t)"
  "timers_wf t \<Longrightarrow> timers_wf (timers_clear d t)"
  by (simp_all add: timers_wf_def timers_new_def timers_set_def timers_clear_def)

lemma timers_at_set [simp]: "timers_at (timers_set d a t) d' = (if d' = d then Some a else timers_at t d')"
  by (simp add: timers_at_def timers_set_def)

lemma timers_at_clear [simp]: "timers_at (timers_clear d t) d' = (if d' = d then None else timers_at t d')"
  by (simp add: timers_at_def timers_clear_def)

lemma timers_expire_drain:
  "timers_expire n t =
     (map fst (fst (drain_due (tm_deadlines t) (now_monotonic_ms n) (\<lambda>a. a))),
      t\<lparr>tm_deadlines := snd (drain_due (tm_deadlines t) (now_monotonic_ms n) (\<lambda>a. a))\<rparr>)"
  by (simp add: timers_expire_def Let_def case_prod_unfold)

interpretation timers: due_queue timers_at
    "\<lambda>ms t. timers_expire \<lparr>now_monotonic_ms = ms, now_unix_ms = u\<rparr> t" timers_wf
  for u :: nat
proof -
  note d = drain.drain_due [where dl = "\<lambda>a. a"] drain.drain_sorted [where dl = "\<lambda>a. a"]
    drain.drain_distinct [where dl = "\<lambda>a. a"] drain.drain_keeps [where dl = "\<lambda>a. a"] drain.drain_ok [where dl = "\<lambda>a. a"]
  show "due_queue timers_at (\<lambda>ms t. timers_expire \<lparr>now_monotonic_ms = ms, now_unix_ms = u\<rparr> t) timers_wf"
    by unfold_locales (use d in \<open>simp_all add: timers_expire_drain timers_at_def timers_wf_def option.map_ident\<close>)
qed

lemma timers_expire_wf [simp, inv_intros]: "timers_wf t \<Longrightarrow> timers_wf (snd (timers_expire n t))"
  by (simp add: timers_expire_drain timers_wf_def drain_due_rest)

lemma min_value_None [simp]: "min_value xs = None \<longleftrightarrow> xs = []"
  by (cases xs) auto

lemma min_value_Some: "min_value xs = Some m \<Longrightarrow> m \<in> set xs \<and> (\<forall>x\<in>set xs. m \<le> x)"
  by (induction xs arbitrary: m) (auto split: option.splits if_splits simp: min_def intro: order_trans)

section \<open>The backoff sequence\<close>

lemma next_delay_exact:
  assumes "bo_attempts b < bo_max_attempts b" "bo_cap_ms b \<le> u64_max"
  shows "next_delay_ms b = (Some (min (bo_base_ms b * 2 ^ bo_attempts b) (bo_cap_ms b)), b\<lparr>bo_attempts := bo_attempts b + 1\<rparr>)"
proof (cases "bo_attempts b < 64 \<or> bo_base_ms b = 0")
  case True
  then show ?thesis
    using assms by (auto simp: next_delay_ms_def checked_shl_one_def saturating_mul_def Let_def)
next
  case False
  have "u64_max \<le> bo_base_ms b * u64_max"
    using False by simp
  moreover have "bo_cap_ms b \<le> bo_base_ms b * 2 ^ bo_attempts b"
  proof -
    have "bo_cap_ms b \<le> 2 ^ 64"
      using assms(2) by (simp add: u64_max_def)
    also have "\<dots> \<le> 2 ^ bo_attempts b"
      using False by (intro power_increasing) auto
    also have "\<dots> \<le> bo_base_ms b * 2 ^ bo_attempts b"
      using False by simp
    finally show ?thesis .
  qed
  ultimately show ?thesis
    using assms False by (simp add: next_delay_ms_def checked_shl_one_def saturating_mul_def Let_def min_absorb1 min_absorb2)
qed

fun backoff_delays :: "nat \<Rightarrow> backoff \<Rightarrow> nat option list" where
  "backoff_delays 0 b = []"
| "backoff_delays (Suc n) b = (case next_delay_ms b of (d, b') \<Rightarrow> d # backoff_delays n b')"

lemma backoff_delays_spec:
  "bo_cap_ms b \<le> u64_max \<Longrightarrow>
     backoff_delays n b =
       map (\<lambda>i. if i < bo_max_attempts b then Some (min (bo_base_ms b * 2 ^ i) (bo_cap_ms b)) else None)
         [bo_attempts b..<bo_attempts b + n]"
proof (induction n arbitrary: b)
  case (Suc n)
  show ?case
  proof (cases "bo_attempts b < bo_max_attempts b")
    case True
    with Suc show ?thesis
      by (simp add: next_delay_exact upt_conv_Cons del: upt_Suc)
  next
    case False
    have "map (\<lambda>i. if i < bo_max_attempts b then Some (min (bo_base_ms b * 2 ^ i) (bo_cap_ms b)) else None)
        [bo_attempts b..<bo_attempts b + k] = replicate k None" for k
      using False by (simp add: list_eq_iff_nth_eq)
    from this [of "Suc n"] this [of n] False Suc show ?thesis
      by (simp add: next_delay_ms_def del: upt_Suc)
  qed
qed simp

section \<open>Properties\<close>

lemma timers_expire_exact_parts:
  assumes "timers_wf t"
  shows "set (fst (timers_expire n t)) = {d. \<exists>a. timers_at t d = Some a \<and> a \<le> now_monotonic_ms n}"
    and "distinct (fst (timers_expire n t))"
    and "sorted (map (\<lambda>d. the (timers_at t d)) (fst (timers_expire n t)))"
    and "timers_at (snd (timers_expire n t)) d =
      (if d \<in> set (fst (timers_expire n t)) then None else timers_at t d)"
    and "fst (timers_expire n (snd (timers_expire n t))) = []"
    and "timers_next t = Some a \<Longrightarrow> fst (timers_expire n t) = [] \<longleftrightarrow> now_monotonic_ms n < a"
proof -
  obtain ms u where n: "n = \<lparr>now_monotonic_ms = ms, now_unix_ms = u\<rparr>"
    by (cases n) auto
  show due: "set (fst (timers_expire n t)) = {d. \<exists>a. timers_at t d = Some a \<and> a \<le> now_monotonic_ms n}"
    using timers.drain_due [OF assms, of ms u] by (simp add: n)
  show "distinct (fst (timers_expire n t))" "sorted (map (\<lambda>d. the (timers_at t d)) (fst (timers_expire n t)))"
    using timers.drain_distinct [OF assms, of ms u]
      timers.drain_sorted [OF assms, of ms u] by (simp_all add: n)
  show "timers_at (snd (timers_expire n t)) d = (if d \<in> set (fst (timers_expire n t)) then None else timers_at t d)"
    using timers.drain_keeps [OF assms, of ms u d]
    unfolding due by (auto simp: n split: option.splits)
  show "fst (timers_expire n (snd (timers_expire n t))) = []"
    using timers.drain_twice [OF assms, of ms u] by (simp add: n)
  show "fst (timers_expire n t) = [] \<longleftrightarrow> now_monotonic_ms n < a" if "timers_next t = Some a"
  proof -
    have "a \<in> snd ` set (tm_deadlines t)" "\<forall>x\<in>snd ` set (tm_deadlines t). a \<le> x"
      using min_value_Some [of "map snd (tm_deadlines t)" a] that by (auto simp: timers_next_def)
    moreover have "snd ` set (tm_deadlines t) = {x. \<exists>d. timers_at t d = Some x}"
      using bt_mem_iff [of "tm_deadlines t"] assms
      by (auto simp: timers_at_def timers_wf_def image_iff Bex_def simp flip: bt_mem_iff)
    ultimately have "set (fst (timers_expire n t)) = {} \<longleftrightarrow> now_monotonic_ms n < a"
      unfolding due by (auto simp: not_le [symmetric] intro: order_trans)
    then show ?thesis by simp
  qed
qed

text \<open>
  Expiring the timers at an instant returns exactly the deadlines armed for that instant or
  before, each once and earliest first, and disarms those and no other; so a second call at the same
  instant returns nothing, and what a later call returns is what had fallen due in between. The instant
  \<open>next\<close> names is the first at which anything is returned.
\<close>

theorem timers_expire_exact:
  assumes "timers_wf t"
  shows
  "(set (fst (timers_expire n t)) = {d. \<exists>a. timers_at t d = Some a \<and> a \<le> now_monotonic_ms n})
   \<and> (distinct (fst (timers_expire n t)))
   \<and> (sorted (map (\<lambda>d. the (timers_at t d)) (fst (timers_expire n t))))
   \<and> (timers_at (snd (timers_expire n t)) d =
      (if d \<in> set (fst (timers_expire n t)) then None else timers_at t d))
   \<and> (fst (timers_expire n (snd (timers_expire n t))) = [])
   \<and> (timers_next t = Some a \<longrightarrow> fst (timers_expire n t) = [] \<longleftrightarrow> now_monotonic_ms n < a)"
  by (intro conjI impI; use timers_expire_exact_parts [OF assms] in blast)

theorem timers_expire_exact_witness:
  "fst (timers_expire \<lparr>now_monotonic_ms = 20, now_unix_ms = 0\<rparr>
     (snd (timers_expire \<lparr>now_monotonic_ms = 20, now_unix_ms = 0\<rparr>
        (timers_set DeadLink 10 (timers_set PingKeepalive 20 timers_new))))) = []
   \<and> (fst (timers_expire \<lparr>now_monotonic_ms = 9, now_unix_ms = 0\<rparr>
        (timers_set DeadLink 10 (timers_set PingKeepalive 20 timers_new))) = [])"
proof -
  let ?t = "timers_set DeadLink 10 (timers_set PingKeepalive 20 timers_new)"
  have wf: "timers_wf ?t"
    by simp
  have "timers_next ?t = Some 10"
    by (simp add: timers_next_def timers_set_def timers_new_def less_deadline_def)
  then show ?thesis
    using timers_expire_exact [OF wf, where n = "\<lparr>now_monotonic_ms = 20, now_unix_ms = 0\<rparr>"]
      timers_expire_exact [OF wf, where n = "\<lparr>now_monotonic_ms = 9, now_unix_ms = 0\<rparr>" and a = 10]
    by (simp del: timers_at_set timers_at_clear)
qed

text \<open>
  The delays of consecutive reconnect attempts are \<open>base * 2^n\<close> up to the cap, with no overflow
  at any attempt count, then none once the limit is reached and for every call after it. For the
  default configuration that is 2, 4, 8 seconds and so on up to 5 minutes, a hundred times.
\<close>

theorem reconnect_backoff_delays:
  "cap \<le> u64_max \<Longrightarrow>
     backoff_delays n (backoff_new base cap limit) =
       map (\<lambda>i. if i < limit then Some (min (base * 2 ^ i) cap) else None) [0..<n]"
  using backoff_delays_spec [of "backoff_new base cap limit" n] by (simp add: backoff_new_def)

theorem reconnect_backoff_delays_witness:
  "backoff_delays 9 backoff_default =
     [Some 2000, Some 4000, Some 8000, Some 16000, Some 32000, Some 64000, Some 128000, Some 256000, Some 300000]"
  using reconnect_backoff_delays [of 300000 9 2000 100]
  by (simp add: u64_max_def backoff_default_def upt_conv_Cons)

end
