(* ===== verification/Labels.thy ===== *)
theory Labels
  imports Timers Message
begin

text \<open>
  Labeled-response correlation (\<open>obby-client/src/label.rs\<close>): which command an inbound reply answers.
  The data a label was registered with is a parameter of the type, as in the source.
\<close>

definition DEFAULT_TIMEOUT_MS :: nat where "DEFAULT_TIMEOUT_MS = 30000"

record 'a pending =
  pd_deadline_ms :: nat
  pd_batch_id :: "string option"
  pd_data :: 'a

record 'a labels =
  lb_next_id :: nat
  lb_pending :: "(string, 'a pending) btree"
  lb_open_batches :: "(string, string) btree"

definition labels_new :: "'a labels" where
  "labels_new = \<lparr>lb_next_id = 0, lb_pending = [], lb_open_batches = []\<rparr>"

text \<open>
  The counter is a \<open>u64\<close> that the source increments without a check; here it does not overflow, which on a
  connection would take 2^64 labelled commands.
\<close>

definition labels_generate :: "'a labels \<Rightarrow> string \<times> 'a labels" where
  "labels_generate l =
     (let n = lb_next_id l + 1 in (''l'' @ show_nat n, l\<lparr>lb_next_id := n\<rparr>))"

definition labels_register :: "string \<Rightarrow> nat \<Rightarrow> 'a \<Rightarrow> 'a labels \<Rightarrow> 'a labels" where
  "labels_register label deadline data l =
     l\<lparr>lb_pending := bt_insert label \<lparr>pd_deadline_ms = deadline, pd_batch_id = None, pd_data = data\<rparr> (lb_pending l)\<rparr>"

text \<open>Forget the batch a resolved or expired label had opened.\<close>

definition forget_batch :: "'a pending \<Rightarrow> (string, string) btree \<Rightarrow> (string, string) btree" where
  "forget_batch p m = (case pd_batch_id p of Some bid \<Rightarrow> bt_remove bid m | None \<Rightarrow> m)"

definition labels_resolve :: "message \<Rightarrow> 'a labels \<Rightarrow> 'a option \<times> 'a labels" where
  "labels_resolve m l =
     (if msg_is m ''BATCH'' then
        (case msg_param m 0 of
           None \<Rightarrow> (None, l)
         | Some marker \<Rightarrow>
             (case strip_prefix ''-'' marker of
                Some bid \<Rightarrow>
                  (case map_of (lb_open_batches l) bid of
                     None \<Rightarrow> (None, l)
                   | Some label \<Rightarrow>
                       (map_option pd_data (map_of (lb_pending l) label),
                        l\<lparr>lb_open_batches := bt_remove bid (lb_open_batches l),
                          lb_pending := bt_remove label (lb_pending l)\<rparr>))
              | None \<Rightarrow>
                  (case strip_prefix ''+'' marker of
                     Some bid \<Rightarrow>
                       (case msg_tag m ''label'' of
                          None \<Rightarrow> (None, l)
                        | Some label \<Rightarrow>
                            (case map_of (lb_pending l) label of
                               None \<Rightarrow> (None, l)
                             | Some p \<Rightarrow>
                                 (None,
                                  l\<lparr>lb_pending := bt_insert label (p\<lparr>pd_batch_id := Some bid\<rparr>) (lb_pending l),
                                    lb_open_batches := bt_insert bid label (lb_open_batches l)\<rparr>)))
                   | None \<Rightarrow> (None, l))))
      else
        (case msg_tag m ''label'' of
           None \<Rightarrow> (None, l)
         | Some label \<Rightarrow>
             (case map_of (lb_pending l) label of
                None \<Rightarrow> (None, l)
              | Some p \<Rightarrow>
                  (Some (pd_data p),
                   l\<lparr>lb_pending := bt_remove label (lb_pending l),
                     lb_open_batches := forget_batch p (lb_open_batches l)\<rparr>))))"

definition labels_expire :: "nat \<Rightarrow> 'a labels \<Rightarrow> 'a list \<times> 'a labels" where
  "labels_expire now_ms l =
     (let (taken, rest) = drain_due (lb_pending l) now_ms pd_deadline_ms in
      (map (\<lambda>(_, p). pd_data p) taken,
       l\<lparr>lb_pending := rest,
         lb_open_batches := fold (\<lambda>(_, p). forget_batch p) taken (lb_open_batches l)\<rparr>))"

section \<open>Labels are fresh and answered once\<close>

text \<open>
  Every outstanding label was generated here, from a counter value already passed. The client
  registers only what it generated, so the operations it composes keep this.
\<close>

definition issued_labels :: "nat \<Rightarrow> string set" where
  "issued_labels n = (\<lambda>k. ''l'' @ show_nat k) ` {1..n}"

definition labels_wf :: "'a labels \<Rightarrow> bool" where
  "labels_wf l \<longleftrightarrow>
     bt_wf (lb_pending l) \<and> bt_wf (lb_open_batches l) \<and> fst ` set (lb_pending l) \<subseteq> issued_labels (lb_next_id l)"

lemma labels_wf_new [simp]: "labels_wf labels_new"
  by (simp add: labels_wf_def labels_new_def)

lemma issued_Suc: "issued_labels (Suc n) = insert (''l'' @ show_nat (Suc n)) (issued_labels n)"
  by (auto simp: issued_labels_def atLeastAtMostSuc_conv)

lemma issued_fresh: "''l'' @ show_nat (Suc n) \<notin> issued_labels n"
  by (auto simp: issued_labels_def show_nat_inj)

lemma labels_generate_simps [simp]:
  "fst (labels_generate l) = ''l'' @ show_nat (Suc (lb_next_id l))"
  "snd (labels_generate l) = l\<lparr>lb_next_id := Suc (lb_next_id l)\<rparr>"
  by (simp_all add: labels_generate_def Let_def)

lemma labels_generate_fresh:
  "labels_wf l \<Longrightarrow> map_of (lb_pending l) (fst (labels_generate l)) = None"
  using issued_fresh [of "lb_next_id l"] by (auto simp: labels_wf_def map_of_eq_None_iff)

text \<open>What the client does for a labelled command: generate, then register what was generated.\<close>

definition labels_issue :: "nat \<Rightarrow> 'a \<Rightarrow> 'a labels \<Rightarrow> string \<times> 'a labels" where
  "labels_issue deadline data l =
     (let (label, l') = labels_generate l in (label, labels_register label deadline data l'))"

lemma labels_issue_simps:
  "fst (labels_issue deadline data l) = fst (labels_generate l)"
  "snd (labels_issue deadline data l) =
     labels_register (fst (labels_generate l)) deadline data (snd (labels_generate l))"
  by (simp_all add: labels_issue_def Let_def case_prod_unfold del: labels_generate_simps)

lemma labels_wf_issue: "labels_wf l \<Longrightarrow> labels_wf (snd (labels_issue deadline data l))"
  by (auto simp: labels_issue_simps labels_register_def labels_wf_def issued_Suc)

lemma labels_wf_shrink:
  assumes "labels_wf l" "bt_wf p" "bt_wf b" "fst ` set p \<subseteq> fst ` set (lb_pending l)"
  shows "labels_wf (l\<lparr>lb_pending := p, lb_open_batches := b\<rparr>)"
  using assms by (auto simp: labels_wf_def)

lemma bt_wf_forget [simp]: "bt_wf m \<Longrightarrow> bt_wf (forget_batch p m)"
  by (simp add: forget_batch_def split: option.split)

lemma fst_set_remove: "fst ` set (bt_remove k m) \<subseteq> fst ` set m"
  by (auto simp: bt_remove_def)

lemma fst_set_retain: "fst ` set (bt_retain P m) \<subseteq> fst ` set m"
  by (auto simp: bt_retain_def)

lemma map_of_fst: "map_of m k = Some v \<Longrightarrow> k \<in> fst ` set m"
  by (metis image_eqI map_of_SomeD fst_conv)

lemma labels_wf_resolve:
  assumes wf: "labels_wf l"
  shows "labels_wf (snd (labels_resolve m l))"
proof -
  have b: "bt_wf (lb_pending l)" "bt_wf (lb_open_batches l)"
    using wf by (simp_all add: labels_wf_def)
  have closes: "labels_wf (l\<lparr>lb_open_batches := bt_remove i (lb_open_batches l), lb_pending := bt_remove k (lb_pending l)\<rparr>)" for i k
    using wf fst_set_remove [of k "lb_pending l"] by (auto simp: labels_wf_def)
  have opens: "map_of (lb_pending l) k = Some p \<Longrightarrow>
      labels_wf (l\<lparr>lb_pending := bt_insert k (p\<lparr>pd_batch_id := Some i\<rparr>) (lb_pending l),
        lb_open_batches := bt_insert i k (lb_open_batches l)\<rparr>)" for i k p
    using b by (intro labels_wf_shrink [OF wf]) (auto dest: map_of_fst)
  have answers: "labels_wf (l\<lparr>lb_pending := bt_remove k (lb_pending l), lb_open_batches := forget_batch p (lb_open_batches l)\<rparr>)" for k p
    using b fst_set_remove [of k "lb_pending l"] by (intro labels_wf_shrink [OF wf]) simp_all
  show ?thesis
    using wf by (simp add: labels_resolve_def closes opens answers split: option.split)
qed

lemma fold_forget_wf: "bt_wf m \<Longrightarrow> bt_wf (fold (\<lambda>(_, p). forget_batch p) ps m)"
  by (induction ps arbitrary: m) auto

lemma labels_expire_drain:
  "labels_expire t l =
     (map (\<lambda>(_, p). pd_data p) (fst (drain_due (lb_pending l) t pd_deadline_ms)),
      l\<lparr>lb_pending := snd (drain_due (lb_pending l) t pd_deadline_ms),
        lb_open_batches := fold (\<lambda>(_, p). forget_batch p) (fst (drain_due (lb_pending l) t pd_deadline_ms))
          (lb_open_batches l)\<rparr>)"
  by (cases "drain_due (lb_pending l) t pd_deadline_ms") (simp add: labels_expire_def)

lemma labels_wf_expire: "labels_wf l \<Longrightarrow> labels_wf (snd (labels_expire t l))"
  unfolding labels_expire_drain snd_conv
  using fst_set_retain [of "\<lambda>_ v. \<not> pd_deadline_ms v \<le> t" "lb_pending l"]
  by (intro labels_wf_shrink) (simp_all add: labels_wf_def drain_due_rest fold_forget_wf)

section \<open>Properties\<close>

datatype 'a label_op = LIssue nat 'a | LResolve message | LExpire nat

fun label_step :: "'a label_op \<Rightarrow> 'a labels \<Rightarrow> 'a labels" where
  "label_step (LIssue deadline data) l = snd (labels_issue deadline data l)"
| "label_step (LResolve m) l = snd (labels_resolve m l)"
| "label_step (LExpire t) l = snd (labels_expire t l)"

interpretation labels_run: stepped_component label_step labels_wf
proof
  fix l :: "'a labels" and e :: "'a label_op"
  assume "labels_wf l"
  then show "labels_wf (label_step e l)"
    by (cases e) (simp_all add: labels_wf_issue labels_wf_resolve labels_wf_expire)
qed

text \<open>
  After any sequence of labelled commands, replies and expiries, a newly generated label is in use
  by no outstanding request.
\<close>

theorem labels_never_reused:
  "map_of (lb_pending (fold label_step ops labels_new)) (fst (labels_generate (fold label_step ops labels_new))) = None"
  by (rule labels_generate_fresh) (rule labels_run.run_invar [OF labels_wf_new])

lemma labels_resolved_once_parts:
  assumes "map_of (lb_pending l) label = Some p" "labels_wf l"
  shows "\<not> msg_is m ''BATCH'' \<Longrightarrow> msg_tag m ''label'' = Some label \<Longrightarrow>
      fst (labels_resolve m l) = Some (pd_data p) \<and> fst (labels_resolve m (snd (labels_resolve m l))) = None"
    and "msg_is m1 ''BATCH'' \<Longrightarrow> msg_param m1 0 = Some (''+'' @ bid) \<Longrightarrow> msg_tag m1 ''label'' = Some label \<Longrightarrow>
      msg_is m2 ''BATCH'' \<Longrightarrow> msg_param m2 0 = Some (''-'' @ bid) \<Longrightarrow>
      fst (labels_resolve m1 l) = None \<and> fst (labels_resolve m2 (snd (labels_resolve m1 l))) = Some (pd_data p)"
    and "pd_deadline_ms p \<le> t \<longleftrightarrow> map_of (lb_pending (snd (labels_expire t l))) label = None"
    and "pd_deadline_ms p \<le> t \<Longrightarrow> pd_data p \<in> set (fst (labels_expire t l))"
proof -
  show "fst (labels_resolve m l) = Some (pd_data p) \<and> fst (labels_resolve m (snd (labels_resolve m l))) = None"
    if "\<not> msg_is m ''BATCH''" "msg_tag m ''label'' = Some label"
    using that assms(1) by (simp add: labels_resolve_def)
  show "fst (labels_resolve m1 l) = None \<and> fst (labels_resolve m2 (snd (labels_resolve m1 l))) = Some (pd_data p)"
    if "msg_is m1 ''BATCH''" "msg_param m1 0 = Some (''+'' @ bid)" "msg_tag m1 ''label'' = Some label"
      "msg_is m2 ''BATCH''" "msg_param m2 0 = Some (''-'' @ bid)"
    using that assms(1) by (simp add: labels_resolve_def)
  have wf: "bt_wf (lb_pending l)"
    using assms(2) by (simp add: labels_wf_def)
  show "pd_deadline_ms p \<le> t \<longleftrightarrow> map_of (lb_pending (snd (labels_expire t l))) label = None"
    using assms(1) by (simp add: labels_expire_drain drain_due_rest wf)
  show "pd_data p \<in> set (fst (labels_expire t l))" if "pd_deadline_ms p \<le> t"
  proof -
    have "(pd_deadline_ms p, label) \<in> set (due_entries (lb_pending l) t pd_deadline_ms)"
      using assms(1) that by (simp add: due_entries_mem wf)
    then show ?thesis
      using assms(1) by (force simp: labels_expire_drain drain_due_spec wf)
  qed
qed

text \<open>
  A reply that carries an outstanding label is answered with the data registered for it and the
  label is gone, so a second reply finds nothing; when the reply is a batch, its opening line resolves
  nothing and its closing line does. A label whose deadline passes is handed back by \<open>expire\<close> exactly
  then and is no longer outstanding.
\<close>

theorem labels_resolved_once:
  assumes "map_of (lb_pending l) label = Some p" "labels_wf l"
  shows
  "(\<not> msg_is m ''BATCH'' \<longrightarrow> msg_tag m ''label'' = Some label \<longrightarrow>
      fst (labels_resolve m l) = Some (pd_data p) \<and> fst (labels_resolve m (snd (labels_resolve m l))) = None)
   \<and> (msg_is m1 ''BATCH'' \<longrightarrow> msg_param m1 0 = Some (''+'' @ bid) \<longrightarrow> msg_tag m1 ''label'' = Some label \<longrightarrow>
      msg_is m2 ''BATCH'' \<longrightarrow> msg_param m2 0 = Some (''-'' @ bid) \<longrightarrow>
      fst (labels_resolve m1 l) = None \<and> fst (labels_resolve m2 (snd (labels_resolve m1 l))) = Some (pd_data p))
   \<and> (pd_deadline_ms p \<le> t \<longleftrightarrow> map_of (lb_pending (snd (labels_expire t l))) label = None)
   \<and> (pd_deadline_ms p \<le> t \<longrightarrow> pd_data p \<in> set (fst (labels_expire t l)))"
  by (intro conjI impI; use labels_resolved_once_parts [OF assms] in blast)

theorem labels_resolved_once_witness:
  "fst (labels_resolve \<lparr>msg_tags = [tag_new ''label'' ''l1''], msg_source = None, msg_command = ''ACK'', msg_params = []\<rparr>
     (snd (labels_issue 5 True labels_new))) = Some True"
proof -
  have l: "map_of (lb_pending (snd (labels_issue 5 True labels_new))) ''l1'' =
      Some \<lparr>pd_deadline_ms = 5, pd_batch_id = None, pd_data = True\<rparr>"
    by (simp add: labels_issue_simps labels_register_def labels_new_def show_nat.simps)
  have wf: "labels_wf (snd (labels_issue 5 True labels_new))"
    by (simp add: labels_wf_issue)
  show ?thesis
    using labels_resolved_once [OF l wf,
        where m = "\<lparr>msg_tags = [tag_new ''label'' ''l1''], msg_source = None, msg_command = ''ACK'', msg_params = []\<rparr>"]
    by (simp add: msg_is_def eq_ignore_ascii_case_def msg_tag_def tags_get_def tag_new_def)
qed

end
