(* ===== verification/Batches.thy ===== *)
theory Batches
  imports BTree Message
begin

text \<open>
  \<open>BATCH\<close> framing (\<open>obby-client/src/batch.rs\<close>): which batches a connection has open, what each has
  buffered, and whether one is nested in another.
\<close>

definition DEFAULT_MAX_BUFFERED :: nat where "DEFAULT_MAX_BUFFERED = 1024"
definition DEFAULT_MAX_OPEN :: nat where "DEFAULT_MAX_OPEN = 64"

record closed_batch =
  cb_kind :: string
  cb_params :: "string list"
  cb_parent :: "string option"
  cb_messages :: "message list"
  cb_overflowed :: bool

record open_batch =
  ob_kind :: string
  ob_params :: "string list"
  ob_parent :: "string option"
  ob_messages :: "message list"
  ob_seen :: "string list"
  ob_overflowed :: bool

definition batch_push :: "message \<Rightarrow> nat \<Rightarrow> open_batch \<Rightarrow> open_batch" where
  "batch_push m max_buffered b =
     (if ob_overflowed b then b
      else
        (let msgid = msg_tag m ''msgid'' in
         if (case msgid of Some i \<Rightarrow> i \<in> set (ob_seen b) | None \<Rightarrow> False) then b
         else if length (ob_messages b) \<ge> max_buffered then b\<lparr>ob_overflowed := True\<rparr>
         else
           (case msgid of Some i \<Rightarrow> b\<lparr>ob_seen := bs_insert i (ob_seen b)\<rparr> | None \<Rightarrow> b)
             \<lparr>ob_messages := ob_messages b @ [m]\<rparr>))"

definition into_closed :: "open_batch \<Rightarrow> closed_batch" where
  "into_closed b =
     \<lparr>cb_kind = ob_kind b, cb_params = ob_params b, cb_parent = ob_parent b,
      cb_messages = ob_messages b, cb_overflowed = ob_overflowed b\<rparr>"

record batches =
  bs_by_reference :: "(string, open_batch) btree"
  bs_max_buffered :: nat
  bs_max_open :: nat

definition batches_with_max_buffered :: "nat \<Rightarrow> batches" where
  "batches_with_max_buffered n =
     \<lparr>bs_by_reference = [], bs_max_buffered = n, bs_max_open = DEFAULT_MAX_OPEN\<rparr>"

definition batches_new :: batches where
  "batches_new = batches_with_max_buffered DEFAULT_MAX_BUFFERED"

definition batches_open :: "message \<Rightarrow> batches \<Rightarrow> batches" where
  "batches_open m bs =
     (case (case msg_param m 0 of Some marker \<Rightarrow> strip_prefix ''+'' marker | None \<Rightarrow> None) of
        None \<Rightarrow> bs
      | Some reference \<Rightarrow>
          (case msg_param m 1 of
             None \<Rightarrow> bs
           | Some kind \<Rightarrow>
               if bt_contains (bs_by_reference bs) reference then bs
               else if length (bs_by_reference bs) \<ge> bs_max_open bs then bs
               else bs\<lparr>bs_by_reference := bt_insert reference
                      \<lparr>ob_kind = kind, ob_params = drop 2 (msg_params m), ob_parent = msg_tag m ''batch'',
                       ob_messages = [], ob_seen = [], ob_overflowed = False\<rparr> (bs_by_reference bs)\<rparr>))"

definition batches_close :: "message \<Rightarrow> batches \<Rightarrow> closed_batch option \<times> batches" where
  "batches_close m bs =
     (case (case msg_param m 0 of Some marker \<Rightarrow> strip_prefix ''-'' marker | None \<Rightarrow> None) of
        None \<Rightarrow> (None, bs)
      | Some reference \<Rightarrow>
          (map_option into_closed (map_of (bs_by_reference bs) reference),
           bs\<lparr>bs_by_reference := bt_remove reference (bs_by_reference bs)\<rparr>))"

definition batches_route :: "message \<Rightarrow> batches \<Rightarrow> message option \<times> batches" where
  "batches_route m bs =
     (case msg_tag m ''batch'' of
        None \<Rightarrow> (Some m, bs)
      | Some reference \<Rightarrow>
          (case map_of (bs_by_reference bs) reference of
             Some b \<Rightarrow>
               (None, bs\<lparr>bs_by_reference := bt_modify reference (batch_push m (bs_max_buffered bs)) (bs_by_reference bs)\<rparr>)
           | None \<Rightarrow> (Some m, bs)))"

function within_loop :: "(string, open_batch) btree \<Rightarrow> string \<Rightarrow> open_batch option \<Rightarrow> nat \<Rightarrow> bool" where
  "within_loop m kind current steps =
     (case current of
        None \<Rightarrow> False
      | Some b \<Rightarrow>
          if ob_kind b = kind then True
          else
            (let steps = steps + 1 in
             if steps > length m then False
             else within_loop m kind (case ob_parent b of Some p \<Rightarrow> map_of m p | None \<Rightarrow> None) steps))"
  by pat_completeness auto
termination
  by (relation "measure (\<lambda>(m, _, _, steps). Suc (length m) - steps)") auto

declare within_loop.simps [simp del]

definition is_within :: "batches \<Rightarrow> string \<Rightarrow> string \<Rightarrow> bool" where
  "is_within bs reference kind =
     within_loop (bs_by_reference bs) kind (map_of (bs_by_reference bs) reference) 0"

definition batches_drop_all :: "batches \<Rightarrow> batches" where
  "batches_drop_all bs = bs\<lparr>bs_by_reference := []\<rparr>"

section \<open>Ancestors\<close>

definition parent_ref :: "(string, open_batch) btree \<Rightarrow> string \<Rightarrow> string option" where
  "parent_ref m r = (case map_of m r of Some b \<Rightarrow> ob_parent b | None \<Rightarrow> None)"

definition of_kind :: "(string, open_batch) btree \<Rightarrow> string \<Rightarrow> string \<Rightarrow> bool" where
  "of_kind m kind r \<longleftrightarrow> (case map_of m r of Some b \<Rightarrow> ob_kind b = kind | None \<Rightarrow> False)"

text \<open>The batches that hold a reference open, itself included.\<close>

inductive holds_open :: "(string, open_batch) btree \<Rightarrow> string \<Rightarrow> string \<Rightarrow> bool" for m where
  itself: "holds_open m r r"
| outer: "holds_open m r s \<Longrightarrow> parent_ref m s = Some p \<Longrightarrow> holds_open m r p"

fun ancestor :: "(string, open_batch) btree \<Rightarrow> nat \<Rightarrow> string \<Rightarrow> string option" where
  "ancestor m 0 r = Some r"
| "ancestor m (Suc n) r = (case parent_ref m r of None \<Rightarrow> None | Some p \<Rightarrow> ancestor m n p)"

lemma ancestor_add: "ancestor m (i + j) r = (case ancestor m i r of None \<Rightarrow> None | Some s \<Rightarrow> ancestor m j s)"
  by (induction i arbitrary: r) (auto split: option.splits)

lemma holds_open_iff: "holds_open m r s \<longleftrightarrow> (\<exists>n. ancestor m n r = Some s)"
proof
  show "holds_open m r s \<Longrightarrow> \<exists>n. ancestor m n r = Some s"
  proof (induction rule: holds_open.induct)
    case (itself r)
    have "ancestor m 0 r = Some r" by simp
    then show ?case by blast
  next
    case (outer r s p)
    then obtain n where "ancestor m n r = Some s" by blast
    then have "ancestor m (n + 1) r = Some p"
      using outer.hyps(2) by (subst ancestor_add) simp
    then show ?case by blast
  qed
  have "ancestor m n r = Some s \<Longrightarrow> holds_open m r s" for n s
  proof (induction n arbitrary: s)
    case 0
    then show ?case by (auto intro: itself)
  next
    case (Suc n)
    then show ?case
      using ancestor_add [of m n 1 r] by (auto split: option.splits intro: outer)
  qed
  then show "\<exists>n. ancestor m n r = Some s \<Longrightarrow> holds_open m r s" by blast
qed

text \<open>The batch found when the parents of a reference are followed \<open>n\<close> times has the kind.\<close>

definition kind_at :: "(string, open_batch) btree \<Rightarrow> string \<Rightarrow> nat \<Rightarrow> string \<Rightarrow> bool" where
  "kind_at m kind n r \<longleftrightarrow> (case ancestor m n r of Some s \<Rightarrow> of_kind m kind s | None \<Rightarrow> False)"

lemma kind_at_simps:
  "kind_at m kind 0 r = of_kind m kind r"
  "kind_at m kind (Suc n) r = (case parent_ref m r of None \<Rightarrow> False | Some p \<Rightarrow> kind_at m kind n p)"
  by (auto simp: kind_at_def split: option.splits)

lemma ex_le_Suc: "(\<exists>n\<le>Suc d. P n) \<longleftrightarrow> P 0 \<or> (\<exists>n\<le>d. P (Suc n))"
  by (metis Suc_le_mono le0 not0_implies_Suc)

lemma within_loop_iff:
  "steps \<le> length m \<Longrightarrow>
     within_loop m kind (map_of m r) steps \<longleftrightarrow> (\<exists>n\<le>length m - steps. kind_at m kind n r)"
proof (induction "length m - steps" arbitrary: steps r)
  case 0
  then show ?case
    by (auto simp: within_loop.simps kind_at_simps of_kind_def split: option.splits)
next
  case (Suc d)
  have split: "(\<exists>n\<le>length m - steps. kind_at m kind n r) \<longleftrightarrow>
      of_kind m kind r \<or> (\<exists>n\<le>length m - Suc steps. kind_at m kind (Suc n) r)"
    using Suc.hyps(2) ex_le_Suc [of d "\<lambda>n. kind_at m kind n r"]
    by (metis kind_at_simps(1) Suc_diff_Suc diff_Suc_1 zero_less_Suc zero_less_diff)
  show ?case
  proof (cases "map_of m r")
    case None
    then show ?thesis
      unfolding split by (simp add: within_loop.simps kind_at_simps of_kind_def parent_ref_def)
  next
    case (Some b)
    have "within_loop m kind (case ob_parent b of Some p \<Rightarrow> map_of m p | None \<Rightarrow> None) (Suc steps)
        \<longleftrightarrow> (\<exists>n\<le>length m - Suc steps. kind_at m kind (Suc n) r)"
      using Suc.hyps by (cases "ob_parent b") (simp_all add: within_loop.simps kind_at_simps parent_ref_def Some)
    moreover have "\<not> length m < Suc steps"
      using Suc.hyps(2) by simp
    ultimately show ?thesis
      unfolding split using Some
      by (subst within_loop.simps) (simp add: Let_def of_kind_def)
  qed
qed

text \<open>
  A chain of parents that reaches a kind reaches it within as many steps as there are open batches: the
  batches on the shortest such chain are all different.
\<close>

lemma ancestor_open: "ancestor m (Suc n) r \<noteq> None \<Longrightarrow> i \<le> n \<Longrightarrow> \<exists>s. ancestor m i r = Some s \<and> s \<in> fst ` set m"
proof -
  assume "ancestor m (Suc n) r \<noteq> None" "i \<le> n"
  then have "ancestor m (i + Suc (n - i)) r \<noteq> None"
    by simp
  then obtain s where s: "ancestor m i r = Some s" "ancestor m (Suc (n - i)) s \<noteq> None"
    unfolding ancestor_add by (auto split: option.splits)
  then have "map_of m s \<noteq> None"
    by (auto simp: parent_ref_def split: option.splits)
  then show ?thesis
    using s(1) by (metis map_of_eq_None_iff)
qed

lemma kind_at_shortcut:
  assumes "ancestor m i r = ancestor m j r" "i < j" "j \<le> n" "kind_at m kind n r"
  shows "kind_at m kind (i + (n - j)) r"
  using assms ancestor_add [of m i "n - j" r] ancestor_add [of m j "n - j" r] by (simp add: kind_at_def)

lemma kind_at_bounded:
  assumes "kind_at m kind n r"
  shows "\<exists>k\<le>length m. kind_at m kind k r"
proof -
  define k where "k = (LEAST n. kind_at m kind n r)"
  have k: "kind_at m kind k r" and least: "\<And>j. kind_at m kind j r \<Longrightarrow> k \<le> j"
    unfolding k_def using assms by (auto intro: LeastI Least_le)
  have "k \<le> length m"
  proof (rule ccontr)
    assume "\<not> k \<le> length m"
    then obtain n where n: "k = Suc n" "length m \<le> n"
      by (cases k) auto
    have reached: "ancestor m (Suc n) r \<noteq> None"
      using k by (auto simp: kind_at_def n split: option.splits)
    have "(\<lambda>i. the (ancestor m i r)) ` {..n} \<subseteq> fst ` set m"
      using ancestor_open [OF reached] by force
    moreover have "card (fst ` set m) \<le> length m"
      by (metis card_length length_map set_map)
    ultimately have "\<not> inj_on (\<lambda>i. the (ancestor m i r)) {..n}"
      using n(2) card_mono [of "fst ` set m" "(\<lambda>i. the (ancestor m i r)) ` {..n}"]
      by (metis List.finite_set card_atMost card_image finite_imageI not_less_eq_eq order_trans)
    then obtain i j where ij: "i < j" "j \<le> n" "the (ancestor m i r) = the (ancestor m j r)"
      by (auto simp: inj_on_def) (metis linorder_neqE_nat)
    have "ancestor m i r = ancestor m j r"
      using ij ancestor_open [OF reached, of i] ancestor_open [OF reached, of j] by auto
    then have "kind_at m kind (i + (k - j)) r"
      using ij k n(1) by (intro kind_at_shortcut) auto
    then show False
      using least [of "i + (k - j)"] ij n(1) by simp
  qed
  with k show ?thesis by blast
qed

lemma is_within_iff: "is_within bs r kind \<longleftrightarrow> (\<exists>s. holds_open (bs_by_reference bs) r s \<and> of_kind (bs_by_reference bs) kind s)"
proof -
  have "is_within bs r kind \<longleftrightarrow> (\<exists>n. kind_at (bs_by_reference bs) kind n r)"
    using within_loop_iff [of 0 "bs_by_reference bs" kind r] kind_at_bounded [of "bs_by_reference bs" kind _ r]
    by (auto simp: is_within_def)
  then show ?thesis
    by (auto simp: holds_open_iff kind_at_def split: option.splits)
qed

section \<open>Buffering\<close>

definition msgids :: "message list \<Rightarrow> string list" where
  "msgids ms = List.map_filter (\<lambda>m. msg_tag m ''msgid'') ms"

definition open_batch_ok :: "nat \<Rightarrow> open_batch \<Rightarrow> bool" where
  "open_batch_ok n b \<longleftrightarrow>
     length (ob_messages b) \<le> n \<and> bs_wf (ob_seen b)
     \<and> set (ob_seen b) = set (msgids (ob_messages b)) \<and> distinct (msgids (ob_messages b))
     \<and> (ob_overflowed b \<longrightarrow> length (ob_messages b) = n)"

definition batches_ok :: "batches \<Rightarrow> bool" where
  "batches_ok bs \<longleftrightarrow>
     bt_wf (bs_by_reference bs) \<and> length (bs_by_reference bs) \<le> bs_max_open bs
     \<and> bt_all (\<lambda>_. open_batch_ok (bs_max_buffered bs)) (bs_by_reference bs)"

lemma msgids_simps [simp]:
  "msgids [] = []"
  "msgids (m # ms) = (case msg_tag m ''msgid'' of Some i \<Rightarrow> i # msgids ms | None \<Rightarrow> msgids ms)"
  "msgids (ms @ ns) = msgids ms @ msgids ns"
  by (auto simp: msgids_def map_filter_simps map_filter_def split: option.splits)

lemma open_batch_ok_push: "open_batch_ok n b \<Longrightarrow> open_batch_ok n (batch_push m n b)"
  by (auto simp: open_batch_ok_def batch_push_def Let_def split: option.splits)

lemma batches_ok_new [simp]: "batches_ok (batches_with_max_buffered n)"
  by (simp add: batches_ok_def batches_with_max_buffered_def)

lemma batches_ok_open: "batches_ok bs \<Longrightarrow> batches_ok (batches_open m bs)"
  by (auto simp: batches_ok_def batches_open_def length_bt_insert open_batch_ok_def
      intro!: bt_all_insert split: option.splits)

lemma batches_ok_close: "batches_ok bs \<Longrightarrow> batches_ok (snd (batches_close m bs))"
  using length_bt_remove_le order_trans
  by (fastforce simp: batches_ok_def batches_close_def intro!: bt_all_remove split: option.splits)

lemma batches_ok_route: "batches_ok bs \<Longrightarrow> batches_ok (snd (batches_route m bs))"
  by (auto simp: batches_ok_def batches_route_def open_batch_ok_push intro!: bt_all_modify split: option.splits)

lemma batches_ok_drop_all: "batches_ok bs \<Longrightarrow> batches_ok (batches_drop_all bs)"
  by (simp add: batches_ok_def batches_drop_all_def)

datatype batch_op = BOpen message | BClose message | BRoute message | BDropAll

fun batch_step :: "batch_op \<Rightarrow> batches \<Rightarrow> batches" where
  "batch_step (BOpen m) bs = batches_open m bs"
| "batch_step (BClose m) bs = snd (batches_close m bs)"
| "batch_step (BRoute m) bs = snd (batches_route m bs)"
| "batch_step BDropAll bs = batches_drop_all bs"

interpretation batches_run: stepped_component batch_step batches_ok
proof
  fix bs e
  assume "batches_ok bs"
  then show "batches_ok (batch_step e bs)"
    by (cases e) (simp_all add: batches_ok_open batches_ok_close batches_ok_route batches_ok_drop_all)
qed

lemma batch_bounds_step: "bs_max_open (batch_step e bs) = bs_max_open bs" "bs_max_buffered (batch_step e bs) = bs_max_buffered bs"
  by (cases e; simp add: batches_open_def batches_close_def batches_route_def batches_drop_all_def split: option.split)+

lemma batch_bounds_run: "bs_max_open (fold batch_step es bs) = bs_max_open bs" "bs_max_buffered (fold batch_step es bs) = bs_max_buffered bs"
  by (induction es arbitrary: bs) (simp_all add: batch_bounds_step)

text \<open>What a batch should hold: the messages in order, without those whose id was already there.\<close>

fun without_repeats :: "string set \<Rightarrow> message list \<Rightarrow> message list" where
  "without_repeats ids [] = []"
| "without_repeats ids (m # ms) =
     (case msg_tag m ''msgid'' of
        Some i \<Rightarrow> if i \<in> ids then without_repeats ids ms else m # without_repeats (insert i ids) ms
      | None \<Rightarrow> m # without_repeats ids ms)"

lemma fold_push_spec:
  assumes "\<not> ob_overflowed b" "length (ob_messages b) \<le> n"
  shows "ob_messages (fold (\<lambda>m. batch_push m n) ms b) =
      take n (ob_messages b @ without_repeats (set (ob_seen b)) ms)
    \<and> (ob_overflowed (fold (\<lambda>m. batch_push m n) ms b) \<longleftrightarrow>
         n < length (ob_messages b) + length (without_repeats (set (ob_seen b)) ms))"
  using assms
proof (induction ms arbitrary: b)
  case (Cons m ms)
  have stuck: "ob_overflowed c \<Longrightarrow> fold (\<lambda>m. batch_push m n) ms c = c" for c
    by (induction ms arbitrary: c) (simp_all add: batch_push_def)
  consider (seen) i where "msg_tag m ''msgid'' = Some i" "i \<in> set (ob_seen b)"
    | (full) "\<And>i. msg_tag m ''msgid'' = Some i \<Longrightarrow> i \<notin> set (ob_seen b)" "length (ob_messages b) = n"
    | (new) "\<And>i. msg_tag m ''msgid'' = Some i \<Longrightarrow> i \<notin> set (ob_seen b)" "length (ob_messages b) < n"
    using Cons.prems(2) by fastforce
  then show ?case
  proof cases
    case seen
    then show ?thesis
      using Cons by (simp add: batch_push_def)
  next
    case full
    then have "batch_push m n b = b\<lparr>ob_overflowed := True\<rparr>"
      using Cons.prems by (cases "msg_tag m ''msgid''") (auto simp: batch_push_def)
    then show ?thesis
      using full stuck by (auto split: option.splits)
  next
    case new
    then show ?thesis
      using Cons.prems Cons.IH [of "batch_push m n b"]
      by (cases "msg_tag m ''msgid''") (auto simp: batch_push_def)
  qed
qed simp

lemma fold_route:
  "list_all (\<lambda>m. msg_tag m ''batch'' = Some r) ms \<Longrightarrow> map_of (bs_by_reference bs) r = Some b \<Longrightarrow>
     map_of (bs_by_reference (fold (\<lambda>m bs. snd (batches_route m bs)) ms bs)) r =
       Some (fold (\<lambda>m. batch_push m (bs_max_buffered bs)) ms b)"
proof (induction ms arbitrary: bs b)
  case (Cons m ms)
  let ?bs = "snd (batches_route m bs)"
  have "map_of (bs_by_reference ?bs) r = Some (batch_push m (bs_max_buffered bs) b)" "bs_max_buffered ?bs = bs_max_buffered bs"
    using Cons.prems by (simp_all add: batches_route_def)
  then show ?case
    using Cons.IH [of ?bs] Cons.prems(1) by simp
qed simp

section \<open>Properties\<close>

text \<open>
  Whatever a server sends, a connection never has more batches open than the limit, no batch ever
  buffers more messages than its bound, no batch holds two messages with one id, and a batch is marked
  overflowed only when its buffer is full.
\<close>

theorem batches_bounded:
  "length (bs_by_reference (fold batch_step ops (batches_with_max_buffered n))) \<le> DEFAULT_MAX_OPEN
   \<and> bt_all (\<lambda>_ b. length (ob_messages b) \<le> n \<and> distinct (msgids (ob_messages b))
        \<and> (if ob_overflowed b then length (ob_messages b) = n else True))
      (bs_by_reference (fold batch_step ops (batches_with_max_buffered n)))"
proof -
  let ?bs = "fold batch_step ops (batches_with_max_buffered n)"
  have ok: "batches_ok ?bs"
    by (rule batches_run.run_invar) simp
  have "bs_max_open ?bs = DEFAULT_MAX_OPEN" "bs_max_buffered ?bs = n"
    by (simp_all add: batch_bounds_run batches_with_max_buffered_def)
  with ok show ?thesis
    by (auto simp: batches_ok_def bt_all_def list_all_iff open_batch_ok_def split: prod.splits)
qed

text \<open>
  Asking whether a reference is inside a batch of a kind is asking whether some batch that holds
  it open, directly or through others, has that kind. The walk is bounded by the number of open
  batches, and this loses nothing and ends even when a server names two batches as each other's parent.
\<close>

theorem is_within_ancestors:
  "is_within bs r kind \<longleftrightarrow>
     (\<exists>s. holds_open (bs_by_reference bs) r s \<and> of_kind (bs_by_reference bs) kind s)"
  by (rule is_within_iff)

lemma batch_collects_parts:
  assumes open_line: "msg_param om 0 = Some (''+'' @ r)" "msg_param om 1 = Some kind"
    and fresh: "map_of (bs_by_reference bs) r = None" "length (bs_by_reference bs) < bs_max_open bs"
    and tagged: "list_all (\<lambda>m. msg_tag m ''batch'' = Some r) ms"
    and close_line: "msg_param cm 0 = Some (''-'' @ r)"
  defines "filled \<equiv> fold (\<lambda>m bs. snd (batches_route m bs)) ms (batches_open om bs)"
  shows "fst (batches_close cm filled) =
      Some \<lparr>cb_kind = kind, cb_params = drop 2 (msg_params om), cb_parent = msg_tag om ''batch'',
        cb_messages = take (bs_max_buffered bs) (without_repeats {} ms),
        cb_overflowed = (bs_max_buffered bs < length (without_repeats {} ms))\<rparr>"
    and "m \<in> set ms \<Longrightarrow> fst (batches_route m (batches_open om bs)) = None"
    and "map_of (bs_by_reference (snd (batches_close cm filled))) r = None"
proof -
  define b where "b = \<lparr>ob_kind = kind, ob_params = drop 2 (msg_params om), ob_parent = msg_tag om ''batch'',
    ob_messages = [], ob_seen = [], ob_overflowed = False\<rparr>"
  have opened: "map_of (bs_by_reference (batches_open om bs)) r = Some b" "bs_max_buffered (batches_open om bs) = bs_max_buffered bs"
    using open_line fresh by (simp_all add: batches_open_def bt_contains_def b_def)
  let ?b = "fold (\<lambda>m. batch_push m (bs_max_buffered bs)) ms b"
  have held: "map_of (bs_by_reference filled) r = Some ?b"
    using fold_route [OF tagged opened(1)] by (simp add: filled_def opened(2))
  have same: "ob_kind (fold (\<lambda>m. batch_push m n) ms c) = ob_kind c" "ob_params (fold (\<lambda>m. batch_push m n) ms c) = ob_params c"
      "ob_parent (fold (\<lambda>m. batch_push m n) ms c) = ob_parent c" for n c
    by (induction ms arbitrary: c) (simp_all add: batch_push_def Let_def split: option.split)
  have "ob_messages ?b = take (bs_max_buffered bs) (without_repeats {} ms)"
      "ob_overflowed ?b = (bs_max_buffered bs < length (without_repeats {} ms))"
    using fold_push_spec [of b "bs_max_buffered bs" ms] by (simp_all add: b_def)
  then show "fst (batches_close cm filled) =
      Some \<lparr>cb_kind = kind, cb_params = drop 2 (msg_params om), cb_parent = msg_tag om ''batch'',
        cb_messages = take (bs_max_buffered bs) (without_repeats {} ms),
        cb_overflowed = (bs_max_buffered bs < length (without_repeats {} ms))\<rparr>"
    using close_line held by (simp add: batches_close_def into_closed_def same) (simp add: b_def)
  show "fst (batches_route m (batches_open om bs)) = None" if "m \<in> set ms"
    using that tagged opened(1) by (simp add: batches_route_def list_all_iff)
  show "map_of (bs_by_reference (snd (batches_close cm filled))) r = None"
    using close_line by (simp add: batches_close_def)
qed

text \<open>
  A batch opened under a fresh reference, fed messages tagged with it and then closed, hands back
  those messages in arrival order without the repeats of a message id, cut at the bound, with the kind,
  the parameters and the parent of its opening line; and it reports overflow exactly when there were
  more than the bound. What was routed into it was not passed on as live.
\<close>

theorem batch_collects:
  assumes "msg_param om 0 = Some (''+'' @ r)" "msg_param om 1 = Some kind"
    and "map_of (bs_by_reference bs) r = None" "length (bs_by_reference bs) < bs_max_open bs"
    and "list_all (\<lambda>m. msg_tag m ''batch'' = Some r) ms"
    and "msg_param cm 0 = Some (''-'' @ r)"
  shows
  "(fst (batches_close cm (fold (\<lambda>m bs. snd (batches_route m bs)) ms (batches_open om bs))) =
      Some \<lparr>cb_kind = kind, cb_params = drop 2 (msg_params om), cb_parent = msg_tag om ''batch'',
        cb_messages = take (bs_max_buffered bs) (without_repeats {} ms),
        cb_overflowed = (bs_max_buffered bs < length (without_repeats {} ms))\<rparr>)
   \<and> (m \<in> set ms \<longrightarrow> fst (batches_route m (batches_open om bs)) = None)
   \<and> (map_of (bs_by_reference (snd (batches_close cm (fold (\<lambda>m bs. snd (batches_route m bs)) ms (batches_open om bs))))) r = None)"
  by (intro conjI impI; use batch_collects_parts [OF assms] in blast)

definition sample_line :: message where
  "sample_line =
     \<lparr>msg_tags = [tag_new ''batch'' ''7'', tag_new ''msgid'' ''x''], msg_source = None,
      msg_command = ''PRIVMSG'', msg_params = [''#rust'', ''hi'']\<rparr>"

theorem batch_collects_witness:
  "fst (batches_close (message_new ''BATCH'' [''-7''])
     (fold (\<lambda>m bs. snd (batches_route m bs)) [sample_line, sample_line]
       (batches_open (message_new ''BATCH'' [''+7'', ''chathistory'', ''#rust'']) batches_new))) =
   Some \<lparr>cb_kind = ''chathistory'', cb_params = [''#rust''], cb_parent = None,
     cb_messages = [sample_line], cb_overflowed = False\<rparr>"
proof -
  have tags: "msg_tag sample_line ''batch'' = Some ''7''" "msg_tag sample_line ''msgid'' = Some ''x''"
    by (simp_all add: sample_line_def msg_tag_def tags_get_def tag_new_def)
  show ?thesis
    using batch_collects [where om = "message_new ''BATCH'' [''+7'', ''chathistory'', ''#rust'']" and r = "''7''"
        and kind = "''chathistory''" and bs = batches_new and ms = "[sample_line, sample_line]"
        and cm = "message_new ''BATCH'' [''-7'']"] tags
    by (simp add: msg_param_def message_new_def batches_new_def batches_with_max_buffered_def DEFAULT_MAX_OPEN_def
        DEFAULT_MAX_BUFFERED_def) (simp add: msg_tag_def tags_get_def)
qed

end
