(* ===== verification/Watch_List.thy ===== *)
theory Watch_List
  imports BTree Casemap
begin

text \<open>
  Watching whether people are online (\<open>obby-client/src/monitor.rs\<close>): the MONITOR list and the splitting
  of a long list of targets into requests.
\<close>

record watch_list =
  wl_watching :: "case_folded list"
  wl_online :: "case_folded list"

definition watch_list_new :: watch_list where
  "watch_list_new = \<lparr>wl_watching = [], wl_online = []\<rparr>"

definition wl_watch :: "case_folded list \<Rightarrow> watch_list \<Rightarrow> watch_list" where
  "wl_watch nicks w = w\<lparr>wl_watching := fold bs_insert nicks (wl_watching w)\<rparr>"

definition wl_unwatch :: "case_folded list \<Rightarrow> watch_list \<Rightarrow> watch_list" where
  "wl_unwatch nicks w =
     fold (\<lambda>nick w. w\<lparr>wl_watching := bs_remove nick (wl_watching w), wl_online := bs_remove nick (wl_online w)\<rparr>)
       nicks w"

definition wl_clear :: "watch_list \<Rightarrow> watch_list" where
  "wl_clear w = w\<lparr>wl_watching := [], wl_online := []\<rparr>"

definition wl_mark_online :: "case_folded \<Rightarrow> watch_list \<Rightarrow> watch_list" where
  "wl_mark_online nick w =
     w\<lparr>wl_watching := bs_insert nick (wl_watching w), wl_online := bs_insert nick (wl_online w)\<rparr>"

definition wl_mark_offline :: "case_folded \<Rightarrow> watch_list \<Rightarrow> watch_list" where
  "wl_mark_offline nick w = w\<lparr>wl_online := bs_remove nick (wl_online w)\<rparr>"

definition wl_is_watching :: "watch_list \<Rightarrow> case_folded \<Rightarrow> bool" where
  "wl_is_watching w nick \<longleftrightarrow> nick \<in> set (wl_watching w)"

definition wl_is_online :: "watch_list \<Rightarrow> case_folded \<Rightarrow> bool" where
  "wl_is_online w nick \<longleftrightarrow> nick \<in> set (wl_online w)"

definition wl_is_empty :: "watch_list \<Rightarrow> bool" where
  "wl_is_empty w \<longleftrightarrow> wl_watching w = []"

definition wl_forget_presence :: "watch_list \<Rightarrow> watch_list" where
  "wl_forget_presence w = w\<lparr>wl_online := []\<rparr>"

definition batched :: "string list \<Rightarrow> nat \<Rightarrow> string list" where
  "batched targets limit = map (join_with '','') (chunks (max limit 1) targets)"

definition split_targets :: "string \<Rightarrow> string list" where
  "split_targets list = filter (\<lambda>t. t \<noteq> []) (split_on (CHR '','') list)"

section \<open>Invariant\<close>

definition watch_list_ok :: "watch_list \<Rightarrow> bool" where
  "watch_list_ok w \<longleftrightarrow> bs_wf (wl_watching w) \<and> bs_wf (wl_online w) \<and> set (wl_online w) \<subseteq> set (wl_watching w)"

lemma bs_fold_insert: "bs_wf s \<Longrightarrow> bs_wf (fold bs_insert xs s)" "set (fold bs_insert xs s) = set xs \<union> set s"
  by (induction xs arbitrary: s) auto

datatype watch_op = WWatch "case_folded list" | WUnwatch "case_folded list" | WClear
  | WOnline case_folded | WOffline case_folded | WForget

fun watch_step :: "watch_op \<Rightarrow> watch_list \<Rightarrow> watch_list" where
  "watch_step (WWatch ns) w = wl_watch ns w"
| "watch_step (WUnwatch ns) w = wl_unwatch ns w"
| "watch_step WClear w = wl_clear w"
| "watch_step (WOnline n) w = wl_mark_online n w"
| "watch_step (WOffline n) w = wl_mark_offline n w"
| "watch_step WForget w = wl_forget_presence w"

lemma watch_list_ok_new [simp]: "watch_list_ok watch_list_new"
  by (simp add: watch_list_ok_def watch_list_new_def)

lemma watch_list_ok_unwatch: "watch_list_ok w \<Longrightarrow> watch_list_ok (wl_unwatch ns w)"
  unfolding wl_unwatch_def by (rule fold_keeps) (auto simp: watch_list_ok_def)

interpretation watch_run: stepped_component watch_step watch_list_ok
proof
  fix w e
  assume "watch_list_ok w"
  then show "watch_list_ok (watch_step e w)"
    using watch_list_ok_unwatch [of w]
    by (cases e) (simp, (auto simp: watch_list_ok_def wl_watch_def wl_clear_def
        wl_mark_online_def wl_mark_offline_def wl_forget_presence_def bs_fold_insert)+)
qed

section \<open>Properties\<close>

text \<open>
  Whatever is watched, unwatched and reported, nobody is shown online who is not watched; after a
  dropped link nobody is online and everyone watched still is.
\<close>

theorem watch_list_presence:
  fixes ops
  defines "w \<equiv> fold watch_step ops watch_list_new"
  shows "set (wl_online w) \<subseteq> set (wl_watching w) \<and> distinct (wl_watching w) \<and> sorted (wl_watching w)
    \<and> wl_online (wl_forget_presence w) = [] \<and> wl_watching (wl_forget_presence w) = wl_watching w"
proof -
  have "watch_list_ok w"
    unfolding w_def by (rule watch_run.run_invar) simp
  then show ?thesis
    by (auto simp: watch_list_ok_def bs_wf_def strict_sorted_iff wl_forget_presence_def)
qed

lemma split_join_targets:
  "ts \<noteq> [] \<Longrightarrow> list_all (\<lambda>t. t \<noteq> [] \<and> CHR '','' \<notin> set t) ts \<Longrightarrow> split_targets (join_with '','' ts) = ts"
proof -
  assume ts: "ts \<noteq> []" "list_all (\<lambda>t. t \<noteq> [] \<and> CHR '','' \<notin> set t) ts"
  then have "split_on (CHR '','') (join_with '','' ts) = ts"
    by (intro split_on_join) (auto simp: list_all_iff)
  moreover have "filter (\<lambda>t. t \<noteq> []) ts = ts"
    using ts(2) by (intro filter_True) (auto simp: list_all_iff)
  ultimately show "split_targets (join_with '','' ts) = ts"
    by (simp add: split_targets_def)
qed

lemma split_batched_list:
  assumes "list_all (\<lambda>t. t \<noteq> [] \<and> CHR '','' \<notin> set t) targets"
  shows "map split_targets (batched targets limit) = chunks (max limit 1) targets"
proof -
  have "split_targets (join_with '','' c) = c" if "c \<in> set (chunks (max limit 1) targets)" for c
  proof -
    have "set c \<subseteq> set targets"
      using that by (intro chunks_set [of "max limit 1"]) auto
    then show ?thesis
      using chunks_bounded [OF that] assms by (intro split_join_targets) (auto simp: list_all_iff)
  qed
  then show ?thesis
    by (simp add: batched_def map_idI)
qed

lemma monitor_requests_parts:
  assumes "list_all (\<lambda>t. t \<noteq> [] \<and> CHR '','' \<notin> set t) targets"
  shows "concat (map split_targets (batched targets limit)) = targets"
    and "list_all (\<lambda>request. split_targets request \<noteq> [] \<and> length (split_targets request) \<le> max limit 1) (batched targets limit)"
proof -
  note split = split_batched_list [OF assms, of limit]
  show "concat (map split_targets (batched targets limit)) = targets"
    by (simp add: split concat_chunks)
  have "list_all (\<lambda>c. c \<noteq> [] \<and> length c \<le> max limit 1) (map split_targets (batched targets limit))"
    unfolding split list_all_iff using chunks_bounded by blast
  then show "list_all (\<lambda>request. split_targets request \<noteq> [] \<and> length (split_targets request) \<le> max limit 1) (batched targets limit)"
    by (simp add: list_all_iff)
qed

text \<open>
  Splitting a list of targets into MONITOR requests loses, repeats and reorders nobody, and no
  request names more than the server's limit (or than one, for a limit of zero).
\<close>

theorem monitor_requests:
  assumes "list_all (\<lambda>t. t \<noteq> [] \<and> CHR '','' \<notin> set t) targets"
  shows
  "(concat (map split_targets (batched targets limit)) = targets)
   \<and> (list_all (\<lambda>request. split_targets request \<noteq> [] \<and> length (split_targets request) \<le> max limit 1) (batched targets limit))"
  by (intro conjI impI; use monitor_requests_parts [OF assms] in blast)

theorem monitor_requests_witness:
  "concat (map split_targets (batched [''alice'', ''bob'', ''carol''] 2)) = [''alice'', ''bob'', ''carol'']"
  using monitor_requests [of "[''alice'', ''bob'', ''carol'']" 2] by simp

end
