(* ===== verification/Scram.thy ===== *)
theory Scram
  imports Sasl
begin

text \<open>
  SCRAM-SHA-256 (\<open>obby-client/src/scram.rs\<close>): the two messages the client sends and the check of the
  server's closing one. HMAC, SHA-256 and base64 are the external functions of \<open>Sasl\<close>.
\<close>

definition NONCE_LEN :: nat where "NONCE_LEN = 24"
definition MAX_ITERATIONS :: nat where "MAX_ITERATIONS = 1000000"

datatype scram_error = Malformed | NonceMismatch | TooManyIterations | BadSalt | ServerProofInvalid

record scram =
  scr_client_first_bare :: string
  scr_client_nonce :: string
  scr_password :: string
  scr_server_key :: "string option"
  scr_auth_message :: "string option"

fun byte_xor :: "char \<Rightarrow> char \<Rightarrow> char" where
  "byte_xor (Char a0 a1 a2 a3 a4 a5 a6 a7) (Char b0 b1 b2 b3 b4 b5 b6 b7) =
     Char (a0 \<noteq> b0) (a1 \<noteq> b1) (a2 \<noteq> b2) (a3 \<noteq> b3) (a4 \<noteq> b4) (a5 \<noteq> b5) (a6 \<noteq> b6) (a7 \<noteq> b7)"

fun byte_or :: "char \<Rightarrow> char \<Rightarrow> char" where
  "byte_or (Char a0 a1 a2 a3 a4 a5 a6 a7) (Char b0 b1 b2 b3 b4 b5 b6 b7) =
     Char (a0 \<or> b0) (a1 \<or> b1) (a2 \<or> b2) (a3 \<or> b3) (a4 \<or> b4) (a5 \<or> b5) (a6 \<or> b6) (a7 \<or> b7)"

text \<open>Rust's \<open>zip\<close> into the first of two buffers: what has no counterpart in the second is kept.\<close>

fun xor_into :: "string \<Rightarrow> string \<Rightarrow> string" where
  "xor_into (x # xs) (y # ys) = byte_xor x y # xor_into xs ys"
| "xor_into xs [] = xs"
| "xor_into [] ys = []"

definition nonce_char :: "string \<Rightarrow> bool" where
  "nonce_char c = (case c of [b] \<Rightarrow> is_ascii_alphanumeric b | _ \<Rightarrow> False)"

definition sanitise_nonce :: "string \<Rightarrow> string" where
  "sanitise_nonce nonce =
     (let cleaned = concat (take NONCE_LEN
            (filter nonce_char (chars nonce)))
      in if cleaned = [] then ''0'' else cleaned)"

definition replace_char :: "char \<Rightarrow> string \<Rightarrow> string \<Rightarrow> string" where
  "replace_char c r s = concat (map (\<lambda>x. if x = c then r else [x]) s)"

definition saslprep :: "string \<Rightarrow> string" where
  "saslprep username = replace_char (CHR '','') ''=2C'' (replace_char (CHR ''='') ''=3D'' username)"

definition scram_field :: "string \<Rightarrow> char \<Rightarrow> string option" where
  "scram_field m key = hd_opt (List.map_filter (strip_prefix [key, CHR ''='']) (split_on (CHR '','') m))"

definition scram_new :: "string \<Rightarrow> string \<Rightarrow> string \<Rightarrow> scram" where
  "scram_new username password nonce =
     (let client_nonce = sanitise_nonce nonce in
      \<lparr>scr_client_first_bare = ''n='' @ saslprep username @ '',r='' @ client_nonce,
       scr_client_nonce = client_nonce, scr_password = password,
       scr_server_key = None, scr_auth_message = None\<rparr>)"

definition client_first :: "scram \<Rightarrow> string" where
  "client_first s = ''n,,'' @ scr_client_first_bare s"

fun hi_rounds :: "externals \<Rightarrow> string \<Rightarrow> nat \<Rightarrow> string \<Rightarrow> string \<Rightarrow> string option" where
  "hi_rounds e password 0 previous result = Some result"
| "hi_rounds e password (Suc n) previous result =
     (case ext_hmac_sha256 e password previous of
        None \<Rightarrow> None
      | Some p \<Rightarrow> hi_rounds e password n p (xor_into result p))"

definition hi_iter :: "externals \<Rightarrow> string \<Rightarrow> string \<Rightarrow> nat \<Rightarrow> string option" where
  "hi_iter e password salt iterations =
     (case ext_hmac_sha256 e password (salt @ [CHR 0x00, CHR 0x00, CHR 0x00, CHR 0x01]) of
        None \<Rightarrow> None
      | Some p \<Rightarrow> hi_rounds e password (iterations - 1) p p)"

definition xor_zip :: "string \<Rightarrow> string \<Rightarrow> string" where
  "xor_zip a b = map (\<lambda>(x, y). byte_xor x y) (zip a b)"

text \<open>The checks on the server's first message, in the order the source makes them.\<close>

definition server_first_fields :: "scram \<Rightarrow> string \<Rightarrow> scram_error + (string \<times> string \<times> nat)" where
  "server_first_fields s server_first =
     (if \<not> valid_utf8 server_first then Inl Malformed
      else
        (case scram_field server_first (CHR ''r'') of None \<Rightarrow> Inl Malformed | Some nonce \<Rightarrow>
        (case scram_field server_first (CHR ''s'') of None \<Rightarrow> Inl Malformed | Some salt \<Rightarrow>
        (case scram_field server_first (CHR ''i'') of None \<Rightarrow> Inl Malformed | Some i \<Rightarrow>
        (case parse_u32 i of None \<Rightarrow> Inl Malformed | Some iterations \<Rightarrow>
           if \<not> starts_with (scr_client_nonce s) nonce \<or> nonce = scr_client_nonce s then Inl NonceMismatch
           else if iterations = 0 \<or> iterations > MAX_ITERATIONS then Inl TooManyIterations
           else Inr (nonce, salt, iterations))))))"

definition client_final :: "externals \<Rightarrow> string \<Rightarrow> scram \<Rightarrow> (scram_error + string) \<times> scram" where
  "client_final e server_first s =
     (case server_first_fields s server_first of Inl err \<Rightarrow> (Inl err, s) | Inr (nonce, salt, iterations) \<Rightarrow>
     (case ext_base64_decode e salt of None \<Rightarrow> (Inl BadSalt, s) | Some salt \<Rightarrow>
     (case hi_iter e (scr_password s) salt iterations of None \<Rightarrow> (Inl Malformed, s) | Some salted \<Rightarrow>
     (case ext_hmac_sha256 e salted ''Client Key'' of None \<Rightarrow> (Inl Malformed, s) | Some client_key \<Rightarrow>
     (let stored_key = ext_sha256 e client_key in
      case ext_hmac_sha256 e salted ''Server Key'' of None \<Rightarrow> (Inl Malformed, s) | Some server_key \<Rightarrow>
     (let s = s\<lparr>scr_server_key := Some server_key\<rparr>;
          client_final_bare = ''c=biws,r='' @ nonce;
          auth_message = scr_client_first_bare s @ '','' @ server_first @ '','' @ client_final_bare in
      case ext_hmac_sha256 e stored_key auth_message of None \<Rightarrow> (Inl Malformed, s) | Some client_signature \<Rightarrow>
        (let proof_bytes = xor_zip client_key client_signature in
         (Inr (client_final_bare @ '',p='' @ ext_base64_encode e proof_bytes),
          s\<lparr>scr_auth_message := Some auth_message\<rparr>))))))))"

definition constant_time_eq :: "string \<Rightarrow> string \<Rightarrow> bool" where
  "constant_time_eq a b =
     (if length a \<noteq> length b then False
      else foldl (\<lambda>difference (x, y). byte_or difference (byte_xor x y)) (CHR 0x00) (zip a b) = CHR 0x00)"

definition scram_verify :: "externals \<Rightarrow> scram \<Rightarrow> string \<Rightarrow> scram_error + unit" where
  "scram_verify e s server_final =
     (if \<not> valid_utf8 server_final then Inl Malformed
      else
        (case scram_field server_final (CHR ''v'') of
           None \<Rightarrow> Inl Malformed
         | Some signature \<Rightarrow>
             (case (scr_server_key s, scr_auth_message s) of
                (Some server_key, Some auth_message) \<Rightarrow>
                  (case ext_hmac_sha256 e server_key auth_message of
                     None \<Rightarrow> Inl Malformed
                   | Some expected \<Rightarrow>
                       (case ext_base64_decode e signature of
                          None \<Rightarrow> Inl Malformed
                        | Some given \<Rightarrow>
                            if constant_time_eq expected given then Inr () else Inl ServerProofInvalid))
              | _ \<Rightarrow> Inl Malformed)))"

section \<open>Comparison and the field grammar\<close>

lemma byte_or_zero [simp]: "byte_or a b = CHR 0x00 \<longleftrightarrow> a = CHR 0x00 \<and> b = CHR 0x00"
  by (cases a; cases b) (simp add: conj_ac)

lemma byte_xor_zero [simp]: "byte_xor a b = CHR 0x00 \<longleftrightarrow> a = b"
  by (cases a; cases b) simp

lemma fold_difference_zero:
  "foldl (\<lambda>difference (x, y). byte_or difference (byte_xor x y)) d ps = CHR 0x00 \<longleftrightarrow>
     d = CHR 0x00 \<and> list_all (\<lambda>(x, y). x = y) ps"
proof (induction ps arbitrary: d)
  case (Cons p ps)
  then show ?case
    by (cases p) simp
qed simp

lemma zip_all_eq: "length a = length b \<Longrightarrow> list_all (\<lambda>(x, y). x = y) (zip a b) \<longleftrightarrow> a = b"
  by (induction a b rule: list_induct2) auto

lemma constant_time_eq_iff [simp]: "constant_time_eq a b \<longleftrightarrow> a = b"
  by (auto simp: constant_time_eq_def fold_difference_zero zip_all_eq)

lemma nonce_chars_concat: "list_all nonce_char ps \<Longrightarrow>
    list_all is_ascii_alphanumeric (concat ps) \<and> length (concat ps) = length ps"
  by (induction ps) (auto simp: nonce_char_def split: list.splits)

lemma picked_nonce_char: "list_all nonce_char (take n (filter nonce_char cs))"
  by (auto simp: list_all_iff dest!: in_set_takeD)

lemma sanitise_nonce_facts:
  "list_all is_ascii_alphanumeric (sanitise_nonce nonce)" "sanitise_nonce nonce \<noteq> []"
  "length (sanitise_nonce nonce) \<le> NONCE_LEN"
proof -
  note picked = nonce_chars_concat [OF picked_nonce_char [of NONCE_LEN "chars nonce"]]
  have zero: "is_ascii_alphanumeric CHR ''0''" "1 \<le> NONCE_LEN"
    by (simp_all add: is_ascii_alphanumeric_def is_ascii_digit_def less_eq_char_def NONCE_LEN_def)
  show "list_all is_ascii_alphanumeric (sanitise_nonce nonce)" "sanitise_nonce nonce \<noteq> []"
      "length (sanitise_nonce nonce) \<le> NONCE_LEN"
    using picked zero by (simp_all add: sanitise_nonce_def Let_def)
qed

lemma alphanumeric_plain: "is_ascii_alphanumeric c \<Longrightarrow> c \<noteq> CHR '','' \<and> c \<noteq> CHR ''=''"
  by (auto simp: is_ascii_alphanumeric_def is_ascii_digit_def is_ascii_upper_def is_ascii_lower_def less_eq_char_def)

lemma sanitise_nonce_plain: "CHR '','' \<notin> set (sanitise_nonce nonce)" "CHR ''='' \<notin> set (sanitise_nonce nonce)"
  using sanitise_nonce_facts(1) [of nonce] alphanumeric_plain by (auto simp: list_all_iff)

text \<open>The escaped user name holds neither separator, and two names never escape to the same text.\<close>

definition prep_char :: "char \<Rightarrow> string" where
  "prep_char c = (if c = CHR ''='' then ''=3D'' else if c = CHR '','' then ''=2C'' else [c])"

lemma saslprep_chars: "saslprep s = concat (map prep_char s)"
  by (induction s) (auto simp: saslprep_def replace_char_def prep_char_def)

lemma saslprep_free: "CHR '','' \<notin> set (saslprep s)"
  by (auto simp: saslprep_chars prep_char_def split: if_splits)

lemma saslprep_inj: "saslprep a = saslprep b \<Longrightarrow> a = b"
proof (induction a arbitrary: b)
  case Nil
  then show ?case
    by (cases b) (auto simp: saslprep_chars prep_char_def split: if_splits)
next
  case (Cons x xs)
  then obtain y ys where b: "b = y # ys"
    by (cases b) (auto simp: saslprep_chars prep_char_def split: if_splits)
  have "x = y \<and> saslprep xs = saslprep ys"
    using Cons.prems by (auto simp: b saslprep_chars prep_char_def split: if_splits)
  then show ?case
    using Cons.IH b by blast
qed

lemma scram_field_first:
  "CHR '','' \<notin> set v \<Longrightarrow> k \<noteq> CHR '','' \<Longrightarrow> scram_field ([k, CHR ''=''] @ v @ CHR '','' # rest) k = Some v"
  using split_on_append [of "CHR '',''" "[k, CHR ''=''] @ v" rest]
  by (simp add: scram_field_def map_filter_simps)

text \<open>The signature an honest server sends, once both sides have what it is computed from.\<close>

definition server_signature :: "externals \<Rightarrow> scram \<Rightarrow> string option" where
  "server_signature e s =
     (case (scr_server_key s, scr_auth_message s) of
        (Some key, Some auth) \<Rightarrow> ext_hmac_sha256 e key auth
      | _ \<Rightarrow> None)"

lemma scram_verify_iff:
  "scram_verify e s f = Inr () \<longleftrightarrow>
     valid_utf8 f \<and> (\<exists>sig expected. scram_field f (CHR ''v'') = Some sig \<and> server_signature e s = Some expected
        \<and> ext_base64_decode e sig = Some expected)"
  by (auto simp: scram_verify_def server_signature_def split: option.splits if_splits)

lemma scram_field_only: "CHR '','' \<notin> set v \<Longrightarrow> k \<noteq> CHR '','' \<Longrightarrow> scram_field ([k, CHR ''=''] @ v) k = Some v"
  by (simp add: scram_field_def split_on_free map_filter_simps)

lemma server_first_fields_Inr:
  "server_first_fields s f = Inr (nonce, salt, iterations) \<Longrightarrow>
     scram_field f (CHR ''r'') = Some nonce \<and> (\<exists>x. x \<noteq> [] \<and> nonce = scr_client_nonce s @ x)
     \<and> scram_field f (CHR ''s'') = Some salt \<and> 1 \<le> iterations \<and> iterations \<le> MAX_ITERATIONS"
  by (auto simp: server_first_fields_def starts_with_iff split: option.splits if_splits)

section \<open>Properties\<close>

lemma scram_first_message_fields_parts:
  "scram_field (scr_client_first_bare (scram_new u p n)) (CHR ''n'') = Some (saslprep u)"
  "scram_field (scr_client_first_bare (scram_new u p n)) (CHR ''r'') = Some (scr_client_nonce (scram_new u p n))"
  "client_first (scram_new u p n) = ''n,,'' @ scr_client_first_bare (scram_new u p n)"
  "saslprep u = saslprep w \<longleftrightarrow> u = w"
  "list_all is_ascii_alphanumeric (scr_client_nonce (scram_new u p n))
   \<and> 1 \<le> length (scr_client_nonce (scram_new u p n)) \<and> length (scr_client_nonce (scram_new u p n)) \<le> NONCE_LEN"
proof -
  have bare: "scr_client_first_bare (scram_new u p n) = [CHR ''n'', CHR ''=''] @ saslprep u @ CHR '','' # ''r='' @ sanitise_nonce n"
    and nonce: "scr_client_nonce (scram_new u p n) = sanitise_nonce n"
    by (simp_all add: scram_new_def Let_def)
  show "scram_field (scr_client_first_bare (scram_new u p n)) (CHR ''n'') = Some (saslprep u)"
    unfolding bare by (rule scram_field_first) (simp_all add: saslprep_free)
  have "split_on (CHR '','') (scr_client_first_bare (scram_new u p n)) = [''n='' @ saslprep u, ''r='' @ sanitise_nonce n]"
    unfolding bare using split_on_append [of "CHR '',''" "''n='' @ saslprep u" "''r='' @ sanitise_nonce n"]
    by (simp add: saslprep_free split_on_free sanitise_nonce_plain)
  then show "scram_field (scr_client_first_bare (scram_new u p n)) (CHR ''r'') = Some (scr_client_nonce (scram_new u p n))"
    by (simp add: scram_field_def nonce map_filter_simps)
  show "client_first (scram_new u p n) = ''n,,'' @ scr_client_first_bare (scram_new u p n)"
    by (simp add: client_first_def)
  show "saslprep u = saslprep w \<longleftrightarrow> u = w"
    using saslprep_inj by blast
  show "list_all is_ascii_alphanumeric (scr_client_nonce (scram_new u p n))
      \<and> 1 \<le> length (scr_client_nonce (scram_new u p n)) \<and> length (scr_client_nonce (scram_new u p n)) \<le> NONCE_LEN"
    unfolding nonce using sanitise_nonce_facts [of n] by (cases "sanitise_nonce n") auto
qed

text \<open>
  The first message carries exactly the two fields it is built from: whatever bytes the user name
  and the host's nonce hold, the server reads the escaped name and the cleaned nonce, neither can add a
  field, different names stay different, and the nonce has between 1 and 24 ASCII letters and digits.
\<close>

theorem scram_first_message_fields:
  "(scram_field (scr_client_first_bare (scram_new u p n)) (CHR ''n'') = Some (saslprep u))
   \<and> (scram_field (scr_client_first_bare (scram_new u p n)) (CHR ''r'') = Some (scr_client_nonce (scram_new u p n)))
   \<and> (client_first (scram_new u p n) = ''n,,'' @ scr_client_first_bare (scram_new u p n))
   \<and> (saslprep u = saslprep w \<longleftrightarrow> u = w)
   \<and> (list_all is_ascii_alphanumeric (scr_client_nonce (scram_new u p n))
   \<and> 1 \<le> length (scr_client_nonce (scram_new u p n)) \<and> length (scr_client_nonce (scram_new u p n)) \<le> NONCE_LEN)"
  by (intro conjI impI; use scram_first_message_fields_parts in blast)

text \<open>
  The client answers a server's first message only when its nonce properly extends the client's and
  it asks for between one and a million rounds; the answer repeats that nonce, and what the server must
  sign later is the two first messages and the answer without its proof. On every error nothing it
  would accept a signature over is recorded.
\<close>

theorem scram_final_message:
  "case fst (client_final e f s) of
     Inr answer \<Rightarrow>
       (\<exists>x salt iterations p. x \<noteq> [] \<and> scram_field f (CHR ''r'') = Some (scr_client_nonce s @ x)
          \<and> server_first_fields s f = Inr (scr_client_nonce s @ x, salt, iterations)
          \<and> 1 \<le> iterations \<and> iterations \<le> MAX_ITERATIONS
          \<and> answer = ''c=biws,r='' @ scr_client_nonce s @ x @ '',p='' @ p
          \<and> scr_auth_message (snd (client_final e f s)) =
              Some (scr_client_first_bare s @ '','' @ f @ '',c=biws,r='' @ scr_client_nonce s @ x))
   | Inl _ \<Rightarrow> scr_auth_message (snd (client_final e f s)) = scr_auth_message s"
proof (cases "server_first_fields s f")
  case (Inl err)
  then show ?thesis by (simp add: client_final_def)
next
  case (Inr fields)
  obtain nonce salt iterations where f: "fields = (nonce, salt, iterations)"
    by (cases fields)
  note checked = server_first_fields_Inr [OF Inr [unfolded f]]
  then obtain x where x: "x \<noteq> []" "nonce = scr_client_nonce s @ x"
    by blast
  show ?thesis
    using checked x
    by (auto simp: client_final_def Inr f Let_def split: option.split sum.split)
qed

lemma scram_server_verified_parts:
  "scram_verify e s f = Inr () \<longleftrightarrow>
     valid_utf8 f \<and> (\<exists>sig expected. scram_field f (CHR ''v'') = Some sig \<and> server_signature e s = Some expected
        \<and> ext_base64_decode e sig = Some expected)"
  "base64_laws e \<Longrightarrow> server_signature e s = Some expected \<Longrightarrow>
     scram_verify e s (''v='' @ ext_base64_encode e expected) = Inr ()"
  "scram_verify e (scram_new u p n) f \<noteq> Inr ()"
  "constant_time_eq a b \<longleftrightarrow> a = b"
proof -
  show iff: "scram_verify e s f = Inr () \<longleftrightarrow>
      valid_utf8 f \<and> (\<exists>sig expected. scram_field f (CHR ''v'') = Some sig \<and> server_signature e s = Some expected
        \<and> ext_base64_decode e sig = Some expected)"
    by (rule scram_verify_iff)
  show "scram_verify e s (''v='' @ ext_base64_encode e expected) = Inr ()"
    if laws: "base64_laws e" and sig: "server_signature e s = Some expected"
  proof -
    have plain: "list_all (\<lambda>c. is_ascii c \<and> c \<noteq> CHR '','') (ext_base64_encode e expected)"
        and dec: "ext_base64_decode e (ext_base64_encode e expected) = Some expected"
      using laws by (simp_all add: base64_laws_def)
    then have "CHR '','' \<notin> set (ext_base64_encode e expected)" "list_all is_ascii (''v='' @ ext_base64_encode e expected)"
      by (auto simp: list_all_iff is_ascii_def)
    then show ?thesis
      using scram_field_only [of "ext_base64_encode e expected" "CHR ''v''"] sig dec
        ascii_valid [of "''v='' @ ext_base64_encode e expected"]
      by (simp add: scram_verify_iff del: valid_utf8.simps)
  qed
  show "scram_verify e (scram_new u p n) f \<noteq> Inr ()"
    by (simp add: scram_verify_iff server_signature_def scram_new_def Let_def)
  show "constant_time_eq a b \<longleftrightarrow> a = b"
    by simp
qed

text \<open>
  The server is accepted exactly when its closing message carries, in base64, the signature computed
  from the password and the messages exchanged; an honest server always is, and nothing is accepted
  before the client has sent its proof. The comparison that hides where two values differ is equality.
\<close>

theorem scram_server_verified:
  "(scram_verify e s f = Inr () \<longleftrightarrow>
     valid_utf8 f \<and> (\<exists>sig expected. scram_field f (CHR ''v'') = Some sig \<and> server_signature e s = Some expected
        \<and> ext_base64_decode e sig = Some expected))
   \<and> (base64_laws e \<longrightarrow> server_signature e s = Some expected \<longrightarrow>
     scram_verify e s (''v='' @ ext_base64_encode e expected) = Inr ())
   \<and> (scram_verify e (scram_new u p n) f \<noteq> Inr ())
   \<and> (constant_time_eq a b \<longleftrightarrow> a = b)"
  by (intro conjI impI; use scram_server_verified_parts in blast)

theorem scram_server_verified_witness:
  "scram_verify sample_externals
     \<lparr>scr_client_first_bare = ''n=u,r=0'', scr_client_nonce = ''0'', scr_password = ''p'',
      scr_server_key = Some ''k'', scr_auth_message = Some ''a''\<rparr>
     (''v='' @ ext_base64_encode sample_externals (replicate 32 (CHR 0x00))) = Inr ()"
proof -
  let ?s = "\<lparr>scr_client_first_bare = ''n=u,r=0'', scr_client_nonce = ''0'', scr_password = ''p'',
      scr_server_key = Some ''k'', scr_auth_message = Some ''a''\<rparr>"
  have "server_signature sample_externals ?s = Some (replicate 32 (CHR 0x00))"
    by (simp add: server_signature_def sample_externals_def)
  with sample_base64_laws scram_server_verified [where e = sample_externals
      and expected = "replicate 32 (CHR 0x00)" and s = ?s]
  show ?thesis by blast
qed

end
