(* ===== verification/Voice.thy ===== *)
theory Voice
  imports Json BTree Casemap
begin

text \<open>
  Voice signalling (\<open>obby-client/src/voice.rs\<close>): the frames of \<open>+obsidianirc/rtc\<close> and their JSON, the
  splitting of a long session description into chunks and its reassembly, and the state of a room.
\<close>

section \<open>Reading fields\<close>

definition as_u32 :: "json \<Rightarrow> nat option" where
  "as_u32 j = (case j of JNum n \<Rightarrow> if 0 \<le> n \<and> n \<le> int u32_max then Some (nat n) else None | _ \<Rightarrow> None)"

definition opt_field :: "string \<Rightarrow> json option \<Rightarrow> (string \<times> json) list" where
  "opt_field key v = (case v of Some v \<Rightarrow> [(key, v)] | None \<Rightarrow> [])"

definition strings_json :: "string list \<Rightarrow> json" where
  "strings_json items = JArray (map JStr items)"

text \<open>\<open>collect\<close> into an option of a list: nothing as soon as one element gives nothing.\<close>

fun collect_opt :: "('a \<Rightarrow> 'b option) \<Rightarrow> 'a list \<Rightarrow> 'b list option" where
  "collect_opt f [] = Some []"
| "collect_opt f (x # xs) = (case f x of None \<Rightarrow> None | Some y \<Rightarrow> map_option ((#) y) (collect_opt f xs))"

definition json_strings :: "json \<Rightarrow> string list option" where
  "json_strings v = Option.bind (as_array v) (collect_opt as_str)"

definition field_u32 :: "json \<Rightarrow> string \<Rightarrow> nat option" where
  "field_u32 v key = Option.bind (json_field v key) as_u32"

section \<open>Enumerated values\<close>

datatype on_off = On | Off

definition on_off_wire :: "on_off \<Rightarrow> string" where
  "on_off_wire s = (case s of On \<Rightarrow> ''on'' | Off \<Rightarrow> ''off'')"

definition on_off_parse :: "string \<Rightarrow> on_off option" where
  "on_off_parse t = (if t = ''on'' then Some On else if t = ''off'' then Some Off else None)"

datatype voice_role = Publisher | Viewer

definition role_wire :: "voice_role \<Rightarrow> string" where
  "role_wire r = (case r of Publisher \<Rightarrow> ''streamer'' | Viewer \<Rightarrow> ''viewer'')"

definition role_parse :: "string \<Rightarrow> voice_role option" where
  "role_parse t = (if t = ''streamer'' then Some Publisher else if t = ''viewer'' then Some Viewer else None)"

datatype room_kind = Publish | Stream

definition kind_wire :: "room_kind \<Rightarrow> string" where
  "kind_wire k = (case k of Publish \<Rightarrow> ''voice'' | Stream \<Rightarrow> ''stream'')"

definition kind_parse :: "string \<Rightarrow> room_kind option" where
  "kind_parse t = (if t = ''voice'' then Some Publish else if t = ''stream'' then Some Stream else None)"

definition for_channel :: "string \<Rightarrow> room_kind" where
  "for_channel channel = (if starts_with ''$'' channel then Stream else Publish)"

datatype toggle_kind = ToggleMic | ToggleVideo | ToggleScreen | ToggleHand

definition toggle_wire :: "toggle_kind \<Rightarrow> string" where
  "toggle_wire k = (case k of ToggleMic \<Rightarrow> ''mic'' | ToggleVideo \<Rightarrow> ''video'' | ToggleScreen \<Rightarrow> ''screen'' | ToggleHand \<Rightarrow> ''hand'')"

definition toggle_parse :: "string \<Rightarrow> toggle_kind option" where
  "toggle_parse t =
     (if t = ''mic'' then Some ToggleMic else if t = ''video'' then Some ToggleVideo
      else if t = ''screen'' then Some ToggleScreen else if t = ''hand'' then Some ToggleHand else None)"

datatype presence_state =
    PresJoined | PresLeft | PresOn | PresOff | PresSpeaking | PresSilent | PresDeafOn | PresDeafOff

definition presence_wire :: "presence_state \<Rightarrow> string" where
  "presence_wire s =
     (case s of
        PresJoined \<Rightarrow> ''joined'' | PresLeft \<Rightarrow> ''left'' | PresOn \<Rightarrow> ''on'' | PresOff \<Rightarrow> ''off''
      | PresSpeaking \<Rightarrow> ''speaking'' | PresSilent \<Rightarrow> ''silent'' | PresDeafOn \<Rightarrow> ''deaf-on'' | PresDeafOff \<Rightarrow> ''deaf-off'')"

definition presence_parse :: "string \<Rightarrow> presence_state option" where
  "presence_parse t =
     (if t = ''joined'' then Some PresJoined else if t = ''left'' then Some PresLeft
      else if t = ''on'' then Some PresOn else if t = ''off'' then Some PresOff
      else if t = ''speaking'' then Some PresSpeaking else if t = ''silent'' then Some PresSilent
      else if t = ''deaf-on'' then Some PresDeafOn else if t = ''deaf-off'' then Some PresDeafOff else None)"

section \<open>Payloads\<close>

record track_hint =
  th_mid :: string
  th_member :: string

definition track_to_json :: "track_hint \<Rightarrow> json" where
  "track_to_json t = JObject [(''mid'', JStr (th_mid t)), (''member'', JStr (th_member t))]"

definition track_from_json :: "json \<Rightarrow> track_hint option" where
  "track_from_json v =
     (case (field_string v ''mid'', field_string v ''member'') of
        (Some mid, Some member) \<Rightarrow> Some \<lparr>th_mid = mid, th_member = member\<rparr>
      | _ \<Rightarrow> None)"

record turn_credentials =
  turn_urls :: "string list"
  turn_username :: string
  turn_password :: string

definition turn_to_json :: "turn_credentials \<Rightarrow> json" where
  "turn_to_json t =
     JObject [(''urls'', strings_json (turn_urls t)), (''username'', JStr (turn_username t)),
              (''password'', JStr (turn_password t))]"

definition turn_from_json :: "json \<Rightarrow> turn_credentials option" where
  "turn_from_json v =
     (case (case json_field v ''urls'' of
              Some (JStr one) \<Rightarrow> Some [one]
            | Some (JArray items) \<Rightarrow> json_strings (JArray items)
            | _ \<Rightarrow> None) of
        None \<Rightarrow> None
      | Some urls \<Rightarrow>
          (case (field_string v ''username'', field_string v ''password'') of
             (Some username, Some password) \<Rightarrow>
               Some \<lparr>turn_urls = urls, turn_username = username, turn_password = password\<rparr>
           | _ \<Rightarrow> None))"

record chunk_meta =
  ck_id :: string
  ck_seq :: nat
  ck_total :: nat

definition decode_chunk :: "json \<Rightarrow> chunk_meta option" where
  "decode_chunk v =
     (case (field_string v ''id'', field_u32 v ''seq'', field_u32 v ''total'') of
        (Some ident, Some seq, Some count) \<Rightarrow> Some \<lparr>ck_id = ident, ck_seq = seq, ck_total = count\<rparr>
      | _ \<Rightarrow> None)"

definition chunk_meta_fields :: "chunk_meta \<Rightarrow> (string \<times> json) list" where
  "chunk_meta_fields c =
     [(''id'', JStr (ck_id c)), (''seq'', JNum (int (ck_seq c))), (''total'', JNum (int (ck_total c)))]"

section \<open>Frames\<close>

datatype signal =
    SigJoin string
  | SigLeave string
  | SigJoined "string list" "room_kind option" "voice_role option" "string list option"
      "turn_credentials option" "track_hint list option"
  | SigOffer string "track_hint list option" "chunk_meta option"
  | SigAnswer string "chunk_meta option"
  | SigIce string "string option" "nat option"
  | SigPresence string presence_state "toggle_kind option" "voice_role option"
  | SigMic on_off
  | SigVideo on_off
  | SigScreen on_off
  | SigHand on_off
  | SigDeaf on_off
  | SigSpeaking
  | SigSilent
  | SigReact "string option" string
  | SigPromote string
  | SigDemote string
  | SigRole string voice_role
  | SigError "string option"

abbreviation str_field :: "string \<Rightarrow> string \<Rightarrow> string \<times> json" where
  "str_field key v \<equiv> (key, JStr v)"

abbreviation opt_str :: "string \<Rightarrow> string option \<Rightarrow> (string \<times> json) list" where
  "opt_str key v \<equiv> opt_field key (map_option JStr v)"

definition tracks_json :: "track_hint list \<Rightarrow> json" where
  "tracks_json ts = JArray (map track_to_json ts)"

definition chunk_fields :: "chunk_meta option \<Rightarrow> (string \<times> json) list" where
  "chunk_fields c = (case c of Some c \<Rightarrow> chunk_meta_fields c | None \<Rightarrow> [])"

definition channel_fields :: "string \<Rightarrow> (string \<times> json) list" where
  "channel_fields channel = [str_field ''channel'' channel]"

definition target_fields :: "string \<Rightarrow> (string \<times> json) list" where
  "target_fields target = [str_field ''target'' target]"

definition state_field :: "on_off \<Rightarrow> (string \<times> json) list" where
  "state_field state = [str_field ''state'' (on_off_wire state)]"

definition literal_state_field :: "string \<Rightarrow> (string \<times> json) list" where
  "literal_state_field state = [str_field ''state'' state]"

definition role_fields :: "string \<Rightarrow> voice_role \<Rightarrow> (string \<times> json) list" where
  "role_fields member role = [str_field ''member'' member, str_field ''role'' (role_wire role)]"

definition react_fields :: "string option \<Rightarrow> string \<Rightarrow> (string \<times> json) list" where
  "react_fields member emoji = opt_str ''member'' member @ [str_field ''emoji'' emoji]"

definition ice_fields :: "string \<Rightarrow> string option \<Rightarrow> nat option \<Rightarrow> (string \<times> json) list" where
  "ice_fields cand mid mlineidx =
     [str_field ''cand'' cand] @ opt_str ''mid'' mid
       @ opt_field ''mlineidx'' (map_option (\<lambda>n. JNum (int n)) mlineidx)"

definition presence_fields ::
  "string \<Rightarrow> presence_state \<Rightarrow> toggle_kind option \<Rightarrow> voice_role option \<Rightarrow> (string \<times> json) list" where
  "presence_fields member state kind role =
     [str_field ''member'' member, str_field ''state'' (presence_wire state)]
       @ opt_str ''kind'' (map_option toggle_wire kind) @ opt_str ''role'' (map_option role_wire role)"

definition offer_fields :: "string \<Rightarrow> track_hint list option \<Rightarrow> chunk_meta option \<Rightarrow> (string \<times> json) list" where
  "offer_fields sdp tracks chunk =
     [str_field ''sdp'' sdp] @ opt_field ''tracks'' (map_option tracks_json tracks) @ chunk_fields chunk"

definition answer_fields :: "string \<Rightarrow> chunk_meta option \<Rightarrow> (string \<times> json) list" where
  "answer_fields sdp chunk = [str_field ''sdp'' sdp] @ chunk_fields chunk"

definition joined_fields ::
  "string list \<Rightarrow> room_kind option \<Rightarrow> voice_role option \<Rightarrow> string list option \<Rightarrow> turn_credentials option
     \<Rightarrow> track_hint list option \<Rightarrow> (string \<times> json) list" where
  "joined_fields members mode role streamers turn tracks =
     [(''members'', strings_json members)] @ opt_str ''mode'' (map_option kind_wire mode)
       @ opt_str ''role'' (map_option role_wire role) @ opt_field ''streamers'' (map_option strings_json streamers)
       @ opt_field ''turn'' (map_option turn_to_json turn) @ opt_field ''tracks'' (map_option tracks_json tracks)"

definition error_fields :: "string option \<Rightarrow> (string \<times> json) list" where
  "error_fields err = opt_str ''error'' err"

definition wire_fields :: "signal \<Rightarrow> string \<times> (string \<times> json) list" where
  "wire_fields s =
     (case s of
        SigJoin channel \<Rightarrow> (''join'', channel_fields channel)
      | SigLeave channel \<Rightarrow> (''leave'', channel_fields channel)
      | SigJoined members mode role streamers turn tracks \<Rightarrow>
          (''joined'', joined_fields members mode role streamers turn tracks)
      | SigOffer sdp tracks chunk \<Rightarrow> (''offer'', offer_fields sdp tracks chunk)
      | SigAnswer sdp chunk \<Rightarrow> (''answer'', answer_fields sdp chunk)
      | SigIce cand mid mlineidx \<Rightarrow> (''ice'', ice_fields cand mid mlineidx)
      | SigPresence member state kind role \<Rightarrow> (''presence'', presence_fields member state kind role)
      | SigMic state \<Rightarrow> (''mic'', state_field state)
      | SigVideo state \<Rightarrow> (''video'', state_field state)
      | SigScreen state \<Rightarrow> (''screen'', state_field state)
      | SigHand state \<Rightarrow> (''hand'', state_field state)
      | SigDeaf state \<Rightarrow> (''deaf'', state_field state)
      | SigSpeaking \<Rightarrow> (''speaking'', literal_state_field ''speaking'')
      | SigSilent \<Rightarrow> (''silent'', literal_state_field ''silent'')
      | SigReact member emoji \<Rightarrow> (''react'', react_fields member emoji)
      | SigPromote target \<Rightarrow> (''promote'', target_fields target)
      | SigDemote target \<Rightarrow> (''demote'', target_fields target)
      | SigRole member role \<Rightarrow> (''role'', role_fields member role)
      | SigError err \<Rightarrow> (''error'', error_fields err))"

lemmas wire_fields_simps = wire_fields_def channel_fields_def target_fields_def state_field_def literal_state_field_def
  role_fields_def react_fields_def ice_fields_def presence_fields_def offer_fields_def answer_fields_def
  joined_fields_def error_fields_def

definition to_json_value :: "signal \<Rightarrow> json" where
  "to_json_value s = (let (kind, fields) = wire_fields s in JObject (str_field ''type'' kind # fields))"

definition signal_to_json :: "signal \<Rightarrow> string" where
  "signal_to_json s = json_write (to_json_value s)"

definition decode_on_off :: "json \<Rightarrow> on_off option" where
  "decode_on_off v = Option.bind (field_string v ''state'') on_off_parse"

definition decode_tracks :: "json \<Rightarrow> track_hint list option" where
  "decode_tracks v = Option.bind (as_array v) (collect_opt track_from_json)"

definition decode_joined :: "json \<Rightarrow> signal option" where
  "decode_joined v =
     map_option (\<lambda>members.
         SigJoined members
           (Option.bind (field_string v ''mode'') kind_parse)
           (Option.bind (field_string v ''role'') role_parse)
           (Option.bind (json_field v ''streamers'') json_strings)
           (Option.bind (json_field v ''turn'') turn_from_json)
           (Option.bind (json_field v ''tracks'') decode_tracks))
       (Option.bind (json_field v ''members'') json_strings)"

definition decode_offer :: "json \<Rightarrow> signal option" where
  "decode_offer v =
     map_option (\<lambda>sdp. SigOffer sdp (Option.bind (json_field v ''tracks'') decode_tracks) (decode_chunk v))
       (field_string v ''sdp'')"

definition decode_answer :: "json \<Rightarrow> signal option" where
  "decode_answer v = map_option (\<lambda>sdp. SigAnswer sdp (decode_chunk v)) (field_string v ''sdp'')"

definition decode_ice :: "json \<Rightarrow> signal option" where
  "decode_ice v =
     map_option (\<lambda>cand. SigIce cand (field_string v ''mid'') (Option.bind (json_field v ''mlineidx'') as_u32))
       (field_string v ''cand'')"

definition decode_presence :: "json \<Rightarrow> signal option" where
  "decode_presence v =
     (case (field_string v ''member'', Option.bind (field_string v ''state'') presence_parse) of
        (Some member, Some state) \<Rightarrow>
          Some (SigPresence member state (Option.bind (field_string v ''kind'') toggle_parse)
                  (Option.bind (field_string v ''role'') role_parse))
      | _ \<Rightarrow> None)"

definition decode_react :: "json \<Rightarrow> signal option" where
  "decode_react v = map_option (SigReact (field_string v ''member'')) (field_string v ''emoji'')"

definition decode_role :: "json \<Rightarrow> signal option" where
  "decode_role v =
     (case (field_string v ''member'', Option.bind (field_string v ''role'') role_parse) of
        (Some member, Some role) \<Rightarrow> Some (SigRole member role)
      | _ \<Rightarrow> None)"

definition signal_from_value :: "json \<Rightarrow> signal option" where
  "signal_from_value v =
     (case field_string v ''type'' of
        None \<Rightarrow> None
      | Some kind \<Rightarrow>
          if kind = ''join'' then map_option SigJoin (field_string v ''channel'')
          else if kind = ''leave'' then map_option SigLeave (field_string v ''channel'')
          else if kind = ''joined'' then decode_joined v
          else if kind = ''offer'' then decode_offer v
          else if kind = ''answer'' then decode_answer v
          else if kind = ''ice'' then decode_ice v
          else if kind = ''presence'' then decode_presence v
          else if kind = ''mic'' then map_option SigMic (decode_on_off v)
          else if kind = ''video'' then map_option SigVideo (decode_on_off v)
          else if kind = ''screen'' then map_option SigScreen (decode_on_off v)
          else if kind = ''hand'' then map_option SigHand (decode_on_off v)
          else if kind = ''deaf'' then map_option SigDeaf (decode_on_off v)
          else if kind = ''speaking'' then Some SigSpeaking
          else if kind = ''silent'' then Some SigSilent
          else if kind = ''react'' then decode_react v
          else if kind = ''promote'' then map_option SigPromote (field_string v ''target'')
          else if kind = ''demote'' then map_option SigDemote (field_string v ''target'')
          else if kind = ''role'' then decode_role v
          else if kind = ''error'' then Some (SigError (field_string v ''error''))
          else None)"

definition signal_from_json :: "string \<Rightarrow> signal option" where
  "signal_from_json text = Option.bind (json_parse text) signal_from_value"

section \<open>Splitting a session description\<close>

definition DEFAULT_CHUNK_BUDGET :: nat where "DEFAULT_CHUNK_BUDGET = 8191"

record sdp_chunk =
  sc_chunk :: chunk_meta
  sc_sdp :: string

fun floor_boundary :: "string \<Rightarrow> nat \<Rightarrow> nat \<Rightarrow> nat" where
  "floor_boundary s start 0 = 0"
| "floor_boundary s start (Suc k) =
     (if Suc k > start \<and> \<not> is_char_boundary s (Suc k) then floor_boundary s start k else Suc k)"

function ceil_boundary :: "string \<Rightarrow> nat \<Rightarrow> nat" where
  "ceil_boundary s k = (if k < length s \<and> \<not> is_char_boundary s k then ceil_boundary s (Suc k) else k)"
  by pat_completeness auto
termination
  by (relation "measure (\<lambda>(s, k). length s - k)") auto

declare ceil_boundary.simps [simp del]

definition chunk_end :: "string \<Rightarrow> nat \<Rightarrow> nat \<Rightarrow> nat" where
  "chunk_end s budget start =
     (let stop = floor_boundary s start (min (start + budget) (length s))
      in if stop = start then ceil_boundary s (start + 1) else stop)"

lemma floor_boundary_ge: "start \<le> k \<Longrightarrow> start \<le> floor_boundary s start k"
  by (induction k) auto

lemma ceil_boundary_ge: "k \<le> ceil_boundary s k"
proof (induction s k rule: ceil_boundary.induct)
  case (1 s k)
  then show ?case
    by (auto simp: ceil_boundary.simps [of s k] dest: Suc_leD)
qed

lemma chunk_end_gt: "start < length s \<Longrightarrow> start < chunk_end s budget start"
  using floor_boundary_ge [of start "min (start + budget) (length s)" s] ceil_boundary_ge [of "start + 1" s]
  by (auto simp: chunk_end_def Let_def)

function char_chunks_from :: "string \<Rightarrow> nat \<Rightarrow> nat \<Rightarrow> string list option" where
  "char_chunks_from s budget start =
     (if start < length s
      then (case str_get start (chunk_end s budget start) s of
              None \<Rightarrow> None
            | Some slice \<Rightarrow> map_option ((#) slice) (char_chunks_from s budget (chunk_end s budget start)))
      else Some [])"
  by pat_completeness auto
termination
  by (relation "measure (\<lambda>(s, budget, start). length s - start)") (use chunk_end_gt in \<open>auto simp: diff_less_mono2\<close>)

declare char_chunks_from.simps [simp del]

definition char_chunks :: "string \<Rightarrow> nat \<Rightarrow> string list option" where
  "char_chunks s budget = char_chunks_from s budget 0"

text \<open>\<open>u32::try_from(n).unwrap_or(u32::MAX)\<close>.\<close>

definition to_u32 :: "nat \<Rightarrow> nat" where
  "to_u32 n = min n u32_max"

definition split_sdp :: "string \<Rightarrow> string \<Rightarrow> nat \<Rightarrow> sdp_chunk list option" where
  "split_sdp sdp ident budget =
     (if budget = 0 \<or> length sdp \<le> budget then None
      else case char_chunks sdp budget of
          None \<Rightarrow> None
        | Some slices \<Rightarrow>
            Some (map (\<lambda>(seq, slice). \<lparr>sc_chunk = \<lparr>ck_id = ident, ck_seq = to_u32 seq, ck_total = to_u32 (length slices)\<rparr>,
                                       sc_sdp = slice\<rparr>)
                    (List.enumerate 0 slices)))"

section \<open>Reassembly\<close>

definition DEFAULT_MAX_CHUNKS_PER_REASSEMBLY :: nat where "DEFAULT_MAX_CHUNKS_PER_REASSEMBLY = 64"
definition DEFAULT_MAX_CONCURRENT_REASSEMBLIES :: nat where "DEFAULT_MAX_CONCURRENT_REASSEMBLIES = 16"

record partial_sdp =
  ps_total :: nat
  ps_parts :: "(nat, string) btree"

record sdp_reassembler =
  sr_partials :: "(string, partial_sdp) btree"
  sr_max_chunks :: nat
  sr_max_concurrent :: nat

definition reassembler_with_bounds :: "nat \<Rightarrow> nat \<Rightarrow> sdp_reassembler" where
  "reassembler_with_bounds max_chunks max_concurrent =
     \<lparr>sr_partials = [], sr_max_chunks = max_chunks, sr_max_concurrent = max_concurrent\<rparr>"

definition reassembler_new :: sdp_reassembler where
  "reassembler_new = reassembler_with_bounds DEFAULT_MAX_CHUNKS_PER_REASSEMBLY DEFAULT_MAX_CONCURRENT_REASSEMBLIES"

definition join_parts :: "(nat, string) btree \<Rightarrow> nat \<Rightarrow> string option" where
  "join_parts parts count = map_option concat (collect_opt (map_of parts) [0..<count])"

definition sdp_push :: "chunk_meta \<Rightarrow> string \<Rightarrow> sdp_reassembler \<Rightarrow> string option \<times> sdp_reassembler" where
  "sdp_push c sdp r =
     (if ck_total c = 0 \<or> ck_total c > sr_max_chunks r \<or> ck_seq c \<ge> ck_total c then (None, r)
      else if \<not> bt_contains (sr_partials r) (ck_id c) \<and> length (sr_partials r) \<ge> sr_max_concurrent r then (None, r)
      else
        (let partial = (case map_of (sr_partials r) (ck_id c) of
                          Some q \<Rightarrow> q | None \<Rightarrow> \<lparr>ps_total = ck_total c, ps_parts = []\<rparr>);
             r = r\<lparr>sr_partials := bt_insert (ck_id c) partial (sr_partials r)\<rparr>
         in if ps_total partial \<noteq> ck_total c then (None, r)
            else
              (let partial = partial\<lparr>ps_parts := bt_insert (ck_seq c) sdp (ps_parts partial)\<rparr>;
                   r = r\<lparr>sr_partials := bt_insert (ck_id c) partial (sr_partials r)\<rparr>
               in if length (ps_parts partial) \<noteq> ck_total c then (None, r)
                  else (join_parts (ps_parts partial) (ps_total partial),
                        r\<lparr>sr_partials := bt_remove (ck_id c) (sr_partials r)\<rparr>))))"

definition pending_len :: "sdp_reassembler \<Rightarrow> nat" where
  "pending_len r = length (sr_partials r)"

definition reassembler_drop_all :: "sdp_reassembler \<Rightarrow> sdp_reassembler" where
  "reassembler_drop_all r = r\<lparr>sr_partials := []\<rparr>"

section \<open>Rooms\<close>

record participant =
  pa_nick :: string
  pa_role :: voice_role
  pa_mic :: on_off
  pa_video :: on_off
  pa_speaking :: on_off
  pa_deaf :: on_off
  pa_screen :: on_off
  pa_hand :: on_off

definition participant_new :: "string \<Rightarrow> participant" where
  "participant_new nick =
     \<lparr>pa_nick = nick, pa_role = Viewer, pa_mic = Off, pa_video = Off, pa_speaking = Off, pa_deaf = Off,
      pa_screen = Off, pa_hand = Off\<rparr>"

definition toggle_apply :: "toggle_kind \<Rightarrow> on_off \<Rightarrow> participant \<Rightarrow> participant" where
  "toggle_apply k state p =
     (case k of
        ToggleMic \<Rightarrow> p\<lparr>pa_mic := state\<rparr>
      | ToggleVideo \<Rightarrow> p\<lparr>pa_video := state\<rparr>
      | ToggleScreen \<Rightarrow> p\<lparr>pa_screen := state\<rparr>
      | ToggleHand \<Rightarrow> p\<lparr>pa_hand := state\<rparr>)"

record voice_room =
  vr_channel :: string
  vr_kind :: room_kind
  vr_participants :: "(case_folded, participant) btree"
  vr_turn :: "turn_credentials option"

definition room_new :: "string \<Rightarrow> voice_room" where
  "room_new channel = \<lparr>vr_channel = channel, vr_kind = for_channel channel, vr_participants = [], vr_turn = None\<rparr>"

definition room_role_for :: "voice_room \<Rightarrow> string \<Rightarrow> string list option \<Rightarrow> casemapping \<Rightarrow> voice_role" where
  "room_role_for room member streamers casemap =
     (case vr_kind room of
        Publish \<Rightarrow> Publisher
      | Stream \<Rightarrow>
          if (case streamers of Some list \<Rightarrow> list_ex (\<lambda>name. case_eq casemap name member) list | None \<Rightarrow> False)
          then Publisher else Viewer)"

text \<open>\<open>participant_mut\<close> followed by setting the role.\<close>

definition set_role :: "string \<Rightarrow> voice_role \<Rightarrow> casemapping \<Rightarrow> voice_room \<Rightarrow> voice_room" where
  "set_role member role casemap room =
     room\<lparr>vr_participants := bt_entry (case_fold casemap member) (participant_new member)
            (\<lambda>p. p\<lparr>pa_role := role\<rparr>) (vr_participants room)\<rparr>"

definition room_joined_member ::
  "string \<Rightarrow> voice_role option \<Rightarrow> string list option \<Rightarrow> casemapping \<Rightarrow> string \<Rightarrow> voice_room \<Rightarrow> voice_room" where
  "room_joined_member me role streamers casemap member room =
     (let assigned = (case role of
                        Some role \<Rightarrow> if case_eq casemap member me then role else room_role_for room member streamers casemap
                      | None \<Rightarrow> room_role_for room member streamers casemap)
      in set_role member assigned casemap room)"

definition apply_joined ::
  "string \<Rightarrow> string list \<Rightarrow> voice_role option \<Rightarrow> string list option \<Rightarrow> turn_credentials option \<Rightarrow> casemapping
     \<Rightarrow> voice_room \<Rightarrow> voice_room" where
  "apply_joined me members role streamers turn casemap room =
     fold (room_joined_member me role streamers casemap) members (room\<lparr>vr_turn := turn\<rparr>)"

definition set_flag :: "string \<Rightarrow> casemapping \<Rightarrow> (participant \<Rightarrow> participant) \<Rightarrow> voice_room \<Rightarrow> voice_room" where
  "set_flag member casemap f room =
     room\<lparr>vr_participants := bt_modify (case_fold casemap member) f (vr_participants room)\<rparr>"

definition apply_presence ::
  "string \<Rightarrow> presence_state \<Rightarrow> toggle_kind option \<Rightarrow> voice_role option \<Rightarrow> casemapping \<Rightarrow> voice_room \<Rightarrow> voice_room" where
  "apply_presence member state kind role casemap room =
     (case state of
        PresJoined \<Rightarrow>
          set_role member (case role of Some role \<Rightarrow> role | None \<Rightarrow> room_role_for room member None casemap) casemap room
      | PresLeft \<Rightarrow> room\<lparr>vr_participants := bt_remove (case_fold casemap member) (vr_participants room)\<rparr>
      | PresOn \<Rightarrow> (case kind of Some k \<Rightarrow> set_flag member casemap (toggle_apply k On) room | None \<Rightarrow> room)
      | PresOff \<Rightarrow> (case kind of Some k \<Rightarrow> set_flag member casemap (toggle_apply k Off) room | None \<Rightarrow> room)
      | PresSpeaking \<Rightarrow> set_flag member casemap (\<lambda>p. p\<lparr>pa_speaking := On\<rparr>) room
      | PresSilent \<Rightarrow> set_flag member casemap (\<lambda>p. p\<lparr>pa_speaking := Off\<rparr>) room
      | PresDeafOn \<Rightarrow> set_flag member casemap (\<lambda>p. p\<lparr>pa_deaf := On\<rparr>) room
      | PresDeafOff \<Rightarrow> set_flag member casemap (\<lambda>p. p\<lparr>pa_deaf := Off\<rparr>) room)"

definition room_apply :: "string \<Rightarrow> signal \<Rightarrow> casemapping \<Rightarrow> voice_room \<Rightarrow> voice_room" where
  "room_apply me s casemap room =
     (case s of
        SigJoined members mode role streamers turn tracks \<Rightarrow> apply_joined me members role streamers turn casemap room
      | SigPresence member state kind role \<Rightarrow> apply_presence member state kind role casemap room
      | SigRole member role \<Rightarrow> set_role member role casemap room
      | _ \<Rightarrow> room)"

end
