(* ===== verification/Command.thy ===== *)
theory Command
  imports Message Server_Time Voice
begin

text \<open>
  What a host asks the connection to do (\<open>obby-client/src/command.rs\<close>), and the line that carries it
  (\<open>Client::wire\<close> and its helpers in \<open>client.rs\<close>). The commands that need the client's state to be
  sent have no line of their own here.
\<close>

datatype typing_state = Active | Paused | Done

definition typing_as_str :: "typing_state \<Rightarrow> string" where
  "typing_as_str s = (case s of Active \<Rightarrow> ''active'' | Paused \<Rightarrow> ''paused'' | Done \<Rightarrow> ''done'')"

datatype command =
    Join_Channel string "string option"
  | Part_Channel string "string option"
  | SendMessage string string
  | SendNotice string string
  | SendAction string string
  | SetNick string
  | SetTopic string "string option"
  | SetAway "string option"
  | SetTyping string typing_state
  | AddReaction string string string
  | RemoveReaction string string string
  | RedactMessage string string "string option"
  | MarkRead string nat
  | FetchHistory string "string option" nat
  | SetMetadata string "string option"
  | SubscribeMetadata "string list"
  | Whois string
  | RenameChannel string string "string option"
  | CreateInviteLink "string option" "string option"
  | ListInviteLinks
  | DeleteInviteLink string
  | RedeemInviteCode string
  | GenerateToken string
  | WatchNicks "string list"
  | UnwatchNicks "string list"
  | SendVoiceSignal string signal
  | Quit_Network "string option"
  | SendRawLine string

definition with_option :: "string list \<Rightarrow> string option \<Rightarrow> string list" where
  "with_option params last_param = (case last_param of Some p \<Rightarrow> params @ [p] | None \<Rightarrow> params)"

definition chathistory :: "string \<Rightarrow> string option \<Rightarrow> nat \<Rightarrow> message" where
  "chathistory target before_msgid limit =
     (let (selector, point) = (case before_msgid of Some msgid \<Rightarrow> (''BEFORE'', ''msgid='' @ msgid) | None \<Rightarrow> (''LATEST'', ''*''))
      in message_new ''CHATHISTORY'' [selector, target, point, show_nat limit])"

definition invite_link :: "string option \<Rightarrow> string option \<Rightarrow> message" where
  "invite_link channel description =
     (let params = [''CREATE''];
          params = (case (channel, description) of
                      (Some channel, _) \<Rightarrow> params @ [channel]
                    | (None, Some _) \<Rightarrow> params @ [''*'']
                    | (None, None) \<Rightarrow> params)
      in message_new ''INVITELINK'' (with_option params description))"

definition reaction_line :: "string \<Rightarrow> string \<Rightarrow> string \<Rightarrow> string \<Rightarrow> message" where
  "reaction_line tag target msgid emoji =
     (message_new ''TAGMSG'' [target])
       \<lparr>msg_tags := tags_set (tag_new ''+draft/reply'' msgid) (tags_set (tag_new tag emoji) [])\<rparr>"

definition wire :: "command \<Rightarrow> message option" where
  "wire command =
     (case command of
        SendMessage _ _ \<Rightarrow> None
      | SendNotice _ _ \<Rightarrow> None
      | SendAction _ _ \<Rightarrow> None
      | WatchNicks _ \<Rightarrow> None
      | UnwatchNicks _ \<Rightarrow> None
      | Join_Channel _ _ \<Rightarrow> None
      | SubscribeMetadata _ \<Rightarrow> None
      | Part_Channel channel reason \<Rightarrow> Some (message_new ''PART'' (with_option [channel] reason))
      | SetNick nick \<Rightarrow> Some (message_new ''NICK'' [nick])
      | SetTopic channel topic \<Rightarrow>
          Some (message_new ''TOPIC'' [channel, case topic of Some t \<Rightarrow> t | None \<Rightarrow> []])
      | SetAway m \<Rightarrow> Some (message_new ''AWAY'' (with_option [] m))
      | SetTyping target state \<Rightarrow>
          Some ((message_new ''TAGMSG'' [target])\<lparr>msg_tags := tags_set (tag_new ''+typing'' (typing_as_str state)) []\<rparr>)
      | AddReaction target msgid emoji \<Rightarrow> Some (reaction_line ''+draft/react'' target msgid emoji)
      | RemoveReaction target msgid emoji \<Rightarrow> Some (reaction_line ''+draft/unreact'' target msgid emoji)
      | RedactMessage target msgid reason \<Rightarrow> Some (message_new ''REDACT'' (with_option [target, msgid] reason))
      | MarkRead target at_ms \<Rightarrow>
          Some (message_new ''MARKREAD'' [target, ''timestamp='' @ server_time_format at_ms])
      | FetchHistory target before_msgid limit \<Rightarrow> Some (chathistory target before_msgid limit)
      | Whois nick \<Rightarrow> Some (message_new ''WHOIS'' [nick])
      | RenameChannel channel new_name reason \<Rightarrow>
          Some (message_new ''RENAME'' (with_option [channel, new_name] reason))
      | CreateInviteLink channel description \<Rightarrow> Some (invite_link channel description)
      | ListInviteLinks \<Rightarrow> Some (message_new ''INVITELINK'' [''LIST''])
      | DeleteInviteLink share_id \<Rightarrow> Some (message_new ''INVITELINK'' [''DELETE'', share_id])
      | RedeemInviteCode code \<Rightarrow> Some (message_new ''INVITECODE'' [code])
      | GenerateToken service \<Rightarrow> Some (message_new ''TOKEN'' [''GENERATE'', service])
      | SetMetadata key new_value \<Rightarrow> Some (message_new ''METADATA'' (with_option [''*'', ''SET'', key] new_value))
      | SendVoiceSignal channel sig \<Rightarrow>
          Some ((message_new ''TAGMSG'' [channel])
            \<lparr>msg_tags := tags_set (tag_new ''+obsidianirc/rtc'' (signal_to_json sig)) []\<rparr>)
      | Quit_Network reason \<Rightarrow> Some (message_new ''QUIT'' (with_option [] reason))
      | SendRawLine line \<Rightarrow> (case message_parse line of Inr m \<Rightarrow> Some m | Inl _ \<Rightarrow> None))"

end
