(* ===== verification/Client.thy ===== *)
theory Client
  imports Session Caps Labels Batches Watch_List Scram Command
begin

text \<open>
  The connection engine (\<open>obby-client/src/client.rs\<close>): the registration state machine, the reading and
  writing of lines, the clock, the commands of the host and the dispatch of every inbound line. The
  whole state is one record, passed from operation to operation; the queues to the host are lists,
  oldest first. This is the default build, with the features \<open>obby\<close> and \<open>voice\<close>.
\<close>

section \<open>State\<close>

datatype phase = Disconnected | Negotiating | Registering | Registered

record config =
  cfg_nick :: string
  cfg_username :: string
  cfg_realname :: string
  cfg_password :: "string option"
  cfg_sasl :: "credentials option"
  cfg_retention :: nat
  cfg_alt_nicks :: "string list"

definition config_new :: "string \<Rightarrow> config" where
  "config_new nick =
     \<lparr>cfg_nick = nick, cfg_username = nick, cfg_realname = nick, cfg_password = None, cfg_sasl = None,
      cfg_retention = DEFAULT_RETENTION, cfg_alt_nicks = []\<rparr>"

definition config_default :: config where
  "config_default = config_new []"

datatype severity = Fail | Warn | Note

datatype event =
    CapabilitiesAcknowledged "string list"
  | Event_Registered string
  | IsupportToken string "string option"
  | LoggedIn string
  | SaslFailed sasl_failure
  | NickInUse string string
  | ModelChanged change
  | LinkDead
  | ReconnectAfter nat
  | ReconnectAbandoned
  | CommandTimedOut string
  | AllowedCommandsChanged
  | BotsChanged string
  | AuthToken string string string
  | VoiceFrame string signal
  | TypingChanged string string bool
  | PresenceChanged string bool
  | ServerReply severity string string "string list" string
  | RawLine message

record client =
  cl_config :: config
  cl_phase :: phase
  cl_caps :: capabilities
  cl_nick :: string
  cl_isupport :: isupport
  cl_model :: model
  cl_batches :: batches
  cl_monitor :: watch_list
  cl_channel_keys :: "(case_folded, string) btree"
  cl_metadata_subscriptions :: "string list"
  cl_rooms :: "(case_folded, voice_room) btree"
  cl_commands :: commands
  cl_bots :: bots
  cl_timers :: timers
  cl_labels :: "string labels"
  cl_backoff :: backoff
  cl_monotonic_ms :: nat
  cl_latest_ms :: nat
  cl_discarding :: bool
  cl_dropped_lines :: nat
  cl_sasl :: sasl_state
  cl_scram :: "scram option"
  cl_nick_attempt :: nat
  cl_partial :: string
  cl_outbox :: "string list"
  cl_events :: "event list"

definition MAX_LINE_BYTES :: nat where "MAX_LINE_BYTES = 512"
definition MAX_TAG_BYTES :: nat where "MAX_TAG_BYTES = 8191"
definition MAX_INBOUND_LINE :: nat where "MAX_INBOUND_LINE = MAX_TAG_BYTES + MAX_LINE_BYTES"

definition CHATHISTORY_BATCH :: string where "CHATHISTORY_BATCH = ''chathistory''"
definition MULTILINE_BATCH :: string where "MULTILINE_BATCH = ''draft/multiline''"
definition MULTILINE_CONCAT :: string where "MULTILINE_CONCAT = ''draft/multiline-concat''"

definition client_new :: "config \<Rightarrow> client" where
  "client_new config =
     (let config = (if cfg_username config = [] then config\<lparr>cfg_username := cfg_nick config\<rparr> else config);
          config = (if cfg_realname config = [] then config\<lparr>cfg_realname := cfg_nick config\<rparr> else config);
          m = model_with_retention (cfg_retention config)
      in \<lparr>cl_config = config, cl_phase = Disconnected, cl_caps = capabilities_default, cl_nick = cfg_nick config,
          cl_isupport = isupport_default, cl_model = m\<lparr>mdl_me := (mdl_me m)\<lparr>me_nick := cfg_nick config\<rparr>\<rparr>,
          cl_batches = batches_new, cl_monitor = watch_list_new, cl_channel_keys = [], cl_metadata_subscriptions = [],
          cl_rooms = [], cl_commands = commands_new, cl_bots = bots_new,
          cl_timers = timers_new, cl_labels = labels_new, cl_backoff = backoff_default, cl_monotonic_ms = 0,
          cl_latest_ms = 0, cl_discarding = False, cl_dropped_lines = 0, cl_sasl = Idle, cl_scram = None,
          cl_nick_attempt = 0, cl_partial = [], cl_outbox = [], cl_events = []\<rparr>)"

section \<open>Queues\<close>

definition send_line :: "message \<Rightarrow> client \<Rightarrow> client" where
  "send_line m c = c\<lparr>cl_outbox := cl_outbox c @ [message_display m @ [cr, nl]]\<rparr>"

definition push_event :: "event \<Rightarrow> client \<Rightarrow> client" where
  "push_event ev c = c\<lparr>cl_events := cl_events c @ [ev]\<rparr>"

definition drop_line :: "client \<Rightarrow> client" where
  "drop_line c = c\<lparr>cl_dropped_lines := sat_add64 (cl_dropped_lines c) 1\<rparr>"

definition poll_transmit :: "client \<Rightarrow> string option \<times> client" where
  "poll_transmit c = (case cl_outbox c of [] \<Rightarrow> (None, c) | line # rest \<Rightarrow> (Some line, c\<lparr>cl_outbox := rest\<rparr>))"

definition poll_event :: "client \<Rightarrow> event option \<times> client" where
  "poll_event c = (case cl_events c of [] \<Rightarrow> (None, c) | ev # rest \<Rightarrow> (Some ev, c\<lparr>cl_events := rest\<rparr>))"

definition poll_timeout :: "client \<Rightarrow> nat option" where
  "poll_timeout c = timers_next (cl_timers c)"

definition send_line_labeled :: "message \<Rightarrow> client \<Rightarrow> string option \<times> client" where
  "send_line_labeled m c =
     (if \<not> caps_has (cl_caps c) ''labeled-response'' then (None, send_line m c)
      else
        (let (label, labels) = labels_generate (cl_labels c);
             m = m\<lparr>msg_tags := tags_set (tag_new ''label'' label) (msg_tags m)\<rparr>;
             labels = labels_register label (sat_add64 (cl_monotonic_ms c) DEFAULT_TIMEOUT_MS) (msg_command m) labels
         in (Some label, send_line m (c\<lparr>cl_labels := labels\<rparr>))))"

abbreviation send_labeled :: "message \<Rightarrow> client \<Rightarrow> client" where
  "send_labeled m c \<equiv> snd (send_line_labeled m c)"

definition arm_keepalive :: "client \<Rightarrow> client" where
  "arm_keepalive c =
     c\<lparr>cl_timers := timers_set PingKeepalive (sat_add64 (cl_monotonic_ms c) PING_KEEPALIVE_MS)
        (timers_clear DeadLink (cl_timers c))\<rparr>"

section \<open>The transport comes and goes\<close>

definition handle_connected :: "client \<Rightarrow> client" where
  "handle_connected c =
     (let c = c\<lparr>cl_phase := Negotiating, cl_backoff := backoff_reset (cl_backoff c),
                cl_timers := timers_clear Reconnect (cl_timers c)\<rparr>;
          c = arm_keepalive c;
          c = send_line (message_new ''CAP'' [''LS'', ''302'']) c;
          c = (case cfg_password (cl_config c) of Some p \<Rightarrow> send_line (message_new ''PASS'' [p]) c | None \<Rightarrow> c);
          c = send_line (message_new ''NICK'' [cfg_nick (cl_config c)]) c
      in send_line (message_new ''USER'' [cfg_username (cl_config c), ''0'', ''*'', cfg_realname (cl_config c)]) c)"

definition handle_disconnected :: "client \<Rightarrow> client" where
  "handle_disconnected c =
     (let c = c\<lparr>cl_phase := Disconnected, cl_batches := batches_drop_all (cl_batches c),
                cl_caps := capabilities_default, cl_sasl := Idle, cl_monitor := wl_forget_presence (cl_monitor c),
                cl_bots := bots_forget (cl_bots c),
                cl_model := channels_mut (\<lambda>ch. ch\<lparr>ch_members := []\<rparr>) (forget_whois (cl_model c)),
                cl_timers := timers_clear DeadLink (timers_clear PingKeepalive (cl_timers c))\<rparr>;
          (delay, backoff) = next_delay_ms (cl_backoff c);
          c = c\<lparr>cl_backoff := backoff\<rparr>
      in case delay of
           Some after_ms \<Rightarrow>
             push_event (ReconnectAfter after_ms)
               (c\<lparr>cl_timers := timers_set Reconnect (sat_add64 (cl_monotonic_ms c) after_ms) (cl_timers c)\<rparr>)
         | None \<Rightarrow> push_event ReconnectAbandoned c)"

section \<open>Folding a line into the model\<close>

definition request_who :: "string \<Rightarrow> client \<Rightarrow> client" where
  "request_who channel c =
     (if isupport_has (cl_isupport c) ''WHOX''
      then send_line (message_new ''WHO'' [channel, WHOX_FIELDS @ '','' @ WHOX_TOKEN]) c
      else send_line (message_new ''WHO'' [channel]) c)"

text \<open>What a change makes the client do, before the host hears of it.\<close>

definition follow_change :: "change \<Rightarrow> client \<Rightarrow> client" where
  "follow_change ch c =
     (case ch of
        ChannelJoined channel \<Rightarrow> request_who channel c
      | ChannelRenamed old renamed \<Rightarrow>
          (let old = isupport_fold (cl_isupport c) old; renamed = isupport_fold (cl_isupport c) renamed in
           c\<lparr>cl_channel_keys := bt_move old renamed (cl_channel_keys c), cl_rooms := bt_move old renamed (cl_rooms c)\<rparr>)
      | _ \<Rightarrow> c)"

definition client_ctx :: "client \<Rightarrow> bool \<Rightarrow> session_context" where
  "client_ctx c historical =
     \<lparr>ctx_model = cl_model c, ctx_isupport = cl_isupport c, ctx_latest_ms = cl_latest_ms c, ctx_historical = historical\<rparr>"

definition client_fold :: "externals \<Rightarrow> message \<Rightarrow> bool \<Rightarrow> client \<Rightarrow> client" where
  "client_fold e m historical c =
     (let (changes, ctx) = session_apply e (client_ctx c historical) m;
          c = c\<lparr>cl_model := ctx_model ctx, cl_latest_ms := ctx_latest_ms ctx\<rparr>
      in if changes = []
         then (if accumulates (to_ascii_uppercase (msg_command m)) then c else push_event (RawLine m) c)
         else fold (\<lambda>ch. push_event (ModelChanged ch)) changes (fold follow_change changes c))"

section \<open>Time\<close>

definition expire_typing :: "string \<Rightarrow> string \<Rightarrow> client \<Rightarrow> client" where
  "expire_typing target who c =
     (let (changed, m) = model_set_typing target who False (cl_model c);
          c = c\<lparr>cl_model := m\<rparr>
      in if changed then push_event (TypingChanged target who False) c else c)"

definition tick_deadline :: "now \<Rightarrow> deadline \<Rightarrow> client \<Rightarrow> client" where
  "tick_deadline now d c =
     (case d of
        PingKeepalive \<Rightarrow>
          (let c = send_line (message_new ''PING'' [cl_nick c]) c
           in c\<lparr>cl_timers := timers_set DeadLink (sat_add64 (now_monotonic_ms now) DEAD_LINK_MS) (cl_timers c)\<rparr>)
      | DeadLink \<Rightarrow> push_event LinkDead c
      | Reconnect \<Rightarrow> push_event (ReconnectAfter 0) c
      | Typing target who \<Rightarrow> expire_typing target who c)"

definition tick :: "now \<Rightarrow> client \<Rightarrow> client" where
  "tick now c =
     (let c = c\<lparr>cl_monotonic_ms := now_monotonic_ms now, cl_latest_ms := max (cl_latest_ms c) (now_unix_ms now)\<rparr>;
          (due, timers) = timers_expire now (cl_timers c);
          c = fold (tick_deadline now) due (c\<lparr>cl_timers := timers\<rparr>);
          (timed_out, labels) = labels_expire (now_monotonic_ms now) (cl_labels c)
      in fold (\<lambda>command. push_event (CommandTimedOut command)) timed_out (c\<lparr>cl_labels := labels\<rparr>))"

section \<open>Commands\<close>

definition say :: "externals \<Rightarrow> message \<Rightarrow> client \<Rightarrow> client" where
  "say e line c =
     (let c = send_labeled line c in
      if caps_has (cl_caps c) ''echo-message'' then c
      else client_fold e (line\<lparr>msg_source := Some \<lparr>src_name = cl_nick c, src_user = None, src_host = None\<rparr>\<rparr>) False c)"

definition set_watching :: "string list \<Rightarrow> bool \<Rightarrow> client \<Rightarrow> client" where
  "set_watching nicks watching c =
     (let folded = map (isupport_fold (cl_isupport c)) nicks;
          c = c\<lparr>cl_monitor := (if watching then wl_watch folded (cl_monitor c) else wl_unwatch folded (cl_monitor c))\<rparr>;
          limit = (case isupport_number (cl_isupport c) ''MONITOR'' of Some n \<Rightarrow> n | None \<Rightarrow> 100);
          verb = (if watching then ''+'' else ''-'')
      in fold (\<lambda>chunk. send_line (message_new ''MONITOR'' [verb, chunk])) (batched nicks limit) c)"

definition client_command :: "externals \<Rightarrow> command \<Rightarrow> client \<Rightarrow> client" where
  "client_command e command c =
     (case command of
        SendMessage target body \<Rightarrow> say e (message_new ''PRIVMSG'' [target, body]) c
      | SendNotice target body \<Rightarrow> say e (message_new ''NOTICE'' [target, body]) c
      | SendAction target body \<Rightarrow>
          say e (message_new ''PRIVMSG'' [target, [CHR 0x01] @ ''ACTION '' @ body @ [CHR 0x01]]) c
      | Join_Channel channel key \<Rightarrow>
          (let folded = isupport_fold (cl_isupport c) channel;
               c = c\<lparr>cl_channel_keys := (case key of Some k \<Rightarrow> bt_insert folded k (cl_channel_keys c)
                                                  | None \<Rightarrow> bt_remove folded (cl_channel_keys c))\<rparr>
           in send_labeled (message_new ''JOIN'' (with_option [channel] key)) c)
      | SubscribeMetadata keys \<Rightarrow>
          (let c = c\<lparr>cl_metadata_subscriptions :=
                       fold (\<lambda>key subs. if key \<in> set subs then subs else subs @ [key]) keys (cl_metadata_subscriptions c)\<rparr>
           in send_labeled (message_new ''METADATA'' ([''*'', ''SUB''] @ keys)) c)
      | WatchNicks nicks \<Rightarrow> set_watching nicks True c
      | UnwatchNicks nicks \<Rightarrow> set_watching nicks False c
      | other \<Rightarrow> (case wire other of Some line \<Rightarrow> send_labeled line c | None \<Rightarrow> c))"

section \<open>The host's calls\<close>

text \<open>One method per command; each only builds the command.\<close>

definition client_join :: "externals \<Rightarrow> string \<Rightarrow> string option \<Rightarrow> client \<Rightarrow> client" where
  "client_join e channel key = client_command e (Join_Channel channel key)"

definition client_part :: "externals \<Rightarrow> string \<Rightarrow> string option \<Rightarrow> client \<Rightarrow> client" where
  "client_part e channel reason = client_command e (Part_Channel channel reason)"

definition client_send_message :: "externals \<Rightarrow> string \<Rightarrow> string \<Rightarrow> client \<Rightarrow> client" where
  "client_send_message e target body = client_command e (SendMessage target body)"

definition client_send_notice :: "externals \<Rightarrow> string \<Rightarrow> string \<Rightarrow> client \<Rightarrow> client" where
  "client_send_notice e target body = client_command e (SendNotice target body)"

definition client_send_action :: "externals \<Rightarrow> string \<Rightarrow> string \<Rightarrow> client \<Rightarrow> client" where
  "client_send_action e target body = client_command e (SendAction target body)"

definition client_set_nick :: "externals \<Rightarrow> string \<Rightarrow> client \<Rightarrow> client" where
  "client_set_nick e nick = client_command e (SetNick nick)"

definition client_set_topic :: "externals \<Rightarrow> string \<Rightarrow> string option \<Rightarrow> client \<Rightarrow> client" where
  "client_set_topic e channel topic = client_command e (SetTopic channel topic)"

definition client_set_away :: "externals \<Rightarrow> string option \<Rightarrow> client \<Rightarrow> client" where
  "client_set_away e message = client_command e (SetAway message)"

definition client_set_typing :: "externals \<Rightarrow> string \<Rightarrow> typing_state \<Rightarrow> client \<Rightarrow> client" where
  "client_set_typing e target state = client_command e (SetTyping target state)"

definition client_add_reaction :: "externals \<Rightarrow> string \<Rightarrow> string \<Rightarrow> string \<Rightarrow> client \<Rightarrow> client" where
  "client_add_reaction e target msgid emoji = client_command e (AddReaction target msgid emoji)"

definition client_remove_reaction :: "externals \<Rightarrow> string \<Rightarrow> string \<Rightarrow> string \<Rightarrow> client \<Rightarrow> client" where
  "client_remove_reaction e target msgid emoji = client_command e (RemoveReaction target msgid emoji)"

definition client_redact_message :: "externals \<Rightarrow> string \<Rightarrow> string \<Rightarrow> string option \<Rightarrow> client \<Rightarrow> client" where
  "client_redact_message e target msgid reason = client_command e (RedactMessage target msgid reason)"

definition client_mark_read :: "externals \<Rightarrow> string \<Rightarrow> nat \<Rightarrow> client \<Rightarrow> client" where
  "client_mark_read e target at_ms = client_command e (MarkRead target at_ms)"

definition client_fetch_history :: "externals \<Rightarrow> string \<Rightarrow> string option \<Rightarrow> nat \<Rightarrow> client \<Rightarrow> client" where
  "client_fetch_history e target before_msgid limit = client_command e (FetchHistory target before_msgid limit)"

definition client_set_metadata :: "externals \<Rightarrow> string \<Rightarrow> string option \<Rightarrow> client \<Rightarrow> client" where
  "client_set_metadata e key new_value = client_command e (SetMetadata key new_value)"

definition client_subscribe_metadata :: "externals \<Rightarrow> string list \<Rightarrow> client \<Rightarrow> client" where
  "client_subscribe_metadata e keys = client_command e (SubscribeMetadata keys)"

definition client_whois :: "externals \<Rightarrow> string \<Rightarrow> client \<Rightarrow> client" where
  "client_whois e nick = client_command e (Whois nick)"

definition client_rename_channel :: "externals \<Rightarrow> string \<Rightarrow> string \<Rightarrow> string option \<Rightarrow> client \<Rightarrow> client" where
  "client_rename_channel e channel new_name reason = client_command e (RenameChannel channel new_name reason)"

definition client_create_invite_link :: "externals \<Rightarrow> string option \<Rightarrow> string option \<Rightarrow> client \<Rightarrow> client" where
  "client_create_invite_link e channel description = client_command e (CreateInviteLink channel description)"

definition client_list_invite_links :: "externals \<Rightarrow> client \<Rightarrow> client" where
  "client_list_invite_links e = client_command e ListInviteLinks"

definition client_delete_invite_link :: "externals \<Rightarrow> string \<Rightarrow> client \<Rightarrow> client" where
  "client_delete_invite_link e share_id = client_command e (DeleteInviteLink share_id)"

definition client_redeem_invite_code :: "externals \<Rightarrow> string \<Rightarrow> client \<Rightarrow> client" where
  "client_redeem_invite_code e code = client_command e (RedeemInviteCode code)"

definition client_generate_token :: "externals \<Rightarrow> string \<Rightarrow> client \<Rightarrow> client" where
  "client_generate_token e service = client_command e (GenerateToken service)"

definition client_watch_nicks :: "externals \<Rightarrow> string list \<Rightarrow> client \<Rightarrow> client" where
  "client_watch_nicks e nicks = client_command e (WatchNicks nicks)"

definition client_unwatch_nicks :: "externals \<Rightarrow> string list \<Rightarrow> client \<Rightarrow> client" where
  "client_unwatch_nicks e nicks = client_command e (UnwatchNicks nicks)"

definition client_send_voice_signal :: "externals \<Rightarrow> string \<Rightarrow> signal \<Rightarrow> client \<Rightarrow> client" where
  "client_send_voice_signal e channel sig = client_command e (SendVoiceSignal channel sig)"

definition client_voice_room :: "client \<Rightarrow> case_folded \<Rightarrow> voice_room option" where
  "client_voice_room c channel = map_of (cl_rooms c) channel"

definition client_quit :: "externals \<Rightarrow> string option \<Rightarrow> client \<Rightarrow> client" where
  "client_quit e reason = client_command e (Quit_Network reason)"

definition client_send_raw_line :: "externals \<Rightarrow> string \<Rightarrow> client \<Rightarrow> client" where
  "client_send_raw_line e line = client_command e (SendRawLine line)"

section \<open>Resuming\<close>

definition monitor_limit :: "client \<Rightarrow> nat" where
  "monitor_limit c = (case isupport_number (cl_isupport c) ''MONITOR'' of Some n \<Rightarrow> n | None \<Rightarrow> 100)"

definition rejoin :: "string \<times> string option \<Rightarrow> client \<Rightarrow> client" where
  "rejoin entry c =
     (let (name, newest) = entry;
          key = map_of (cl_channel_keys c) (isupport_fold (cl_isupport c) name);
          c = send_line (message_new ''JOIN'' (with_option [name] key)) c
      in case newest of
           Some msgid \<Rightarrow>
             if caps_has (cl_caps c) ''draft/chathistory''
             then send_line (message_new ''CHATHISTORY'' [''AFTER'', name, ''msgid='' @ msgid, ''100'']) c
             else c
         | None \<Rightarrow> c)"

definition resume :: "client \<Rightarrow> client" where
  "resume c =
     (let rejoining = map (\<lambda>(_, ch). (ch_name ch, Option.bind (log_last (ch_log ch)) chat_msgid)) (mdl_channels (cl_model c));
          watched = wl_watching (cl_monitor c);
          c = (if watched = [] then c
               else fold (\<lambda>chunk. send_line (message_new ''MONITOR'' [''+'', chunk])) (batched watched (monitor_limit c)) c);
          c = (if cl_metadata_subscriptions c = [] then c
               else send_line (message_new ''METADATA'' ([''*'', ''SUB''] @ cl_metadata_subscriptions c)) c)
      in fold rejoin rejoining c)"

section \<open>Capability negotiation and authentication\<close>

definition start_sasl_if_wanted :: "client \<Rightarrow> bool \<times> client" where
  "start_sasl_if_wanted c =
     (if cl_sasl c \<noteq> Idle \<or> \<not> caps_has (cl_caps c) ''sasl'' then (False, c)
      else
        (case cfg_sasl (cl_config c) of
           None \<Rightarrow> (False, c)
         | Some credentials \<Rightarrow>
             if \<not> sasl_offers (caps_value (cl_caps c) ''sasl'') (mechanism credentials)
             then (False, push_event (SaslFailed NoSharedMechanism) (c\<lparr>cl_sasl := Settled\<rparr>))
             else (True, send_line (message_new ''AUTHENTICATE'' [mechanism credentials]) (c\<lparr>cl_sasl := Offered\<rparr>))))"

definition finish_negotiation_if_settled :: "client \<Rightarrow> client" where
  "finish_negotiation_if_settled c =
     (if cl_phase c \<noteq> Negotiating \<or> \<not> caps_settled (cl_caps c) then c
      else
        (let (started, c) = start_sasl_if_wanted c in
         if started \<or> in_flight (cl_sasl c) then c
         else send_line (message_new ''CAP'' [''END'']) (c\<lparr>cl_phase := Registering\<rparr>)))"

definition request_wanted :: "client \<Rightarrow> client" where
  "request_wanted c =
     (let wanted = caps_to_request (cl_caps c) in
      if wanted = [] then finish_negotiation_if_settled c
      else fold (\<lambda>name. send_line (message_new ''CAP'' [''REQ'', name])) wanted
             (c\<lparr>cl_caps := caps_requested wanted (cl_caps c)\<rparr>))"

definition handle_cap :: "message \<Rightarrow> client \<Rightarrow> client" where
  "handle_cap m c =
     (case msg_param m 1 of
        None \<Rightarrow> c
      | Some subcommand \<Rightarrow>
          (let list = (case msg_trailing m of Some l \<Rightarrow> l | None \<Rightarrow> []);
               more_to_come = (msg_param m 2 = Some ''*'');
               sub = to_ascii_uppercase subcommand
           in if sub = ''LS''
              then (let c = c\<lparr>cl_caps := caps_advertise list (cl_caps c)\<rparr> in if more_to_come then c else request_wanted c)
              else if sub = ''NEW'' then request_wanted (c\<lparr>cl_caps := caps_advertise list (cl_caps c)\<rparr>)
              else if sub = ''DEL'' then c\<lparr>cl_caps := caps_withdraw list (cl_caps c)\<rparr>
              else if sub = ''ACK''
              then (let (names, caps) = caps_acknowledge list (cl_caps c);
                        c = c\<lparr>cl_caps := caps\<rparr>;
                        c = (if names = [] then c else push_event (CapabilitiesAcknowledged names) c)
                    in finish_negotiation_if_settled c)
              else if sub = ''NAK'' then finish_negotiation_if_settled (c\<lparr>cl_caps := caps_reject list (cl_caps c)\<rparr>)
              else c))"

definition finish_sasl :: "sasl_failure option \<Rightarrow> client \<Rightarrow> client" where
  "finish_sasl failure c =
     (if cl_sasl c = Settled then c
      else
        (let c = c\<lparr>cl_sasl := Settled\<rparr>;
             c = (case failure of Some reason \<Rightarrow> push_event (SaslFailed reason) c | None \<Rightarrow> c)
         in finish_negotiation_if_settled c))"

definition send_sasl :: "externals \<Rightarrow> string \<Rightarrow> client \<Rightarrow> client" where
  "send_sasl e payload c = fold (\<lambda>line. send_line (message_new ''AUTHENTICATE'' [line])) (encode_response e payload) c"

definition begin_sasl_response :: "externals \<Rightarrow> client \<Rightarrow> client" where
  "begin_sasl_response e c =
     (case cfg_sasl (cl_config c) of
        None \<Rightarrow> c
      | Some (Scram username password nonce) \<Rightarrow>
          (let scram = scram_new username password nonce
           in send_sasl e (client_first scram) (c\<lparr>cl_scram := Some scram, cl_sasl := ScramChallenged\<rparr>))
      | Some credentials \<Rightarrow> send_sasl e (cred_response credentials) (c\<lparr>cl_sasl := Responded\<rparr>))"

definition answer_scram_challenge :: "externals \<Rightarrow> string \<Rightarrow> client \<Rightarrow> client" where
  "answer_scram_challenge e challenge c =
     (case cl_scram c of
        None \<Rightarrow> finish_sasl (Some Aborted) c
      | Some scram \<Rightarrow>
          (let (answer, scram) = client_final e challenge scram;
               c = c\<lparr>cl_scram := Some scram\<rparr>
           in case answer of
                Inr response \<Rightarrow> send_sasl e response (c\<lparr>cl_sasl := ScramProved\<rparr>)
              | Inl _ \<Rightarrow> finish_sasl (Some Rejected) c))"

definition verify_scram_server :: "externals \<Rightarrow> string \<Rightarrow> client \<Rightarrow> client" where
  "verify_scram_server e challenge c =
     (case cl_scram c of
        None \<Rightarrow> finish_sasl (Some Aborted) c
      | Some scram \<Rightarrow>
          (case scram_verify e scram challenge of
             Inl _ \<Rightarrow> finish_sasl (Some ServerNotVerified) (c\<lparr>cl_scram := None\<rparr>)
           | Inr _ \<Rightarrow> send_line (message_new ''AUTHENTICATE'' [''+'']) (c\<lparr>cl_scram := None, cl_sasl := Responded\<rparr>)))"

definition handle_authenticate :: "externals \<Rightarrow> message \<Rightarrow> client \<Rightarrow> client" where
  "handle_authenticate e m c =
     (case decode_challenge e (case msg_param m 0 of Some p \<Rightarrow> p | None \<Rightarrow> ''+'') of
        None \<Rightarrow> finish_sasl (Some Aborted) c
      | Some challenge \<Rightarrow>
          (case cl_sasl c of
             Offered \<Rightarrow> begin_sasl_response e c
           | ScramChallenged \<Rightarrow> answer_scram_challenge e challenge c
           | ScramProved \<Rightarrow> verify_scram_server e challenge c
           | _ \<Rightarrow> c))"

definition sasl_failure_of :: "string \<Rightarrow> sasl_failure option" where
  "sasl_failure_of command =
     (if command = ''904'' then Some Rejected
      else if command = ''905'' then Some TooLong
      else if command = ''906'' then Some Aborted
      else if command = ''907'' then Some AlreadyAuthenticated
      else None)"

section \<open>The other lines the engine handles itself\<close>

text \<open>
  The counter of refusals is a \<open>usize\<close>, taken as the 64 bits of a 64-bit target; an overflow wraps, as in a
  release build.
\<close>

definition handle_nick_refused :: "message \<Rightarrow> client \<Rightarrow> client" where
  "handle_nick_refused m c =
     (if cl_phase c = Registered then push_event (RawLine m) c
      else
        (let refused = (case msg_param m 1 of Some n \<Rightarrow> n | None \<Rightarrow> cl_nick c);
             trying = (case nth_opt (cfg_alt_nicks (cl_config c)) (cl_nick_attempt c) of
                         Some alt \<Rightarrow> alt | None \<Rightarrow> cl_nick c @ ''_'');
             c = c\<lparr>cl_nick_attempt := wrapping_add64 (cl_nick_attempt c) 1, cl_nick := trying,
                   cl_model := (cl_model c)\<lparr>mdl_me := (mdl_me (cl_model c))\<lparr>me_nick := trying\<rparr>\<rparr>\<rparr>
         in send_line (message_new ''NICK'' [trying]) (push_event (NickInUse refused trying) c)))"

definition handle_typing :: "message \<Rightarrow> client \<Rightarrow> bool \<times> client" where
  "handle_typing m c =
     (case (msg_tag m ''+typing'', msg_param m 0, msg_source m) of
        (Some state, Some target, Some source) \<Rightarrow>
          (let who = src_name source;
               target = (if is_channel (cl_isupport c) target then target else who);
               folded_target = isupport_fold (cl_isupport c) target;
               folded_who = isupport_fold (cl_isupport c) who;
               typing = (state = ''active'');
               d = Typing folded_target folded_who;
               c = c\<lparr>cl_timers := (if typing then timers_set d (sat_add64 (cl_monotonic_ms c) TYPING_EXPIRY_MS) (cl_timers c)
                                   else timers_clear d (cl_timers c))\<rparr>;
               (changed, model) = model_set_typing folded_target folded_who typing (cl_model c);
               c = c\<lparr>cl_model := model\<rparr>
           in (True, if changed then push_event (TypingChanged target who typing) c else c))
      | _ \<Rightarrow> (False, c))"

text \<open>Voice signalling: the room is created by the first frame about it.\<close>

definition handle_rtc :: "message \<Rightarrow> client \<Rightarrow> bool \<times> client" where
  "handle_rtc m c =
     (case (msg_tag m ''+obsidianirc/rtc'', msg_param m 0) of
        (Some payload, Some channel) \<Rightarrow>
          (True,
           case signal_from_json payload of
             None \<Rightarrow> drop_line c
           | Some sig \<Rightarrow>
               (let folded = isupport_fold (cl_isupport c) channel;
                    c = c\<lparr>cl_rooms := bt_entry folded (room_new channel)
                              (room_apply (cl_nick c) sig (isu_casemapping (cl_isupport c))) (cl_rooms c)\<rparr>
                in push_event (VoiceFrame channel sig) c))
      | _ \<Rightarrow> (False, c))"

text \<open>A bot's announcement, or its list of commands.\<close>

definition bot_announced :: "externals \<Rightarrow> string \<Rightarrow> client \<Rightarrow> client" where
  "bot_announced e payload c =
     (case bot_info_decode e payload of
        None \<Rightarrow> drop_line c
      | Some info \<Rightarrow>
          (let nick = bot_nick (bi_bot info);
               key = isupport_fold (cl_isupport c) nick;
               known = (if bi_removed info then bots_remove key (cl_bots c)
                        else snd (bots_set_commands key (bi_commands info) (bots_insert key (bi_bot info) (cl_bots c))))
           in push_event (BotsChanged nick) (c\<lparr>cl_bots := known\<rparr>)))"

definition bot_commands_listed :: "externals \<Rightarrow> string \<Rightarrow> message \<Rightarrow> client \<Rightarrow> client" where
  "bot_commands_listed e payload m c =
     (case (decode_bot_commands e payload, msg_source m) of
        (Some commands, Some source) \<Rightarrow>
          (let nick = src_name source;
               (accepted, known) = bots_set_commands (isupport_fold (cl_isupport c) nick) commands (cl_bots c);
               c = c\<lparr>cl_bots := known\<rparr>
           in if accepted then push_event (BotsChanged nick) c else c)
      | _ \<Rightarrow> drop_line c)"

definition handle_bot_tags :: "externals \<Rightarrow> message \<Rightarrow> client \<Rightarrow> bool \<times> client" where
  "handle_bot_tags e m c =
     (case msg_tag m BOT_INFO_TAG of
        Some payload \<Rightarrow> (True, bot_announced e payload c)
      | None \<Rightarrow>
          (case msg_tag m BOT_COMMANDS_TAG of
             Some payload \<Rightarrow> (True, bot_commands_listed e payload m c)
           | None \<Rightarrow> (False, c)))"

definition handle_token :: "message \<Rightarrow> client \<Rightarrow> bool \<times> client" where
  "handle_token m c =
     (if msg_param m 0 \<noteq> Some ''GENERATE'' then (False, c)
      else case (msg_param m 1, msg_param m 2, msg_param m 3) of
          (Some service, Some endpoint, Some token) \<Rightarrow> (True, push_event (AuthToken service endpoint token) c)
        | _ \<Rightarrow> (False, c))"

definition handle_cmdslist :: "message \<Rightarrow> client \<Rightarrow> client" where
  "handle_cmdslist m c = push_event AllowedCommandsChanged (c\<lparr>cl_commands := commands_apply m (cl_commands c)\<rparr>)"

definition monitor_target :: "bool \<Rightarrow> string \<Rightarrow> client \<Rightarrow> client" where
  "monitor_target online target c =
     (let nick = hd (split_on (CHR ''!'') target);
          folded = isupport_fold (cl_isupport c) nick;
          c = c\<lparr>cl_monitor := (if online then wl_mark_online folded (cl_monitor c) else wl_mark_offline folded (cl_monitor c))\<rparr>
      in push_event (PresenceChanged nick online) c)"

definition handle_monitor :: "message \<Rightarrow> client \<Rightarrow> client" where
  "handle_monitor m c =
     (case msg_param m 1 of
        None \<Rightarrow> c
      | Some list \<Rightarrow> fold (monitor_target (msg_is m ''730'')) (split_targets list) c)"

definition severity_of :: "string \<Rightarrow> severity option" where
  "severity_of command =
     (let command = to_ascii_uppercase command in
      if command = ''FAIL'' then Some Fail else if command = ''WARN'' then Some Warn
      else if command = ''NOTE'' then Some Note else None)"

definition handle_standard_reply :: "severity \<Rightarrow> message \<Rightarrow> client \<Rightarrow> bool \<times> client" where
  "handle_standard_reply severity m c =
     (let command = (case msg_param m 0 of Some p \<Rightarrow> p | None \<Rightarrow> ''*'') in
      case msg_param m 1 of
        None \<Rightarrow> (False, c)
      | Some code \<Rightarrow>
          (let description = (case msg_trailing m of Some t \<Rightarrow> t | None \<Rightarrow> []);
               reply_context = take (length (msg_params m) - 3) (drop 2 (msg_params m))
           in (True, push_event (ServerReply severity command code reply_context description) c)))"

definition isupport_token :: "string \<Rightarrow> client \<Rightarrow> client" where
  "isupport_token token c =
     (let (applied, i) = isupport_apply token (cl_isupport c)
      in push_event (IsupportToken (tok_name applied) (tok_value applied)) (c\<lparr>cl_isupport := i\<rparr>))"

definition handle_isupport :: "message \<Rightarrow> client \<Rightarrow> client" where
  "handle_isupport m c =
     fold isupport_token (take (length (msg_params m) - 2) (drop 1 (msg_params m))) c"

section \<open>Batches\<close>

definition continue_line :: "message \<Rightarrow> message \<Rightarrow> message" where
  "continue_line previous m =
     (let separator = (if tags_contains (msg_tags m) MULTILINE_CONCAT then [] else [nl]);
          addition = (case msg_param m 1 of Some t \<Rightarrow> t | None \<Rightarrow> [])
      in case msg_param previous 1 of
           Some body \<Rightarrow> previous\<lparr>msg_params := (msg_params previous)[1 := body @ separator @ addition]\<rparr>
         | None \<Rightarrow> previous)"

text \<open>The loop over a closed batch, with what has been joined so far.\<close>

fun join_lines :: "message list \<Rightarrow> message list \<Rightarrow> message list" where
  "join_lines joined [] = joined"
| "join_lines joined (m # ms) =
     (case last_opt joined of
        None \<Rightarrow> join_lines (joined @ [m]) ms
      | Some previous \<Rightarrow>
          if \<not> (msg_is m ''PRIVMSG'' \<or> msg_is m ''NOTICE'') \<or> \<not> msg_is previous (msg_command m)
             \<or> msg_param previous 0 \<noteq> msg_param m 0
          then join_lines (joined @ [m]) ms
          else join_lines (butlast joined @ [continue_line previous m]) ms)"

definition join_multiline :: "closed_batch \<Rightarrow> closed_batch" where
  "join_multiline closed = closed\<lparr>cb_messages := join_lines [] (cb_messages closed)\<rparr>"

definition drain_batch :: "externals \<Rightarrow> closed_batch \<Rightarrow> client \<Rightarrow> client" where
  "drain_batch e closed c =
     (let historical = (cb_kind closed = CHATHISTORY_BATCH
             \<or> (case cb_parent closed of Some parent \<Rightarrow> is_within (cl_batches c) parent CHATHISTORY_BATCH | None \<Rightarrow> False));
          closed = (if cb_kind closed = MULTILINE_BATCH then join_multiline closed else closed)
      in fold (\<lambda>m. client_fold e m historical) (cb_messages closed) c)"

definition handle_batch :: "externals \<Rightarrow> message \<Rightarrow> client \<Rightarrow> client" where
  "handle_batch e m c =
     (let reference = (case msg_param m 0 of Some r \<Rightarrow> r | None \<Rightarrow> []) in
      if starts_with ''+'' reference then c\<lparr>cl_batches := batches_open m (cl_batches c)\<rparr>
      else
        (let (closed, batches) = batches_close m (cl_batches c);
             c = c\<lparr>cl_batches := batches\<rparr>
         in case closed of None \<Rightarrow> c | Some closed \<Rightarrow> drain_batch e closed c))"

section \<open>Dispatch\<close>

definition handle_welcome :: "message \<Rightarrow> client \<Rightarrow> client" where
  "handle_welcome m c =
     (let c = c\<lparr>cl_phase := Registered\<rparr>;
          c = (case msg_param m 0 of Some nick \<Rightarrow> c\<lparr>cl_nick := nick\<rparr> | None \<Rightarrow> c);
          c = c\<lparr>cl_model := (cl_model c)\<lparr>mdl_me := (mdl_me (cl_model c))\<lparr>me_nick := cl_nick c\<rparr>\<rparr>\<rparr>
      in resume (push_event (Event_Registered (cl_nick c)) c))"

text \<open>From the AUTHENTICATE test on: the lines that are not consumed by a test of their own.\<close>

definition handle_rest :: "externals \<Rightarrow> message \<Rightarrow> client \<Rightarrow> client" where
  "handle_rest e m c =
     (if msg_is m ''AUTHENTICATE'' then handle_authenticate e m c
      else if msg_is m ''433'' \<or> msg_is m ''432'' then handle_nick_refused m c
      else case sasl_failure_of (msg_command m) of
          Some reason \<Rightarrow> finish_sasl (Some reason) c
        | None \<Rightarrow>
            if msg_is m ''900''
            then (case msg_param m 2 of Some account \<Rightarrow> push_event (LoggedIn account) c | None \<Rightarrow> c)
            else if msg_is m ''903'' then finish_sasl None c
            else if msg_is m ''BATCH'' then handle_batch e m c
            else
              (let (routed, batches) = batches_route m (cl_batches c);
                   c = c\<lparr>cl_batches := batches\<rparr>
               in case routed of None \<Rightarrow> c | Some m \<Rightarrow> client_fold e m False c))"

definition handle_message :: "externals \<Rightarrow> message \<Rightarrow> client \<Rightarrow> client" where
  "handle_message e m c =
     (let c = arm_keepalive c;
          c = c\<lparr>cl_labels := snd (labels_resolve m (cl_labels c))\<rparr>
      in if msg_is m ''PONG'' then c
         else if msg_is m ''PING''
         then send_line (message_new ''PONG'' [case msg_trailing m of Some t \<Rightarrow> t | None \<Rightarrow> []]) c
         else if msg_is m ''CAP'' then handle_cap m c
         else if msg_is m ''001'' then handle_welcome m c
         else if msg_is m ''005'' then handle_isupport m c
         else if msg_is m ''TAGMSG'' \<and> fst (handle_typing m c) then snd (handle_typing m c)
         else if msg_is m ''TAGMSG'' \<and> fst (handle_rtc m c) then snd (handle_rtc m c)
         else if msg_is m ''TAGMSG'' \<and> fst (handle_bot_tags e m c) then snd (handle_bot_tags e m c)
         else if msg_is m ''TOKEN'' \<and> fst (handle_token m c) then snd (handle_token m c)
         else if msg_is m ''CMDSLIST'' then handle_cmdslist m c
         else if msg_command m = ''730'' \<or> msg_command m = ''731'' then handle_monitor m c
         else case severity_of (msg_command m) of
             Some severity \<Rightarrow>
               (if fst (handle_standard_reply severity m c) then snd (handle_standard_reply severity m c)
                else handle_rest e m c)
           | None \<Rightarrow> handle_rest e m c)"

section \<open>Bytes\<close>

text \<open>One whole line, with its terminator, taken from the buffer.\<close>

definition handle_line :: "externals \<Rightarrow> string \<Rightarrow> client \<Rightarrow> client" where
  "handle_line e line c =
     (if cl_discarding c then c\<lparr>cl_discarding := False\<rparr>
      else case message_parse (from_utf8_lossy line) of
          Inr m \<Rightarrow> handle_message e m c
        | Inl _ \<Rightarrow> drop_line c)"

text \<open>
  The loop of \<open>handle_bytes\<close>: \<open>partial\<close> is what has been read and not yet taken. The handlers leave the
  buffer alone, so it is passed beside the client and stored when the loop returns.
\<close>

function bytes_loop :: "externals \<Rightarrow> string \<Rightarrow> client \<Rightarrow> client" where
  "bytes_loop e partial c =
     (case split_once nl partial of
        Some (line, rest) \<Rightarrow> bytes_loop e rest (handle_line e (line @ [nl]) c)
      | None \<Rightarrow>
          if length partial > MAX_INBOUND_LINE
          then drop_line (c\<lparr>cl_partial := [], cl_discarding := True\<rparr>)
          else c\<lparr>cl_partial := partial\<rparr>)"
  by pat_completeness auto
termination
  by (relation "measure (\<lambda>(e, partial, c). length partial)") (auto simp: split_once_Some)

declare bytes_loop.simps [simp del]

definition handle_bytes :: "externals \<Rightarrow> string \<Rightarrow> client \<Rightarrow> client" where
  "handle_bytes e data c = bytes_loop e (cl_partial c @ data) c"

end
