(* ===== verification/Client_Frame.thy ===== *)
theory Client_Frame
  imports Client Session_Props
begin

text \<open>
  What the operations of the connection engine leave alone. \<open>client_fold\<close> only reaches the model, the
  clock of the last line, the channel keys, the voice rooms and the two queues; no operation looks at the buffer of
  half a line but the byte loop itself.
\<close>

section \<open>Frames\<close>

lemma send_line_fields [simp]:
  "cl_outbox (send_line m c) = cl_outbox c @ [message_display m @ [cr, nl]]"
  "cl_config (send_line m c) = cl_config c" "cl_phase (send_line m c) = cl_phase c" "cl_caps (send_line m c) = cl_caps c"
  "cl_nick (send_line m c) = cl_nick c" "cl_isupport (send_line m c) = cl_isupport c" "cl_model (send_line m c) = cl_model c"
  "cl_batches (send_line m c) = cl_batches c" "cl_monitor (send_line m c) = cl_monitor c"
  "cl_channel_keys (send_line m c) = cl_channel_keys c"
  "cl_metadata_subscriptions (send_line m c) = cl_metadata_subscriptions c" "cl_rooms (send_line m c) = cl_rooms c"
  "cl_commands (send_line m c) = cl_commands c" "cl_bots (send_line m c) = cl_bots c" "cl_timers (send_line m c) = cl_timers c"
  "cl_labels (send_line m c) = cl_labels c" "cl_backoff (send_line m c) = cl_backoff c"
  "cl_monotonic_ms (send_line m c) = cl_monotonic_ms c" "cl_latest_ms (send_line m c) = cl_latest_ms c"
  "cl_discarding (send_line m c) = cl_discarding c" "cl_dropped_lines (send_line m c) = cl_dropped_lines c"
  "cl_sasl (send_line m c) = cl_sasl c" "cl_scram (send_line m c) = cl_scram c"
  "cl_nick_attempt (send_line m c) = cl_nick_attempt c" "cl_partial (send_line m c) = cl_partial c"
  "cl_events (send_line m c) = cl_events c"
  by (simp_all add: send_line_def)

lemma push_event_fields [simp]:
  "cl_events (push_event ev c) = cl_events c @ [ev]"
  "cl_config (push_event ev c) = cl_config c" "cl_phase (push_event ev c) = cl_phase c" "cl_caps (push_event ev c) = cl_caps c"
  "cl_nick (push_event ev c) = cl_nick c" "cl_isupport (push_event ev c) = cl_isupport c" "cl_model (push_event ev c) = cl_model c"
  "cl_batches (push_event ev c) = cl_batches c" "cl_monitor (push_event ev c) = cl_monitor c"
  "cl_channel_keys (push_event ev c) = cl_channel_keys c"
  "cl_metadata_subscriptions (push_event ev c) = cl_metadata_subscriptions c" "cl_rooms (push_event ev c) = cl_rooms c"
  "cl_commands (push_event ev c) = cl_commands c" "cl_bots (push_event ev c) = cl_bots c" "cl_timers (push_event ev c) = cl_timers c"
  "cl_labels (push_event ev c) = cl_labels c" "cl_backoff (push_event ev c) = cl_backoff c"
  "cl_monotonic_ms (push_event ev c) = cl_monotonic_ms c" "cl_latest_ms (push_event ev c) = cl_latest_ms c"
  "cl_discarding (push_event ev c) = cl_discarding c" "cl_dropped_lines (push_event ev c) = cl_dropped_lines c"
  "cl_sasl (push_event ev c) = cl_sasl c" "cl_scram (push_event ev c) = cl_scram c"
  "cl_nick_attempt (push_event ev c) = cl_nick_attempt c" "cl_partial (push_event ev c) = cl_partial c"
  "cl_outbox (push_event ev c) = cl_outbox c"
  by (simp_all add: push_event_def)

lemma fold_field: "(\<And>x c. field (f x c) = field c) \<Longrightarrow> field (fold f xs c) = field c"
  by (induction xs arbitrary: c) simp_all

text \<open>What a run of lines to write, or of events to push, comes to.\<close>

lemma fold_send_line: "fold (\<lambda>x. send_line (f x)) xs c = c\<lparr>cl_outbox := cl_outbox c @ map (\<lambda>x. message_display (f x) @ [cr, nl]) xs\<rparr>"
  by (induction xs arbitrary: c) (simp_all add: send_line_def)

lemma fold_push_event: "fold (\<lambda>x. push_event (f x)) xs c = c\<lparr>cl_events := cl_events c @ map f xs\<rparr>"
  by (induction xs arbitrary: c) (simp_all add: push_event_def)

text \<open>The fields a line folded into the model does not reach.\<close>

definition engine :: "client \<Rightarrow> client" where
  "engine c = c\<lparr>cl_model := model_with_retention 0, cl_latest_ms := 0, cl_channel_keys := [], cl_rooms := [],
     cl_outbox := [], cl_events := []\<rparr>"

lemma engine_fields:
  assumes "engine c = engine c'"
  shows "cl_config c = cl_config c'" "cl_phase c = cl_phase c'" "cl_caps c = cl_caps c'" "cl_nick c = cl_nick c'"
    "cl_isupport c = cl_isupport c'" "cl_batches c = cl_batches c'" "cl_monitor c = cl_monitor c'"
    "cl_metadata_subscriptions c = cl_metadata_subscriptions c'" "cl_commands c = cl_commands c'" "cl_bots c = cl_bots c'"
    "cl_timers c = cl_timers c'" "cl_labels c = cl_labels c'"
    "cl_backoff c = cl_backoff c'" "cl_monotonic_ms c = cl_monotonic_ms c'" "cl_discarding c = cl_discarding c'"
    "cl_dropped_lines c = cl_dropped_lines c'" "cl_sasl c = cl_sasl c'" "cl_scram c = cl_scram c'"
    "cl_nick_attempt c = cl_nick_attempt c'" "cl_partial c = cl_partial c'"
  using arg_cong [OF assms, of cl_config] arg_cong [OF assms, of cl_phase] arg_cong [OF assms, of cl_caps]
    arg_cong [OF assms, of cl_nick] arg_cong [OF assms, of cl_isupport] arg_cong [OF assms, of cl_batches]
    arg_cong [OF assms, of cl_monitor] arg_cong [OF assms, of cl_metadata_subscriptions] arg_cong [OF assms, of cl_commands] arg_cong [OF assms, of cl_bots]
    arg_cong [OF assms, of cl_timers]
    arg_cong [OF assms, of cl_labels] arg_cong [OF assms, of cl_backoff] arg_cong [OF assms, of cl_monotonic_ms]
    arg_cong [OF assms, of cl_discarding] arg_cong [OF assms, of cl_dropped_lines] arg_cong [OF assms, of cl_sasl]
    arg_cong [OF assms, of cl_scram] arg_cong [OF assms, of cl_nick_attempt] arg_cong [OF assms, of cl_partial]
  by (simp_all add: engine_def)

lemma engine_send_line [simp]: "engine (send_line m c) = engine c"
  by (simp add: engine_def send_line_def)

lemma engine_push_event [simp]: "engine (push_event ev c) = engine c"
  by (simp add: engine_def push_event_def)

lemma engine_updates [simp]:
  "engine (c\<lparr>cl_model := m\<rparr>) = engine c" "engine (c\<lparr>cl_latest_ms := t\<rparr>) = engine c"
  "engine (c\<lparr>cl_channel_keys := k\<rparr>) = engine c" "engine (c\<lparr>cl_rooms := vr\<rparr>) = engine c"
  "engine (c\<lparr>cl_outbox := b\<rparr>) = engine c"
  "engine (c\<lparr>cl_events := v\<rparr>) = engine c"
  by (simp_all add: engine_def)

lemma engine_request_who [simp]: "engine (request_who name c) = engine c"
  by (simp add: request_who_def)

lemma engine_follow_change [simp]: "engine (follow_change ch c) = engine c"
  by (simp add: follow_change_def Let_def split: change.splits option.splits)

lemma engine_client_fold [simp]: "engine (client_fold e m historical c) = engine c"
  by (simp add: client_fold_def Let_def fold_push_event fold_field [where field = engine] split: prod.split)

lemmas client_fold_fields [simp] = engine_fields [OF engine_client_fold]

lemma follow_change_model [simp]: "cl_model (follow_change ch c) = cl_model c"
  by (simp add: follow_change_def request_who_def Let_def split: change.splits option.splits)

lemma client_fold_model:
  "cl_model (client_fold e m historical c) = ctx_model (snd (session_apply e (client_ctx c historical) m))"
  by (simp add: client_fold_def Let_def fold_push_event fold_field [where field = cl_model] split: prod.split)

section \<open>Lines of the extensions\<close>

text \<open>Voice signalling, bots, tokens and the list of commands reach nothing else of the connection.\<close>

definition aside :: "client \<Rightarrow> client" where
  "aside c = c\<lparr>cl_rooms := [], cl_commands := [], cl_bots := [], cl_dropped_lines := 0, cl_events := []\<rparr>"

lemma aside_fields:
  assumes "aside c = aside c'"
  shows "cl_config c = cl_config c'" "cl_phase c = cl_phase c'" "cl_caps c = cl_caps c'" "cl_nick c = cl_nick c'"
    "cl_isupport c = cl_isupport c'" "cl_model c = cl_model c'" "cl_batches c = cl_batches c'" "cl_monitor c = cl_monitor c'"
    "cl_channel_keys c = cl_channel_keys c'" "cl_metadata_subscriptions c = cl_metadata_subscriptions c'"
    "cl_timers c = cl_timers c'" "cl_labels c = cl_labels c'" "cl_backoff c = cl_backoff c'"
    "cl_monotonic_ms c = cl_monotonic_ms c'" "cl_latest_ms c = cl_latest_ms c'" "cl_discarding c = cl_discarding c'"
    "cl_sasl c = cl_sasl c'" "cl_scram c = cl_scram c'" "cl_nick_attempt c = cl_nick_attempt c'"
    "cl_partial c = cl_partial c'" "cl_outbox c = cl_outbox c'"
  using arg_cong [OF assms, of cl_config] arg_cong [OF assms, of cl_phase] arg_cong [OF assms, of cl_caps]
    arg_cong [OF assms, of cl_nick] arg_cong [OF assms, of cl_isupport] arg_cong [OF assms, of cl_model]
    arg_cong [OF assms, of cl_batches] arg_cong [OF assms, of cl_monitor] arg_cong [OF assms, of cl_channel_keys]
    arg_cong [OF assms, of cl_metadata_subscriptions] arg_cong [OF assms, of cl_timers] arg_cong [OF assms, of cl_labels]
    arg_cong [OF assms, of cl_backoff] arg_cong [OF assms, of cl_monotonic_ms] arg_cong [OF assms, of cl_latest_ms]
    arg_cong [OF assms, of cl_discarding] arg_cong [OF assms, of cl_sasl] arg_cong [OF assms, of cl_scram]
    arg_cong [OF assms, of cl_nick_attempt] arg_cong [OF assms, of cl_partial] arg_cong [OF assms, of cl_outbox]
  by (simp_all add: aside_def)

lemma aside_updates [simp]:
  "aside (push_event ev c) = aside c" "aside (drop_line c) = aside c" "aside (c\<lparr>cl_rooms := vr\<rparr>) = aside c"
  "aside (c\<lparr>cl_commands := cs\<rparr>) = aside c" "aside (c\<lparr>cl_bots := bts\<rparr>) = aside c"
  by (simp_all add: aside_def push_event_def drop_line_def)

lemma aside_handlers:
  "aside (snd (handle_rtc m c)) = aside c" "aside (snd (handle_bot_tags e m c)) = aside c"
  "aside (snd (handle_token m c)) = aside c" "aside (handle_cmdslist m c) = aside c"
  by (simp_all add: handle_rtc_def handle_bot_tags_def bot_announced_def bot_commands_listed_def handle_token_def
      handle_cmdslist_def Let_def case_prod_unfold split: option.split)

lemmas rtc_fields [simp] = aside_fields [OF aside_handlers(1)]
lemmas bot_tags_fields [simp] = aside_fields [OF aside_handlers(2)]
lemmas token_fields [simp] = aside_fields [OF aside_handlers(3)]
lemmas cmdslist_fields [simp] = aside_fields [OF aside_handlers(4)]

section \<open>A line, by who takes it\<close>

text \<open>What any line does first: the link is alive, and a label it carries is settled.\<close>

definition received :: "message \<Rightarrow> client \<Rightarrow> client" where
  "received m c = (arm_keepalive c)\<lparr>cl_labels := snd (labels_resolve m (cl_labels (arm_keepalive c)))\<rparr>"

lemma handle_message_cases:
  assumes "P (received m c)" "\<And>t. P (send_line (message_new ''PONG'' [t]) (received m c))"
    "P (handle_cap m (received m c))" "P (handle_welcome m (received m c))" "P (handle_isupport m (received m c))"
    "msg_is m ''TAGMSG'' \<Longrightarrow> P (snd (handle_typing m (received m c)))" "msg_is m ''TAGMSG'' \<Longrightarrow> P (snd (handle_rtc m (received m c)))"
    "msg_is m ''TAGMSG'' \<Longrightarrow> P (snd (handle_bot_tags e m (received m c)))" "P (snd (handle_token m (received m c)))"
    "P (handle_cmdslist m (received m c))" "P (handle_monitor m (received m c))"
    "\<And>severity. P (snd (handle_standard_reply severity m (received m c)))" "P (handle_rest e m (received m c))"
  shows "P (handle_message e m c)"
  unfolding handle_message_def Let_def received_def [symmetric] by (simp add: assms split: option.split)

section \<open>Nobody looks at the buffer\<close>

definition rebuffer :: "string \<Rightarrow> client \<Rightarrow> client" where
  "rebuffer p c = c\<lparr>cl_partial := p\<rparr>"

lemma rebuffer_fields [simp]:
  "cl_partial (rebuffer p c) = p" "rebuffer p (rebuffer q c) = rebuffer p c"
  "cl_config (rebuffer p c) = cl_config c" "cl_phase (rebuffer p c) = cl_phase c"
  "cl_caps (rebuffer p c) = cl_caps c" "cl_nick (rebuffer p c) = cl_nick c"
  "cl_isupport (rebuffer p c) = cl_isupport c" "cl_model (rebuffer p c) = cl_model c"
  "cl_batches (rebuffer p c) = cl_batches c" "cl_monitor (rebuffer p c) = cl_monitor c"
  "cl_channel_keys (rebuffer p c) = cl_channel_keys c"
  "cl_metadata_subscriptions (rebuffer p c) = cl_metadata_subscriptions c" "cl_rooms (rebuffer p c) = cl_rooms c"
  "cl_commands (rebuffer p c) = cl_commands c" "cl_bots (rebuffer p c) = cl_bots c" "cl_timers (rebuffer p c) = cl_timers c"
  "cl_labels (rebuffer p c) = cl_labels c" "cl_backoff (rebuffer p c) = cl_backoff c"
  "cl_monotonic_ms (rebuffer p c) = cl_monotonic_ms c" "cl_latest_ms (rebuffer p c) = cl_latest_ms c"
  "cl_discarding (rebuffer p c) = cl_discarding c" "cl_dropped_lines (rebuffer p c) = cl_dropped_lines c"
  "cl_sasl (rebuffer p c) = cl_sasl c" "cl_scram (rebuffer p c) = cl_scram c"
  "cl_nick_attempt (rebuffer p c) = cl_nick_attempt c" "cl_outbox (rebuffer p c) = cl_outbox c"
  "cl_events (rebuffer p c) = cl_events c"
  by (simp_all add: rebuffer_def)

lemma rebuffer_same [simp]: "rebuffer (cl_partial c) c = c"
  by (simp add: rebuffer_def)

named_theorems blind

lemma rebuffer_updates [blind]:
  "cl_config_update u_config (rebuffer p c) = rebuffer p (cl_config_update u_config c)"
  "cl_phase_update u_phase (rebuffer p c) = rebuffer p (cl_phase_update u_phase c)"
  "cl_caps_update u_caps (rebuffer p c) = rebuffer p (cl_caps_update u_caps c)"
  "cl_nick_update u_nick (rebuffer p c) = rebuffer p (cl_nick_update u_nick c)"
  "cl_isupport_update u_isupport (rebuffer p c) = rebuffer p (cl_isupport_update u_isupport c)"
  "cl_model_update u_model (rebuffer p c) = rebuffer p (cl_model_update u_model c)"
  "cl_batches_update u_batches (rebuffer p c) = rebuffer p (cl_batches_update u_batches c)"
  "cl_monitor_update u_monitor (rebuffer p c) = rebuffer p (cl_monitor_update u_monitor c)"
  "cl_channel_keys_update u_channel_keys (rebuffer p c) = rebuffer p (cl_channel_keys_update u_channel_keys c)"
  "cl_metadata_subscriptions_update u_metadata_subscriptions (rebuffer p c) = rebuffer p (cl_metadata_subscriptions_update u_metadata_subscriptions c)"
  "cl_rooms_update u_rooms (rebuffer p c) = rebuffer p (cl_rooms_update u_rooms c)"
  "cl_commands_update u_commands (rebuffer p c) = rebuffer p (cl_commands_update u_commands c)"
  "cl_bots_update u_bots (rebuffer p c) = rebuffer p (cl_bots_update u_bots c)"
  "cl_timers_update u_timers (rebuffer p c) = rebuffer p (cl_timers_update u_timers c)"
  "cl_labels_update u_labels (rebuffer p c) = rebuffer p (cl_labels_update u_labels c)"
  "cl_backoff_update u_backoff (rebuffer p c) = rebuffer p (cl_backoff_update u_backoff c)"
  "cl_monotonic_ms_update u_monotonic_ms (rebuffer p c) = rebuffer p (cl_monotonic_ms_update u_monotonic_ms c)"
  "cl_latest_ms_update u_latest_ms (rebuffer p c) = rebuffer p (cl_latest_ms_update u_latest_ms c)"
  "cl_discarding_update u_discarding (rebuffer p c) = rebuffer p (cl_discarding_update u_discarding c)"
  "cl_dropped_lines_update u_dropped_lines (rebuffer p c) = rebuffer p (cl_dropped_lines_update u_dropped_lines c)"
  "cl_sasl_update u_sasl (rebuffer p c) = rebuffer p (cl_sasl_update u_sasl c)"
  "cl_scram_update u_scram (rebuffer p c) = rebuffer p (cl_scram_update u_scram c)"
  "cl_nick_attempt_update u_nick_attempt (rebuffer p c) = rebuffer p (cl_nick_attempt_update u_nick_attempt c)"
  "cl_outbox_update u_outbox (rebuffer p c) = rebuffer p (cl_outbox_update u_outbox c)"
  "cl_events_update u_events (rebuffer p c) = rebuffer p (cl_events_update u_events c)"
  by (simp_all add: rebuffer_def)

lemma rebuffer_if [blind]: "(if b then rebuffer p c else rebuffer p c') = rebuffer p (if b then c else c')"
  by simp

lemma rebuffer_option [blind]:
  "(case x of None \<Rightarrow> rebuffer p c | Some y \<Rightarrow> rebuffer p (f y)) = rebuffer p (case x of None \<Rightarrow> c | Some y \<Rightarrow> f y)"
  by (simp split: option.split)

lemma fold_blind:
  "(\<And>x c. f x (rebuffer p c) = rebuffer p (f x c)) \<Longrightarrow> fold f xs (rebuffer p c) = rebuffer p (fold f xs c)"
  by (induction xs arbitrary: c) simp_all

lemma blind_queues [blind]:
  "send_line m (rebuffer p c) = rebuffer p (send_line m c)"
  "push_event ev (rebuffer p c) = rebuffer p (push_event ev c)"
  "drop_line (rebuffer p c) = rebuffer p (drop_line c)"
  by (simp_all add: send_line_def push_event_def drop_line_def blind)

lemma blind_basic [blind]:
  "arm_keepalive (rebuffer p c) = rebuffer p (arm_keepalive c)"
  "client_ctx (rebuffer p c) historical = client_ctx c historical"
  "monitor_limit (rebuffer p c) = monitor_limit c"
  "handle_nick_refused m (rebuffer p c) = rebuffer p (handle_nick_refused m c)"
  "isupport_token token (rebuffer p c) = rebuffer p (isupport_token token c)"
  "monitor_target online target (rebuffer p c) = rebuffer p (monitor_target online target c)"
  by (simp_all add: arm_keepalive_def client_ctx_def monitor_limit_def
      handle_nick_refused_def isupport_token_def monitor_target_def Let_def blind cong: option.case_cong split: prod.split)

lemma blind_request_who [blind]: "request_who name (rebuffer p c) = rebuffer p (request_who name c)"
  by (simp add: request_who_def blind cong: option.case_cong)

lemma blind_follow_change [blind]: "follow_change ch (rebuffer p c) = rebuffer p (follow_change ch c)"
  by (simp add: follow_change_def Let_def blind cong: option.case_cong split: change.splits)

lemma blind_client_fold [blind]: "client_fold e m historical (rebuffer p c) = rebuffer p (client_fold e m historical c)"
  by (simp add: client_fold_def Let_def blind fold_blind cong: option.case_cong split: prod.split)

lemma blind_rejoin [blind]: "rejoin entry (rebuffer p c) = rebuffer p (rejoin entry c)"
  by (simp add: rejoin_def Let_def blind cong: option.case_cong split: prod.split option.split)

lemma blind_resume [blind]: "resume (rebuffer p c) = rebuffer p (resume c)"
  by (simp add: resume_def Let_def blind fold_blind cong: option.case_cong)

lemma blind_start_sasl [blind]:
  "start_sasl_if_wanted (rebuffer p c) = map_prod (\<lambda>b. b) (rebuffer p) (start_sasl_if_wanted c)"
  by (simp add: start_sasl_if_wanted_def blind cong: option.case_cong split: option.split)

lemma blind_finish_negotiation [blind]:
  "finish_negotiation_if_settled (rebuffer p c) = rebuffer p (finish_negotiation_if_settled c)"
  by (cases "start_sasl_if_wanted c") (simp add: finish_negotiation_if_settled_def blind)

lemma blind_request_wanted [blind]: "request_wanted (rebuffer p c) = rebuffer p (request_wanted c)"
  by (simp add: request_wanted_def Let_def blind fold_blind cong: option.case_cong)

lemma blind_handle_cap [blind]: "handle_cap m (rebuffer p c) = rebuffer p (handle_cap m c)"
  by (simp add: handle_cap_def Let_def blind cong: option.case_cong split: option.split prod.split)

lemma blind_finish_sasl [blind]: "finish_sasl failure (rebuffer p c) = rebuffer p (finish_sasl failure c)"
  by (simp add: finish_sasl_def Let_def blind cong: option.case_cong split: option.split)

lemma blind_send_sasl [blind]: "send_sasl e payload (rebuffer p c) = rebuffer p (send_sasl e payload c)"
  by (simp add: send_sasl_def fold_blind blind cong: option.case_cong)

lemma blind_sasl_steps [blind]:
  "begin_sasl_response e (rebuffer p c) = rebuffer p (begin_sasl_response e c)"
  "answer_scram_challenge e challenge (rebuffer p c) = rebuffer p (answer_scram_challenge e challenge c)"
  "verify_scram_server e challenge (rebuffer p c) = rebuffer p (verify_scram_server e challenge c)"
  by (simp_all add: begin_sasl_response_def answer_scram_challenge_def verify_scram_server_def Let_def blind cong: option.case_cong split: option.split credentials.split sum.split prod.split)

lemma blind_handle_authenticate [blind]: "handle_authenticate e m (rebuffer p c) = rebuffer p (handle_authenticate e m c)"
  by (simp add: handle_authenticate_def blind cong: option.case_cong split: option.split sasl_state.split)

lemma blind_handle_typing [blind]:
  "handle_typing m (rebuffer p c) = map_prod (\<lambda>b. b) (rebuffer p) (handle_typing m c)"
  by (simp add: handle_typing_def Let_def blind cong: option.case_cong split: option.split prod.split)

lemma blind_handle_rtc [blind]: "handle_rtc m (rebuffer p c) = map_prod (\<lambda>b. b) (rebuffer p) (handle_rtc m c)"
  by (simp add: handle_rtc_def Let_def blind cong: option.case_cong split: option.split)

lemma blind_bot_lines [blind]:
  "bot_announced e payload (rebuffer p c) = rebuffer p (bot_announced e payload c)"
  "bot_commands_listed e payload m (rebuffer p c) = rebuffer p (bot_commands_listed e payload m c)"
  by (simp_all add: bot_announced_def bot_commands_listed_def Let_def blind cong: option.case_cong split: option.split prod.split)

lemma blind_obby_lines [blind]:
  "handle_bot_tags e m (rebuffer p c) = map_prod (\<lambda>b. b) (rebuffer p) (handle_bot_tags e m c)"
  "handle_token m (rebuffer p c) = map_prod (\<lambda>b. b) (rebuffer p) (handle_token m c)"
  "handle_cmdslist m (rebuffer p c) = rebuffer p (handle_cmdslist m c)"
  by (simp_all add: handle_bot_tags_def handle_token_def handle_cmdslist_def blind cong: option.case_cong split: option.split)

lemma blind_handle_standard_reply [blind]:
  "handle_standard_reply severity m (rebuffer p c) = map_prod (\<lambda>b. b) (rebuffer p) (handle_standard_reply severity m c)"
  by (simp add: handle_standard_reply_def Let_def blind cong: option.case_cong split: option.split)

lemma blind_lists [blind]:
  "handle_monitor m (rebuffer p c) = rebuffer p (handle_monitor m c)"
  "handle_isupport m (rebuffer p c) = rebuffer p (handle_isupport m c)"
  "drain_batch e closed (rebuffer p c) = rebuffer p (drain_batch e closed c)"
  by (simp_all add: handle_monitor_def handle_isupport_def drain_batch_def Let_def blind fold_blind cong: option.case_cong split: option.split)

lemma blind_handle_batch [blind]: "handle_batch e m (rebuffer p c) = rebuffer p (handle_batch e m c)"
  by (simp add: handle_batch_def Let_def blind cong: option.case_cong split: option.split prod.split)

lemma blind_handle_welcome [blind]: "handle_welcome m (rebuffer p c) = rebuffer p (handle_welcome m c)"
  by (simp add: handle_welcome_def Let_def blind cong: option.case_cong split: option.split)

lemma blind_handle_rest [blind]: "handle_rest e m (rebuffer p c) = rebuffer p (handle_rest e m c)"
  by (simp add: handle_rest_def Let_def blind cong: option.case_cong split: option.split prod.split)

lemma blind_handle_message [blind]: "handle_message e m (rebuffer p c) = rebuffer p (handle_message e m c)"
  unfolding handle_message_def Let_def by (simp only: blind fst_map_prod snd_map_prod rebuffer_fields cong: if_cong option.case_cong)

lemma blind_handle_line [blind]: "handle_line e line (rebuffer p c) = rebuffer p (handle_line e line c)"
  by (simp add: handle_line_def blind cong: option.case_cong split: sum.split)

lemma blind_bytes_loop [simp]: "bytes_loop e s (rebuffer p c) = bytes_loop e s c"
proof (induction e s c rule: bytes_loop.induct)
  case (1 e s c)
  show ?case
  proof (cases "split_once nl s")
    case None
    then show ?thesis
      by (simp add: bytes_loop.simps [of e s] drop_line_def rebuffer_def)
  next
    case (Some cut)
    then show ?thesis
      using 1 by (cases cut) (simp add: bytes_loop.simps [of e s] blind)
  qed
qed

end
