(* ===== verification/Voice_Props.thy ===== *)
theory Voice_Props
  imports Voice
begin

text \<open>
  What voice signalling promises: every frame reads back from the JSON it is written as; a session
  description cut into chunks comes back whole in whatever order they arrive, within bounded memory;
  and what a frame does to a room.
\<close>

section \<open>Frames\<close>

definition track_ok :: "track_hint \<Rightarrow> bool" where
  "track_ok t \<longleftrightarrow> valid_utf8 (th_mid t) \<and> valid_utf8 (th_member t)"

definition turn_ok :: "turn_credentials \<Rightarrow> bool" where
  "turn_ok t \<longleftrightarrow> (\<forall>u\<in>set (turn_urls t). valid_utf8 u) \<and> valid_utf8 (turn_username t) \<and> valid_utf8 (turn_password t)"

definition chunk_ok :: "chunk_meta \<Rightarrow> bool" where
  "chunk_ok c \<longleftrightarrow> valid_utf8 (ck_id c) \<and> ck_seq c \<le> u32_max \<and> ck_total c \<le> u32_max"

text \<open>What the types of the source allow: strings that are text, and numbers that are \<open>u32\<close>s.\<close>

definition signal_ok :: "signal \<Rightarrow> bool" where
  "signal_ok s =
     (case s of
        SigJoin channel \<Rightarrow> valid_utf8 channel
      | SigLeave channel \<Rightarrow> valid_utf8 channel
      | SigJoined members mode role streamers turn tracks \<Rightarrow>
          (\<forall>m\<in>set members. valid_utf8 m) \<and> (\<forall>l\<in>set_option streamers. \<forall>m\<in>set l. valid_utf8 m)
          \<and> pred_option turn_ok turn \<and> (\<forall>l\<in>set_option tracks. \<forall>t\<in>set l. track_ok t)
      | SigOffer sdp tracks chunk \<Rightarrow>
          valid_utf8 sdp \<and> (\<forall>l\<in>set_option tracks. \<forall>t\<in>set l. track_ok t) \<and> pred_option chunk_ok chunk
      | SigAnswer sdp chunk \<Rightarrow> valid_utf8 sdp \<and> pred_option chunk_ok chunk
      | SigIce cand mid mlineidx \<Rightarrow> valid_utf8 cand \<and> pred_option valid_utf8 mid \<and> pred_option (\<lambda>n. n \<le> u32_max) mlineidx
      | SigPresence member state kind role \<Rightarrow> valid_utf8 member
      | SigReact member emoji \<Rightarrow> pred_option valid_utf8 member \<and> valid_utf8 emoji
      | SigPromote target \<Rightarrow> valid_utf8 target
      | SigDemote target \<Rightarrow> valid_utf8 target
      | SigRole member role \<Rightarrow> valid_utf8 member
      | SigError err \<Rightarrow> pred_option valid_utf8 err
      | _ \<Rightarrow> True)"

named_theorems voice_codec \<open>reading what was written\<close>

lemma on_off_codec [voice_codec]: "on_off_parse (on_off_wire s) = Some s"
  by (cases s) (simp_all add: on_off_parse_def on_off_wire_def)

lemma role_codec [voice_codec]: "role_parse (role_wire r) = Some r"
  by (cases r) (simp_all add: role_parse_def role_wire_def)

lemma kind_codec [voice_codec]: "kind_parse (kind_wire k) = Some k"
  by (cases k) (simp_all add: kind_parse_def kind_wire_def)

lemma toggle_codec [voice_codec]: "toggle_parse (toggle_wire k) = Some k"
  by (cases k) (simp_all add: toggle_parse_def toggle_wire_def)

lemma presence_codec [voice_codec]: "presence_parse (presence_wire s) = Some s"
  by (cases s) (simp_all add: presence_parse_def presence_wire_def)

lemma collect_opt_map: "(\<And>x. x \<in> set xs \<Longrightarrow> f (g x) = Some x) \<Longrightarrow> collect_opt f (map g xs) = Some xs"
  by (induction xs) auto

lemma strings_codec [voice_codec]: "json_strings (strings_json items) = Some items"
  by (simp add: json_strings_def strings_json_def as_array_def collect_opt_map as_str_def)

lemma track_codec [voice_codec]: "track_from_json (track_to_json t) = Some t"
  by (simp add: track_from_json_def track_to_json_def field_string_def json_field_def as_str_def)

lemma tracks_codec [voice_codec]: "decode_tracks (tracks_json ts) = Some ts"
  by (simp add: decode_tracks_def tracks_json_def as_array_def collect_opt_map track_codec)

lemma turn_codec [voice_codec]: "turn_from_json (turn_to_json t) = Some t"
  using strings_codec [of "turn_urls t"]
  by (simp add: turn_from_json_def turn_to_json_def field_string_def json_field_def as_str_def strings_json_def)

lemma as_u32_codec [voice_codec]: "n \<le> u32_max \<Longrightarrow> as_u32 (JNum (int n)) = Some n"
  by (simp add: as_u32_def)

lemmas read_fields = field_string_def field_u32_def json_field_def as_str_def opt_field_def

lemma from_value_to_value: "signal_ok s \<Longrightarrow> signal_from_value (to_json_value s) = Some s"
proof (cases s)
  case (SigJoined members mode role streamers turn tracks)
  then show ?thesis
    by (cases mode; cases role; cases streamers; cases turn; cases tracks)
      (simp_all add: to_json_value_def wire_fields_simps signal_from_value_def read_fields decode_joined_def voice_codec)
next
  case (SigOffer sdp tracks chunk)
  then show "signal_ok s \<Longrightarrow> ?thesis"
    by (cases tracks; cases chunk)
      (simp_all add: to_json_value_def wire_fields_simps signal_from_value_def read_fields decode_offer_def voice_codec
        chunk_fields_def chunk_meta_fields_def decode_chunk_def signal_ok_def chunk_ok_def)
next
  case (SigAnswer sdp chunk)
  then show "signal_ok s \<Longrightarrow> ?thesis"
    by (cases chunk)
      (simp_all add: to_json_value_def wire_fields_simps signal_from_value_def read_fields decode_answer_def voice_codec
        chunk_fields_def chunk_meta_fields_def decode_chunk_def signal_ok_def chunk_ok_def)
next
  case (SigIce cand mid mlineidx)
  then show "signal_ok s \<Longrightarrow> ?thesis"
    by (cases mid; cases mlineidx)
      (simp_all add: to_json_value_def wire_fields_simps signal_from_value_def read_fields decode_ice_def voice_codec signal_ok_def)
next
  case (SigPresence member state kind role)
  then show ?thesis
    by (cases kind; cases role)
      (simp_all add: to_json_value_def wire_fields_simps signal_from_value_def read_fields decode_presence_def voice_codec)
next
  case (SigReact member emoji)
  then show ?thesis
    by (cases member) (simp_all add: to_json_value_def wire_fields_simps signal_from_value_def read_fields decode_react_def)
next
  case (SigError err)
  then show ?thesis
    by (cases err) (simp_all add: to_json_value_def wire_fields_simps signal_from_value_def read_fields)
qed (simp_all add: to_json_value_def wire_fields_simps signal_from_value_def read_fields decode_on_off_def decode_role_def voice_codec)

lemma wire_ascii [voice_codec]:
  "valid_utf8 (on_off_wire st)" "valid_utf8 (role_wire r)" "valid_utf8 (kind_wire k)" "valid_utf8 (toggle_wire t)"
  "valid_utf8 (presence_wire p)"
  by (rule ascii_valid; cases st; cases r; cases k; cases t; cases p;
      simp add: on_off_wire_def role_wire_def kind_wire_def toggle_wire_def presence_wire_def is_ascii_def)+

lemma strings_ok [voice_codec]: "json_ok (strings_json items) \<longleftrightarrow> (\<forall>s\<in>set items. valid_utf8 s)"
  by (simp add: strings_json_def)

lemma track_json_ok [voice_codec]: "json_ok (track_to_json t) \<longleftrightarrow> track_ok t"
  by (auto simp: track_to_json_def track_ok_def ascii_valid is_ascii_def simp del: valid_utf8.simps)

lemma tracks_json_ok [voice_codec]: "json_ok (tracks_json ts) \<longleftrightarrow> (\<forall>t\<in>set ts. track_ok t)"
  by (simp add: tracks_json_def track_json_ok)

lemma turn_json_ok [voice_codec]: "json_ok (turn_to_json t) \<longleftrightarrow> turn_ok t"
  by (auto simp: turn_to_json_def turn_ok_def strings_ok ascii_valid is_ascii_def simp del: valid_utf8.simps)

lemma num_ok [voice_codec]: "n \<le> u32_max \<Longrightarrow> json_ok (JNum (int n))"
  by (simp add: in_i64_def u32_max_def)

definition fields_ok :: "(string \<times> json) list \<Rightarrow> bool" where
  "fields_ok fs \<longleftrightarrow> (\<forall>(key, v)\<in>set fs. valid_utf8 key \<and> json_ok v)"

lemma fields_ok_simps:
  "fields_ok []" "fields_ok ((key, v) # fs) \<longleftrightarrow> valid_utf8 key \<and> json_ok v \<and> fields_ok fs"
  "fields_ok (fs @ gs) \<longleftrightarrow> fields_ok fs \<and> fields_ok gs"
  "fields_ok (opt_field key w) \<longleftrightarrow> (\<forall>v\<in>set_option w. valid_utf8 key \<and> json_ok v)"
  by (auto simp: fields_ok_def opt_field_def split: option.splits)

lemma chunk_fields_ok: "pred_option chunk_ok c \<Longrightarrow> fields_ok (chunk_fields c)"
  by (cases c) (simp_all add: chunk_fields_def chunk_meta_fields_def fields_ok_simps chunk_ok_def num_ok ascii_valid
      is_ascii_def del: valid_utf8.simps json_ok.simps(1))

lemma wire_fields_ok: "signal_ok s \<Longrightarrow> valid_utf8 (fst (wire_fields s)) \<and> fields_ok (snd (wire_fields s))"
  by (cases s) (simp_all add: wire_fields_simps signal_ok_def fields_ok_simps option.pred_set option.set_map chunk_fields_ok
      voice_codec ascii_valid is_ascii_def del: valid_utf8.simps json_ok.simps(1))

lemma to_value_ok: "signal_ok s \<Longrightarrow> json_ok (to_json_value s)"
  using wire_fields_ok [of s]
  by (auto simp: to_json_value_def fields_ok_def ascii_valid is_ascii_def simp del: valid_utf8.simps split: prod.split)

text \<open>C30: every voice signal reads back from the JSON text it is written as, whatever its optional fields and
  whatever text they hold.\<close>

theorem signal_round_trip: "signal_ok s \<Longrightarrow> signal_from_json (signal_to_json s) = Some s"
  by (simp add: signal_from_json_def signal_to_json_def json_parse_write to_value_ok from_value_to_value)

theorem signal_round_trip_witness:
  "signal_from_json (signal_to_json (SigPresence ''amy'' PresOn (Some ToggleMic) None))
     = Some (SigPresence ''amy'' PresOn (Some ToggleMic) None)"
  by (rule signal_round_trip) (simp add: signal_ok_def ascii_valid is_ascii_def del: valid_utf8.simps)

section \<open>Rooms\<close>

text \<open>Participants stand in order, each under the folding of the nick their record spells.\<close>

definition room_ok :: "casemapping \<Rightarrow> voice_room \<Rightarrow> bool" where
  "room_ok casemap room \<longleftrightarrow>
     bt_wf (vr_participants room) \<and> bt_all (\<lambda>k p. k = case_fold casemap (pa_nick p)) (vr_participants room)"

text \<open>What stays true of a room whatever the server's casemapping becomes.\<close>

definition room_wf :: "voice_room \<Rightarrow> bool" where
  "room_wf room \<longleftrightarrow> bt_wf (vr_participants room)"

lemma room_wf_new [simp]: "room_wf (room_new channel)"
  by (simp add: room_wf_def room_new_def)

lemma room_wf_steps:
  "room_wf room \<Longrightarrow> room_wf (set_role member role casemap room)"
  "room_wf room \<Longrightarrow> room_wf (set_flag member casemap f room)"
  "room_wf room \<Longrightarrow> room_wf (room\<lparr>vr_turn := turn\<rparr>)"
  "room_wf room \<Longrightarrow> room_wf (room\<lparr>vr_participants := bt_remove k (vr_participants room)\<rparr>)"
  by (simp_all add: room_wf_def set_role_def set_flag_def)

lemma room_wf_apply [simp]: "room_wf room \<Longrightarrow> room_wf (room_apply me s casemap room)"
  by (auto simp: room_apply_def apply_joined_def apply_presence_def room_joined_member_def Let_def
      intro!: fold_keeps [where P = room_wf] room_wf_steps split: signal.split presence_state.split option.split)

text \<open>Who is in a room, and what a frame says about that: the specification of \<open>room_apply\<close>.\<close>

definition roster :: "voice_room \<Rightarrow> case_folded set" where
  "roster room = fst ` set (vr_participants room)"

definition roster_step :: "casemapping \<Rightarrow> signal \<Rightarrow> case_folded set \<Rightarrow> case_folded set" where
  "roster_step casemap s members =
     (case s of
        SigJoined listed mode role streamers turn tracks \<Rightarrow> members \<union> case_fold casemap ` set listed
      | SigPresence member PresJoined kind role \<Rightarrow> insert (case_fold casemap member) members
      | SigPresence member PresLeft kind role \<Rightarrow> members - {case_fold casemap member}
      | SigRole member role \<Rightarrow> insert (case_fold casemap member) members
      | _ \<Rightarrow> members)"

named_theorems room_simps \<open>what the room's operations do to who is in it\<close>

lemma room_new_ok [simp, room_simps]: "room_ok casemap (room_new channel)" "roster (room_new channel) = {}"
  by (simp_all add: room_ok_def room_new_def roster_def)

lemma set_role_ok [simp, room_simps]: "room_ok casemap room \<Longrightarrow> room_ok casemap (set_role member role casemap room)"
  by (auto simp: room_ok_def set_role_def participant_new_def intro!: bt_all_entry)

lemma roster_set_role [simp, room_simps]:
  "roster (set_role member role casemap room) = insert (case_fold casemap member) (roster room)"
  by (simp add: roster_def set_role_def bt_entry_def)

lemma set_flag_ok [room_simps]:
  "(\<And>p. pa_nick (f p) = pa_nick p) \<Longrightarrow> room_ok casemap room \<Longrightarrow> room_ok casemap (set_flag member casemap f room)"
  by (auto simp: room_ok_def set_flag_def intro!: bt_all_modify)

lemma roster_set_flag [simp, room_simps]: "roster (set_flag member casemap f room) = roster room"
  by (simp add: roster_def set_flag_def flip: set_map)

lemma toggle_keeps_nick [simp, room_simps]: "pa_nick (toggle_apply k st p) = pa_nick p"
  by (simp add: toggle_apply_def split: toggle_kind.split)

lemma kind_set_role [simp, room_simps]: "vr_kind (set_role member role casemap room) = vr_kind room"
  by (simp add: set_role_def)

lemma apply_joined_ok:
  "room_ok casemap room \<Longrightarrow> room_ok casemap (apply_joined me members role streamers turn casemap room)"
  unfolding apply_joined_def
  by (rule fold_keeps [where P = "room_ok casemap"]) (simp_all add: room_joined_member_def Let_def, simp add: room_ok_def)

lemma roster_fold_joined:
  "roster (fold (room_joined_member me role streamers casemap) members room)
     = roster room \<union> case_fold casemap ` set members"
  by (induction members arbitrary: room) (auto simp: room_joined_member_def Let_def)

lemma roster_apply_joined:
  "roster (apply_joined me members role streamers turn casemap room) = roster room \<union> case_fold casemap ` set members"
  by (simp add: apply_joined_def roster_fold_joined) (simp add: roster_def)

lemma apply_presence_ok: "room_ok casemap room \<Longrightarrow> room_ok casemap (apply_presence member st kind role casemap room)"
  by (cases st) (auto simp: apply_presence_def set_flag_ok split: option.split,
      auto simp: room_ok_def intro: bt_all_remove)

lemma roster_apply_presence:
  "roster (apply_presence member st kind role casemap room) = roster_step casemap (SigPresence member st kind role) (roster room)"
  by (cases st) (auto simp: apply_presence_def roster_step_def split: option.split,
      auto simp: roster_def fst_set_bt_remove)

lemma room_apply_refines:
  assumes "room_ok casemap room"
  shows "room_ok casemap (room_apply me s casemap room) \<and> roster (room_apply me s casemap room) = roster_step casemap s (roster room)"
  using assms
  by (cases s) (simp_all add: room_apply_def apply_joined_ok roster_apply_joined apply_presence_ok roster_apply_presence,
      simp_all add: roster_step_def)

text \<open>C31: after any frames, a room holds one participant for each folded nick the frames have brought in and not
  taken out again, in order and each under the folding of their own nick: \<open>room_apply\<close> refines the
  set of members the frames describe.\<close>

theorem room_refines_roster:
  "room_ok casemap (fold (\<lambda>s. room_apply me s casemap) frames (room_new channel))
   \<and> roster (fold (\<lambda>s. room_apply me s casemap) frames (room_new channel)) = fold (roster_step casemap) frames {}"
proof -
  have "room_ok casemap room \<Longrightarrow>
      room_ok casemap (fold (\<lambda>s. room_apply me s casemap) frames room)
      \<and> roster (fold (\<lambda>s. room_apply me s casemap) frames room) = fold (roster_step casemap) frames (roster room)" for room
    by (induction frames arbitrary: room) (simp_all add: room_apply_refines)
  from this [of "room_new channel"] show ?thesis by simp
qed

subsection \<open>Roles\<close>

definition role_in :: "casemapping \<Rightarrow> voice_room \<Rightarrow> string \<Rightarrow> voice_role option" where
  "role_in casemap room member = map_option pa_role (map_of (vr_participants room) (case_fold casemap member))"

lemma role_in_set_role:
  "role_in casemap (set_role m role casemap room) member = (if case_eq casemap m member then Some role else role_in casemap room member)"
  by (auto simp: role_in_def set_role_def case_eq_iff_fold)

text \<open>The role the list of members gives: our own when the server names it, otherwise the room's.\<close>

definition listed_role :: "room_kind \<Rightarrow> string \<Rightarrow> voice_role option \<Rightarrow> string list option \<Rightarrow> casemapping \<Rightarrow> string \<Rightarrow> voice_role" where
  "listed_role kind me role streamers casemap member =
     (if role \<noteq> None \<and> case_eq casemap member me then the role
      else if kind = Publish \<or> (\<exists>l\<in>set_option streamers. \<exists>name\<in>set l. case_eq casemap name member) then Publisher
      else Viewer)"

lemma listed_role_fold:
  "case_eq casemap m member \<Longrightarrow> listed_role kind me role streamers casemap m = listed_role kind me role streamers casemap member"
  by (simp add: listed_role_def case_eq_iff_fold)

lemma room_joined_member_listed:
  "room_joined_member me role streamers casemap m room
     = set_role m (listed_role (vr_kind room) me role streamers casemap m) casemap room"
  by (auto simp: room_joined_member_def listed_role_def room_role_for_def list_ex_iff Let_def
      split: option.split room_kind.split)

lemma role_in_fold_joined:
  "role_in casemap (fold (room_joined_member me role streamers casemap) members room) member
     = (if \<exists>m\<in>set members. case_eq casemap m member
        then Some (listed_role (vr_kind room) me role streamers casemap member) else role_in casemap room member)"
  by (induction members arbitrary: room)
    (auto simp: room_joined_member_listed role_in_set_role dest: listed_role_fold)

text \<open>A list of members gives every member on it a role: ourselves the one the frame names, if it names one,
  everyone else the publisher's in an ordinary voice room and, in a stream, to the streamers alone; whoever
  is not on the list keeps theirs.\<close>

theorem joined_gives_roles:
  "role_in casemap (room_apply me (SigJoined members mode role streamers turn tracks) casemap room) member
     = (if \<exists>m\<in>set members. case_eq casemap m member
        then Some (listed_role (vr_kind room) me role streamers casemap member) else role_in casemap room member)"
  using role_in_fold_joined [of casemap me role streamers members "room\<lparr>vr_turn := turn\<rparr>" member]
  by (simp add: room_apply_def apply_joined_def) (simp add: role_in_def)

end
