(* ===== verification/Client_Inv.thy ===== *)
theory Client_Inv
  imports Client_Frame Voice_Props
begin

text \<open>
  The invariant of the whole connection: every component keeps the invariant of its own theory, and no
  operation of the engine breaks one. Lines, batches and calls of the host use up sequence numbers of
  the model, so the runs are counted: a step costs at most the lines one closed batch can hold.
\<close>

section \<open>The invariant\<close>

definition rooms_ok :: "(case_folded, voice_room) btree \<Rightarrow> bool" where
  "rooms_ok rooms \<longleftrightarrow> bt_wf rooms \<and> bt_all (\<lambda>_. room_wf) rooms"

lemma rooms_ok_simps [simp]:
  "rooms_ok []"
  "rooms_ok rooms \<Longrightarrow> rooms_ok (bt_move k k' rooms)"
  "rooms_ok rooms \<Longrightarrow> rooms_ok (bt_entry k (room_new channel) (room_apply me s casemap) rooms)"
  by (auto simp: rooms_ok_def intro: bt_all_move bt_all_entry)

definition client_sound :: "client \<Rightarrow> bool" where
  "client_sound c \<longleftrightarrow> model_ok (cl_model c) \<and> timers_wf (cl_timers c) \<and> labels_wf (cl_labels c)
     \<and> batches_ok (cl_batches c) \<and> bs_max_buffered (cl_batches c) = DEFAULT_MAX_BUFFERED
     \<and> caps_ok (cl_caps c) \<and> watch_list_ok (cl_monitor c) \<and> bt_wf (cl_channel_keys c)
     \<and> distinct (cl_metadata_subscriptions c) \<and> rooms_ok (cl_rooms c) \<and> bs_wf (cl_commands c) \<and> bots_ok (cl_bots c)"

definition seq_of :: "client \<Rightarrow> nat" where
  "seq_of c = mdl_next_seq (cl_model c)"

lemma sound_parts:
  assumes "client_sound c"
  shows "model_ok (cl_model c)" "timers_wf (cl_timers c)" "labels_wf (cl_labels c)" "batches_ok (cl_batches c)"
    "bs_max_buffered (cl_batches c) = DEFAULT_MAX_BUFFERED" "caps_ok (cl_caps c)" "watch_list_ok (cl_monitor c)"
    "bt_wf (cl_channel_keys c)" "distinct (cl_metadata_subscriptions c)" "rooms_ok (cl_rooms c)" "bs_wf (cl_commands c)"
    "bots_ok (cl_bots c)"
  using assms by (simp_all add: client_sound_def)

text \<open>Updates of fields the invariant does not read.\<close>

lemma sound_free [simp]:
  "client_sound (send_line m c) = client_sound c" "client_sound (push_event ev c) = client_sound c"
  "client_sound (c\<lparr>cl_phase := ph\<rparr>) = client_sound c" "client_sound (c\<lparr>cl_nick := nick\<rparr>) = client_sound c"
  "client_sound (c\<lparr>cl_isupport := i\<rparr>) = client_sound c" "client_sound (c\<lparr>cl_backoff := bo\<rparr>) = client_sound c"
  "client_sound (c\<lparr>cl_monotonic_ms := t\<rparr>) = client_sound c" "client_sound (c\<lparr>cl_latest_ms := t\<rparr>) = client_sound c"
  "client_sound (c\<lparr>cl_discarding := b\<rparr>) = client_sound c" "client_sound (c\<lparr>cl_dropped_lines := n\<rparr>) = client_sound c"
  "client_sound (c\<lparr>cl_sasl := ss\<rparr>) = client_sound c" "client_sound (c\<lparr>cl_scram := sc\<rparr>) = client_sound c"
  "client_sound (c\<lparr>cl_nick_attempt := n\<rparr>) = client_sound c" "client_sound (c\<lparr>cl_partial := p\<rparr>) = client_sound c"
  "client_sound (c\<lparr>cl_outbox := ob\<rparr>) = client_sound c" "client_sound (c\<lparr>cl_events := evs\<rparr>) = client_sound c"
  "client_sound (drop_line c) = client_sound c"
  by (simp_all add: client_sound_def drop_line_def)

lemma sound_care [simp]:
  assumes "client_sound c"
  shows "model_ok m \<Longrightarrow> client_sound (c\<lparr>cl_model := m\<rparr>)" "timers_wf t \<Longrightarrow> client_sound (c\<lparr>cl_timers := t\<rparr>)"
    "labels_wf l \<Longrightarrow> client_sound (c\<lparr>cl_labels := l\<rparr>)" "caps_ok p \<Longrightarrow> client_sound (c\<lparr>cl_caps := p\<rparr>)"
    "batches_ok b \<Longrightarrow> bs_max_buffered b = DEFAULT_MAX_BUFFERED \<Longrightarrow> client_sound (c\<lparr>cl_batches := b\<rparr>)"
    "watch_list_ok w \<Longrightarrow> client_sound (c\<lparr>cl_monitor := w\<rparr>)" "bt_wf k \<Longrightarrow> client_sound (c\<lparr>cl_channel_keys := k\<rparr>)"
    "distinct s \<Longrightarrow> client_sound (c\<lparr>cl_metadata_subscriptions := s\<rparr>)" "rooms_ok vr \<Longrightarrow> client_sound (c\<lparr>cl_rooms := vr\<rparr>)"
    "bs_wf cs \<Longrightarrow> client_sound (c\<lparr>cl_commands := cs\<rparr>)" "bots_ok bts \<Longrightarrow> client_sound (c\<lparr>cl_bots := bts\<rparr>)"
  using assms by (simp_all add: client_sound_def)

lemma seq_free [simp]:
  "seq_of (send_line m c) = seq_of c" "seq_of (push_event ev c) = seq_of c"
  "seq_of (c\<lparr>cl_phase := ph\<rparr>) = seq_of c" "seq_of (c\<lparr>cl_nick := nick\<rparr>) = seq_of c"
  "seq_of (c\<lparr>cl_isupport := i\<rparr>) = seq_of c" "seq_of (c\<lparr>cl_backoff := bo\<rparr>) = seq_of c"
  "seq_of (c\<lparr>cl_monotonic_ms := t\<rparr>) = seq_of c" "seq_of (c\<lparr>cl_latest_ms := t\<rparr>) = seq_of c"
  "seq_of (c\<lparr>cl_discarding := b\<rparr>) = seq_of c" "seq_of (c\<lparr>cl_dropped_lines := n\<rparr>) = seq_of c"
  "seq_of (c\<lparr>cl_sasl := ss\<rparr>) = seq_of c" "seq_of (c\<lparr>cl_scram := sc\<rparr>) = seq_of c"
  "seq_of (c\<lparr>cl_nick_attempt := n\<rparr>) = seq_of c" "seq_of (c\<lparr>cl_partial := p\<rparr>) = seq_of c"
  "seq_of (c\<lparr>cl_outbox := ob\<rparr>) = seq_of c" "seq_of (c\<lparr>cl_events := evs\<rparr>) = seq_of c"
  "seq_of (c\<lparr>cl_timers := tm\<rparr>) = seq_of c" "seq_of (c\<lparr>cl_labels := lb\<rparr>) = seq_of c"
  "seq_of (c\<lparr>cl_caps := cp\<rparr>) = seq_of c" "seq_of (c\<lparr>cl_batches := bs\<rparr>) = seq_of c"
  "seq_of (c\<lparr>cl_monitor := mo\<rparr>) = seq_of c" "seq_of (c\<lparr>cl_channel_keys := ks\<rparr>) = seq_of c"
  "seq_of (c\<lparr>cl_metadata_subscriptions := su\<rparr>) = seq_of c" "seq_of (c\<lparr>cl_rooms := vr\<rparr>) = seq_of c"
  "seq_of (c\<lparr>cl_commands := cs\<rparr>) = seq_of c" "seq_of (c\<lparr>cl_bots := bts\<rparr>) = seq_of c" "seq_of (drop_line c) = seq_of c"
  "seq_of (c\<lparr>cl_model := md\<rparr>) = mdl_next_seq md"
  by (simp_all add: seq_of_def drop_line_def)

lemma fold_sound: "client_sound c \<Longrightarrow> (\<And>x c. client_sound c \<Longrightarrow> client_sound (f x c)) \<Longrightarrow> client_sound (fold f xs c)"
  by (rule fold_keeps)

lemma seq_set_typing [simp]: "mdl_next_seq (snd (model_set_typing target who typing m)) = mdl_next_seq m"
  by (simp add: model_set_typing_def Let_def case_prod_unfold channel_mut_def conversation_mut_def split: option.split)

section \<open>The clock, the queues and the transport\<close>

lemma arm_keepalive_sound [simp]: "client_sound c \<Longrightarrow> client_sound (arm_keepalive c)"
  by (simp add: arm_keepalive_def sound_parts)

lemma arm_keepalive_seq [simp]: "seq_of (arm_keepalive c) = seq_of c"
  by (simp add: arm_keepalive_def)

lemma expire_typing_sound [simp]: "client_sound c \<Longrightarrow> client_sound (expire_typing target who c)"
  by (simp add: expire_typing_def Let_def case_prod_unfold model_set_typing_ok sound_parts)

lemma expire_typing_seq [simp]: "seq_of (expire_typing target who c) = seq_of c"
  by (simp add: expire_typing_def Let_def case_prod_unfold) (simp add: seq_of_def)

lemma tick_deadline_sound [simp]: "client_sound c \<Longrightarrow> client_sound (tick_deadline now d c)"
  by (cases d) (simp_all add: tick_deadline_def Let_def sound_parts)

lemma tick_deadline_seq [simp]: "seq_of (tick_deadline now d c) = seq_of c"
  by (cases d) (simp_all add: tick_deadline_def Let_def)

lemma tick_sound: "client_sound c \<Longrightarrow> client_sound (tick now c)"
  by (simp add: tick_def Let_def case_prod_unfold fold_push_event fold_sound labels_wf_expire sound_parts)

lemma tick_seq: "seq_of (tick now c) = seq_of c"
  by (simp add: tick_def Let_def case_prod_unfold fold_push_event fold_field [where field = seq_of])

lemma handle_connected_sound: "client_sound c \<Longrightarrow> client_sound (handle_connected c)"
  by (simp add: handle_connected_def Let_def sound_parts split: option.split)

lemma handle_connected_seq: "seq_of (handle_connected c) = seq_of c"
  by (simp add: handle_connected_def Let_def split: option.split)

lemma watch_ops_ok:
  assumes "watch_list_ok w"
  shows "watch_list_ok (wl_watch ns w)" "watch_list_ok (wl_unwatch ns w)" "watch_list_ok (wl_mark_online n w)"
    "watch_list_ok (wl_mark_offline n w)" "watch_list_ok (wl_forget_presence w)"
  using watch_run.step_invar [OF assms, of "WWatch ns"] watch_run.step_invar [OF assms, of "WUnwatch ns"]
    watch_run.step_invar [OF assms, of "WOnline n"] watch_run.step_invar [OF assms, of "WOffline n"]
    watch_run.step_invar [OF assms, of WForget]
  by simp_all

lemma batch_ops_bounds [simp]:
  "bs_max_buffered (batches_open m b) = bs_max_buffered b" "bs_max_buffered (snd (batches_close m b)) = bs_max_buffered b"
  "bs_max_buffered (snd (batches_route m b)) = bs_max_buffered b" "bs_max_buffered (batches_drop_all b) = bs_max_buffered b"
  using batch_bounds_step [of "BOpen m" b] batch_bounds_step [of "BClose m" b] batch_bounds_step [of "BRoute m" b]
    batch_bounds_step [of BDropAll b]
  by simp_all

lemma without_members_ok: "model_ok m \<Longrightarrow> model_ok (channels_mut (\<lambda>ch. ch\<lparr>ch_members := []\<rparr>) (forget_whois m))"
  by (intro channels_mut_ok forget_whois_ok) (auto simp: channel_ok_simps)

lemma handle_disconnected_sound: "client_sound c \<Longrightarrow> client_sound (handle_disconnected c)"
  by (simp add: handle_disconnected_def Let_def case_prod_unfold without_members_ok watch_ops_ok batches_ok_drop_all
      bots_forget_def sound_parts split: option.split)

lemma handle_disconnected_seq: "seq_of (handle_disconnected c) = seq_of c"
  by (simp add: handle_disconnected_def Let_def case_prod_unfold channels_mut_def forget_whois_def split: option.split)
    (simp add: seq_of_def)

section \<open>Folding lines\<close>

lemma ctx_inv_client: "ctx_inv False (client_ctx c historical) \<longleftrightarrow> model_ok (cl_model c)"
  by (simp add: ctx_inv_def client_ctx_def)

lemma request_who_sound [simp]: "client_sound (request_who name c) = client_sound c"
  by (simp add: request_who_def)

lemma follow_change_sound [simp]: "client_sound c \<Longrightarrow> client_sound (follow_change ch c)"
  by (simp add: follow_change_def Let_def sound_parts split: change.split option.split)

lemma client_fold_sound:
  assumes "client_sound c" "seq_of c < u64_max"
  shows "client_sound (client_fold e m historical c)"
proof -
  have "model_ok (ctx_model (snd (session_apply e (client_ctx c historical) m)))"
    using session_apply_ok [of False "client_ctx c historical" e m] assms
    by (simp add: ctx_inv_def client_ctx_def seq_of_def sound_parts)
  then show ?thesis
    using assms(1) by (simp add: client_fold_def Let_def case_prod_unfold fold_push_event fold_sound)
qed

lemma client_fold_seq:
  assumes "seq_of c < u64_max"
  shows "seq_of (client_fold e m historical c) \<le> Suc (seq_of c)"
  using session_apply_frame [of "client_ctx c historical" e m] assms
  by (simp add: seq_of_def client_fold_model ctx_frame_def) (simp add: client_ctx_def)

text \<open>A run of lines folded one after the other, as a batch is drained.\<close>

interpretation folding: counted_component "\<lambda>m. client_fold e m historical" client_sound seq_of "\<lambda>_. 1" u64_max
  for e historical
proof
  fix c :: client and m
  assume "client_sound c" "seq_of c + 1 \<le> u64_max"
  then show "client_sound (client_fold e m historical c)" "seq_of (client_fold e m historical c) \<le> seq_of c + 1"
    using client_fold_sound [of c e m historical] client_fold_seq [of c e m historical] by simp_all
qed

section \<open>Commands of the host\<close>

lemma send_labeled_sound [simp]: "client_sound c \<Longrightarrow> client_sound (send_labeled m c)"
  using labels_wf_issue [of "cl_labels c"]
  by (simp add: send_line_labeled_def Let_def case_prod_unfold labels_issue_simps sound_parts)

lemma send_labeled_seq [simp]: "seq_of (send_labeled m c) = seq_of c"
  by (simp add: send_line_labeled_def Let_def case_prod_unfold)

lemma say_sound: "client_sound c \<Longrightarrow> seq_of c < u64_max \<Longrightarrow> client_sound (say e line c)"
  by (simp add: say_def Let_def client_fold_sound)

lemma say_seq: "seq_of c < u64_max \<Longrightarrow> seq_of (say e line c) \<le> Suc (seq_of c)"
  using client_fold_seq [of "send_labeled line c" e] by (simp add: say_def Let_def)

lemma set_watching_sound: "client_sound c \<Longrightarrow> client_sound (set_watching nicks watching c)"
  by (simp add: set_watching_def Let_def fold_sound watch_ops_ok sound_parts)

lemma set_watching_seq: "seq_of (set_watching nicks watching c) = seq_of c"
  by (simp add: set_watching_def Let_def fold_field [where field = seq_of])

lemma subscribe_distinct:
  "distinct subs \<Longrightarrow> distinct (fold (\<lambda>key subs. if key \<in> set subs then subs else subs @ [key]) keys subs)"
  by (rule fold_keeps) auto

lemma client_command_sound:
  "client_sound c \<Longrightarrow> seq_of c < u64_max \<Longrightarrow> client_sound (client_command e command c)"
  by (simp add: client_command_def Let_def say_sound set_watching_sound subscribe_distinct sound_parts
      split: command.split option.split)

lemma client_command_seq: "seq_of c < u64_max \<Longrightarrow> seq_of (client_command e command c) \<le> Suc (seq_of c)"
  by (simp add: client_command_def Let_def say_seq set_watching_seq split: command.split option.split)

section \<open>Lines the engine handles itself\<close>

lemma rejoin_sound [simp]: "client_sound (rejoin entry c) = client_sound c"
  by (simp add: rejoin_def Let_def split: prod.split option.split)

lemma rejoin_seq [simp]: "seq_of (rejoin entry c) = seq_of c"
  by (simp add: rejoin_def Let_def split: prod.split option.split)

lemma resume_sound: "client_sound c \<Longrightarrow> client_sound (resume c)"
  by (simp add: resume_def Let_def fold_sound)

lemma resume_seq: "seq_of (resume c) = seq_of c"
  by (simp add: resume_def Let_def fold_field [where field = seq_of])

lemma handle_welcome_sound: "client_sound c \<Longrightarrow> client_sound (handle_welcome m c)"
  by (simp add: handle_welcome_def Let_def resume_sound me_update_ok sound_parts split: option.split)

lemma handle_welcome_seq: "seq_of (handle_welcome m c) = seq_of c"
  by (simp add: handle_welcome_def Let_def resume_seq split: option.split) (simp add: seq_of_def)

lemma start_sasl_sound [simp]: "client_sound (snd (start_sasl_if_wanted c)) = client_sound c"
  by (simp add: start_sasl_if_wanted_def split: option.split)

lemma start_sasl_seq [simp]: "seq_of (snd (start_sasl_if_wanted c)) = seq_of c"
  by (simp add: start_sasl_if_wanted_def split: option.split)

lemma finish_negotiation_sound [simp]: "client_sound (finish_negotiation_if_settled c) = client_sound c"
  by (simp add: finish_negotiation_if_settled_def Let_def case_prod_unfold)

lemma finish_negotiation_seq [simp]: "seq_of (finish_negotiation_if_settled c) = seq_of c"
  by (simp add: finish_negotiation_if_settled_def Let_def case_prod_unfold)

lemma request_wanted_sound: "client_sound c \<Longrightarrow> client_sound (request_wanted c)"
  using caps_ok_ask [of "cl_caps c"] by (simp add: request_wanted_def Let_def fold_sound caps_ask_def sound_parts)

lemma request_wanted_seq: "seq_of (request_wanted c) = seq_of c"
  by (simp add: request_wanted_def Let_def fold_field [where field = seq_of])

lemma handle_cap_sound: "client_sound c \<Longrightarrow> client_sound (handle_cap m c)"
  by (simp add: handle_cap_def Let_def case_prod_unfold request_wanted_sound caps_ok_advertise caps_ok_withdraw
      caps_ok_acknowledge caps_ok_reject sound_parts split: option.split)

lemma handle_cap_seq: "seq_of (handle_cap m c) = seq_of c"
  by (simp add: handle_cap_def Let_def case_prod_unfold request_wanted_seq split: option.split)

lemma finish_sasl_sound [simp]: "client_sound (finish_sasl failure c) = client_sound c"
  by (simp add: finish_sasl_def Let_def split: option.split)

lemma finish_sasl_seq [simp]: "seq_of (finish_sasl failure c) = seq_of c"
  by (simp add: finish_sasl_def Let_def split: option.split)

lemma send_sasl_sound [simp]: "client_sound (send_sasl e payload c) = client_sound c"
  by (simp add: send_sasl_def fold_send_line)

lemma send_sasl_seq [simp]: "seq_of (send_sasl e payload c) = seq_of c"
  by (simp add: send_sasl_def fold_send_line)

lemma handle_authenticate_sound [simp]: "client_sound (handle_authenticate e m c) = client_sound c"
  by (simp add: handle_authenticate_def begin_sasl_response_def answer_scram_challenge_def verify_scram_server_def
      Let_def case_prod_unfold split: option.split sasl_state.split credentials.split sum.split)

lemma handle_authenticate_seq [simp]: "seq_of (handle_authenticate e m c) = seq_of c"
  by (simp add: handle_authenticate_def begin_sasl_response_def answer_scram_challenge_def verify_scram_server_def
      Let_def case_prod_unfold split: option.split sasl_state.split credentials.split sum.split)

lemma handle_nick_refused_sound: "client_sound c \<Longrightarrow> client_sound (handle_nick_refused m c)"
  by (simp add: handle_nick_refused_def Let_def me_update_ok sound_parts)

lemma handle_nick_refused_seq: "seq_of (handle_nick_refused m c) = seq_of c"
  by (simp add: handle_nick_refused_def Let_def) (simp add: seq_of_def)

lemma handle_typing_sound: "client_sound c \<Longrightarrow> client_sound (snd (handle_typing m c))"
  by (simp add: handle_typing_def Let_def case_prod_unfold model_set_typing_ok sound_parts split: option.split)

lemma handle_typing_seq: "seq_of (snd (handle_typing m c)) = seq_of c"
  by (simp add: handle_typing_def Let_def case_prod_unfold split: option.split) (simp add: seq_of_def)

lemma handle_rtc_sound: "client_sound c \<Longrightarrow> client_sound (snd (handle_rtc m c))"
  by (simp add: handle_rtc_def Let_def sound_parts split: option.split)

lemma handle_rtc_seq: "seq_of (snd (handle_rtc m c)) = seq_of c"
  by (simp add: handle_rtc_def Let_def split: option.split)

lemma bot_lines_sound:
  assumes "client_sound c"
  shows "client_sound (bot_announced e payload c)" "client_sound (bot_commands_listed e payload m c)"
proof -
  have "bots_ok (if bi_removed info then bots_remove key (cl_bots c)
      else snd (bots_set_commands key (bi_commands info) (bots_insert key (bi_bot info) (cl_bots c))))"
    if "bot_info_decode e payload = Some info" for info key
    using sound_parts(12) [OF assms] bot_info_decode_entitled [OF that] by (simp add: bots_ok_insert)
  then show "client_sound (bot_announced e payload c)"
    using assms by (simp add: bot_announced_def Let_def split: option.split)
  show "client_sound (bot_commands_listed e payload m c)"
    using assms by (simp add: bot_commands_listed_def Let_def case_prod_unfold sound_parts split: option.split)
qed

lemma bot_lines_seq: "seq_of (bot_announced e payload c) = seq_of c" "seq_of (bot_commands_listed e payload m c) = seq_of c"
  by (simp_all add: bot_announced_def bot_commands_listed_def Let_def case_prod_unfold split: option.split)

lemma obby_lines_sound:
  assumes "client_sound c"
  shows "client_sound (snd (handle_bot_tags e m c))" "client_sound (snd (handle_token m c))" "client_sound (handle_cmdslist m c)"
  using assms
  by (simp_all add: handle_bot_tags_def handle_token_def handle_cmdslist_def bot_lines_sound commands_wf_apply sound_parts
      split: option.split)

lemma obby_lines_seq:
  "seq_of (snd (handle_bot_tags e m c)) = seq_of c" "seq_of (snd (handle_token m c)) = seq_of c"
  "seq_of (handle_cmdslist m c) = seq_of c"
  by (simp_all add: handle_bot_tags_def handle_token_def handle_cmdslist_def bot_lines_seq split: option.split)

lemma monitor_target_sound [simp]: "client_sound c \<Longrightarrow> client_sound (monitor_target online target c)"
  by (simp add: monitor_target_def Let_def watch_ops_ok sound_parts)

lemma monitor_target_seq [simp]: "seq_of (monitor_target online target c) = seq_of c"
  by (simp add: monitor_target_def Let_def)

lemma handle_monitor_sound: "client_sound c \<Longrightarrow> client_sound (handle_monitor m c)"
  by (simp add: handle_monitor_def fold_sound split: option.split)

lemma handle_monitor_seq: "seq_of (handle_monitor m c) = seq_of c"
  by (simp add: handle_monitor_def fold_field [where field = seq_of] split: option.split)

lemma handle_standard_reply_sound: "client_sound (snd (handle_standard_reply severity m c)) = client_sound c"
  by (simp add: handle_standard_reply_def Let_def split: option.split)

lemma handle_standard_reply_seq: "seq_of (snd (handle_standard_reply severity m c)) = seq_of c"
  by (simp add: handle_standard_reply_def Let_def split: option.split)

lemma isupport_token_sound [simp]: "client_sound (isupport_token token c) = client_sound c"
  by (simp add: isupport_token_def Let_def case_prod_unfold)

lemma isupport_token_seq [simp]: "seq_of (isupport_token token c) = seq_of c"
  by (simp add: isupport_token_def Let_def case_prod_unfold)

lemma handle_isupport_sound: "client_sound c \<Longrightarrow> client_sound (handle_isupport m c)"
  by (simp add: handle_isupport_def fold_sound)

lemma handle_isupport_seq: "seq_of (handle_isupport m c) = seq_of c"
  by (simp add: handle_isupport_def fold_field [where field = seq_of])

section \<open>Batches\<close>

lemma join_lines_length: "length (join_lines joined ms) \<le> length joined + length ms"
proof (induction ms arbitrary: joined)
  case (Cons m ms)
  have "length (join_lines (joined @ [m]) ms) \<le> Suc (length joined + length ms)"
    using Cons [of "joined @ [m]"] by simp
  moreover have "length (join_lines (butlast joined @ [x]) ms) \<le> Suc (length joined + length ms)" for x
    using Cons [of "butlast joined @ [x]"] by simp
  ultimately show ?case
    by (simp split: option.split)
qed simp

lemma closed_batch_length:
  assumes "batches_ok b" "batches_close m b = (Some closed, b')"
  shows "length (cb_messages closed) \<le> bs_max_buffered b"
  using assms
  by (auto simp: batches_close_def batches_ok_def open_batch_ok_def into_closed_def bt_all_iff split: option.splits)

lemma drain_batch_run:
  assumes "client_sound c" "seq_of c + length (cb_messages closed) \<le> u64_max"
  shows "client_sound (drain_batch e closed c) \<and> seq_of (drain_batch e closed c) \<le> seq_of c + length (cb_messages closed)"
proof -
  have "client_sound (fold (\<lambda>m. client_fold e m historical) ms c)
      \<and> seq_of (fold (\<lambda>m. client_fold e m historical) ms c) \<le> seq_of c + length (cb_messages closed)"
    if "length ms \<le> length (cb_messages closed)" for ms historical
    using folding.run_both [of c ms e historical] assms that by (simp add: sum_list_triv)
  then show ?thesis
    using join_lines_length [of "[]" "cb_messages closed"] by (simp add: drain_batch_def Let_def join_multiline_def)
qed

lemma handle_batch_run:
  assumes "client_sound c" "seq_of c + DEFAULT_MAX_BUFFERED \<le> u64_max"
  shows "client_sound (handle_batch e m c) \<and> seq_of (handle_batch e m c) \<le> seq_of c + DEFAULT_MAX_BUFFERED"
proof (cases "batches_close m (cl_batches c)")
  case (Pair closed b')
  have b: "batches_ok (batches_open m (cl_batches c))" "batches_ok b'" "bs_max_buffered b' = DEFAULT_MAX_BUFFERED"
    using sound_parts(4,5) [OF assms(1)] batches_ok_open batches_ok_close [of "cl_batches c" m]
      batch_ops_bounds(2) [of m "cl_batches c"] by (simp_all add: Pair)
  have "closed = Some x \<Longrightarrow> length (cb_messages x) \<le> DEFAULT_MAX_BUFFERED" for x
    using closed_batch_length [of "cl_batches c" m x b'] sound_parts(4,5) [OF assms(1)] by (simp add: Pair)
  then have "closed = Some x \<Longrightarrow> client_sound (drain_batch e x (c\<lparr>cl_batches := b'\<rparr>))
      \<and> seq_of (drain_batch e x (c\<lparr>cl_batches := b'\<rparr>)) \<le> seq_of c + DEFAULT_MAX_BUFFERED" for x
    using drain_batch_run [of "c\<lparr>cl_batches := b'\<rparr>" x e] assms b by force
  then show ?thesis
    using assms b sound_parts(5) [OF assms(1)] by (simp add: handle_batch_def Let_def Pair split: option.split)
qed

section \<open>A line, and a run of inputs\<close>

lemma handle_rest_run:
  assumes "client_sound c" "seq_of c + DEFAULT_MAX_BUFFERED \<le> u64_max"
  shows "client_sound (handle_rest e m c) \<and> seq_of (handle_rest e m c) \<le> seq_of c + DEFAULT_MAX_BUFFERED"
proof (cases "batches_route m (cl_batches c)")
  case (Pair routed b')
  let ?c = "c\<lparr>cl_batches := b'\<rparr>"
  have "client_sound ?c" "seq_of ?c < u64_max"
    using assms sound_parts(4,5) [OF assms(1)] batches_ok_route [of "cl_batches c" m] batch_ops_bounds(3) [of m "cl_batches c"]
    by (simp_all add: Pair DEFAULT_MAX_BUFFERED_def)
  then have "client_sound (client_fold e x False ?c)" "seq_of (client_fold e x False ?c) \<le> Suc (seq_of c)" for x
    using client_fold_seq [of ?c e x False] by (simp_all add: client_fold_sound)
  moreover have "Suc (seq_of c) \<le> seq_of c + DEFAULT_MAX_BUFFERED"
    by (simp add: DEFAULT_MAX_BUFFERED_def)
  ultimately have "client_sound (client_fold e x False ?c) \<and> seq_of (client_fold e x False ?c) \<le> seq_of c + DEFAULT_MAX_BUFFERED" for x
    using le_trans by blast
  then show ?thesis
    using assms \<open>client_sound ?c\<close> handle_batch_run [OF assms, of e m]
    by (simp add: handle_rest_def Let_def Pair handle_nick_refused_sound handle_nick_refused_seq split: option.split)
qed

lemma handle_message_run:
  assumes "client_sound c" "seq_of c + DEFAULT_MAX_BUFFERED \<le> u64_max"
  shows "client_sound (handle_message e m c) \<and> seq_of (handle_message e m c) \<le> seq_of c + DEFAULT_MAX_BUFFERED"
proof -
  define d where "d = received m c"
  have d: "client_sound d" "seq_of d = seq_of c"
    using assms(1) by (simp_all add: d_def received_def labels_wf_resolve sound_parts)
  have rest: "client_sound (handle_rest e m d)" "seq_of (handle_rest e m d) \<le> seq_of c + DEFAULT_MAX_BUFFERED"
    using handle_rest_run [of d e m] assms(2) d by simp_all
  show ?thesis
    by (rule handle_message_cases; unfold d_def [symmetric])
      (simp_all add: d rest handle_cap_sound handle_welcome_sound handle_isupport_sound handle_typing_sound
        handle_monitor_sound handle_standard_reply_sound handle_rtc_sound obby_lines_sound handle_cap_seq
        handle_welcome_seq handle_isupport_seq handle_typing_seq handle_monitor_seq handle_standard_reply_seq
        handle_rtc_seq obby_lines_seq)
qed

interpretation lines: counted_component "handle_line e" client_sound seq_of "\<lambda>_. DEFAULT_MAX_BUFFERED" u64_max for e
proof
  fix c line
  assume "client_sound c" "seq_of c + DEFAULT_MAX_BUFFERED \<le> u64_max"
  from handle_message_run [OF this, of e]
  show "client_sound (handle_line e line c)" "seq_of (handle_line e line c) \<le> seq_of c + DEFAULT_MAX_BUFFERED"
    using \<open>client_sound c\<close> by (simp_all add: handle_line_def split: sum.split)
qed

end
