(* ===== verification/Client_Run.thy ===== *)
theory Client_Run
  imports Client_Inv
begin

text \<open>
  Runs of the connection: what the host can do to it, one input after another, and what a stream of
  bytes comes to however the transport cuts it up.
\<close>

section \<open>The byte loop, as a fold over lines\<close>

definition take_line :: "externals \<Rightarrow> string \<Rightarrow> client \<Rightarrow> client" where
  "take_line e line c = handle_line e (line @ [nl]) c"

definition settle_rest :: "string \<Rightarrow> client \<Rightarrow> client" where
  "settle_rest rest c =
     (if length rest > MAX_INBOUND_LINE then drop_line (c\<lparr>cl_partial := [], cl_discarding := True\<rparr>)
      else rebuffer rest c)"

lemma bytes_loop_lines:
  "bytes_loop e s c = settle_rest (last (split_on nl s)) (fold (take_line e) (butlast (split_on nl s)) c)"
proof (induction e s c rule: bytes_loop.induct)
  case (1 e s c)
  show ?case
  proof (cases "split_once nl s")
    case None
    then have "split_on nl s = [s]"
      by (simp add: split_once_None split_on_free)
    with None show ?thesis
      by (simp add: bytes_loop.simps [of e s] settle_rest_def rebuffer_def)
  next
    case (Some cut)
    then obtain line rest where cut: "cut = (line, rest)" "s = line @ nl # rest" "nl \<notin> set line"
      by (cases cut) (simp add: split_once_Some)
    then have "split_on nl s = line # split_on nl rest"
      by (simp add: split_on_append)
    with 1 Some cut(1) show ?thesis
      by (simp add: bytes_loop.simps [of e s] take_line_def)
  qed
qed

lemma length_split_on: "length (split_on c s) = Suc (count_list s c)"
  by (induction c s rule: split_on.induct) (auto simp: neq_Nil_conv split: list.splits)

lemma split_on_snoc_append:
  "split_on c (a @ b) = butlast (split_on c a) @ split_on c (last (split_on c a) @ b)"
proof (induction a arbitrary: b)
  case (Cons x a)
  show ?case
  proof (cases "x = c")
    case True
    then show ?thesis using Cons [of b] by simp
  next
    case False
    obtain p ps where p: "split_on c a = p # ps"
      using split_on_not_Nil by (metis neq_Nil_conv)
    then show ?thesis
      using Cons [of b] False by (cases ps) (auto split: list.splits)
  qed
qed simp

section \<open>What the buffer holds\<close>

definition buffer_ok :: "client \<Rightarrow> bool" where
  "buffer_ok c \<longleftrightarrow> nl \<notin> set (cl_partial c) \<and> length (cl_partial c) \<le> MAX_INBOUND_LINE"

lemma last_split_on_free: "nl \<notin> set (last (split_on nl s))"
  using split_on_pieces [of "last (split_on nl s)" nl s] by simp

lemma settle_rest_buffer: "nl \<notin> set rest \<Longrightarrow> buffer_ok (settle_rest rest c)"
  by (simp add: settle_rest_def buffer_ok_def drop_line_def)

lemma handle_bytes_buffer: "buffer_ok (handle_bytes e data c)"
  by (simp add: handle_bytes_def bytes_loop_lines settle_rest_buffer last_split_on_free)

text \<open>An operation that does not look at the buffer leaves it alone.\<close>

lemma blind_partial: "(\<And>p. h (rebuffer p c) = rebuffer p (h c)) \<Longrightarrow> cl_partial (h c) = cl_partial c"
  by (metis rebuffer_fields(1) rebuffer_same)

lemma blind_more [blind]:
  "handle_connected (rebuffer p c) = rebuffer p (handle_connected c)"
  "handle_disconnected (rebuffer p c) = rebuffer p (handle_disconnected c)"
  "expire_typing target who (rebuffer p c) = rebuffer p (expire_typing target who c)"
  "set_watching nicks watching (rebuffer p c) = rebuffer p (set_watching nicks watching c)"
  "send_line_labeled m (rebuffer p c) = map_prod (\<lambda>l. l) (rebuffer p) (send_line_labeled m c)"
  by (simp_all add: handle_connected_def handle_disconnected_def expire_typing_def set_watching_def send_line_labeled_def
      Let_def case_prod_unfold blind fold_blind cong: option.case_cong)

lemma blind_say [blind]: "say e line (rebuffer p c) = rebuffer p (say e line c)"
  by (simp add: say_def Let_def blind)

lemma blind_tick_deadline [blind]: "tick_deadline now d (rebuffer p c) = rebuffer p (tick_deadline now d c)"
  by (cases d) (simp_all add: tick_deadline_def Let_def blind)

lemma blind_tick [blind]: "tick now (rebuffer p c) = rebuffer p (tick now c)"
  by (simp add: tick_def Let_def case_prod_unfold blind fold_blind)

lemma blind_client_command [blind]: "client_command e command (rebuffer p c) = rebuffer p (client_command e command c)"
  by (simp add: client_command_def Let_def blind cong: option.case_cong split: command.split)

section \<open>Inputs\<close>

text \<open>Everything a host does to its connection.\<close>

datatype input =
    Connected
  | Lost
  | Read string
  | Tick now
  | Ask command
  | Send_Line message
  | Send_Line_Labeled message
  | Poll_Transmit
  | Poll_Event

fun client_step :: "externals \<Rightarrow> input \<Rightarrow> client \<Rightarrow> client" where
  "client_step e Connected c = handle_connected c"
| "client_step e Lost c = handle_disconnected c"
| "client_step e (Read data) c = handle_bytes e data c"
| "client_step e (Tick now) c = tick now c"
| "client_step e (Ask command) c = client_command e command c"
| "client_step e (Send_Line m) c = send_line m c"
| "client_step e (Send_Line_Labeled m) c = send_labeled m c"
| "client_step e Poll_Transmit c = snd (poll_transmit c)"
| "client_step e Poll_Event c = snd (poll_event c)"

text \<open>How many sequence numbers an input can use up: a line may close a full batch.\<close>

fun input_cost :: "input \<Rightarrow> nat" where
  "input_cost (Read data) = DEFAULT_MAX_BUFFERED * count_list data nl"
| "input_cost (Ask _) = 1"
| "input_cost _ = 0"

lemma settle_rest_sound [simp]: "client_sound (settle_rest rest c) = client_sound c"
  by (simp add: settle_rest_def drop_line_def rebuffer_def)

lemma settle_rest_seq [simp]: "seq_of (settle_rest rest c) = seq_of c"
  by (simp add: settle_rest_def drop_line_def rebuffer_def)

lemma handle_bytes_run:
  assumes "client_sound c" "buffer_ok c" "seq_of c + DEFAULT_MAX_BUFFERED * count_list data nl \<le> u64_max"
  shows "client_sound (handle_bytes e data c)
    \<and> seq_of (handle_bytes e data c) \<le> seq_of c + DEFAULT_MAX_BUFFERED * count_list data nl"
proof -
  let ?lines = "map (\<lambda>line. line @ [nl]) (butlast (split_on nl (cl_partial c @ data)))"
  have lines: "fold (take_line e) (butlast (split_on nl (cl_partial c @ data))) c = fold (handle_line e) ?lines c"
    by (simp add: fold_map comp_def take_line_def [abs_def])
  have "count_list (cl_partial c) nl = 0"
    using assms(2) by (simp add: buffer_ok_def count_list_0_iff)
  then have cost: "sum_list (map (\<lambda>_. DEFAULT_MAX_BUFFERED) ?lines) = DEFAULT_MAX_BUFFERED * count_list data nl"
    by (simp add: sum_list_triv length_split_on comp_def)
  show ?thesis
    using lines.run_both [of c ?lines e] assms(1,3)
    by (simp add: handle_bytes_def bytes_loop_lines lines cost del: map_map)
qed

lemma poll_sound [simp]:
  "client_sound (snd (poll_transmit c)) = client_sound c" "client_sound (snd (poll_event c)) = client_sound c"
  "seq_of (snd (poll_transmit c)) = seq_of c" "seq_of (snd (poll_event c)) = seq_of c"
  "cl_partial (snd (poll_transmit c)) = cl_partial c" "cl_partial (snd (poll_event c)) = cl_partial c"
  by (simp_all add: poll_transmit_def poll_event_def split: list.split)

lemma step_buffer:
  assumes "buffer_ok c"
  shows "buffer_ok (client_step e i c)"
proof (cases i)
  case (Read data)
  then show ?thesis by (simp add: handle_bytes_buffer)
next
  case (Send_Line_Labeled m)
  have "cl_partial (send_labeled m c) = cl_partial c"
    by (rule blind_partial) (simp add: blind)
  then show ?thesis
    using Send_Line_Labeled assms by (simp add: buffer_ok_def)
qed (use assms in \<open>simp_all add: buffer_ok_def blind blind_partial\<close>)

interpretation client: counted_component "client_step e" "\<lambda>c. client_sound c \<and> buffer_ok c" seq_of input_cost u64_max for e
proof
  fix c i
  assume ok: "client_sound c \<and> buffer_ok c" and room: "seq_of c + input_cost i \<le> u64_max"
  have "client_sound (client_step e i c) \<and> seq_of (client_step e i c) \<le> seq_of c + input_cost i"
  proof (cases i)
    case (Read data)
    then show ?thesis using handle_bytes_run [of c data e] ok room by simp
  next
    case (Ask command)
    then show ?thesis
      using client_command_sound [of c e command] client_command_seq [of c e command] ok room by simp
  qed (use ok in \<open>simp_all add: handle_connected_sound handle_connected_seq handle_disconnected_sound
      handle_disconnected_seq tick_sound tick_seq\<close>)
  then show "client_sound (client_step e i c) \<and> buffer_ok (client_step e i c)"
    "seq_of (client_step e i c) \<le> seq_of c + input_cost i"
    using step_buffer ok by auto
qed

lemma client_new_sound: "client_sound (client_new config) \<and> buffer_ok (client_new config) \<and> seq_of (client_new config) = 0"
  by (simp add: client_new_def client_sound_def buffer_ok_def seq_of_def Let_def me_update_ok batches_new_def
      batches_with_max_buffered_def batches_ok_def commands_new_def bots_new_def) (simp add: model_with_retention_def)

section \<open>Reads\<close>

lemma take_line_blind [blind]: "take_line e line (rebuffer p c) = rebuffer p (take_line e line c)"
  by (simp add: take_line_def blind)

lemma split_on_extends:
  assumes "nl \<notin> set r"
  shows "\<exists>t. hd (split_on nl (r @ b)) = r @ t"
proof (cases "split_once nl b")
  case None
  with assms have "split_on nl (r @ b) = [r @ b]"
    by (intro split_on_free) (simp add: split_once_None)
  then show ?thesis by simp
next
  case (Some cut)
  then obtain x y where "b = x @ nl # y" "nl \<notin> set x"
    by (cases cut) (simp add: split_once_Some)
  then have "split_on nl (r @ b) = (r @ x) # split_on nl y"
    using split_on_append [of nl "r @ x" y] assms by simp
  then show ?thesis by simp
qed

text \<open>
  C3: how the transport cuts the stream into reads makes no difference: as long as no line is longer
  than the engine holds, handling the reads one by one is handling every complete line of the stream
  once, whole and in order, with the unfinished line at the end kept for later.
\<close>

theorem reads_split_anywhere:
  assumes "buffer_ok c" "runs = split_on nl (cl_partial c @ concat reads)"
    "list_all (\<lambda>run. length run \<le> MAX_INBOUND_LINE) runs"
  shows "fold (handle_bytes e) reads c
    = (fold (\<lambda>line. handle_line e (line @ [nl])) (butlast runs) c)\<lparr>cl_partial := last runs\<rparr>"
proof -
  have "fold (handle_bytes e) reads c = rebuffer (last runs) (fold (take_line e) (butlast runs) c)"
    using assms
  proof (induction reads arbitrary: c runs)
    case Nil
    then show ?case
      by (simp add: buffer_ok_def split_on_free)
  next
    case (Cons a reads)
    let ?r = "last (split_on nl (cl_partial c @ a))"
    let ?c = "rebuffer ?r (fold (take_line e) (butlast (split_on nl (cl_partial c @ a))) c)"
    have runs: "runs = butlast (split_on nl (cl_partial c @ a)) @ split_on nl (?r @ concat reads)"
      using split_on_snoc_append [of nl "cl_partial c @ a" "concat reads"] Cons.prems(2) by simp
    obtain t where "hd (split_on nl (?r @ concat reads)) = ?r @ t"
      using split_on_extends [OF last_split_on_free] by blast
    moreover have "length (hd (split_on nl (?r @ concat reads))) \<le> MAX_INBOUND_LINE"
      using Cons.prems(3) runs hd_in_set [OF split_on_not_Nil] by (simp add: list_all_iff)
    ultimately have c: "handle_bytes e a c = ?c"
      by (simp add: handle_bytes_def bytes_loop_lines settle_rest_def)
    have "fold (handle_bytes e) reads ?c = rebuffer (last (split_on nl (?r @ concat reads)))
        (fold (take_line e) (butlast (split_on nl (?r @ concat reads))) ?c)"
      using Cons.prems(3) runs handle_bytes_buffer [of e a c]
      by (intro Cons.IH) (simp_all add: c)
    then show ?case
      by (simp add: c runs fold_blind blind butlast_append)
  qed
  then show ?thesis
    by (simp add: rebuffer_def take_line_def [abs_def])
qed

theorem reads_split_anywhere_witness:
  "fold (handle_bytes sample_externals) [''PIN'', ''G :a'' @ [nl] @ ''PI'', ''NG''] (client_new (config_new ''me''))
     = (handle_line sample_externals (''PING :a'' @ [nl]) (client_new (config_new ''me'')))\<lparr>cl_partial := ''PING''\<rparr>"
proof -
  have p: "cl_partial (client_new (config_new ''me'')) = []" "buffer_ok (client_new (config_new ''me''))"
    using client_new_sound by (simp_all add: client_new_def Let_def)
  from reads_split_anywhere [OF p(2) refl, of "[''PIN'', ''G :a'' @ [nl] @ ''PI'', ''NG'']" sample_externals]
  show ?thesis by (simp add: p MAX_INBOUND_LINE_def MAX_TAG_BYTES_def MAX_LINE_BYTES_def)
qed

text \<open>What is held of an unfinished line after more reads of it, and how often it outgrew the bound.\<close>

fun held_of :: "string \<Rightarrow> string list \<Rightarrow> string" where
  "held_of held [] = held"
| "held_of held (d # ds) = (if length (held @ d) > MAX_INBOUND_LINE then held_of [] ds else held_of (held @ d) ds)"

fun overflows :: "string \<Rightarrow> string list \<Rightarrow> nat" where
  "overflows held [] = 0"
| "overflows held (d # ds) = (if length (held @ d) > MAX_INBOUND_LINE then Suc (overflows [] ds) else overflows (held @ d) ds)"

lemma drop_line_pow:
  "(drop_line ^^ n) (c\<lparr>cl_partial := p, cl_discarding := b\<rparr>) = ((drop_line ^^ n) c)\<lparr>cl_partial := p, cl_discarding := b\<rparr>"
  "(drop_line ^^ n) (c\<lparr>cl_partial := p\<rparr>) = ((drop_line ^^ n) c)\<lparr>cl_partial := p\<rparr>"
  "cl_partial ((drop_line ^^ n) c) = cl_partial c" "cl_discarding ((drop_line ^^ n) c) = cl_discarding c"
  by (induction n) (simp_all add: drop_line_def)

lemma unfinished_reads:
  assumes "nl \<notin> set (cl_partial c @ concat reads)"
  shows "fold (handle_bytes e) reads c
    = ((drop_line ^^ overflows (cl_partial c) reads) c)\<lparr>cl_partial := held_of (cl_partial c) reads,
         cl_discarding := cl_discarding c \<or> 0 < overflows (cl_partial c) reads\<rparr>"
  using assms
proof (induction reads arbitrary: c)
  case Nil
  then show ?case by simp
next
  case (Cons d reads)
  have step: "handle_bytes e d c = (if length (cl_partial c @ d) > MAX_INBOUND_LINE
      then drop_line (c\<lparr>cl_partial := [], cl_discarding := True\<rparr>) else c\<lparr>cl_partial := cl_partial c @ d\<rparr>)"
    using Cons.prems by (simp add: handle_bytes_def bytes_loop.simps [of e "cl_partial c @ d"] split_once_None)
  have "(drop_line ^^ n) (drop_line c) = drop_line ((drop_line ^^ n) c)" for n
    by (simp add: funpow_swap1)
  moreover have "drop_line (c\<lparr>cl_partial := p, cl_discarding := b\<rparr>) = (drop_line c)\<lparr>cl_partial := p, cl_discarding := b\<rparr>" for c p b
    by (simp add: drop_line_def)
  moreover have "c\<lparr>cl_partial := p\<rparr> = c\<lparr>cl_partial := p, cl_discarding := cl_discarding c\<rparr>" for c :: client and p
    by simp
  ultimately show ?case
    using Cons.IH [of "handle_bytes e d c"] Cons.prems
    by (auto simp: step drop_line_pow)
qed

text \<open>
  C14: a line that outgrows what the engine holds before its end arrives, in however many reads, is lost as
  a whole: the rest of it is skipped up to its line feed, and what follows is handled as if the line had
  never come. It is counted once for every time that what is held of it outgrows the bound, so a line
  long enough is counted more than once. The same bytes arriving in one read with the line feed are
  handled as a line, however long (or skipped, if they end a line that was being dropped before).
\<close>

theorem oversized_line_dropped:
  assumes "nl \<notin> set (cl_partial c @ concat reads @ b)" "0 < overflows (cl_partial c) reads"
  shows "handle_bytes e (b @ nl # rest) (fold (handle_bytes e) reads c)
      = handle_bytes e rest ((drop_line ^^ overflows (cl_partial c) reads) (c\<lparr>cl_partial := [], cl_discarding := False\<rparr>))
    \<and> handle_bytes e (concat reads @ b @ nl # rest) c
      = handle_bytes e rest ((handle_line e (cl_partial c @ concat reads @ b @ [nl]) c)\<lparr>cl_partial := []\<rparr>)"
proof -
  let ?n = "overflows (cl_partial c) reads" and ?held = "held_of (cl_partial c) reads"
  let ?d = "((drop_line ^^ ?n) c)\<lparr>cl_partial := ?held, cl_discarding := True\<rparr>"
  have reads: "fold (handle_bytes e) reads c = ?d"
    using unfinished_reads [of c reads e] assms by simp
  have "nl \<in> set p \<or> nl \<in> set (concat ds)" if "nl \<in> set (held_of p ds)" for p ds
    using that by (induction ds arbitrary: p) (fastforce split: if_splits)+
  then have "nl \<notin> set (?held @ b)"
    using assms(1) by auto
  then have "split_once nl (?held @ b @ nl # rest) = Some (?held @ b, rest)"
    using split_once_append [of nl "?held @ b" rest] by simp
  then have skipped: "handle_bytes e (b @ nl # rest) ?d = bytes_loop e rest (?d\<lparr>cl_discarding := False\<rparr>)"
    by (simp add: handle_bytes_def bytes_loop.simps [of e "?held @ b @ nl # rest"] handle_line_def)
  have eq: "?d\<lparr>cl_discarding := False\<rparr> = rebuffer ?held ((drop_line ^^ ?n) (c\<lparr>cl_partial := [], cl_discarding := False\<rparr>))"
    by (simp add: drop_line_pow rebuffer_def)
  have "bytes_loop e rest (?d\<lparr>cl_discarding := False\<rparr>)
      = bytes_loop e rest ((drop_line ^^ ?n) (c\<lparr>cl_partial := [], cl_discarding := False\<rparr>))"
    unfolding eq by simp
  then have first: "handle_bytes e (b @ nl # rest) (fold (handle_bytes e) reads c)
      = handle_bytes e rest ((drop_line ^^ ?n) (c\<lparr>cl_partial := [], cl_discarding := False\<rparr>))"
    unfolding reads skipped by (simp add: handle_bytes_def drop_line_pow)
  have "split_once nl (cl_partial c @ concat reads @ b @ nl # rest) = Some (cl_partial c @ concat reads @ b, rest)"
    using assms(1) split_once_append [of nl "cl_partial c @ concat reads @ b" rest] by simp
  then have "handle_bytes e (concat reads @ b @ nl # rest) c = bytes_loop e rest (handle_line e (cl_partial c @ concat reads @ b @ [nl]) c)"
    by (simp add: handle_bytes_def bytes_loop.simps [of e "cl_partial c @ concat reads @ b @ nl # rest"])
  also have "\<dots> = handle_bytes e rest ((handle_line e (cl_partial c @ concat reads @ b @ [nl]) c)\<lparr>cl_partial := []\<rparr>)"
    by (simp add: handle_bytes_def rebuffer_def [symmetric])
  finally show ?thesis
    using first by simp
qed

theorem oversized_line_dropped_witness:
  "cl_dropped_lines (handle_bytes sample_externals [nl] (fold (handle_bytes sample_externals)
     [replicate 8704 (CHR ''x''), replicate 8704 (CHR ''x'')] (client_new (config_new ''me'')))) = 2"
proof -
  have p: "cl_partial (client_new (config_new ''me'')) = []" "cl_dropped_lines (client_new (config_new ''me'')) = 0"
    by (simp_all add: client_new_def Let_def)
  have two: "overflows (cl_partial (client_new (config_new ''me''))) [replicate 8704 (CHR ''x''), replicate 8704 (CHR ''x'')] = 2"
    by (simp add: p MAX_INBOUND_LINE_def MAX_TAG_BYTES_def MAX_LINE_BYTES_def)
  have "handle_bytes sample_externals [nl] (fold (handle_bytes sample_externals)
      [replicate 8704 (CHR ''x''), replicate 8704 (CHR ''x'')] (client_new (config_new ''me'')))
    = handle_bytes sample_externals [] ((drop_line ^^ 2) ((client_new (config_new ''me''))\<lparr>cl_partial := [], cl_discarding := False\<rparr>))"
    using oversized_line_dropped [of "client_new (config_new ''me'')" "[replicate 8704 (CHR ''x''), replicate 8704 (CHR ''x'')]" "[]"
      sample_externals "[]", unfolded two] by (simp add: p del: fold.simps)
  moreover have "(drop_line ^^ 2) c = drop_line (drop_line c)" for c
    by (simp add: numeral_2_eq_2)
  ultimately show ?thesis
    by (simp only:) (simp add: p handle_bytes_def bytes_loop.simps [of _ "[]"] drop_line_def
        saturating_add_def u64_max_def)
qed

section \<open>Every run\<close>

text \<open>
  C1: whatever the host does and whatever the server sends, in whatever order and cut up in whatever
  way, every component of the connection keeps its invariant: the model (logs within the retention and
  exactly indexed, counts within 32 bits, members known), the timers, the labels, the bounded batches,
  the capabilities, the watch list, the channel keys and the voice rooms; nothing is subscribed to
  twice; no bot but one of the server's configuration offers a reserved command; and the buffer holds at
  most one unfinished line. The model's sequence numbers must not run out.
\<close>

theorem connection_stays_sound:
  assumes "sum_list (map input_cost inputs) \<le> u64_max" "c = fold (client_step e) inputs (client_new config)"
  shows "client_sound c \<and> buffer_ok c"
  using client.run_invar [of "client_new config" inputs e] client_new_sound [of config] assms by simp

theorem connection_stays_sound_witness:
  "client_sound (fold (client_step sample_externals)
     [Connected, Read (''PING :x'' @ [nl]), Ask (SendMessage ''#a'' ''hi''), Lost] (client_new (config_new ''me'')))"
  using connection_stays_sound [OF _ refl,
      of "[Connected, Read (''PING :x'' @ [nl]), Ask (SendMessage ''#a'' ''hi''), Lost]" sample_externals "config_new ''me''"]
  by (simp add: DEFAULT_MAX_BUFFERED_def u64_max_def)

end
