(* ===== verification/Client_Registration.thy ===== *)
theory Client_Registration
  imports Client_Run
begin

text \<open>
  Registration as a state machine: an abstract machine over the phase and the state of the SASL
  exchange (\<open>line_step\<close> for a line, \<open>input_step\<close> for an input of the host), and the proof that every
  line the engine handles is at most one step of it, so that an exchange goes through its stages in order
  and is not opened twice on one connection.
\<close>

section \<open>The abstract machine\<close>

type_synonym registration = "phase \<times> sasl_state"

text \<open>
  What one line may do: nothing, one step of the exchange, or the end of a phase. Negotiation ends with
  no exchange open, which may be in the very line that settles it.
\<close>

inductive line_step :: "registration \<Rightarrow> registration \<Rightarrow> bool" where
  stay: "line_step (p, s) (p, s)"
| welcome_nick: "line_step (p, s) (Registered, s)"
| offer: "line_step (Negotiating, Idle) (Negotiating, Offered)"
| respond: "line_step (p, Offered) (p, Responded)"
| challenge: "line_step (p, Offered) (p, ScramChallenged)"
| prove: "line_step (p, ScramChallenged) (p, ScramProved)"
| verify: "line_step (p, ScramProved) (p, Responded)"
| settle: "line_step (p, s) (p, Settled)"
| cap_end: "\<not> in_flight s \<Longrightarrow> line_step (Negotiating, s) (Registering, s)"
| settle_end: "line_step (Negotiating, s) (Registering, Settled)"

inductive_cases line_stepE: "line_step r r'"

declare line_step.intros [intro]

text \<open>What one input of the host may do: only the loss of the connection takes the exchange back.\<close>

fun input_step :: "input \<Rightarrow> registration \<Rightarrow> registration \<Rightarrow> bool" where
  "input_step Connected r r' \<longleftrightarrow> r' = (Negotiating, snd r)"
| "input_step Lost r r' \<longleftrightarrow> r' = (Disconnected, Idle)"
| "input_step (Read data) r r' \<longleftrightarrow> line_step\<^sup>*\<^sup>* r r'"
| "input_step _ r r' \<longleftrightarrow> r' = r"

text \<open>How far an exchange has got.\<close>

fun sasl_rank :: "sasl_state \<Rightarrow> nat" where
  "sasl_rank Idle = 0"
| "sasl_rank Offered = 1"
| "sasl_rank ScramChallenged = 2"
| "sasl_rank ScramProved = 3"
| "sasl_rank Responded = 4"
| "sasl_rank Settled = 5"

lemma in_flight_simps [simp]:
  "\<not> in_flight Idle" "\<not> in_flight Settled" "in_flight Offered" "in_flight Responded" "in_flight ScramChallenged"
  "in_flight ScramProved"
  by (simp_all add: in_flight_def)

lemma sasl_rank_settled: "sasl_rank s \<le> sasl_rank Settled"
  by (cases s) simp_all

lemma line_step_rank: "line_step r r' \<Longrightarrow> sasl_rank (snd r) \<le> sasl_rank (snd r')"
  by (induction rule: line_step.induct) (use sasl_rank_settled in auto)

lemma input_step_rank:
  assumes "input_step i r r'" "i \<noteq> Lost"
  shows "sasl_rank (snd r) \<le> sasl_rank (snd r')"
proof -
  have "sasl_rank (snd r) \<le> sasl_rank (snd r')" if "line_step\<^sup>*\<^sup>* r r'"
    using that by (induction rule: rtranclp_induct) (auto dest: line_step_rank)
  then show ?thesis
    using assms by (cases i) auto
qed

text \<open>The registration lines are only sent with no exchange open.\<close>

definition reg_ok :: "registration \<Rightarrow> bool" where
  "reg_ok r \<longleftrightarrow> fst r = Registering \<longrightarrow> \<not> in_flight (snd r)"

lemma line_step_ok: "line_step r r' \<Longrightarrow> reg_ok r \<Longrightarrow> reg_ok r'"
  by (induction rule: line_step.induct) (auto simp: reg_ok_def)

lemma input_step_ok:
  assumes "input_step i r r'" "reg_ok r"
  shows "reg_ok r'"
proof -
  have "reg_ok r'" if "line_step\<^sup>*\<^sup>* r r'"
    using that assms(2) by (induction rule: rtranclp_induct) (auto dest: line_step_ok)
  then show ?thesis
    using assms by (cases i) (auto simp: reg_ok_def)
qed

section \<open>The engine's state of it\<close>

definition reg_of :: "client \<Rightarrow> registration" where
  "reg_of c = (cl_phase c, cl_sasl c)"

text \<open>During a SCRAM exchange the engine holds its state.\<close>

definition scram_held :: "client \<Rightarrow> bool" where
  "scram_held c \<longleftrightarrow> cl_sasl c = ScramChallenged \<or> cl_sasl c = ScramProved \<longrightarrow> cl_scram c \<noteq> None"

text \<open>One operation on a line: at most one step of the machine, which keeps the SCRAM state where it is needed.\<close>

definition registers :: "client \<Rightarrow> client \<Rightarrow> bool" where
  "registers c c' \<longleftrightarrow> line_step (reg_of c) (reg_of c') \<and> (scram_held c \<longrightarrow> scram_held c')"

lemma registers_still:
  "cl_phase c' = cl_phase c \<Longrightarrow> cl_sasl c' = cl_sasl c \<Longrightarrow> cl_scram c' = cl_scram c \<Longrightarrow> registers c c'"
  by (auto simp: registers_def reg_of_def scram_held_def)

lemma registers_refl [simp, intro]: "registers c c"
  by (rule registers_still) simp_all

lemma registers_step: "line_step (reg_of c) (reg_of c') \<Longrightarrow> (scram_held c \<Longrightarrow> scram_held c') \<Longrightarrow> registers c c'"
  by (simp add: registers_def)

text \<open>Nothing below the registration code touches it.\<close>

definition reg_fields :: "client \<Rightarrow> phase \<times> sasl_state \<times> scram option" where
  "reg_fields c = (cl_phase c, cl_sasl c, cl_scram c)"

lemma registers_same: "reg_fields c' = reg_fields c \<Longrightarrow> registers c c'"
  by (simp add: reg_fields_def registers_still)

lemma reg_fields_basic [simp]:
  "reg_fields (send_line m c) = reg_fields c" "reg_fields (push_event ev c) = reg_fields c"
  "reg_fields (client_fold e m historical c) = reg_fields c" "reg_fields (arm_keepalive c) = reg_fields c"
  "reg_fields (c\<lparr>cl_nick := nick\<rparr>) = reg_fields c" "reg_fields (c\<lparr>cl_model := md\<rparr>) = reg_fields c"
  "reg_fields (c\<lparr>cl_labels := lb\<rparr>) = reg_fields c" "reg_fields (c\<lparr>cl_batches := bs\<rparr>) = reg_fields c"
  "reg_fields (c\<lparr>cl_timers := tm\<rparr>) = reg_fields c" "reg_fields (c\<lparr>cl_caps := cp\<rparr>) = reg_fields c"
  "reg_fields (c\<lparr>cl_partial := p\<rparr>) = reg_fields c" "reg_fields (c\<lparr>cl_discarding := b\<rparr>) = reg_fields c"
  "reg_fields (drop_line c) = reg_fields c" "reg_fields (isupport_token token c) = reg_fields c"
  "reg_fields (monitor_target online target c) = reg_fields c" "reg_fields (rejoin entry c) = reg_fields c"
  "reg_fields (snd (handle_typing m c)) = reg_fields c" "reg_fields (snd (handle_standard_reply severity m c)) = reg_fields c"
  "reg_fields (handle_nick_refused m c) = reg_fields c" "reg_fields (tick_deadline now d c) = reg_fields c"
  "reg_fields (send_labeled m c) = reg_fields c"
  "reg_fields (snd (handle_rtc m c)) = reg_fields c" "reg_fields (snd (handle_bot_tags e m c)) = reg_fields c"
  "reg_fields (snd (handle_token m c)) = reg_fields c" "reg_fields (handle_cmdslist m c) = reg_fields c"
  by (simp_all add: reg_fields_def arm_keepalive_def drop_line_def isupport_token_def monitor_target_def rejoin_def
      handle_typing_def handle_standard_reply_def handle_nick_refused_def tick_deadline_def expire_typing_def
      send_line_labeled_def Let_def case_prod_unfold split: option.split deadline.split)

lemma reg_fields_folds [simp]:
  "reg_fields (drain_batch e closed c) = reg_fields c" "reg_fields (handle_monitor m c) = reg_fields c"
  "reg_fields (handle_isupport m c) = reg_fields c" "reg_fields (resume c) = reg_fields c"
  "reg_fields (tick now c) = reg_fields c" "reg_fields (set_watching nicks watching c) = reg_fields c"
  "reg_fields (send_sasl e payload c) = reg_fields c"
  by (simp_all add: drain_batch_def handle_monitor_def handle_isupport_def resume_def tick_def set_watching_def send_sasl_def
      Let_def case_prod_unfold fold_field [where field = reg_fields] split: option.split) (simp_all add: reg_fields_def)

lemma reg_fields_batch [simp]: "reg_fields (handle_batch e m c) = reg_fields c"
  by (simp add: handle_batch_def Let_def case_prod_unfold split: option.split)

lemma reg_fields_command [simp]: "reg_fields (client_command e command c) = reg_fields c"
  by (simp add: client_command_def say_def Let_def split: command.split option.split) (simp add: reg_fields_def)

section \<open>The operations that move it\<close>

lemma start_sasl_fields:
  "cl_phase (snd (start_sasl_if_wanted c)) = cl_phase c" "cl_caps (snd (start_sasl_if_wanted c)) = cl_caps c"
  "cl_scram (snd (start_sasl_if_wanted c)) = cl_scram c" "cl_config (snd (start_sasl_if_wanted c)) = cl_config c"
  by (simp_all add: start_sasl_if_wanted_def split: option.split)

lemma start_sasl_state:
  "cl_sasl (snd (start_sasl_if_wanted c)) = cl_sasl c
   \<or> cl_sasl c = Idle \<and> (if fst (start_sasl_if_wanted c) then cl_sasl (snd (start_sasl_if_wanted c)) = Offered
        else cl_sasl (snd (start_sasl_if_wanted c)) = Settled)"
  by (simp add: start_sasl_if_wanted_def split: option.split)

lemma finish_negotiation_registers: "registers c (finish_negotiation_if_settled c)"
proof (cases "cl_phase c = Negotiating \<and> caps_settled (cl_caps c)")
  case True
  then show ?thesis
    using start_sasl_state [of c]
    by (intro registers_step)
      (auto simp: finish_negotiation_if_settled_def Let_def case_prod_unfold reg_of_def scram_held_def start_sasl_fields
        split: if_splits)
qed (simp add: finish_negotiation_if_settled_def)

lemma finish_negotiation_after:
  assumes "cl_sasl c = Settled"
  shows "cl_sasl (finish_negotiation_if_settled c) = Settled"
    "cl_phase (finish_negotiation_if_settled c) = cl_phase c
     \<or> cl_phase c = Negotiating \<and> cl_phase (finish_negotiation_if_settled c) = Registering"
  using assms by (simp_all add: finish_negotiation_if_settled_def start_sasl_if_wanted_def)

lemma registers_via: "reg_fields c' = reg_fields c \<Longrightarrow> registers c' d \<Longrightarrow> registers c d"
  by (simp add: registers_def reg_of_def scram_held_def reg_fields_def)

lemma registers_after: "registers c d \<Longrightarrow> reg_fields d' = reg_fields d \<Longrightarrow> registers c d'"
  by (simp add: registers_def reg_of_def scram_held_def reg_fields_def)

lemma registers_queues [simp]:
  "registers c (send_line m d) = registers c d" "registers c (push_event ev d) = registers c d"
  "registers c (send_sasl e payload d) = registers c d"
  by (auto elim!: registers_after)

lemma request_wanted_registers: "registers c (request_wanted c)"
  by (simp add: request_wanted_def Let_def finish_negotiation_registers fold_field [where field = reg_fields] registers_same)

lemma handle_cap_registers: "registers c (handle_cap m c)"
  by (auto simp: handle_cap_def Let_def case_prod_unfold split: option.split
      intro: registers_via [OF _ request_wanted_registers] registers_via [OF _ finish_negotiation_registers] registers_same)

text \<open>However an exchange is settled, no SCRAM state is needed any more.\<close>

lemma finish_sasl_registers: "registers c (finish_sasl failure c)"
proof (cases "cl_sasl c = Settled")
  case False
  define d where "d = (case failure of Some reason \<Rightarrow> push_event (SaslFailed reason) (c\<lparr>cl_sasl := Settled\<rparr>)
      | None \<Rightarrow> c\<lparr>cl_sasl := Settled\<rparr>)"
  have d: "cl_phase d = cl_phase c" "cl_sasl d = Settled"
    by (simp_all add: d_def split: option.split)
  have "finish_sasl failure c = finish_negotiation_if_settled d"
    using False by (simp add: finish_sasl_def Let_def d_def)
  then show ?thesis
    using finish_negotiation_after [OF d(2)] d(1)
    by (intro registers_step) (auto simp: reg_of_def scram_held_def)
qed (simp add: finish_sasl_def)

lemma begin_sasl_registers:
  assumes "cl_sasl c = Offered"
  shows "registers c (begin_sasl_response e c)"
proof -
  have "registers c (c\<lparr>cl_scram := Some scram, cl_sasl := ScramChallenged\<rparr>)" "registers c (c\<lparr>cl_sasl := Responded\<rparr>)" for scram
    using assms by (auto intro!: registers_step simp: reg_of_def scram_held_def)
  then show ?thesis
    by (simp add: begin_sasl_response_def Let_def split: option.split credentials.split)
qed

lemma finish_sasl_registers_scram:
  "registers c (finish_sasl failure (c\<lparr>cl_scram := scram\<rparr>))"
proof -
  have "cl_sasl (finish_sasl failure (c\<lparr>cl_scram := scram\<rparr>)) = Settled"
    by (simp add: finish_sasl_def Let_def finish_negotiation_after(1) split: option.split)
  then show ?thesis
    using finish_sasl_registers [of "c\<lparr>cl_scram := scram\<rparr>" failure]
    by (simp add: registers_def reg_of_def scram_held_def)
qed

lemma answer_scram_registers:
  assumes "cl_sasl c = ScramChallenged"
  shows "registers c (answer_scram_challenge e challenge c)"
proof (cases "cl_scram c")
  case (Some scram)
  obtain answer scram' where final: "client_final e challenge scram = (answer, scram')"
    by fastforce
  have "registers c (c\<lparr>cl_scram := Some scram', cl_sasl := ScramProved\<rparr>)"
    using assms by (intro registers_step) (auto simp: reg_of_def scram_held_def)
  then show ?thesis
    using finish_sasl_registers_scram [where c = c and scram = "Some scram'" and failure = "Some Rejected"] assms
    by (auto simp: answer_scram_challenge_def Some final Let_def split: sum.split intro: registers_after)
qed (simp add: answer_scram_challenge_def finish_sasl_registers)

lemma verify_scram_registers:
  assumes "cl_sasl c = ScramProved"
  shows "registers c (verify_scram_server e challenge c)"
proof (cases "cl_scram c")
  case (Some scram)
  have "registers c (c\<lparr>cl_scram := None, cl_sasl := Responded\<rparr>)"
    using assms by (intro registers_step) (auto simp: reg_of_def scram_held_def)
  then show ?thesis
    using finish_sasl_registers_scram [where c = c and scram = None and failure = "Some ServerNotVerified"] assms
    by (auto simp: verify_scram_server_def Some split: sum.split intro: registers_after)
qed (simp add: verify_scram_server_def finish_sasl_registers)

lemma handle_authenticate_registers: "registers c (handle_authenticate e m c)"
  by (simp add: handle_authenticate_def finish_sasl_registers begin_sasl_registers answer_scram_registers
      verify_scram_registers split: option.split sasl_state.split)

lemma handle_welcome_registers: "registers c (handle_welcome m c)"
proof -
  have "registers c (c\<lparr>cl_phase := Registered\<rparr>)"
    by (intro registers_step) (auto simp: reg_of_def scram_held_def)
  then show ?thesis
    by (rule registers_after) (simp add: handle_welcome_def Let_def split: option.split)
qed

lemma handle_rest_registers: "registers c (handle_rest e m c)"
  by (simp add: handle_rest_def Let_def case_prod_unfold handle_authenticate_registers finish_sasl_registers
      registers_same split: option.split)

lemma handle_message_registers: "registers c (handle_message e m c)"
proof -
  have "registers (received m c) (handle_message e m c)"
    by (rule handle_message_cases)
      (simp_all add: handle_cap_registers handle_welcome_registers handle_rest_registers registers_same)
  then show ?thesis
    by (rule registers_via [rotated]) (simp add: received_def)
qed

section \<open>Inputs\<close>

text \<open>An input, whose lines may be many steps.\<close>

definition input_registers :: "input \<Rightarrow> client \<Rightarrow> client \<Rightarrow> bool" where
  "input_registers i c c' \<longleftrightarrow> input_step i (reg_of c) (reg_of c') \<and> (scram_held c \<longrightarrow> scram_held c')"

lemma take_line_registers: "registers c (take_line e line c)"
  by (simp add: take_line_def handle_line_def handle_message_registers registers_same split: sum.split)

lemma take_lines_register:
  "line_step\<^sup>*\<^sup>* (reg_of c) (reg_of (fold (take_line e) lines c)) \<and> (scram_held c \<longrightarrow> scram_held (fold (take_line e) lines c))"
proof (induction lines rule: rev_induct)
  case (snoc line lines)
  then show ?case
    using take_line_registers [of "fold (take_line e) lines c" e line]
    by (auto simp: registers_def intro: rtranclp.rtrancl_into_rtrancl)
qed simp

lemma handle_bytes_registers: "input_registers (Read data) c (handle_bytes e data c)"
proof -
  have "reg_fields (settle_rest rest c) = reg_fields c" for rest c
    by (simp add: settle_rest_def rebuffer_def)
  then have "reg_of (settle_rest rest c) = reg_of c" "scram_held (settle_rest rest c) = scram_held c" for rest c
    by (simp_all add: reg_fields_def reg_of_def scram_held_def)
  then show ?thesis
    unfolding handle_bytes_def bytes_loop_lines using take_lines_register by (simp add: input_registers_def)
qed

lemma input_registers_same:
  "reg_fields c' = reg_fields c \<Longrightarrow> input_step i (reg_of c) (reg_of c) \<Longrightarrow> input_registers i c c'"
  by (simp add: input_registers_def reg_fields_def reg_of_def scram_held_def)

lemma handle_connected_fields: "reg_fields (handle_connected c) = (Negotiating, cl_sasl c, cl_scram c)"
  by (simp add: handle_connected_def arm_keepalive_def Let_def reg_fields_def split: option.split)

lemma handle_disconnected_fields: "reg_fields (handle_disconnected c) = (Disconnected, Idle, cl_scram c)"
  by (simp add: handle_disconnected_def Let_def case_prod_unfold reg_fields_def split: option.split)

lemma client_step_registers: "input_registers i c (client_step e i c)"
proof (cases i)
  case Connected
  then show ?thesis
    using handle_connected_fields [of c] by (simp add: input_registers_def reg_fields_def reg_of_def scram_held_def)
next
  case Lost
  then show ?thesis
    using handle_disconnected_fields [of c] by (simp add: input_registers_def reg_fields_def reg_of_def scram_held_def)
next
  case (Read data)
  then show ?thesis by (simp add: handle_bytes_registers)
qed (auto intro!: input_registers_same simp: poll_transmit_def poll_event_def reg_fields_def [of "_\<lparr>cl_outbox := _\<rparr>"]
    reg_fields_def [of "_\<lparr>cl_events := _\<rparr>"] reg_fields_def [of c] split: list.split)

text \<open>What a run keeps, as an invariant of the client.\<close>

definition reg_sound :: "client \<Rightarrow> bool" where
  "reg_sound c \<longleftrightarrow> reg_ok (reg_of c) \<and> scram_held c"

interpretation registration: stepped_component "client_step e" reg_sound for e
proof
  fix c i
  assume "reg_sound c"
  then show "reg_sound (client_step e i c)"
    using client_step_registers [of i c e] input_step_ok [of i "reg_of c"] by (auto simp: reg_sound_def input_registers_def)
qed

lemma run_rank: "Lost \<notin> set inputs \<Longrightarrow> sasl_rank (cl_sasl c) \<le> sasl_rank (cl_sasl (fold (client_step e) inputs c))"
proof (induction inputs arbitrary: c)
  case (Cons i inputs)
  have "sasl_rank (cl_sasl c) \<le> sasl_rank (cl_sasl (client_step e i c))"
    using client_step_registers [of i c e] input_step_rank [of i "reg_of c" "reg_of (client_step e i c)"] Cons.prems
    by (auto simp: input_registers_def reg_of_def)
  also have "\<dots> \<le> sasl_rank (cl_sasl (fold (client_step e) inputs (client_step e i c)))"
    using Cons by simp
  finally show ?case by simp
qed simp

text \<open>
  C2: however the host and the server behave, each line moves the phase and the SASL state by at most one
  step of the abstract machine: an exchange opens only while negotiating and from idle; then comes the
  response, or for SCRAM the challenge, the proof and the check of the server, none of them skipped; it
  can be settled at any point. Of the inputs of the host only a read moves it line by line, and only the
  loss of the connection takes it back: until then it never returns to a stage it has left, so it is not
  opened twice. Negotiation is left for registration only with no exchange open, and a SCRAM challenge
  always finds the state it is about.
\<close>

theorem registration_refines_machine:
  assumes "c = fold (client_step e) inputs (client_new config)" "Lost \<notin> set later"
  shows "line_step (reg_of c) (reg_of (handle_message e m c))
    \<and> input_step i (reg_of c) (reg_of (client_step e i c))
    \<and> sasl_rank (cl_sasl c) \<le> sasl_rank (cl_sasl (fold (client_step e) later c))
    \<and> reg_ok (reg_of c) \<and> scram_held c"
proof -
  have "reg_sound (client_new config)"
    by (simp add: client_new_def reg_sound_def reg_of_def reg_ok_def scram_held_def Let_def)
  then have "reg_sound c"
    unfolding assms(1) by (rule registration.run_invar)
  then show ?thesis
    using handle_message_registers [of c e m] client_step_registers [of i c e] run_rank [OF assms(2), of c e]
    by (simp add: registers_def input_registers_def reg_sound_def)
qed

theorem registration_refines_machine_witness:
  "reg_of (fold (client_step sample_externals) [Connected] (client_new (config_new ''me''))) = (Negotiating, Idle)
   \<and> line_step (Negotiating, Idle) (reg_of (handle_message sample_externals (message_new ''903'' [])
        (fold (client_step sample_externals) [Connected] (client_new (config_new ''me'')))))"
proof -
  have start: "reg_of (fold (client_step sample_externals) [Connected] (client_new (config_new ''me''))) = (Negotiating, Idle)"
    using handle_connected_fields [of "client_new (config_new ''me'')"]
    by (simp add: reg_of_def reg_fields_def) (simp add: client_new_def Let_def)
  show ?thesis
    using registration_refines_machine [OF refl, of "[]" sample_externals "[Connected]" "config_new ''me''"] start by auto
qed

end
