(* ===== verification/Client_Wire.thy ===== *)
theory Client_Wire
  imports Client_Registration
begin

text \<open>
  What the engine writes: when \<open>CAP END\<close> goes out, what a PING is answered with, how a refused nick
  is retried, what a reconnect resumes, and how a line of the host travels.
\<close>

section \<open>CAP END\<close>

definition cap_end_line :: string where
  "cap_end_line = ''CAP END'' @ [cr, nl]"

text \<open>How often the engine has asked the server to end negotiation, among the lines still queued.\<close>

definition cap_ends :: "client \<Rightarrow> nat" where
  "cap_ends c = count_list (cl_outbox c) cap_end_line"

lemma message_display_new [simp]: "message_display (message_new command ps) = command @ params_display ps"
  by (simp add: message_display_def message_new_def)

lemma cap_ends_send [simp]:
  "cap_ends (send_line m c) = cap_ends c + (if message_display m @ [cr, nl] = cap_end_line then 1 else 0)"
  by (simp add: cap_ends_def)

text \<open>The phase and the count, which most of the engine leaves alone.\<close>

definition ends_view :: "client \<Rightarrow> phase \<times> nat" where
  "ends_view c = (cl_phase c, cap_ends c)"

lemma ends_view_push [simp]: "ends_view (push_event ev c) = ends_view c"
  by (simp add: ends_view_def cap_ends_def)

lemma ends_view_send [simp]: "message_display m @ [cr, nl] \<noteq> cap_end_line \<Longrightarrow> ends_view (send_line m c) = ends_view c"
  by (simp add: ends_view_def)

lemma ends_view_updates [simp]:
  "ends_view (c\<lparr>cl_caps := cp\<rparr>) = ends_view c" "ends_view (c\<lparr>cl_sasl := ss\<rparr>) = ends_view c"
  "ends_view (c\<lparr>cl_scram := sc\<rparr>) = ends_view c" "ends_view (c\<lparr>cl_model := md\<rparr>) = ends_view c"
  "ends_view (c\<lparr>cl_latest_ms := t\<rparr>) = ends_view c" "ends_view (c\<lparr>cl_channel_keys := ks\<rparr>) = ends_view c"
  "ends_view (c\<lparr>cl_nick := nick\<rparr>) = ends_view c" "ends_view (c\<lparr>cl_nick_attempt := n\<rparr>) = ends_view c"
  "ends_view (c\<lparr>cl_timers := tm\<rparr>) = ends_view c" "ends_view (c\<lparr>cl_monitor := mo\<rparr>) = ends_view c"
  "ends_view (c\<lparr>cl_batches := bs\<rparr>) = ends_view c" "ends_view (c\<lparr>cl_labels := lb\<rparr>) = ends_view c"
  "ends_view (c\<lparr>cl_isupport := iu\<rparr>) = ends_view c" "ends_view (c\<lparr>cl_rooms := vr\<rparr>) = ends_view c"
  "ends_view (c\<lparr>cl_phase := ph\<rparr>) = (ph, snd (ends_view c))"
  by (simp_all add: ends_view_def cap_ends_def)

lemma ends_view_follow [simp]: "ends_view (follow_change ch c) = ends_view c"
  by (simp add: follow_change_def request_who_def cap_end_line_def Let_def split: change.split option.split)

lemma ends_view_client_fold [simp]: "ends_view (client_fold e m historical c) = ends_view c"
  by (simp add: client_fold_def Let_def case_prod_unfold fold_field [where field = ends_view])

lemma ends_view_lines [simp]:
  "ends_view (arm_keepalive c) = ends_view c" "ends_view (isupport_token token c) = ends_view c"
  "ends_view (monitor_target online target c) = ends_view c" "ends_view (rejoin entry c) = ends_view c"
  "ends_view (snd (handle_typing m c)) = ends_view c" "ends_view (snd (handle_standard_reply severity m c)) = ends_view c"
  "ends_view (handle_nick_refused m c) = ends_view c"
  by (simp_all add: arm_keepalive_def isupport_token_def monitor_target_def rejoin_def handle_typing_def
      handle_standard_reply_def handle_nick_refused_def cap_end_line_def Let_def case_prod_unfold split: option.split)

lemma ends_view_folds [simp]:
  "ends_view (drain_batch e closed c) = ends_view c" "ends_view (handle_monitor m c) = ends_view c"
  "ends_view (handle_isupport m c) = ends_view c" "ends_view (resume c) = ends_view c"
  "ends_view (send_sasl e payload c) = ends_view c"
  by (simp_all add: drain_batch_def handle_monitor_def handle_isupport_def resume_def send_sasl_def Let_def
      fold_field [where field = ends_view] cap_end_line_def split: option.split)

lemma ends_view_aside: "aside c = aside c' \<Longrightarrow> ends_view c = ends_view c'"
  using aside_fields(2,21) [of c c'] by (simp add: ends_view_def cap_ends_def)

lemmas ends_view_extensions [simp] = aside_handlers [THEN ends_view_aside]

lemma ends_view_batch [simp]: "ends_view (handle_batch e m c) = ends_view c"
  by (simp add: handle_batch_def Let_def case_prod_unfold split: option.split)

text \<open>An operation that ends negotiation when, and only when, it may.\<close>

definition ends_well :: "client \<Rightarrow> client \<Rightarrow> bool" where
  "ends_well c c' \<longleftrightarrow>
     cap_ends c' = cap_ends c + (if cl_phase c = Negotiating \<and> cl_phase c' = Registering then 1 else 0)
     \<and> (cl_phase c \<noteq> Registering \<and> cl_phase c' = Registering \<longrightarrow>
          cl_phase c = Negotiating \<and> \<not> in_flight (cl_sasl c') \<and> caps_settled (cl_caps c'))"

lemma ends_well_still: "ends_view c' = ends_view c \<Longrightarrow> ends_well c c'"
  by (auto simp: ends_view_def ends_well_def)

lemma ends_well_via: "ends_view c' = ends_view c \<Longrightarrow> ends_well c' d \<Longrightarrow> ends_well c d"
  by (simp add: ends_view_def ends_well_def)

lemma ends_view_start [simp]: "ends_view (snd (start_sasl_if_wanted c)) = ends_view c"
proof -
  have "hd (mechanism credentials) \<noteq> sp" for credentials
    by (simp add: mechanism_def split: credentials.split)
  then show ?thesis
    by (simp add: start_sasl_if_wanted_def cap_end_line_def split: option.split)
qed

lemma finish_negotiation_ends: "ends_well c (finish_negotiation_if_settled c)"
proof -
  have "cap_ends (snd (start_sasl_if_wanted c)) = cap_ends c"
    using ends_view_start [of c] by (simp add: ends_view_def)
  moreover have "cap_ends (x\<lparr>cl_phase := Registering\<rparr>) = cap_ends x" for x
    by (simp add: cap_ends_def)
  ultimately show ?thesis
    by (simp add: finish_negotiation_if_settled_def ends_well_def Let_def case_prod_unfold start_sasl_fields
        cap_end_line_def needs_colon_def)
qed

lemma request_wanted_ends: "ends_well c (request_wanted c)"
  by (simp add: request_wanted_def Let_def finish_negotiation_ends fold_field [where field = ends_view] cap_end_line_def
      ends_well_still)

lemma handle_cap_ends: "ends_well c (handle_cap m c)"
  by (auto simp: handle_cap_def Let_def case_prod_unfold split: option.split
      intro: ends_well_via [OF _ request_wanted_ends] ends_well_via [OF _ finish_negotiation_ends] ends_well_still)

lemma finish_sasl_ends: "ends_well c (finish_sasl failure c)"
  by (auto simp: finish_sasl_def Let_def split: option.split intro: ends_well_still ends_well_via [OF _ finish_negotiation_ends])

lemma handle_authenticate_ends: "ends_well c (handle_authenticate e m c)"
proof -
  have "ends_well c (begin_sasl_response e c)"
    by (auto simp: begin_sasl_response_def Let_def split: option.split credentials.split intro!: ends_well_still)
  moreover have "ends_well c (answer_scram_challenge e challenge c)" "ends_well c (verify_scram_server e challenge c)" for challenge
    by (auto simp: answer_scram_challenge_def verify_scram_server_def Let_def case_prod_unfold cap_end_line_def
        split: option.split sum.split intro: finish_sasl_ends ends_well_via [OF _ finish_sasl_ends] ends_well_still)
  ultimately show ?thesis
    by (simp add: handle_authenticate_def finish_sasl_ends ends_well_still split: option.split sasl_state.split)
qed

lemma handle_welcome_ends: "ends_well c (handle_welcome m c)"
proof -
  have "ends_view (handle_welcome m c) = (Registered, snd (ends_view c))"
    by (simp add: handle_welcome_def Let_def split: option.split)
  then show ?thesis
    by (simp add: ends_view_def ends_well_def)
qed

lemma handle_rest_ends: "ends_well c (handle_rest e m c)"
  by (simp add: handle_rest_def Let_def case_prod_unfold handle_authenticate_ends finish_sasl_ends ends_well_still
      split: option.split)

lemma handle_message_ends: "ends_well c (handle_message e m c)"
proof -
  have "ends_well (received m c) (handle_message e m c)"
    by (rule handle_message_cases)
      (simp_all add: handle_cap_ends handle_welcome_ends handle_rest_ends ends_well_still cap_end_line_def)
  then show ?thesis
    by (rule ends_well_via [rotated]) (simp add: received_def)
qed

lemmas line_eval = msg_is_def message_new_def msg_param_def msg_trailing_def eq_ignore_ascii_case_def to_ascii_uppercase_def
  ascii_lower_def ascii_upper_def is_ascii_upper_def is_ascii_lower_def

lemmas start_eval = handle_connected_def client_new_def config_new_def arm_keepalive_def capabilities_default_def

text \<open>
  C4: for every line of the server, \<open>CAP END\<close> is queued exactly when the line takes the phase from
  negotiating to registering, and then every request for a capability has been answered and no SASL
  exchange is open; no other phase can lead there.
\<close>

theorem cap_end_when_negotiation_ends:
  "cap_ends (handle_message e m c)
     = cap_ends c + (if cl_phase c = Negotiating \<and> cl_phase (handle_message e m c) = Registering then 1 else 0)
   \<and> (cl_phase c \<noteq> Registering \<and> cl_phase (handle_message e m c) = Registering \<longrightarrow>
        cl_phase c = Negotiating \<and> \<not> in_flight (cl_sasl (handle_message e m c))
        \<and> caps_settled (cl_caps (handle_message e m c)))"
  using handle_message_ends [of c e m] by (simp add: ends_well_def)

theorem cap_end_when_negotiation_ends_witness:
  "cap_ends (handle_message sample_externals (message_new ''CAP'' [''*'', ''LS'', []])
     (handle_connected (client_new (config_new ''me'')))) = 1"
proof -
  let ?c = "handle_connected (client_new (config_new ''me''))" and ?m = "message_new ''CAP'' [''*'', ''LS'', []]"
  have "cl_phase ?c = Negotiating" "cap_ends ?c = 0"
    by (simp_all add: start_eval cap_end_line_def Let_def) (simp add: cap_ends_def)
  moreover have "cl_phase (handle_message sample_externals ?m ?c) = Registering"
    by (simp add: handle_message_def handle_cap_def request_wanted_def caps_to_request_def finish_negotiation_if_settled_def
        start_eval line_eval Let_def caps_advertise_def split_whitespace_def caps_settled_def start_sasl_if_wanted_def
        caps_has_def bt_contains_def)
  ultimately show ?thesis
    using cap_end_when_negotiation_ends [of sample_externals ?m ?c] by simp
qed

section \<open>A refused nick\<close>

lemma upper_not_digit: "is_ascii_upper x \<Longrightarrow> \<not> is_ascii_digit (ascii_lower x)"
  by (cases x) (auto simp: is_ascii_upper_def is_ascii_digit_def ascii_lower_def less_eq_char_def of_char_def
      of_bool_def split: if_splits)

lemma ascii_lower_digit: "is_ascii_digit (ascii_lower x) \<Longrightarrow> ascii_lower x = x"
  using upper_not_digit [of x] by (auto simp: ascii_lower_def)

lemma map_lower_digits: "list_all is_ascii_digit (map ascii_lower s) \<Longrightarrow> map ascii_lower s = s"
  by (induction s) (auto dest: ascii_lower_digit)

lemma msg_is_numeric: "list_all is_ascii_digit ds \<Longrightarrow> msg_is m ds \<longleftrightarrow> msg_command m = ds"
proof -
  assume ds: "list_all is_ascii_digit ds"
  then have "map ascii_lower ds = ds"
    by (induction ds) (auto simp: ascii_lower_def is_ascii_upper_def is_ascii_digit_def less_eq_char_def)
  with ds map_lower_digits [of "msg_command m"] show ?thesis
    by (auto simp: msg_is_def eq_ignore_ascii_case_def)
qed

lemma handle_message_refused:
  assumes "msg_command m = ''433'' \<or> msg_command m = ''432''"
  shows "handle_message e m c =
    handle_nick_refused m ((arm_keepalive c)\<lparr>cl_labels := snd (labels_resolve m (cl_labels (arm_keepalive c)))\<rparr>)"
  using assms
proof
  assume "msg_command m = ''433''"
  then show ?thesis
    by (simp add: handle_message_def handle_rest_def severity_of_def sasl_failure_of_def line_eval Let_def)
next
  assume "msg_command m = ''432''"
  then show ?thesis
    by (simp add: handle_message_def handle_rest_def severity_of_def sasl_failure_of_def line_eval Let_def)
qed

text \<open>The nick tried after the \<open>k\<close>-th refusal: the alternatives in turn, then one underscore more each time.\<close>

definition nick_tried :: "string list \<Rightarrow> string \<Rightarrow> nat \<Rightarrow> string" where
  "nick_tried alts nick k =
     (if k < length alts then alts ! k else last (nick # alts) @ replicate (Suc k - length alts) (CHR ''_''))"

fun nick_after :: "string list \<Rightarrow> string \<Rightarrow> nat \<Rightarrow> string" where
  "nick_after alts nick 0 = nick"
| "nick_after alts nick (Suc k) = nick_tried alts nick k"

lemma nick_tried_step:
  "(case nth_opt alts k of Some alt \<Rightarrow> alt | None \<Rightarrow> nick_after alts nick k @ ''_'') = nick_tried alts nick k"
proof (cases "k < length alts")
  case False
  then have "nick_after alts nick k @ ''_'' = nick_tried alts nick k"
  proof (cases k)
    case (Suc j)
    show ?thesis
    proof (cases "j < length alts")
      case True
      with False Suc have "j = length alts - 1" "alts \<noteq> []"
        by auto
      then have "length alts = Suc j"
        by simp
      then show ?thesis
        using \<open>alts \<noteq> []\<close> by (simp add: Suc nick_tried_def last_conv_nth)
    qed (use Suc in \<open>simp add: nick_tried_def Suc_diff_le replicate_append_same\<close>)
  qed (simp add: nick_tried_def)
  with False show ?thesis
    by (simp add: nth_opt_def)
qed (simp add: nth_opt_def nick_tried_def)

text \<open>
  C6: registration never stalls on a refused nick: whatever refusals a server sends before it has
  welcomed us, each is answered with a NICK, walking the alternatives of the configuration that no
  earlier refusal has used up (on this connection or on one before, since the count is never reset), in
  order, and then adding one underscore more each time to the last nick tried, so the client never runs
  out of them. The count must not run out, which takes 2^64 refusals.
\<close>

theorem refused_nicks_are_retried:
  assumes "cl_phase c \<noteq> Registered" "alts = drop (cl_nick_attempt c) (cfg_alt_nicks (cl_config c))"
    "list_all (\<lambda>m. msg_command m = ''433'' \<or> msg_command m = ''432'') ms" "cl_nick_attempt c + length ms < 2 ^ 64"
  shows "cl_outbox (fold (handle_message e) ms c)
      = cl_outbox c @ map (\<lambda>k. message_display (message_new ''NICK'' [nick_tried alts (cl_nick c) k]) @ [cr, nl]) [0..<length ms]
    \<and> cl_nick (fold (handle_message e) ms c) = nick_after alts (cl_nick c) (length ms)
    \<and> cl_nick_attempt (fold (handle_message e) ms c) = cl_nick_attempt c + length ms
    \<and> cl_phase (fold (handle_message e) ms c) = cl_phase c"
proof -
  have "cl_outbox (fold (handle_message e) ms c)
      = cl_outbox c @ map (\<lambda>k. message_display (message_new ''NICK'' [nick_tried alts (cl_nick c) k]) @ [cr, nl]) [0..<length ms]
    \<and> cl_nick (fold (handle_message e) ms c) = nick_after alts (cl_nick c) (length ms)
    \<and> cl_phase (fold (handle_message e) ms c) = cl_phase c
    \<and> cl_nick_attempt (fold (handle_message e) ms c) = cl_nick_attempt c + length ms
    \<and> cl_config (fold (handle_message e) ms c) = cl_config c"
    using assms(3,4)
  proof (induction ms rule: rev_induct)
    case (snoc m ms)
    let ?c = "fold (handle_message e) ms c"
    have IH: "cl_nick ?c = nick_after alts (cl_nick c) (length ms)" "cl_phase ?c = cl_phase c"
      "cl_nick_attempt ?c = cl_nick_attempt c + length ms" "cl_config ?c = cl_config c"
      "cl_outbox ?c = cl_outbox c @ map (\<lambda>k. message_display (message_new ''NICK'' [nick_tried alts (cl_nick c) k]) @ [cr, nl]) [0..<length ms]"
      using snoc by simp_all
    have "handle_message e m ?c =
      handle_nick_refused m ((arm_keepalive ?c)\<lparr>cl_labels := snd (labels_resolve m (cl_labels (arm_keepalive ?c)))\<rparr>)"
      using snoc.prems by (intro handle_message_refused) simp
    moreover have "nth_opt (cfg_alt_nicks (cl_config c)) (cl_nick_attempt c + length ms) = nth_opt alts (length ms)"
      by (auto simp: nth_opt_def assms(2))
    moreover have "wrapping_add64 (cl_nick_attempt c + length ms) 1 = cl_nick_attempt c + length (ms @ [m])"
      using snoc.prems(2) by (simp add: wrapping_add64_def)
    ultimately show ?case
      using assms(1) nick_tried_step [where alts = alts and k = "length ms" and nick = "cl_nick c"]
      by (simp add: handle_nick_refused_def arm_keepalive_def Let_def IH del: message_display_new cong: option.case_cong)
  qed simp
  then show ?thesis
    by blast
qed

theorem refused_nicks_are_retried_witness:
  "cl_nick (fold (handle_message sample_externals) [message_new ''433'' [''*'', ''me'', ''taken''], message_new ''433'' [], message_new ''432'' []]
     (client_new ((config_new ''me'')\<lparr>cfg_alt_nicks := [''you'']\<rparr>))) = ''you__''"
  using refused_nicks_are_retried [OF _ refl, of "client_new ((config_new ''me'')\<lparr>cfg_alt_nicks := [''you'']\<rparr>)"
      "[message_new ''433'' [''*'', ''me'', ''taken''], message_new ''433'' [], message_new ''432'' []]" sample_externals]
  by (simp add: start_eval nick_tried_def Let_def) (simp add: message_new_def numeral_2_eq_2)

end
