(* ===== verification/Client_Link.thy ===== *)
theory Client_Link
  imports Client_Wire
begin

text \<open>
  The link coming and going: the keepalive that notices a silent server, what survives a lost link, and
  what the engine puts back once it is registered again.
\<close>

section \<open>The keepalive\<close>

definition link_view :: "client \<Rightarrow> nat option \<times> nat option \<times> nat \<times> nat" where
  "link_view c = (timers_at (cl_timers c) PingKeepalive, timers_at (cl_timers c) DeadLink, cl_monotonic_ms c,
     count_list (cl_events c) LinkDead)"

lemma link_view_queues [simp]:
  "link_view (send_line m c) = link_view c" "ev \<noteq> LinkDead \<Longrightarrow> link_view (push_event ev c) = link_view c"
  by (simp_all add: link_view_def)

lemma link_view_updates [simp]:
  "link_view (c\<lparr>cl_caps := cp\<rparr>) = link_view c" "link_view (c\<lparr>cl_sasl := ss\<rparr>) = link_view c"
  "link_view (c\<lparr>cl_scram := sc\<rparr>) = link_view c" "link_view (c\<lparr>cl_model := md\<rparr>) = link_view c"
  "link_view (c\<lparr>cl_latest_ms := t\<rparr>) = link_view c" "link_view (c\<lparr>cl_channel_keys := ks\<rparr>) = link_view c"
  "link_view (c\<lparr>cl_nick := nick\<rparr>) = link_view c" "link_view (c\<lparr>cl_nick_attempt := n\<rparr>) = link_view c"
  "link_view (c\<lparr>cl_monitor := mo\<rparr>) = link_view c" "link_view (c\<lparr>cl_phase := ph\<rparr>) = link_view c"
  "link_view (c\<lparr>cl_batches := bs\<rparr>) = link_view c" "link_view (c\<lparr>cl_labels := lb\<rparr>) = link_view c"
  "link_view (c\<lparr>cl_isupport := iu\<rparr>) = link_view c" "link_view (c\<lparr>cl_rooms := vr\<rparr>) = link_view c"
  "link_view (c\<lparr>cl_commands := cs\<rparr>) = link_view c" "link_view (c\<lparr>cl_bots := bts\<rparr>) = link_view c"
  "link_view (c\<lparr>cl_dropped_lines := dl\<rparr>) = link_view c"
  "link_view (c\<lparr>cl_timers := timers_set (Typing target who) t (cl_timers c)\<rparr>) = link_view c"
  "link_view (c\<lparr>cl_timers := timers_clear (Typing target who) (cl_timers c)\<rparr>) = link_view c"
  by (simp_all add: link_view_def)

lemma link_view_follow [simp]: "link_view (follow_change ch c) = link_view c"
  by (simp add: follow_change_def request_who_def Let_def split: change.split option.split)

lemma link_view_client_fold [simp]: "link_view (client_fold e m historical c) = link_view c"
  by (simp add: client_fold_def Let_def case_prod_unfold fold_field [where field = link_view])

lemma link_view_lines [simp]:
  "link_view (isupport_token token c) = link_view c" "link_view (monitor_target online target c) = link_view c"
  "link_view (rejoin entry c) = link_view c" "link_view (snd (handle_typing m c)) = link_view c"
  "link_view (snd (handle_standard_reply severity m c)) = link_view c" "link_view (handle_nick_refused m c) = link_view c"
  "link_view (snd (start_sasl_if_wanted c)) = link_view c"
  by (simp_all add: isupport_token_def monitor_target_def rejoin_def handle_typing_def handle_standard_reply_def
      handle_nick_refused_def start_sasl_if_wanted_def Let_def case_prod_unfold split: option.split)

lemma link_view_extensions [simp]:
  "link_view (snd (handle_rtc m c)) = link_view c" "link_view (snd (handle_bot_tags e m c)) = link_view c"
  "link_view (snd (handle_token m c)) = link_view c" "link_view (handle_cmdslist m c) = link_view c"
  by (simp_all add: handle_rtc_def handle_bot_tags_def bot_announced_def bot_commands_listed_def handle_token_def
      handle_cmdslist_def drop_line_def Let_def case_prod_unfold split: option.split)

lemma link_view_folds [simp]:
  "link_view (drain_batch e closed c) = link_view c" "link_view (handle_monitor m c) = link_view c"
  "link_view (handle_isupport m c) = link_view c" "link_view (resume c) = link_view c"
  "link_view (send_sasl e payload c) = link_view c" "link_view (finish_negotiation_if_settled c) = link_view c"
  by (simp_all add: drain_batch_def handle_monitor_def handle_isupport_def resume_def send_sasl_def
      finish_negotiation_if_settled_def Let_def case_prod_unfold fold_field [where field = link_view] split: option.split)

lemma link_view_negotiation [simp]:
  "link_view (request_wanted c) = link_view c" "link_view (finish_sasl failure c) = link_view c"
  "link_view (handle_batch e m c) = link_view c" "link_view (handle_welcome m c) = link_view c"
  by (simp_all add: request_wanted_def finish_sasl_def handle_batch_def handle_welcome_def Let_def case_prod_unfold
      fold_field [where field = link_view] split: option.split)

lemma link_view_sasl [simp]:
  "link_view (begin_sasl_response e c) = link_view c" "link_view (answer_scram_challenge e challenge c) = link_view c"
  "link_view (verify_scram_server e challenge c) = link_view c" "link_view (handle_cap m c) = link_view c"
  by (simp_all add: begin_sasl_response_def answer_scram_challenge_def verify_scram_server_def handle_cap_def Let_def
      case_prod_unfold split: option.split credentials.split sum.split)

lemma link_view_authenticate [simp]: "link_view (handle_authenticate e m c) = link_view c"
  by (simp add: handle_authenticate_def split: option.split sasl_state.split)

lemma link_view_rest [simp]: "link_view (handle_rest e m c) = link_view c"
  by (simp add: handle_rest_def Let_def case_prod_unfold split: option.split)

lemma link_view_message:
  "link_view (handle_message e m c) =
     (Some (sat_add64 (cl_monotonic_ms c) PING_KEEPALIVE_MS), None, cl_monotonic_ms c, count_list (cl_events c) LinkDead)"
proof -
  have "link_view (handle_message e m c) = link_view (arm_keepalive c)"
    by (rule handle_message_cases) (simp_all add: received_def)
  then show ?thesis
    by (simp add: link_view_def arm_keepalive_def)
qed

lemma tick_deadline_events:
  "count_list (cl_events (tick_deadline now d c)) LinkDead = count_list (cl_events c) LinkDead + (if d = DeadLink then 1 else 0)"
  by (cases d) (simp_all add: tick_deadline_def expire_typing_def Let_def case_prod_unfold)

lemma fold_tick_deadline_events:
  "count_list (cl_events (fold (tick_deadline now) ds c)) LinkDead = count_list (cl_events c) LinkDead + count_list ds DeadLink"
  by (induction ds arbitrary: c) (simp_all add: tick_deadline_events)

lemma count_distinct: "distinct xs \<Longrightarrow> count_list xs x = (if x \<in> set xs then 1 else 0)"
  by (induction xs) auto

lemma tick_link_events:
  assumes "timers_wf (cl_timers c)"
  shows "count_list (cl_events (tick now c)) LinkDead = count_list (cl_events c) LinkDead
    + (case timers_at (cl_timers c) DeadLink of Some t \<Rightarrow> if t \<le> now_monotonic_ms now then 1 else 0 | None \<Rightarrow> 0)"
proof -
  have "count_list (map CommandTimedOut xs) LinkDead = 0" for xs
    by (induction xs) simp_all
  moreover have "count_list (fst (timers_expire now (cl_timers c))) DeadLink
      = (if DeadLink \<in> set (fst (timers_expire now (cl_timers c))) then 1 else 0)"
    using timers_expire_exact_parts(2) [OF assms, of now] by (rule count_distinct)
  ultimately show ?thesis
    using timers_expire_exact_parts(1) [OF assms, of now]
    by (auto simp: tick_def Let_def case_prod_unfold fold_push_event fold_tick_deadline_events split: option.split)
qed

lemma tick_deadline_outbox: "set (cl_outbox c) \<subseteq> set (cl_outbox (tick_deadline now d c))"
  by (cases d) (auto simp: tick_deadline_def expire_typing_def Let_def case_prod_unfold)

lemma fold_tick_deadline_outbox: "set (cl_outbox c) \<subseteq> set (cl_outbox (fold (tick_deadline now) ds c))"
  by (induction ds arbitrary: c) (auto dest: subsetD [OF tick_deadline_outbox])

lemma tick_deadline_nick: "cl_nick (tick_deadline now d c) = cl_nick c"
  by (cases d) (simp_all add: tick_deadline_def expire_typing_def Let_def case_prod_unfold)

lemma tick_deadline_dead_link:
  "timers_at (cl_timers (tick_deadline now d c)) DeadLink
     = (if d = PingKeepalive then Some (sat_add64 (now_monotonic_ms now) DEAD_LINK_MS) else timers_at (cl_timers c) DeadLink)"
  by (cases d) (simp_all add: tick_deadline_def expire_typing_def Let_def case_prod_unfold)

lemma fold_ping:
  assumes "PingKeepalive \<in> set ds"
  shows "message_display (message_new ''PING'' [cl_nick c]) @ [cr, nl] \<in> set (cl_outbox (fold (tick_deadline now) ds c))"
    "timers_at (cl_timers (fold (tick_deadline now) ds c)) DeadLink = Some (sat_add64 (now_monotonic_ms now) DEAD_LINK_MS)"
proof -
  obtain xs ys where ds: "ds = xs @ PingKeepalive # ys"
    using split_list [OF assms] by blast
  let ?c = "fold (tick_deadline now) xs c"
  have nick: "cl_nick ?c = cl_nick c"
    by (rule fold_field) (rule tick_deadline_nick)
  have "message_display (message_new ''PING'' [cl_nick c]) @ [cr, nl] \<in> set (cl_outbox (tick_deadline now PingKeepalive ?c))"
    by (simp add: tick_deadline_def Let_def nick)
  then show "message_display (message_new ''PING'' [cl_nick c]) @ [cr, nl] \<in> set (cl_outbox (fold (tick_deadline now) ds c))"
    using fold_tick_deadline_outbox [of "tick_deadline now PingKeepalive ?c" now ys] by (auto simp: ds)
  have "timers_at (cl_timers (fold (tick_deadline now) ys x)) DeadLink = Some (sat_add64 (now_monotonic_ms now) DEAD_LINK_MS)"
    if "timers_at (cl_timers x) DeadLink = Some (sat_add64 (now_monotonic_ms now) DEAD_LINK_MS)" for x
    using that by (induction ys arbitrary: x) (simp_all add: tick_deadline_dead_link)
  then show "timers_at (cl_timers (fold (tick_deadline now) ds c)) DeadLink = Some (sat_add64 (now_monotonic_ms now) DEAD_LINK_MS)"
    by (simp add: ds tick_deadline_dead_link)
qed

text \<open>
  C5: a silent server is noticed: once the keepalive falls due the next tick asks it with a PING and
  does not yet call the link dead; if nothing comes for ten seconds more, the host is told that it is. A
  line in between that the parser accepts, whatever it says, calls that off; one that is dropped, because
  it does not parse or is the rest of an oversized one, does not.
\<close>

theorem silent_link_is_noticed:
  assumes "client_sound c" "seq_of c + DEFAULT_MAX_BUFFERED \<le> u64_max"
    "timers_at (cl_timers c) PingKeepalive = Some t" "timers_at (cl_timers c) DeadLink = None"
    "t \<le> now_monotonic_ms asked" "now_monotonic_ms asked + DEAD_LINK_MS \<le> now_monotonic_ms later" "now_monotonic_ms later \<le> u64_max"
  shows "message_display (message_new ''PING'' [cl_nick c]) @ [cr, nl] \<in> set (cl_outbox (tick asked c))
    \<and> count_list (cl_events (tick asked c)) LinkDead = count_list (cl_events c) LinkDead
    \<and> count_list (cl_events (tick later (tick asked c))) LinkDead = Suc (count_list (cl_events c) LinkDead)
    \<and> count_list (cl_events (tick later (handle_line e line (tick asked c)))) LinkDead
      = (if cl_discarding (tick asked c) \<or> isl (message_parse (from_utf8_lossy line))
         then Suc (count_list (cl_events c) LinkDead) else count_list (cl_events c) LinkDead)"
proof -
  have timers_ok: "timers_wf (cl_timers c)"
    using assms(1) by (rule sound_parts)
  have due: "PingKeepalive \<in> set (fst (timers_expire asked (cl_timers c)))"
    using timers_expire_exact_parts(1) [OF timers_ok, of asked] assms(3,5) by auto
  let ?c = "c\<lparr>cl_monotonic_ms := now_monotonic_ms asked, cl_latest_ms := max (cl_latest_ms c) (now_unix_ms asked),
    cl_timers := snd (timers_expire asked (cl_timers c))\<rparr>"
  have after: "cl_outbox (tick asked c) = cl_outbox (fold (tick_deadline asked) (fst (timers_expire asked (cl_timers c))) ?c)"
    "cl_timers (tick asked c) = cl_timers (fold (tick_deadline asked) (fst (timers_expire asked (cl_timers c))) ?c)"
    by (simp_all add: tick_def Let_def case_prod_unfold fold_push_event)
  have ping: "message_display (message_new ''PING'' [cl_nick c]) @ [cr, nl] \<in> set (cl_outbox (tick asked c))"
    using fold_ping(1) [OF due, of ?c asked] by (simp add: after(1))
  have dead: "timers_at (cl_timers (tick asked c)) DeadLink = Some (now_monotonic_ms asked + DEAD_LINK_MS)"
    using fold_ping(2) [OF due, of asked ?c] assms(6,7) by (simp add: after(2) saturating_add_exact)
  have "timers_wf (cl_timers (tick_deadline asked d x))" if "timers_wf (cl_timers x)" for d x
    using that by (cases d) (simp_all add: tick_deadline_def expire_typing_def Let_def case_prod_unfold)
  then have wf: "timers_wf (cl_timers (tick asked c))"
    unfolding after(2) by (intro fold_keeps [where P = "\<lambda>x. timers_wf (cl_timers x)"]) (simp_all add: timers_ok)
  have quiet: "count_list (cl_events (tick asked c)) LinkDead = count_list (cl_events c) LinkDead"
    using tick_link_events [OF timers_ok, of asked] assms(4) by simp
  have silent: "count_list (cl_events (tick later (tick asked c))) LinkDead = Suc (count_list (cl_events c) LinkDead)"
    using tick_link_events [OF wf, of later] dead assms(6) quiet by simp
  have heard: "count_list (cl_events (tick later (handle_message e m (tick asked c)))) LinkDead = count_list (cl_events c) LinkDead" for m
  proof -
    have "client_sound (handle_message e m (tick asked c))"
      using handle_message_run [of "tick asked c" e m] tick_sound [OF assms(1)] tick_seq [of asked c] assms(2) by simp
    from tick_link_events [OF sound_parts(2) [OF this], of later] show ?thesis
      using link_view_message [of e m "tick asked c"] quiet by (simp add: link_view_def)
  qed
  have "count_list (cl_events (tick later x)) LinkDead = count_list (cl_events (tick later (tick asked c))) LinkDead"
    if "cl_timers x = cl_timers (tick asked c)" "cl_events x = cl_events (tick asked c)" for x
    using tick_link_events [of x later] tick_link_events [OF wf, of later] wf that by simp
  then have "count_list (cl_events (tick later (handle_line e line (tick asked c)))) LinkDead
      = (if cl_discarding (tick asked c) \<or> isl (message_parse (from_utf8_lossy line))
         then Suc (count_list (cl_events c) LinkDead) else count_list (cl_events c) LinkDead)"
    using silent heard by (auto simp: handle_line_def drop_line_def split: sum.split)
  then show ?thesis
    using ping quiet silent by blast
qed

theorem silent_link_is_noticed_witness:
  "count_list (cl_events (tick \<lparr>now_monotonic_ms = 41000, now_unix_ms = 0\<rparr> (tick \<lparr>now_monotonic_ms = 30500, now_unix_ms = 0\<rparr>
     (handle_connected (client_new (config_new ''me'')))))) LinkDead = 1"
proof -
  let ?c = "handle_connected (client_new (config_new ''me''))"
  have ok: "client_sound ?c" "seq_of ?c + DEFAULT_MAX_BUFFERED \<le> u64_max"
    using handle_connected_sound client_new_sound [of "config_new ''me''"]
    by (simp_all add: handle_connected_seq DEFAULT_MAX_BUFFERED_def u64_max_def)
  have "timers_at (cl_timers ?c) PingKeepalive = Some 30000" "timers_at (cl_timers ?c) DeadLink = None"
    "count_list (cl_events ?c) LinkDead = 0"
    by (simp_all add: start_eval Let_def saturating_add_def PING_KEEPALIVE_MS_def u64_max_def)
  with silent_link_is_noticed [OF ok this(1,2), of "\<lparr>now_monotonic_ms = 30500, now_unix_ms = 0\<rparr>"
      "\<lparr>now_monotonic_ms = 41000, now_unix_ms = 0\<rparr>"]
  show ?thesis
    by (simp add: DEAD_LINK_MS_def u64_max_def)
qed

section \<open>Resuming\<close>

definition line_bytes :: "message \<Rightarrow> string" where
  "line_bytes m = message_display m @ [cr, nl]"

text \<open>What one channel is rejoined with: its key if it has one, and what was said since.\<close>

definition rejoin_lines :: "client \<Rightarrow> channel \<Rightarrow> message list" where
  "rejoin_lines c ch =
     message_new ''JOIN'' (with_option [ch_name ch] (map_of (cl_channel_keys c) (isupport_fold (cl_isupport c) (ch_name ch))))
     # (case Option.bind (log_last (ch_log ch)) chat_msgid of
          Some msgid \<Rightarrow> if caps_has (cl_caps c) ''draft/chathistory''
            then [message_new ''CHATHISTORY'' [''AFTER'', ch_name ch, ''msgid='' @ msgid, ''100'']] else []
        | None \<Rightarrow> [])"

definition resume_lines :: "client \<Rightarrow> message list" where
  "resume_lines c =
     (if wl_watching (cl_monitor c) = [] then []
      else map (\<lambda>chunk. message_new ''MONITOR'' [''+'', chunk]) (batched (wl_watching (cl_monitor c)) (monitor_limit c)))
     @ (if cl_metadata_subscriptions c = [] then []
        else [message_new ''METADATA'' ([''*'', ''SUB''] @ cl_metadata_subscriptions c)])
     @ concat (map (rejoin_lines c) (map snd (mdl_channels (cl_model c))))"

lemma rejoin_writes:
  "cl_outbox (rejoin (ch_name ch, Option.bind (log_last (ch_log ch)) chat_msgid) c) = cl_outbox c @ map line_bytes (rejoin_lines c ch)"
  by (simp add: rejoin_def rejoin_lines_def line_bytes_def Let_def split: option.split)

lemma rejoin_lines_frame:
  "cl_channel_keys c' = cl_channel_keys c \<Longrightarrow> cl_isupport c' = cl_isupport c \<Longrightarrow> cl_caps c' = cl_caps c \<Longrightarrow>
     rejoin_lines c' ch = rejoin_lines c ch"
  by (simp add: rejoin_lines_def cong: option.case_cong)

lemma rejoin_frame:
  "cl_channel_keys (rejoin entry c) = cl_channel_keys c" "cl_isupport (rejoin entry c) = cl_isupport c"
  "cl_caps (rejoin entry c) = cl_caps c" "cl_model (rejoin entry c) = cl_model c"
  "cl_monitor (rejoin entry c) = cl_monitor c" "cl_metadata_subscriptions (rejoin entry c) = cl_metadata_subscriptions c"
  by (simp_all add: rejoin_def Let_def case_prod_unfold split: option.split)

lemma fold_rejoin_writes:
  "cl_outbox (fold rejoin (map (\<lambda>ch. (ch_name ch, Option.bind (log_last (ch_log ch)) chat_msgid)) chs) c)
     = cl_outbox c @ map line_bytes (concat (map (rejoin_lines c) chs))"
proof (induction chs arbitrary: c)
  case (Cons ch chs)
  have "rejoin_lines (rejoin entry c) = rejoin_lines c" for entry
    by (rule ext) (rule rejoin_lines_frame, simp_all add: rejoin_frame)
  then show ?case
    by (simp add: Cons rejoin_writes)
qed simp

lemma resume_writes: "cl_outbox (resume c) = cl_outbox c @ map line_bytes (resume_lines c)"
proof -
  let ?w = "if wl_watching (cl_monitor c) = [] then c
    else fold (\<lambda>chunk. send_line (message_new ''MONITOR'' [''+'', chunk])) (batched (wl_watching (cl_monitor c)) (monitor_limit c)) c"
  let ?s = "if cl_metadata_subscriptions ?w = [] then ?w
    else send_line (message_new ''METADATA'' ([''*'', ''SUB''] @ cl_metadata_subscriptions ?w)) ?w"
  have lines: "rejoin_lines ?s = rejoin_lines c"
    by (rule ext) (rule rejoin_lines_frame, simp_all add: fold_send_line)
  have entries: "map (\<lambda>(_, ch). (ch_name ch, Option.bind (log_last (ch_log ch)) chat_msgid)) (mdl_channels (cl_model c))
      = map (\<lambda>ch. (ch_name ch, Option.bind (log_last (ch_log ch)) chat_msgid)) (map snd (mdl_channels (cl_model c)))"
    by (simp add: case_prod_unfold)
  have "cl_outbox (resume c) = cl_outbox ?s @ map line_bytes (concat (map (rejoin_lines ?s) (map snd (mdl_channels (cl_model c)))))"
    unfolding resume_def Let_def entries by (rule fold_rejoin_writes)
  moreover have "cl_outbox ?s = cl_outbox c @ map line_bytes
      ((if wl_watching (cl_monitor c) = [] then []
        else map (\<lambda>chunk. message_new ''MONITOR'' [''+'', chunk]) (batched (wl_watching (cl_monitor c)) (monitor_limit c)))
      @ (if cl_metadata_subscriptions c = [] then []
         else [message_new ''METADATA'' ([''*'', ''SUB''] @ cl_metadata_subscriptions c)]))"
    by (simp add: fold_send_line line_bytes_def comp_def)
  ultimately show ?thesis
    by (simp only: lines resume_lines_def map_append append_assoc)
qed

lemma resume_frame:
  "cl_channel_keys (resume c) = cl_channel_keys c" "cl_model (resume c) = cl_model c"
  "cl_monitor (resume c) = cl_monitor c" "cl_metadata_subscriptions (resume c) = cl_metadata_subscriptions c"
  by (simp_all add: resume_def Let_def fold_send_line rejoin_frame
      fold_field [where field = cl_channel_keys] fold_field [where field = cl_model] fold_field [where field = cl_monitor]
      fold_field [where field = cl_metadata_subscriptions])

lemma welcome_writes:
  "cl_outbox (handle_welcome m c) = cl_outbox c @ map line_bytes (resume_lines c) \<and> cl_phase (handle_welcome m c) = Registered"
proof -
  have lines: "resume_lines c' = resume_lines c"
    if "cl_channel_keys c' = cl_channel_keys c" "cl_isupport c' = cl_isupport c" "cl_caps c' = cl_caps c"
      "cl_monitor c' = cl_monitor c" "cl_metadata_subscriptions c' = cl_metadata_subscriptions c"
      "mdl_channels (cl_model c') = mdl_channels (cl_model c)" for c'
  proof -
    have "rejoin_lines c' = rejoin_lines c"
      by (rule ext) (rule rejoin_lines_frame [OF that(1-3)])
    with that show ?thesis
      by (simp add: resume_lines_def monitor_limit_def)
  qed
  define nick where "nick = (case msg_param m 0 of Some nick \<Rightarrow> nick | None \<Rightarrow> cl_nick c)"
  define c' where "c' = push_event (Event_Registered nick) (c\<lparr>cl_phase := Registered, cl_nick := nick,
    cl_model := (cl_model c)\<lparr>mdl_me := (mdl_me (cl_model c))\<lparr>me_nick := nick\<rparr>\<rparr>\<rparr>)"
  have eq: "handle_welcome m c = resume c'"
    by (cases "msg_param m 0") (simp_all add: handle_welcome_def c'_def nick_def)
  have "resume_lines c' = resume_lines c" "cl_outbox c' = cl_outbox c" "cl_phase c' = Registered"
    by (rule lines) (simp_all add: c'_def)
  moreover have "cl_phase (resume c') = cl_phase c'"
    using reg_fields_folds(4) [of c'] by (simp add: reg_fields_def)
  ultimately show ?thesis
    by (simp add: eq resume_writes)
qed

text \<open>
  C8: the welcome puts the connection back where it was, and writes nothing else: the watch list again
  in requests of the server's size, the metadata subscriptions again in one line, and then for every
  channel of the model, once and in order, a JOIN with the key it was last joined with, followed, where
  the server keeps history and the log has a last id, by a request for what came after that message.
\<close>

theorem welcome_resumes_everything:
  "cl_outbox (handle_welcome m c) = cl_outbox c @ map line_bytes (resume_lines c) \<and> cl_phase (handle_welcome m c) = Registered"
  by (rule welcome_writes)

text \<open>
  C7: what happened stays across a lost link: when the transport dies and comes back and the server
  welcomes us again, every channel still has its log, its topic and its name, and only the list of who
  is in it is empty; the conversations, the channel keys, the watch list and the subscriptions are as
  they were; and the channel has been rejoined with its key.
\<close>

theorem channels_survive_reconnect:
  assumes "model_channel (cl_model c) k = Some ch" "c' = handle_welcome m (handle_connected (handle_disconnected c))"
  shows "model_channel (cl_model c') k = Some (ch\<lparr>ch_members := []\<rparr>)
    \<and> mdl_conversations (cl_model c') = mdl_conversations (cl_model c)
    \<and> cl_channel_keys c' = cl_channel_keys c \<and> wl_watching (cl_monitor c') = wl_watching (cl_monitor c)
    \<and> cl_metadata_subscriptions c' = cl_metadata_subscriptions c
    \<and> line_bytes (message_new ''JOIN'' (with_option [ch_name ch]
         (map_of (cl_channel_keys c) (isupport_fold (cl_isupport c) (ch_name ch))))) \<in> set (cl_outbox c')"
proof -
  let ?d = "handle_connected (handle_disconnected c)"
  have frame: "cl_channel_keys ?d = cl_channel_keys c" "cl_isupport ?d = cl_isupport c"
    "wl_watching (cl_monitor ?d) = wl_watching (cl_monitor c)" "cl_metadata_subscriptions ?d = cl_metadata_subscriptions c"
    "cl_model ?d = channels_mut (\<lambda>ch. ch\<lparr>ch_members := []\<rparr>) (forget_whois (cl_model c))"
    by (simp_all add: handle_connected_def handle_disconnected_def arm_keepalive_def wl_forget_presence_def Let_def
        case_prod_unfold split: option.split)
  have held: "map_of (mdl_channels (cl_model ?d)) k = Some (ch\<lparr>ch_members := []\<rparr>)"
    using assms(1) by (simp add: frame model_channel_def channels_mut_def forget_whois_def)
  then have "ch\<lparr>ch_members := []\<rparr> \<in> set (map snd (mdl_channels (cl_model ?d)))"
    by (force dest: map_of_SomeD)
  moreover have "message_new ''JOIN'' (with_option [ch_name ch] (map_of (cl_channel_keys c) (isupport_fold (cl_isupport c) (ch_name ch))))
      \<in> set (rejoin_lines ?d (ch\<lparr>ch_members := []\<rparr>))"
    by (simp add: rejoin_lines_def frame)
  ultimately have join: "message_new ''JOIN'' (with_option [ch_name ch] (map_of (cl_channel_keys c) (isupport_fold (cl_isupport c) (ch_name ch))))
      \<in> set (resume_lines ?d)"
    unfolding resume_lines_def set_append set_concat set_map [where f = "rejoin_lines ?d"] by blast
  have welcomed: "mdl_channels (cl_model c') = mdl_channels (cl_model ?d)"
    "mdl_conversations (cl_model c') = mdl_conversations (cl_model ?d)" "cl_channel_keys c' = cl_channel_keys ?d"
    "cl_monitor c' = cl_monitor ?d" "cl_metadata_subscriptions c' = cl_metadata_subscriptions ?d"
    by (simp_all add: assms(2) handle_welcome_def Let_def resume_frame split: option.split)
  have "mdl_conversations (cl_model ?d) = mdl_conversations (cl_model c)"
    by (simp add: frame(5) channels_mut_def forget_whois_def)
  moreover have "cl_outbox c' = cl_outbox ?d @ map line_bytes (resume_lines ?d)"
    using welcome_writes [of m ?d] assms(2) by simp
  ultimately show ?thesis
    using join held by (simp add: welcomed model_channel_def frame(1-4))
qed

text \<open>A client that is in one channel, joined with a key.\<close>

definition sample_client :: client where
  "sample_client = (client_new (config_new ''me''))\<lparr>cl_model := sample_model, cl_channel_keys := [(''#a'', ''secret'')]\<rparr>"

theorem channels_survive_reconnect_witness:
  "line_bytes (message_new ''JOIN'' [''#A'', ''secret''])
     \<in> set (cl_outbox (handle_welcome (message_new ''001'' [''me'']) (handle_connected (handle_disconnected sample_client))))"
proof -
  have held: "model_channel (cl_model sample_client) ''#a'' = Some (channel_default\<lparr>ch_name := ''#A'', ch_log := log_with_retention 2,
         ch_members := [(''bob'', \<lparr>mem_prefixes = ''@''\<rparr>), (''me'', membership_default)]\<rparr>)"
    by (simp add: sample_client_def sample_model_def model_channel_def)
  have "map_of (cl_channel_keys sample_client) (isupport_fold (cl_isupport sample_client) ''#A'') = Some ''secret''"
    by (simp add: sample_client_def client_new_def Let_def isupport_fold_def isupport_default_def casemapping_default_def
        case_fold_def fold_char_def fold_byte_def ascii_lower_def is_ascii_upper_def is_cont_def)
  with channels_survive_reconnect [OF held refl, of "message_new ''001'' [''me'']"] show ?thesis
    by (simp add: with_option_def)
qed

end
