(* ===== verification/Client_Talk.thy ===== *)
theory Client_Talk
  imports Client_Link
begin

text \<open>
  What is said: how a command of the host travels, what its text can do to the wire, how a message that
  the server split over several lines is put together, and how a SCRAM exchange ends.
\<close>

section \<open>Lines of the host\<close>

lemma label_tag_wf:
  assumes "message_wf m" "label \<noteq> []"
  shows "message_wf (m\<lparr>msg_tags := tags_set (tag_new ''label'' label) (msg_tags m)\<rparr>)"
proof -
  let ?t = "tag_new ''label'' label"
  have t: "tag_wf ?t" "sp \<notin> set (tag_key ?t)"
    using assms(2) by (simp_all add: tag_wf_def tag_new_def)
  have "set (tags_set ?t ts) \<subseteq> insert ?t (set ts)" for ts
    by (induction ts) auto
  then have "list_all (\<lambda>t. tag_wf t \<and> sp \<notin> set (tag_key t)) (tags_set ?t (msg_tags m))"
    using assms(1) t by (auto simp: message_wf_def list_all_iff)
  moreover have "tags_set ?t (msg_tags m) \<noteq> []"
    by (cases "msg_tags m") simp_all
  ultimately show ?thesis
    using assms(1) by (auto simp: message_wf_def command_wf_def)
qed

lemma client_command_wire: "wire command = Some m \<Longrightarrow> client_command e command c = send_labeled m c"
  by (cases command) (simp_all add: client_command_def wire_def)

text \<open>The line as it goes out: with a fresh label where the server correlates replies by one.\<close>

definition labelled :: "client \<Rightarrow> message \<Rightarrow> message" where
  "labelled c m =
     (if caps_has (cl_caps c) ''labeled-response''
      then m\<lparr>msg_tags := tags_set (tag_new ''label'' (fst (labels_generate (cl_labels c)))) (msg_tags m)\<rparr> else m)"

lemma send_labeled_writes: "cl_outbox (send_labeled m c) = cl_outbox c @ [line_bytes (labelled c m)]"
  by (simp add: send_line_labeled_def labelled_def line_bytes_def Let_def case_prod_unfold del: labels_generate_simps)

text \<open>The entry a labelled request leaves, thirty seconds from its deadline.\<close>

definition request_entry :: "message \<Rightarrow> client \<Rightarrow> string pending" where
  "request_entry m c =
     \<lparr>pd_deadline_ms = sat_add64 (cl_monotonic_ms c) DEFAULT_TIMEOUT_MS, pd_batch_id = None, pd_data = msg_command m\<rparr>"

lemma send_labeled_pending:
  assumes "caps_has (cl_caps c) ''labeled-response''"
  shows "cl_labels (send_labeled m c) = (snd (labels_generate (cl_labels c)))
     \<lparr>lb_pending := bt_insert (fst (labels_generate (cl_labels c))) (request_entry m c) (lb_pending (cl_labels c))\<rparr>"
  using assms by (simp add: send_line_labeled_def labels_register_def request_entry_def Let_def case_prod_unfold)

text \<open>
  C11: a command that is a line of its own, with no parameter the line format cannot carry, puts exactly
  that line on the wire, once, and what the server parses out of the bytes is the same line, with its
  parameters as the host gave them. Where the server correlates replies it carries a label as well, one
  under which no other request is outstanding, and the request is remembered under it, with a deadline
  thirty seconds off: an expiry leaves it there before that instant and takes it out from then on. Where
  the server does not, the line carries no label and nothing is remembered. (Labels are numbered; their
  number must not run out, which takes 2^64 of them.)
\<close>

theorem commands_reach_the_wire:
  assumes "wire command = Some m" "message_wf m" "labels_wf (cl_labels c)"
    "label = fst (labels_generate (cl_labels c))" "c' = client_command e command c"
  shows "if caps_has (cl_caps c) ''labeled-response''
     then (\<exists>sent. cl_outbox c' = cl_outbox c @ [sent]
          \<and> message_parse sent = Inr (m\<lparr>msg_tags := tags_set (tag_new ''label'' label) (msg_tags m)\<rparr>))
       \<and> map_of (lb_pending (cl_labels c)) label = None
       \<and> map_of (lb_pending (cl_labels c')) label = Some (request_entry m c)
       \<and> (\<forall>now. (map_of (lb_pending (snd (labels_expire now (cl_labels c')))) label \<noteq> None)
            = (now < sat_add64 (cl_monotonic_ms c) DEFAULT_TIMEOUT_MS))
     else (\<exists>sent. cl_outbox c' = cl_outbox c @ [sent] \<and> message_parse sent = Inr m) \<and> cl_labels c' = cl_labels c"
proof -
  have c': "c' = send_labeled m c"
    using client_command_wire [OF assms(1)] assms(5) by simp
  have "label \<noteq> []"
    by (simp add: assms(4))
  then have parse: "message_parse (line_bytes (labelled c m)) = Inr (labelled c m)"
    using message_parse_display [of "labelled c m" "[cr, nl]"] label_tag_wf [OF assms(2)] assms(2,4)
    by (simp add: labelled_def line_bytes_def del: labels_generate_simps)
  show ?thesis
  proof (cases "caps_has (cl_caps c) ''labeled-response''")
    case False
    then show ?thesis
      using parse by (simp add: c' send_labeled_writes labelled_def) (simp add: send_line_labeled_def)
  next
    case True
    have wf: "bt_wf (lb_pending (cl_labels c))"
      using assms(3) by (simp add: labels_wf_def)
    have entry: "map_of (lb_pending (cl_labels c')) label = Some (request_entry m c)"
      using True by (simp add: c' send_labeled_pending assms(4))
    have "bt_wf (lb_pending (cl_labels c'))"
      using True wf by (simp add: c' send_labeled_pending)
    then have "map_of (lb_pending (snd (labels_expire now (cl_labels c')))) label \<noteq> None
        \<longleftrightarrow> now < sat_add64 (cl_monotonic_ms c) DEFAULT_TIMEOUT_MS" for now
      using entry by (auto simp: labels_expire_drain drain_due_rest request_entry_def)
    then show ?thesis
      using parse True entry labels_generate_fresh [OF assms(3)]
      by (simp add: c' send_labeled_writes labelled_def assms(4) del: labels_generate_simps)
  qed
qed

text \<open>A client that holds one capability.\<close>

definition sample_capable :: "string \<Rightarrow> client" where
  "sample_capable name = sample_client\<lparr>cl_caps := capabilities_default\<lparr>caps_acknowledged := [(name, None)]\<rparr>\<rparr>"

lemma sample_capable_facts:
  "caps_has (cl_caps (sample_capable name)) name" "name \<noteq> other \<Longrightarrow> \<not> caps_has (cl_caps (sample_capable name)) other"
  "labels_wf (cl_labels (sample_capable name))"
  by (simp_all add: sample_capable_def sample_client_def client_new_def Let_def caps_has_def bt_contains_def)

theorem commands_reach_the_wire_witness:
  "\<exists>sent label. cl_outbox (client_set_nick sample_externals ''you'' (sample_capable ''labeled-response''))
       = cl_outbox (sample_capable ''labeled-response'') @ [sent]
     \<and> message_parse sent = Inr ((message_new ''NICK'' [''you''])\<lparr>msg_tags := tags_set (tag_new ''label'' label) []\<rparr>)"
proof -
  have m: "wire (SetNick ''you'') = Some (message_new ''NICK'' [''you''])" "message_wf (message_new ''NICK'' [''you''])"
    by (simp_all add: wire_def message_wf_def message_new_def command_wf_def params_wf_def)
  have "msg_tags (message_new ''NICK'' [''you'']) = []"
    by (simp add: message_new_def)
  with commands_reach_the_wire [OF m sample_capable_facts(3) refl refl, of "''labeled-response''" sample_externals]
    sample_capable_facts(1) [of "''labeled-response''"] show ?thesis
    unfolding client_set_nick_def by metis
qed

text \<open>Keeping our own message, where the server does not echo it, sends nothing.\<close>

lemma session_message_changes:
  "fst (session_message e ctx line ''PRIVMSG'') = [] \<or> (\<exists>name key. fst (session_message e ctx line ''PRIVMSG'') = [MessageAdded name key])"
  by (auto simp: session_message_def Let_def case_prod_unfold split: option.split)

lemma client_fold_privmsg_outbox:
  assumes "msg_command line = ''PRIVMSG''"
  shows "cl_outbox (client_fold e line historical c) = cl_outbox c"
proof -
  have "to_ascii_uppercase (msg_command line) = ''PRIVMSG''"
    by (simp add: assms line_eval)
  then have "session_apply e (client_ctx c historical) line = session_message e (client_ctx c historical) line ''PRIVMSG''"
    by (simp add: session_apply_def)
  then show ?thesis
    using session_message_changes [of e "client_ctx c historical" line]
    by (auto simp: client_fold_def Let_def case_prod_unfold follow_change_def)
qed

text \<open>What a label puts in front of a line.\<close>

definition label_prefix :: "client \<Rightarrow> string" where
  "label_prefix c =
     (if caps_has (cl_caps c) ''labeled-response''
      then CHR ''@'' # tags_display [tag_new ''label'' (fst (labels_generate (cl_labels c)))] @ [sp] else [])"

lemma escaped_one_line: "nl \<notin> set (escaped s)"
  by (auto simp: escaped_def escape_char_def)

lemma label_prefix_one_line: "nl \<notin> set (label_prefix c)"
  using escaped_one_line [of "fst (labels_generate (cl_labels c))"]
  by (auto simp: label_prefix_def tags_display_def tag_display_def tag_new_def simp del: labels_generate_simps split: option.split)

lemma labelled_display:
  assumes "msg_tags m = []"
  shows "line_bytes (labelled c m) = label_prefix c @ line_bytes m"
  using assms
  by (simp add: line_bytes_def labelled_def label_prefix_def message_display_def tag_new_def del: labels_generate_simps)

text \<open>
  C12: nothing stops the text of a message from carrying a line break, and then it is not one line that
  goes out, whatever capabilities the server has given us: a host that passes on text with a CR and LF in
  it, to a target without one, sends what follows, if it is a line as a client writes one (a command and
  its parameters), as a protocol line of its own, for the server to obey.
\<close>

theorem newline_in_text_injects:
  assumes "message_wf evil" "msg_tags evil = []" "msg_source evil = None" "nl \<notin> set target" "nl \<notin> set said"
  shows "\<exists>first second. cl_outbox (client_send_message e target (said @ [cr, nl] @ message_display evil) c)
        = cl_outbox c @ [first @ nl # second @ [nl]]
      \<and> nl \<notin> set first \<and> nl \<notin> set second \<and> message_parse second = Inr evil"
proof -
  let ?body = "said @ [cr, nl] @ message_display evil"
  let ?first = "label_prefix c @ ''PRIVMSG '' @ target @ (if needs_colon ?body then '' :'' else '' '') @ said @ [cr]"
  let ?m = "message_new ''PRIVMSG'' [target, ?body]"
  have "c \<in> set (params_display ps) \<Longrightarrow> c \<noteq> nl" if "list_all (\<lambda>p. nl \<notin> set p) ps" for c ps
    using set_params_display [of c ps] that by (auto simp: list_all_iff)
  moreover have "list_all (\<lambda>p. nl \<notin> set p) (msg_params evil)" "nl \<notin> set (msg_command evil)"
    using assms(1) by (auto simp: message_wf_def list_all_iff)
  ultimately have free: "nl \<notin> set (message_display evil)"
    using assms(2,3) by (auto simp: message_display_def)
  have "cl_outbox (client_send_message e target ?body c) = cl_outbox (send_labeled ?m c)"
    by (simp add: client_send_message_def client_command_def say_def Let_def client_fold_privmsg_outbox message_new_def)
  also have "\<dots> = cl_outbox c @ [?first @ nl # (message_display evil @ [cr]) @ [nl]]"
    unfolding send_labeled_writes using labelled_display [of ?m c] by (simp add: message_new_def line_bytes_def message_display_def)
  finally have "cl_outbox (client_send_message e target ?body c)
      = cl_outbox c @ [?first @ nl # (message_display evil @ [cr]) @ [nl]]" .
  moreover have "message_parse (message_display evil @ [cr]) = Inr evil"
    using assms(1) by (intro message_parse_display) simp_all
  moreover have "nl \<notin> set ?first"
    using assms(4,5) label_prefix_one_line by simp
  moreover have "nl \<notin> set (message_display evil @ [cr])"
    using free by simp
  ultimately show ?thesis
    by blast
qed

theorem newline_in_text_injects_witness:
  "\<exists>first second. cl_outbox (client_send_message sample_externals ''#a'' (''hi'' @ [cr, nl] @ ''QUIT'') sample_client)
      = cl_outbox sample_client @ [first @ nl # second @ [nl]]
    \<and> message_parse second = Inr (message_new ''QUIT'' [])"
proof -
  have evil: "message_wf (message_new ''QUIT'' [])" "msg_tags (message_new ''QUIT'' []) = []" "msg_source (message_new ''QUIT'' []) = None"
    by (simp_all add: message_wf_def message_new_def command_wf_def)
  from newline_in_text_injects [OF evil, of "''#a''" "''hi''" sample_externals sample_client]
  show ?thesis by auto
qed

section \<open>Split messages\<close>

lemma msg_is_sym: "msg_is a (msg_command b) \<longleftrightarrow> msg_is b (msg_command a)"
  by (auto simp: msg_is_def eq_ignore_ascii_case_def)

text \<open>What a continuation adds to the text, and the text the lines make together.\<close>

definition continuation :: "message \<Rightarrow> string" where
  "continuation m =
     (if tags_contains (msg_tags m) MULTILINE_CONCAT then [] else [nl]) @ (case msg_param m 1 of Some t \<Rightarrow> t | None \<Rightarrow> [])"

lemma join_lines_continue:
  assumes "msg_param previous 1 = Some body"
    "list_all (\<lambda>m. (msg_is m ''PRIVMSG'' \<or> msg_is m ''NOTICE'') \<and> msg_is m (msg_command previous)
       \<and> msg_param m 0 = msg_param previous 0) ms"
  shows "join_lines (joined @ [previous]) ms
    = joined @ [previous\<lparr>msg_params := (msg_params previous)[1 := body @ concat (map continuation ms)]\<rparr>]"
  using assms
proof (induction ms arbitrary: previous body)
  case Nil
  have "(msg_params previous)[1 := body] = msg_params previous"
    using Nil(1) by (auto simp: msg_param_def nth_opt_def split: if_splits)
  then show ?case by simp
next
  case (Cons m ms)
  let ?p = "continue_line previous m"
  have p: "?p = previous\<lparr>msg_params := (msg_params previous)[1 := body @ continuation m]\<rparr>"
    using Cons.prems(1) by (simp add: continue_line_def continuation_def Let_def)
  have len: "1 < length (msg_params previous)"
    using Cons.prems(1) by (auto simp: msg_param_def nth_opt_def split: if_splits)
  have "msg_param ?p 1 = Some (body @ continuation m)" "msg_param ?p 0 = msg_param previous 0"
    "msg_command ?p = msg_command previous"
    using len by (simp_all add: p msg_param_def nth_opt_def)
  with Cons.prems Cons.IH [of ?p "body @ continuation m"] show ?case
    by (simp add: p msg_is_sym [of previous] last_opt_def)
qed

text \<open>
  C13: a message the server split over several lines of a multiline batch comes out as the first of them
  with the whole text: each further line after a line feed, or with nothing in between where it is
  tagged as a continuation, in order and with nothing lost.
\<close>

theorem split_message_is_joined:
  assumes "cb_messages closed = first # rest" "msg_param first 1 = Some body"
    "list_all (\<lambda>m. (msg_is m ''PRIVMSG'' \<or> msg_is m ''NOTICE'') \<and> msg_is m (msg_command first)
       \<and> msg_param m 0 = msg_param first 0) rest"
  shows "cb_messages (join_multiline closed)
    = [first\<lparr>msg_params := (msg_params first)[1 := body @ concat (map (\<lambda>m.
         (if tags_contains (msg_tags m) MULTILINE_CONCAT then [] else [nl])
         @ (case msg_param m 1 of Some t \<Rightarrow> t | None \<Rightarrow> [])) rest)]\<rparr>]"
  using join_lines_continue [OF assms(2,3), of "[]"] assms(1)
  by (simp add: join_multiline_def continuation_def [abs_def])

theorem split_message_is_joined_witness:
  "cb_messages (join_multiline \<lparr>cb_kind = MULTILINE_BATCH, cb_params = [], cb_parent = None,
     cb_messages = [message_new ''PRIVMSG'' [''#a'', ''one''], message_new ''PRIVMSG'' [''#a'', ''two'']], cb_overflowed = False\<rparr>)
   = [message_new ''PRIVMSG'' [''#a'', ''one'' @ [nl] @ ''two'']]"
proof -
  have "list_all (\<lambda>m. (msg_is m ''PRIVMSG'' \<or> msg_is m ''NOTICE'') \<and> msg_is m (msg_command (message_new ''PRIVMSG'' [''#a'', ''one'']))
      \<and> msg_param m 0 = msg_param (message_new ''PRIVMSG'' [''#a'', ''one'']) 0) [message_new ''PRIVMSG'' [''#a'', ''two'']]"
    "msg_param (message_new ''PRIVMSG'' [''#a'', ''one'']) 1 = Some ''one''"
    by (simp_all add: line_eval)
  from split_message_is_joined [OF _ this(2,1), of "\<lparr>cb_kind = MULTILINE_BATCH, cb_params = [], cb_parent = None,
     cb_messages = [message_new ''PRIVMSG'' [''#a'', ''one''], message_new ''PRIVMSG'' [''#a'', ''two'']], cb_overflowed = False\<rparr>"]
  show ?thesis
    by (simp add: message_new_def msg_param_def tags_contains_def)
qed

section \<open>The end of a SCRAM exchange\<close>

lemma finish_sasl_ends_exchange:
  assumes "cl_sasl c \<noteq> Settled"
  shows "cl_sasl (finish_sasl failure c) = Settled \<and> cl_scram (finish_sasl failure c) = cl_scram c
    \<and> cl_events (finish_sasl failure c) = cl_events c @ (case failure of Some reason \<Rightarrow> [SaslFailed reason] | None \<Rightarrow> [])
    \<and> (cl_outbox (finish_sasl failure c) = cl_outbox c \<or> cl_outbox (finish_sasl failure c) = cl_outbox c @ [cap_end_line])"
  using assms
  by (simp add: finish_sasl_def finish_negotiation_if_settled_def start_sasl_if_wanted_def cap_end_line_def needs_colon_def
      Let_def split: option.split)

text \<open>
  C9: once we have proved we know the password, the exchange is closed with the server only if the
  server proves that it does too: a challenge that does not verify ends the exchange as not verified,
  tells the host so and writes no closing response, and one that does is answered with it.
\<close>

theorem scram_server_must_prove_itself:
  assumes "cl_sasl c = ScramProved" "cl_scram c = Some scram" "msg_param m 0 = Some payload"
    "decode_challenge e payload = Some proof" "c' = handle_authenticate e m c"
  shows "if scram_verify e scram proof = Inr ()
    then cl_outbox c' = cl_outbox c @ [line_bytes (message_new ''AUTHENTICATE'' [''+''])]
      \<and> cl_sasl c' = Responded \<and> cl_events c' = cl_events c
    else cl_events c' = cl_events c @ [SaslFailed ServerNotVerified] \<and> cl_sasl c' = Settled \<and> cl_scram c' = None
      \<and> (cl_outbox c' = cl_outbox c \<or> cl_outbox c' = cl_outbox c @ [cap_end_line])"
proof (cases "scram_verify e scram proof")
  case (Inl err)
  then show ?thesis
    using assms finish_sasl_ends_exchange [of "c\<lparr>cl_scram := None\<rparr>" "Some ServerNotVerified"]
    by (simp add: handle_authenticate_def verify_scram_server_def)
next
  case (Inr u)
  then show ?thesis
    using assms by (simp add: handle_authenticate_def verify_scram_server_def line_bytes_def)
qed

theorem scram_server_must_prove_itself_witness:
  "cl_sasl (handle_authenticate sample_externals (message_new ''AUTHENTICATE'' [''+''])
     (sample_client\<lparr>cl_sasl := ScramProved, cl_scram := Some (scram_new ''u'' ''p'' ''n'')\<rparr>)) = Settled"
proof -
  let ?c = "sample_client\<lparr>cl_sasl := ScramProved, cl_scram := Some (scram_new ''u'' ''p'' ''n'')\<rparr>"
  have "decode_challenge sample_externals ''+'' = Some []" "msg_param (message_new ''AUTHENTICATE'' [''+'']) 0 = Some ''+''"
    by (simp_all add: decode_challenge_def message_new_def msg_param_def)
  moreover have "scram_verify sample_externals (scram_new ''u'' ''p'' ''n'') [] \<noteq> Inr ()"
    by (simp add: scram_verify_iff scram_field_def map_filter_simps)
  ultimately show ?thesis
    using scram_server_must_prove_itself [of ?c "scram_new ''u'' ''p'' ''n''" "message_new ''AUTHENTICATE'' [''+'']" "''+''"
        sample_externals "[]"] by simp
qed



end
