(* ===== verification/Client_Extensions.thy ===== *)
theory Client_Extensions
  imports Client_Talk
begin

text \<open>
  The extensions on a connection: which lines can make a bot known or change what it offers, and a voice
  signal from the host that sends it to the room of the client that receives it.
\<close>

section \<open>Bots\<close>

lemma bots_kept [simp]:
  "cl_bots (arm_keepalive c) = cl_bots c" "cl_bots (isupport_token token c) = cl_bots c"
  "cl_bots (monitor_target online target c) = cl_bots c" "cl_bots (rejoin entry c) = cl_bots c"
  "cl_bots (snd (handle_typing m c)) = cl_bots c" "cl_bots (snd (handle_standard_reply severity m c)) = cl_bots c"
  "cl_bots (handle_nick_refused m c) = cl_bots c" "cl_bots (snd (start_sasl_if_wanted c)) = cl_bots c"
  "cl_bots (snd (handle_rtc m c)) = cl_bots c" "cl_bots (snd (handle_token m c)) = cl_bots c"
  "cl_bots (handle_cmdslist m c) = cl_bots c" "cl_bots (received m c) = cl_bots c"
  by (simp_all add: arm_keepalive_def isupport_token_def monitor_target_def rejoin_def handle_typing_def
      handle_standard_reply_def handle_nick_refused_def start_sasl_if_wanted_def handle_rtc_def drop_line_def
      handle_token_def handle_cmdslist_def received_def Let_def case_prod_unfold split: option.split)

lemma bots_kept_folds [simp]:
  "cl_bots (drain_batch e closed c) = cl_bots c" "cl_bots (handle_monitor m c) = cl_bots c"
  "cl_bots (handle_isupport m c) = cl_bots c" "cl_bots (resume c) = cl_bots c"
  "cl_bots (send_sasl e payload c) = cl_bots c" "cl_bots (finish_negotiation_if_settled c) = cl_bots c"
  by (simp_all add: drain_batch_def handle_monitor_def handle_isupport_def resume_def send_sasl_def
      finish_negotiation_if_settled_def Let_def case_prod_unfold fold_field [where field = cl_bots] split: option.split)

lemma bots_kept_lines [simp]:
  "cl_bots (request_wanted c) = cl_bots c" "cl_bots (finish_sasl failure c) = cl_bots c"
  "cl_bots (handle_batch e m c) = cl_bots c" "cl_bots (handle_welcome m c) = cl_bots c"
  by (simp_all add: request_wanted_def finish_sasl_def handle_batch_def handle_welcome_def Let_def case_prod_unfold
      fold_field [where field = cl_bots] split: option.split)

lemma bots_kept_sasl [simp]:
  "cl_bots (begin_sasl_response e c) = cl_bots c" "cl_bots (answer_scram_challenge e challenge c) = cl_bots c"
  "cl_bots (verify_scram_server e challenge c) = cl_bots c" "cl_bots (handle_cap m c) = cl_bots c"
  by (simp_all add: begin_sasl_response_def answer_scram_challenge_def verify_scram_server_def handle_cap_def Let_def
      case_prod_unfold split: option.split credentials.split sum.split)

lemma bots_kept_rest [simp]: "cl_bots (handle_rest e m c) = cl_bots c"
  by (simp add: handle_rest_def handle_authenticate_def Let_def case_prod_unfold split: option.split sasl_state.split)

text \<open>The one change a line can make to the bots that are known.\<close>

definition offering :: "bot_command list \<Rightarrow> bot \<Rightarrow> bot" where
  "offering commands b =
     b\<lparr>bot_commands := if bot_from_config b then commands else filter (\<lambda>c. \<not> is_privileged (bc_name c)) commands\<rparr>"

inductive bots_step :: "externals \<Rightarrow> (string \<Rightarrow> string) \<Rightarrow> message \<Rightarrow> (string \<Rightarrow> bot option) \<Rightarrow> (string \<Rightarrow> bot option) \<Rightarrow> bool"
  for e fld m where
  announced: "\<lbrakk>msg_tag m BOT_INFO_TAG = Some payload; bot_info_decode e payload = Some info; \<not> bi_removed info\<rbrakk> \<Longrightarrow>
     bots_step e fld m known (known(fld (bot_nick (bi_bot info)) \<mapsto> offering (bi_commands info) (bi_bot info)))"
| withdrawn: "\<lbrakk>msg_tag m BOT_INFO_TAG = Some payload; bot_info_decode e payload = Some info; bi_removed info\<rbrakk> \<Longrightarrow>
     bots_step e fld m known (known(fld (bot_nick (bi_bot info)) := None))"
| listed: "\<lbrakk>msg_tag m BOT_COMMANDS_TAG = Some payload; decode_bot_commands e payload = Some commands; msg_source m = Some source;
     known (fld (src_name source)) = Some b\<rbrakk> \<Longrightarrow>
     bots_step e fld m known (known(fld (src_name source) \<mapsto> offering commands b))"

inductive_cases bots_stepE: "bots_step e fld m known known'"

lemma map_of_set_commands:
  "map_of (snd (bots_set_commands key commands known)) =
     (case map_of known key of None \<Rightarrow> map_of known | Some b \<Rightarrow> (map_of known)(key \<mapsto> offering commands b))"
  by (auto simp: bots_set_commands_def offering_def fun_eq_iff split: option.split)

lemma bots_change:
  "map_of (cl_bots (snd (handle_bot_tags e m c))) = map_of (cl_bots c)
   \<or> bots_step e (isupport_fold (cl_isupport c)) m (map_of (cl_bots c)) (map_of (cl_bots (snd (handle_bot_tags e m c))))"
proof -
  let ?fld = "isupport_fold (cl_isupport c)"
  have insert: "map_of (snd (bots_set_commands key commands (bots_insert key b known))) = (map_of known)(key \<mapsto> offering commands b)"
    for key commands b known
    by (auto simp: map_of_set_commands bots_insert_def fun_eq_iff)
  have remove: "map_of (bots_remove key known) = (map_of known)(key := None)" for key known
    by (auto simp: bots_remove_def fun_eq_iff)
  show ?thesis
  proof (cases "msg_tag m BOT_INFO_TAG")
    case (Some payload)
    then show ?thesis
      by (auto simp: handle_bot_tags_def bot_announced_def Let_def insert remove drop_line_def
          intro: announced withdrawn split: option.splits)
  next
    case None
    then show ?thesis
      by (auto simp: handle_bot_tags_def bot_commands_listed_def Let_def case_prod_unfold map_of_set_commands drop_line_def
          intro: listed split: option.splits)
  qed
qed

text \<open>What one input of the host can do to them.\<close>

definition bots_line :: "externals \<Rightarrow> (string \<Rightarrow> bot option) \<Rightarrow> (string \<Rightarrow> bot option) \<Rightarrow> bool" where
  "bots_line e known known' \<longleftrightarrow> (\<exists>i m. msg_is m ''TAGMSG'' \<and> bots_step e (isupport_fold i) m known known')"

fun bots_input :: "externals \<Rightarrow> input \<Rightarrow> (string \<Rightarrow> bot option) \<Rightarrow> (string \<Rightarrow> bot option) \<Rightarrow> bool" where
  "bots_input e Lost known known' \<longleftrightarrow> known' = Map.empty"
| "bots_input e (Read data) known known' \<longleftrightarrow> (bots_line e)\<^sup>*\<^sup>* known known'"
| "bots_input e _ known known' \<longleftrightarrow> known' = known"

lemma bots_change_line:
  assumes "map_of (cl_bots (handle_message e m c)) \<noteq> map_of (cl_bots c)"
  shows "msg_is m ''TAGMSG''
     \<and> bots_step e (isupport_fold (cl_isupport c)) m (map_of (cl_bots c)) (map_of (cl_bots (handle_message e m c)))"
proof (rule handle_message_cases [where P = "\<lambda>c'. map_of (cl_bots c') \<noteq> map_of (cl_bots c) \<longrightarrow> msg_is m ''TAGMSG''
    \<and> bots_step e (isupport_fold (cl_isupport c)) m (map_of (cl_bots c)) (map_of (cl_bots c'))", THEN mp])
  assume "msg_is m ''TAGMSG''"
  moreover have "isupport_fold (cl_isupport (received m c)) = isupport_fold (cl_isupport c)"
    by (simp add: received_def arm_keepalive_def)
  ultimately show "map_of (cl_bots (snd (handle_bot_tags e m (received m c)))) \<noteq> map_of (cl_bots c) \<longrightarrow> msg_is m ''TAGMSG''
      \<and> bots_step e (isupport_fold (cl_isupport c)) m (map_of (cl_bots c)) (map_of (cl_bots (snd (handle_bot_tags e m (received m c)))))"
    using bots_change [of e m "received m c"] by auto
qed (use assms in simp_all)

lemma bots_take_line: "(bots_line e)\<^sup>*\<^sup>* (map_of (cl_bots c)) (map_of (cl_bots (take_line e line c)))"
proof -
  have "(bots_line e)\<^sup>*\<^sup>* (map_of (cl_bots c)) (map_of (cl_bots (handle_message e m c)))" for m
  proof (cases "map_of (cl_bots (handle_message e m c)) = map_of (cl_bots c)")
    case False
    then show ?thesis
      using bots_change_line [of e m c] unfolding bots_line_def by blast
  qed simp
  then show ?thesis
    by (simp add: take_line_def handle_line_def drop_line_def split: sum.split)
qed

lemma bots_take_lines: "(bots_line e)\<^sup>*\<^sup>* (map_of (cl_bots c)) (map_of (cl_bots (fold (take_line e) lines c)))"
  by (induction lines rule: rev_induct) (auto intro: rtranclp_trans bots_take_line)

lemma bots_kept_inputs [simp]:
  "cl_bots (handle_connected c) = cl_bots c" "cl_bots (handle_disconnected c) = []" "cl_bots (tick now c) = cl_bots c"
  "cl_bots (client_command e command c) = cl_bots c" "cl_bots (send_labeled m c) = cl_bots c" "cl_bots (snd (poll_transmit c)) = cl_bots c"
  "cl_bots (snd (poll_event c)) = cl_bots c" "cl_bots (settle_rest rest c) = cl_bots c"
  by (simp_all add: handle_connected_def handle_disconnected_def tick_def tick_deadline_def expire_typing_def
      client_command_def say_def set_watching_def send_line_labeled_def poll_transmit_def poll_event_def settle_rest_def
      drop_line_def rebuffer_def bots_forget_def Let_def case_prod_unfold fold_field [where field = cl_bots]
      split: option.split deadline.split command.split list.split)

lemma bots_client_step: "bots_input e i (map_of (cl_bots c)) (map_of (cl_bots (client_step e i c)))"
  by (cases i) (simp_all add: handle_bytes_def bytes_loop_lines bots_take_lines)

text \<open>C15: what is known of the bots of a network changes at a line in three ways only, all of them lines
  without text: a bot is announced, it is withdrawn, or a bot that is already known lists its commands; and
  a bot that is not of the server's configuration is left without the reserved commands it claims, on both
  routes. Of what the host does, only a read brings such lines; the loss of the connection forgets every
  bot, and nothing else changes them.\<close>

theorem bots_change_as_announced:
  assumes "map_of (cl_bots (handle_message e m c)) \<noteq> map_of (cl_bots c)"
  shows "msg_is m ''TAGMSG''
     \<and> bots_step e (isupport_fold (cl_isupport c)) m (map_of (cl_bots c)) (map_of (cl_bots (handle_message e m c)))
     \<and> bots_input e i (map_of (cl_bots d)) (map_of (cl_bots (client_step e i d)))"
  using bots_change_line [OF assms] bots_client_step [of e i d] by blast

section \<open>Voice\<close>

text \<open>What the receiver's room becomes.\<close>

definition room_after :: "signal \<Rightarrow> string \<Rightarrow> client \<Rightarrow> voice_room" where
  "room_after sig channel c =
     room_apply (cl_nick c) sig (isu_casemapping (cl_isupport c))
       (case client_voice_room c (isupport_fold (cl_isupport c) channel) of Some room \<Rightarrow> room | None \<Rightarrow> room_new channel)"

lemma handle_rtc_signal:
  assumes "msg_tag m ''+obsidianirc/rtc'' = Some (signal_to_json sig)" "msg_param m 0 = Some channel" "signal_ok sig"
  shows "handle_rtc m c = (True, push_event (VoiceFrame channel sig)
       (c\<lparr>cl_rooms := bt_insert (isupport_fold (cl_isupport c) channel) (room_after sig channel c) (cl_rooms c)\<rparr>))"
proof -
  have "signal_from_json (signal_to_json sig) = Some sig"
    using from_value_to_value [OF assms(3)] json_parse_write [OF to_value_ok [OF assms(3)]]
    by (simp add: signal_from_json_def signal_to_json_def)
  then show ?thesis
    using assms by (simp add: handle_rtc_def Let_def bt_entry_def room_after_def client_voice_room_def)
qed

lemma handle_message_rtc:
  assumes "msg_command m = ''TAGMSG''" "msg_tag m ''+typing'' = None" "msg_tag m ''+obsidianirc/rtc'' = Some payload"
    "msg_param m 0 = Some channel"
  shows "handle_message e m c = snd (handle_rtc m (received m c))"
proof -
  have "\<not> fst (handle_typing m c)" "fst (handle_rtc m c)" for c
    using assms(2-4) by (simp_all add: handle_typing_def handle_rtc_def)
  then show ?thesis
    unfolding handle_message_def Let_def received_def [symmetric]
    by (simp add: msg_is_def assms(1) line_eval)
qed

lemma handle_message_bots:
  assumes "msg_command m = ''TAGMSG''" "msg_tag m ''+typing'' = None" "msg_tag m ''+obsidianirc/rtc'' = None"
    "msg_tag m BOT_INFO_TAG = Some payload"
  shows "handle_message e m c = bot_announced e payload (received m c)"
proof -
  have "\<not> fst (handle_typing m c)" "\<not> fst (handle_rtc m c)" "handle_bot_tags e m c = (True, bot_announced e payload c)" for c
    using assms(2-4) by (simp_all add: handle_typing_def handle_rtc_def handle_bot_tags_def)
  then show ?thesis
    unfolding handle_message_def Let_def received_def [symmetric]
    by (simp add: msg_is_def assms(1) line_eval)
qed

lemma voice_line_wf:
  assumes "message_wf (message_new ''TAGMSG'' [channel])"
  shows "message_wf ((message_new ''TAGMSG'' [channel])\<lparr>msg_tags := tags_set (tag_new ''+obsidianirc/rtc'' (signal_to_json sig)) []\<rparr>)"
proof -
  have "signal_to_json sig \<noteq> []"
    by (simp add: signal_to_json_def to_json_value_def Let_def case_prod_unfold)
  then show ?thesis
    using assms by (simp add: message_wf_def tag_wf_def tag_new_def message_new_def command_wf_def)
qed

text \<open>C16: a voice signal that one host sends is the signal another client applies: the line it goes out as reads
  back, and a client that receives that line, whoever the server says it is from, applies exactly that
  signal to its room for the channel, creating the room if need be, tells its host of it once, and files
  nothing in the conversation.\<close>

theorem voice_signal_travels:
  assumes "signal_ok sig" "message_wf (message_new ''TAGMSG'' [channel])"
  shows "\<exists>sent line. cl_outbox (client_send_voice_signal e channel sig c) = cl_outbox c @ [sent]
     \<and> message_parse sent = Inr line
     \<and> cl_events (handle_message e (line\<lparr>msg_source := src\<rparr>) d) = cl_events d @ [VoiceFrame channel sig]
     \<and> client_voice_room (handle_message e (line\<lparr>msg_source := src\<rparr>) d) (isupport_fold (cl_isupport d) channel)
         = Some (room_after sig channel d)
     \<and> cl_model (handle_message e (line\<lparr>msg_source := src\<rparr>) d) = cl_model d"
proof -
  let ?m = "(message_new ''TAGMSG'' [channel])\<lparr>msg_tags := tags_set (tag_new ''+obsidianirc/rtc'' (signal_to_json sig)) []\<rparr>"
  define line where "line = labelled c ?m"
  have wf: "message_wf line"
    using voice_line_wf [OF assms(2), of sig] label_tag_wf [OF voice_line_wf [OF assms(2), of sig]]
    by (simp add: line_def labelled_def)
  have sent: "cl_outbox (client_send_voice_signal e channel sig c) = cl_outbox c @ [line_bytes line]"
    using client_command_wire [of "SendVoiceSignal channel sig" ?m e c]
    by (simp add: client_send_voice_signal_def wire_def send_labeled_writes line_def)
  have parse: "message_parse (line_bytes line) = Inr line"
    using message_parse_display [OF wf, of "[cr, nl]"] by (simp add: line_bytes_def)
  let ?r = "line\<lparr>msg_source := src\<rparr>"
  have r: "msg_command ?r = ''TAGMSG''" "msg_tag ?r ''+typing'' = None"
    "msg_tag ?r ''+obsidianirc/rtc'' = Some (signal_to_json sig)" "msg_param ?r 0 = Some channel"
    by (simp_all add: line_def labelled_def message_new_def msg_tag_def msg_param_def tag_new_def tags_get_def)
  have "handle_message e ?r d = push_event (VoiceFrame channel sig) ((received ?r d)\<lparr>cl_rooms :=
      bt_insert (isupport_fold (cl_isupport (received ?r d)) channel) (room_after sig channel (received ?r d)) (cl_rooms (received ?r d))\<rparr>)"
    using handle_message_rtc [OF r, of e d] handle_rtc_signal [OF r(3,4) assms(1), of "received ?r d"] by simp
  moreover have "room_after sig channel (received ?r d) = room_after sig channel d" "cl_isupport (received ?r d) = cl_isupport d"
    "cl_rooms (received ?r d) = cl_rooms d" "cl_events (received ?r d) = cl_events d" "cl_model (received ?r d) = cl_model d"
    by (simp_all add: received_def arm_keepalive_def room_after_def client_voice_room_def)
  ultimately show ?thesis
    using sent parse by (intro exI [of _ "line_bytes line"] exI [of _ line]) (simp add: client_voice_room_def)
qed

theorem voice_signal_travels_witness:
  "\<exists>sent line. cl_outbox (client_send_voice_signal sample_externals ''^lobby'' (SigMic On) sample_client) = cl_outbox sample_client @ [sent]
     \<and> message_parse sent = Inr line
     \<and> cl_events (handle_message sample_externals (line\<lparr>msg_source := None\<rparr>) sample_client)
         = cl_events sample_client @ [VoiceFrame ''^lobby'' (SigMic On)]
     \<and> client_voice_room (handle_message sample_externals (line\<lparr>msg_source := None\<rparr>) sample_client)
         (isupport_fold (cl_isupport sample_client) ''^lobby'') = Some (room_after (SigMic On) ''^lobby'' sample_client)
     \<and> cl_model (handle_message sample_externals (line\<lparr>msg_source := None\<rparr>) sample_client) = cl_model sample_client"
  by (rule voice_signal_travels) (simp_all add: signal_ok_def message_wf_def message_new_def command_wf_def params_wf_def)

definition sample_announcement :: message where
  "sample_announcement =
     (message_new ''TAGMSG'' [''me''])
       \<lparr>msg_tags := [tag_new BOT_INFO_TAG (ext_base64_encode sample_externals (json_write (JObject [(''nick'', JStr ''rover'')])))]\<rparr>"

theorem bots_change_as_announced_witness:
  "msg_is sample_announcement ''TAGMSG''
   \<and> bots_step sample_externals (isupport_fold (cl_isupport sample_client)) sample_announcement (map_of (cl_bots sample_client))
       (map_of (cl_bots (handle_message sample_externals sample_announcement sample_client)))"
proof -
  let ?v = "JObject [(''nick'', JStr ''rover'')]" and ?d = "received sample_announcement sample_client"
  have "json_ok ?v" "valid_utf8 (json_write ?v)"
    by (simp_all add: ascii_valid is_ascii_def write_json_string_def json_char_def del: valid_utf8.simps)
  then have info: "bot_info_decode sample_externals (ext_base64_encode sample_externals (json_write ?v))
      = Some \<lparr>bi_removed = False, bi_bot = \<lparr>bot_nick = ''rover'', bot_id = None, bot_from_config = False, bot_commands = []\<rparr>,
          bi_commands = []\<rparr>"
    using sample_base64_laws
    by (simp add: bot_info_decode_def decode_tag_json_def base64_laws_def json_parse_write field_string_def json_field_def
        as_str_def commands_of_def del: json_write.simps)
  have none: "cl_bots sample_client = []" "cl_bots ?d = []"
    by (simp_all add: sample_client_def client_new_def bots_new_def Let_def)
  have "handle_message sample_externals sample_announcement sample_client
      = bot_announced sample_externals (ext_base64_encode sample_externals (json_write ?v)) ?d"
    by (rule handle_message_bots) (simp_all add: sample_announcement_def message_new_def msg_tag_def tags_get_def tag_new_def BOT_INFO_TAG_def)
  then have "map_of (cl_bots (handle_message sample_externals sample_announcement sample_client)) \<noteq> map_of (cl_bots sample_client)"
    by (simp add: bot_announced_def info none bots_insert_def bots_set_commands_def Let_def bt_modify_def fun_eq_iff
        del: json_write.simps)
  from bots_change_as_announced [OF this] show ?thesis by blast
qed

end
