(* ===== verification/Json_Type.thy ===== *)
theory Json_Type
  imports Json
begin

text \<open>
  What \<open>Json::parse\<close> accepts is a value of the source's type: its strings are text, however they were
  escaped, and its numbers are \<open>i64\<close>s. So everything that was read can be written and read again.
\<close>

section \<open>Joining texts\<close>

lemma conts_prefix: "conts n a = n \<Longrightarrow> conts n (a @ b) = n"
  by (induction n a rule: conts.induct) (auto split: if_splits)

lemma utf8_width_append: "utf8_width c a = (True, k) \<Longrightarrow> utf8_width c (a @ b) = (True, k)"
  by (cases a) (auto simp: utf8_width_def Let_def conts_prefix split: if_splits)

lemma valid_utf8_append: "valid_utf8 a \<Longrightarrow> valid_utf8 b \<Longrightarrow> valid_utf8 (a @ b)"
proof (induction a rule: valid_utf8.induct)
  case (2 c cs)
  obtain ok k where w: "utf8_width c cs = (ok, k)"
    by (cases "utf8_width c cs")
  with 2 have ok: "ok" "valid_utf8 (drop (k - 1) cs)"
    by auto
  have "k \<le> Suc (length cs)"
    using w ok(1) utf8_width_le [of c cs k] by simp
  then show ?case
    using 2 w ok utf8_width_append [of c cs k b] by auto
qed simp

section \<open>Decoded scalars\<close>

lemma cont_char_of: "m < 64 \<Longrightarrow> is_cont (char_of (128 + m))" for m :: nat
proof -
  assume "m < 64"
  then have "(128 + m) div 2 ^ 7 = 1" "(128 + m) div 2 ^ 6 = 2"
    by simp_all
  then show ?thesis
    by (simp add: is_cont_def char_of_def bit_iff_odd)
qed

lemma char_of_eq: "n < 256 \<Longrightarrow> char_of n = c \<longleftrightarrow> n = of_char c" for n :: nat
  by (metis char_of_char of_char_mod_256 char_of_nat mod_less of_char_of)

lemma between_char_of: "n < 256 \<Longrightarrow> between a b (char_of n) \<longleftrightarrow> a \<le> n \<and> n \<le> b" for n :: nat
  by (simp add: between_def)

lemma ascii_char_of: "n < 256 \<Longrightarrow> is_ascii (char_of n) \<longleftrightarrow> n < 128" for n :: nat
  by (simp add: is_ascii_less)

lemmas lead_eval = utf8_width_def utf8_lead_def second_ok_def char_of_eq between_char_of ascii_char_of Let_def

lemma sextets: "u = 64 * (u div 64) + u mod 64" "u mod 64 < 64" for u :: nat
  by simp_all

lemma scalar_2:
  fixes u :: nat
  assumes "0x80 \<le> u" "u < 0x800"
  shows "valid_utf8 [char_of (0xC0 + u div 64), char_of (0x80 + u mod 64)]"
proof -
  have "2 \<le> u div 64" "u div 64 < 32"
    using assms by auto
  then show ?thesis
    using cont_char_of [of "u mod 64"] by (simp add: lead_eval)
qed

lemma scalar_3:
  fixes u :: nat
  assumes "0x800 \<le> u" "u < 0x10000" "\<not> (0xD800 \<le> u \<and> u \<le> 0xDFFF)"
  shows "valid_utf8 [char_of (0xE0 + u div 4096), char_of (0x80 + u div 64 mod 64), char_of (0x80 + u mod 64)]"
proof -
  have "u div 4096 = u div 64 div 64"
    by (simp add: div_mult2_eq [symmetric])
  then have "u div 4096 < 16" "u div 4096 = 0 \<longrightarrow> 32 \<le> u div 64 mod 64" "u div 4096 = 13 \<longrightarrow> u div 64 mod 64 < 32"
    using assms sextets [of u] sextets [of "u div 64"] by linarith+
  then show ?thesis
    using cont_char_of [of "u mod 64"] cont_char_of [of "u div 64 mod 64"] by (auto simp: lead_eval numeral_3_eq_3)
qed

lemma scalar_4:
  fixes u :: nat
  assumes "0x10000 \<le> u" "u \<le> 0x10FFFF"
  shows "valid_utf8 [char_of (0xF0 + u div 262144), char_of (0x80 + u div 4096 mod 64),
           char_of (0x80 + u div 64 mod 64), char_of (0x80 + u mod 64)]"
proof -
  define x y where "x = u div 64" and "y = u div 4096"
  have "u div 262144 = y div 64" "y = x div 64"
    by (simp_all add: x_def y_def div_mult2_eq [symmetric])
  then have y: "u div 262144 < 5" "u div 262144 = 0 \<Longrightarrow> 16 \<le> y mod 64" "u div 262144 = 4 \<Longrightarrow> y mod 64 < 16"
    using assms sextets [of u] sextets [of x] sextets [of y] unfolding x_def [symmetric] by linarith+
  then show ?thesis
    using cont_char_of [of "u mod 64"] cont_char_of [of "u div 64 mod 64"] cont_char_of [of "u div 4096 mod 64"]
    y unfolding y_def by (auto simp: lead_eval numeral_2_eq_2)
qed

lemma char_from_u32_valid: "char_from_u32 u = Some c \<Longrightarrow> valid_utf8 c"
  using scalar_2 [of u] scalar_3 [of u] scalar_4 [of u]
  by (auto simp: char_from_u32_def ascii_valid ascii_char_of simp del: valid_utf8.simps split: if_splits)

section \<open>What the parser accepts\<close>

lemma json_escape_valid: "json_escape s = Some (c, r) \<Longrightarrow> valid_utf8 c"
  by (auto simp: json_escape_def json_unicode_escape_def ascii_valid is_ascii_def simp del: valid_utf8.simps
      split: list.splits if_splits option.splits) (erule char_from_u32_valid)+

lemma json_chars_valid: "valid_utf8 out \<Longrightarrow> json_chars out run s = Some (t, r) \<Longrightarrow> valid_utf8 t"
proof (induction out run s rule: json_chars.induct)
  case (2 out run c cs)
  show ?case
  proof (cases "c = backslash")
    case True
    then obtain e r' where e: "json_escape cs = Some (e, r')" "valid_utf8 run"
      "json_chars (out @ run @ e) [] r' = Some (t, r)"
      using 2(4) by (auto split: if_splits option.splits)
    moreover have "valid_utf8 (out @ run @ e)"
      using e 2(3) by (intro valid_utf8_append json_escape_valid [OF e(1)])
    ultimately show ?thesis
      using 2(1) [OF _ True e(2,1) refl] True by simp
  next
    case False
    then show ?thesis
      using 2(2-4) by (cases "c = quote") (auto simp del: valid_utf8.simps intro: valid_utf8_append split: if_splits)
  qed
qed simp

lemma json_string_valid: "json_string s = Some (t, r) \<Longrightarrow> valid_utf8 t"
  by (auto simp: json_string_def bind_eq_Some_conv dest: json_chars_valid [rotated])

lemma parse_i64_range: "parse_i64 s = Some n \<Longrightarrow> in_i64 n"
  by (auto simp: parse_i64_def bind_eq_Some_conv checked_i64_def split: list.splits if_splits)

lemma json_number_ok: "json_number s = Some (v, r) \<Longrightarrow> json_ok v"
  by (auto simp: json_number_def Let_def dest: parse_i64_range split: list.splits if_splits)

lemma json_literal_value: "json_literal w j s = Some (v, r) \<Longrightarrow> v = j"
  by (auto simp: json_literal_def)

lemma json_value_ok:
  "json_value s = Some (v, r) \<Longrightarrow> json_ok v"
  "json_items s = Some (vs, r) \<Longrightarrow> \<forall>v\<in>set vs. json_ok v"
  "json_fields s = Some (fs, r) \<Longrightarrow> \<forall>(key, v)\<in>set fs. valid_utf8 key \<and> json_ok v"
proof (induction s and s and s arbitrary: v r and vs r and fs r rule: json_value_json_items_json_fields.induct)
  case (1 s)
  obtain c cs where c: "skip_ws s = c # cs"
    using 1(3) by (auto simp: json_value.simps [of s] split: list.splits)
  note fields = 1(1) [OF c] and items = 1(2) [OF c]
  show ?case
  proof (cases "c = CHR ''{'' \<or> c = CHR ''[''")
    case True
    then show ?thesis
      using 1(3) c fields items
      by (auto simp: json_value.simps [of s] simp del: valid_utf8.simps split: option.splits)
  next
    case False
    then have "(\<exists>t. v = JStr t \<and> json_string (c # cs) = Some (t, r)) \<or> json_number (c # cs) = Some (v, r)
        \<or> (\<exists>w j. json_ok j \<and> json_literal w j (c # cs) = Some (v, r))"
      using 1(3) c by (auto simp: json_value.simps [of s] split: if_splits)
    then show ?thesis
      by (auto dest: json_string_valid json_number_ok json_literal_value simp del: valid_utf8.simps)
  qed
next
  case (2 s)
  obtain v0 r0 where v0: "json_value s = Some (v0, r0)"
    using 2(3) by (auto simp: json_items.simps [of s] split: option.splits)
  from 2(1) [OF this] 2(2) [OF v0 refl] 2(3) v0 show ?case
    by (auto simp: json_items.simps [of s] split: list.splits if_splits)
next
  case (3 s)
  obtain key r0 where key: "json_string (skip_ws s) = Some (key, r0)"
    using 3(3) by (auto simp: json_fields.simps [of s] split: option.splits)
  obtain r1 where r1: "expect_byte (CHR '':'') (skip_ws r0) = Some r1"
    using 3(3) key by (auto simp: json_fields.simps [of s] split: option.splits)
  obtain v0 r2 where v0: "json_value r1 = Some (v0, r2)"
    using 3(3) key r1 by (auto simp: json_fields.simps [of s] split: option.splits)
  obtain c r3 where r3: "skip_ws r2 = c # r3"
    using 3(3) key r1 v0 by (auto simp: json_fields.simps [of s] split: list.splits)
  show ?case
    using 3(1) [OF key refl r1 v0] 3(2) [OF key refl r1 v0 refl r3] 3(3) json_string_valid [OF key]
    by (auto simp: json_fields.simps [of s] key r1 v0 r3 simp del: valid_utf8.simps split: if_splits)
qed

text \<open>C32: a JSON text that is accepted gives a value of the source's type, every string in it valid text and
  every number an \<open>i64\<close>, and writing that value and reading it again gives the same value.\<close>

theorem json_parse_typed: "json_parse s = Some v \<Longrightarrow> json_ok v \<and> json_parse (json_write v) = Some v"
proof -
  assume "json_parse s = Some v"
  then have "json_ok v"
    by (auto simp: json_parse_def dest: json_value_ok split: option.splits if_splits)
  with json_parse_write show ?thesis by blast
qed

theorem json_parse_typed_witness:
  "json_parse ''[1.5, -2e3]'' = Some (JArray [JNum 1, JNum (-2)]) \<and> json_ok (JArray [JNum 1, JNum (-2)])
   \<and> json_parse (json_write (JArray [JNum 1, JNum (-2)])) = Some (JArray [JNum 1, JNum (-2)])"
proof -
  have read: "json_parse ''[1.5, -2e3]'' = Some (JArray [JNum 1, JNum (-2)])"
    by (simp add: json_parse_def json_value_eval skip_ws_def json_ws_def expect_byte_def json_number_def skip_digits_def
        skip_fraction_def skip_exponent_def is_ascii_digit_def less_eq_char_def parse_i64_def checked_i64_def in_i64_def
        parse_digits_def digits_value_def digit_value_def Let_def)
  from json_parse_typed [OF read] read show ?thesis by blast
qed

end
