(* ===== verification/Voice_Sdp.thy ===== *)
theory Voice_Sdp
  imports Voice
begin

text \<open>
  Session descriptions in chunks: cutting never splits a character and loses nothing, the chunks come
  back together in any order, and what is in flight is bounded.
\<close>

section \<open>Cutting\<close>

definition one_scalar :: "string \<Rightarrow> bool" where
  "one_scalar p \<longleftrightarrow> p \<noteq> [] \<and> list_all is_cont (tl p)"

lemma floor_boundary_le: "floor_boundary s start k \<le> k"
  by (induction k) auto

lemma floor_boundary_stops: "start \<le> k \<Longrightarrow> floor_boundary s start k = start \<or> is_char_boundary s (floor_boundary s start k)"
  by (induction k) (auto simp: is_char_boundary_def)

lemma ceil_boundary_le: "k \<le> length s \<Longrightarrow> ceil_boundary s k \<le> length s"
proof (induction s k rule: ceil_boundary.induct)
  case (1 s k)
  then show ?case by (simp add: ceil_boundary.simps [of s k])
qed

lemma ceil_boundary_stops: "k \<le> length s \<Longrightarrow> is_char_boundary s (ceil_boundary s k)"
proof (induction s k rule: ceil_boundary.induct)
  case (1 s k)
  then show ?case
    using ceil_boundary.simps [of s k] by (cases "k < length s") (auto simp: is_char_boundary_def split: if_splits)
qed

lemma ceil_boundary_between: "k \<le> i \<Longrightarrow> i < ceil_boundary s k \<Longrightarrow> 0 < k \<Longrightarrow> is_cont (s ! i)"
proof (induction s k rule: ceil_boundary.induct)
  case (1 s k)
  have "k < length s \<and> \<not> is_char_boundary s k"
    using 1(2,3) ceil_boundary.simps [of s k] by (metis leD)
  moreover from this have "ceil_boundary s k = ceil_boundary s (Suc k)"
    by (simp add: ceil_boundary.simps [of s k])
  ultimately show ?case
    using 1 by (cases "k = i") (auto simp: is_char_boundary_def)
qed

lemma chunk_end_le: "start < length s \<Longrightarrow> chunk_end s budget start \<le> length s"
  using floor_boundary_le [of s start "min (start + budget) (length s)"]
  by (auto simp: chunk_end_def Let_def ceil_boundary_le)

lemma chunk_end_boundary:
  "start < length s \<Longrightarrow> is_char_boundary s start \<Longrightarrow> is_char_boundary s (chunk_end s budget start)"
  using floor_boundary_stops [of start "min (start + budget) (length s)" s] ceil_boundary_stops [of "start + 1" s]
  by (auto simp: chunk_end_def Let_def)

lemma chunk_size:
  fixes budget :: nat
  assumes "start < length s"
  defines "p \<equiv> take (chunk_end s budget start - start) (drop start s)"
  shows "p \<noteq> [] \<and> (length p \<le> budget \<or> one_scalar p)"
proof -
  let ?stop = "floor_boundary s start (min (start + budget) (length s))"
  have len: "length p = chunk_end s budget start - start"
    using chunk_end_le [OF assms(1), of budget] by (simp add: p_def)
  have p: "p \<noteq> []"
    using len chunk_end_gt [OF assms(1), of budget] by auto
  show ?thesis
  proof (cases "?stop = start")
    case False
    then have "length p \<le> budget"
      using len floor_boundary_le [of s start "min (start + budget) (length s)"]
      by (simp add: chunk_end_def Let_def le_diff_conv)
    with p show ?thesis by simp
  next
    case True
    then have stop: "chunk_end s budget start = ceil_boundary s (start + 1)"
      by (simp add: chunk_end_def)
    have "is_cont (tl p ! i)" if "i < length (tl p)" for i
    proof -
      have "tl p ! i = s ! (start + Suc i)"
        using that len chunk_end_le [OF assms(1), of budget] by (simp add: nth_tl p_def)
      then show ?thesis
        using that len stop ceil_boundary_between [of "Suc start" "start + Suc i" s] by simp
    qed
    with p show ?thesis
      by (auto simp: one_scalar_def list_all_length)
  qed
qed

lemma char_chunks_from_spec:
  "start \<le> length s \<Longrightarrow> is_char_boundary s start \<Longrightarrow>
     \<exists>ps. char_chunks_from s budget start = Some ps \<and> concat ps = drop start s
        \<and> (\<forall>p\<in>set ps. p \<noteq> [] \<and> (length p \<le> budget \<or> one_scalar p))"
proof (induction s budget start rule: char_chunks_from.induct)
  case (1 s budget start)
  show ?case
  proof (cases "start < length s")
    case False
    with 1(2) show ?thesis by (simp add: char_chunks_from.simps)
  next
    case True
    define stop where "stop = chunk_end s budget start"
    have stop: "start < stop" "stop \<le> length s" "is_char_boundary s stop"
      using True 1(3) chunk_end_gt chunk_end_le chunk_end_boundary by (auto simp: stop_def)
    define p where "p = take (stop - start) (drop start s)"
    have p: "str_get start stop s = Some p"
      using stop 1(3) by (simp add: str_get_def p_def)
    have "\<exists>ps. char_chunks_from s budget stop = Some ps \<and> concat ps = drop stop s
        \<and> (\<forall>p\<in>set ps. p \<noteq> [] \<and> (length p \<le> budget \<or> one_scalar p))"
      using 1(1) [OF True p [unfolded stop_def]] stop by (simp add: stop_def)
    moreover have "p @ drop stop s = drop start s"
      using stop(1,2) by (simp add: p_def) (metis append_take_drop_id drop_drop le_add_diff_inverse2 less_imp_le_nat)
    moreover have "p \<noteq> [] \<and> (length p \<le> budget \<or> one_scalar p)"
      using chunk_size [OF True] by (simp add: p_def stop_def)
    ultimately show ?thesis
      using True p by (auto simp: char_chunks_from.simps [of s budget start] simp flip: stop_def)
  qed
qed

lemma length_concat_ge: "[] \<notin> set ps \<Longrightarrow> length ps \<le> length (concat ps)"
proof (induction ps)
  case (Cons p ps)
  then show ?case by (cases p) auto
qed simp

text \<open>C33: cutting always comes to an end with the whole text cut: the loop that moves the cut to a scalar
  boundary, back or else forward, makes progress each time, even for a budget of zero or a scalar wider
  than the budget, no cut misses a boundary, and there are at most as many pieces as bytes.\<close>

theorem char_chunks_finish:
  "\<exists>pieces. char_chunks s budget = Some pieces \<and> concat pieces = s \<and> [] \<notin> set pieces \<and> length pieces \<le> length s"
proof -
  have "is_char_boundary s 0"
    by (simp add: is_char_boundary_def)
  then obtain pieces where "char_chunks s budget = Some pieces" "concat pieces = s" "[] \<notin> set pieces"
    using char_chunks_from_spec [of 0 s budget] by (auto simp: char_chunks_def)
  with length_concat_ge [of pieces] show ?thesis by auto
qed

lemma split_sdp_spec:
  assumes "0 < budget" "budget < length sdp"
  obtains pieces where "concat pieces = sdp" "\<forall>p\<in>set pieces. p \<noteq> [] \<and> (length p \<le> budget \<or> one_scalar p)"
    "split_sdp sdp ident budget = Some (map (\<lambda>(seq, slice). \<lparr>sc_chunk = \<lparr>ck_id = ident, ck_seq = to_u32 seq,
        ck_total = to_u32 (length pieces)\<rparr>, sc_sdp = slice\<rparr>) (List.enumerate 0 pieces))"
proof -
  have "is_char_boundary sdp 0"
    by (simp add: is_char_boundary_def)
  with char_chunks_from_spec [of 0 sdp budget] assms that show thesis
    by (auto simp: split_sdp_def char_chunks_def)
qed

section \<open>Putting back together\<close>

fun push_all :: "sdp_chunk list \<Rightarrow> sdp_reassembler \<Rightarrow> string option list \<times> sdp_reassembler" where
  "push_all [] r = ([], r)"
| "push_all (c # cs) r =
     (let (result, r) = sdp_push (sc_chunk c) (sc_sdp c) r; (results, r) = push_all cs r in (result # results, r))"

lemma bt_insert_insert: "bt_insert k v (bt_insert k w m) = bt_insert k v m"
  by (induction k w m rule: bt_insert.induct) auto

lemma bt_remove_insert: "bt_remove k (bt_insert k v m) = bt_remove k m"
  by (induction k v m rule: bt_insert.induct) (auto simp: bt_remove_def)

text \<open>
  In the middle of one description: the pieces in \<open>got\<close> have arrived, and everything else in flight is
  as it was.
\<close>

definition gathering :: "string \<Rightarrow> string list \<Rightarrow> nat set \<Rightarrow> sdp_reassembler \<Rightarrow> sdp_reassembler \<Rightarrow> bool" where
  "gathering ident pieces got r0 r \<longleftrightarrow>
     (\<exists>parts. bt_wf parts \<and> length parts = card got
        \<and> (\<forall>i. map_of parts i = (if i \<in> got then Some (pieces ! i) else None))
        \<and> r = (if got = {} then r0
               else r0\<lparr>sr_partials := bt_insert ident \<lparr>ps_total = length pieces, ps_parts = parts\<rparr> (sr_partials r0)\<rparr>))"

definition piece_chunk :: "string \<Rightarrow> string list \<Rightarrow> nat \<Rightarrow> sdp_chunk" where
  "piece_chunk ident pieces i =
     \<lparr>sc_chunk = \<lparr>ck_id = ident, ck_seq = i, ck_total = length pieces\<rparr>, sc_sdp = pieces ! i\<rparr>"

lemma piece_chunk_sdp [simp]: "sc_sdp (piece_chunk ident pieces i) = pieces ! i"
  by (simp add: piece_chunk_def)

definition has_room :: "string \<Rightarrow> nat \<Rightarrow> sdp_reassembler \<Rightarrow> bool" where
  "has_room ident n r \<longleftrightarrow> map_of (sr_partials r) ident = None \<and> length (sr_partials r) < sr_max_concurrent r
     \<and> n \<le> sr_max_chunks r"

lemma join_parts_full:
  "(\<And>i. i < length pieces \<Longrightarrow> map_of parts i = Some (pieces ! i)) \<Longrightarrow> join_parts parts (length pieces) = Some (concat pieces)"
proof -
  assume parts: "\<And>i. i < length pieces \<Longrightarrow> map_of parts i = Some (pieces ! i)"
  have "collect_opt (map_of parts) is = Some (map ((!) pieces) is)" if "set is \<subseteq> {..<length pieces}" for "is"
    using that by (induction "is") (auto simp: parts)
  from this [of "[0..<length pieces]"] show ?thesis
    by (simp add: join_parts_def map_nth atLeast0LessThan)
qed

lemma push_piece:
  assumes room: "has_room ident (length pieces) r0" and g: "gathering ident pieces got r0 r"
    and i: "i < length pieces" "i \<notin> got" "finite got"
  shows "if card (insert i got) = length pieces
         then got \<subseteq> {..<length pieces} \<longrightarrow> sdp_push (sc_chunk (piece_chunk ident pieces i)) (pieces ! i) r = (Some (concat pieces), r0)
         else \<exists>r'. sdp_push (sc_chunk (piece_chunk ident pieces i)) (pieces ! i) r = (None, r')
                \<and> gathering ident pieces (insert i got) r0 r'"
proof -
  obtain parts where parts: "bt_wf parts" "length parts = card got"
    "\<And>j. map_of parts j = (if j \<in> got then Some (pieces ! j) else None)"
    "r = (if got = {} then r0
          else r0\<lparr>sr_partials := bt_insert ident \<lparr>ps_total = length pieces, ps_parts = parts\<rparr> (sr_partials r0)\<rparr>)"
    using g by (auto simp: gathering_def)
  define parts' where "parts' = bt_insert i (pieces ! i) parts"
  have parts': "bt_wf parts'" "length parts' = card (insert i got)"
    "map_of parts' j = (if j \<in> insert i got then Some (pieces ! j) else None)" for j
    using parts i by (auto simp: parts'_def length_bt_insert bt_contains_def)
  have empty: "parts = []" if "got = {}"
    using that parts(2) by simp
  have first: "parts' = [(i, pieces ! i)]" if "got = {}"
    using empty [OF that] by (simp add: parts'_def)
  have push: "sdp_push (sc_chunk (piece_chunk ident pieces i)) (pieces ! i) r =
      (if card (insert i got) = length pieces
       then (join_parts parts' (length pieces), r0)
       else (None, r0\<lparr>sr_partials := bt_insert ident \<lparr>ps_total = length pieces, ps_parts = parts'\<rparr> (sr_partials r0)\<rparr>))"
    using room i parts'(2) empty parts(4) first
    by (cases "got = {}")
      (auto simp: sdp_push_def piece_chunk_def has_room_def bt_contains_def bt_insert_insert bt_remove_insert
        bt_remove_absent simp flip: parts'_def)
  show ?thesis
  proof (cases "card (insert i got) = length pieces")
    case True
    have "got \<subseteq> {..<length pieces} \<Longrightarrow> insert i got = {..<length pieces}"
      using True i by (intro card_subset_eq) auto
    then have "got \<subseteq> {..<length pieces} \<Longrightarrow> map_of parts' j = Some (pieces ! j)" if "j < length pieces" for j
      using that parts'(3) [of j] by simp
    then show ?thesis
      using True push join_parts_full [of pieces parts'] by simp
  next
    case False
    have "gathering ident pieces (insert i got) r0
        (r0\<lparr>sr_partials := bt_insert ident \<lparr>ps_total = length pieces, ps_parts = parts'\<rparr> (sr_partials r0)\<rparr>)"
      using parts' by (auto simp: gathering_def)
    with False push show ?thesis by simp
  qed
qed

lemma push_rest:
  assumes room: "has_room ident (length pieces) r0"
  shows "\<lbrakk>gathering ident pieces got r0 r; distinct is; is \<noteq> []; set is \<inter> got = {}; set is \<union> got = {..<length pieces}\<rbrakk> \<Longrightarrow>
     push_all (map (piece_chunk ident pieces) is) r = (replicate (length is - 1) None @ [Some (concat pieces)], r0)"
proof (induction "is" arbitrary: got r)
  case (Cons i "is")
  have got: "got \<subseteq> {..<length pieces}" "i < length pieces" "i \<notin> got"
    using Cons.prems(4,5) by auto
  then have fin: "finite got"
    using finite_subset by blast
  note step = push_piece [OF room Cons.prems(1) got(2,3) fin]
  have all: "card (set is) + card (insert i got) = length pieces"
  proof -
    have "card (set is \<union> insert i got) = card (set is) + card (insert i got)"
      using Cons.prems(2,4) fin by (intro card_Un_disjoint) auto
    moreover have "set is \<union> insert i got = {..<length pieces}"
      using Cons.prems(5) by auto
    ultimately show ?thesis by simp
  qed
  show ?case
  proof (cases "is = []")
    case True
    then show ?thesis
      using step all got by (simp add: piece_chunk_def)
  next
    case False
    then have "card (insert i got) \<noteq> length pieces"
      using all Cons.prems(2) distinct_card [of "is"] by auto
    then obtain r' where r': "sdp_push (sc_chunk (piece_chunk ident pieces i)) (pieces ! i) r = (None, r')"
      "gathering ident pieces (insert i got) r0 r'"
      using step by auto
    have "push_all (map (piece_chunk ident pieces) is) r' = (replicate (length is - 1) None @ [Some (concat pieces)], r0)"
      using Cons.prems False by (intro Cons.IH [OF r'(2)]) auto
    moreover obtain k where "length is = Suc k"
      using False by (cases "is") auto
    ultimately show ?thesis
      using r'(1) by simp
  qed
qed simp

text \<open>Chunks that say they are too many are refused one by one.\<close>

lemma push_too_many:
  "(\<And>c. c \<in> set cs \<Longrightarrow> sr_max_chunks r < ck_total (sc_chunk c)) \<Longrightarrow> push_all cs r = (replicate (length cs) None, r)"
  by (induction cs) (simp_all add: sdp_push_def)

text \<open>C28: a session description longer than the byte budget is cut into chunks that are within it, but for a
  scalar that is wider than the budget and goes alone. A reassembler that has room for it (its id is not
  in flight, a further reassembly may be begun, and the chunks are no more than one reassembly may have)
  gives it back whole, whatever order the chunks arrive in: every push but the last gives nothing, the
  last gives the description, and the reassembler is left as it was. A description of more chunks than
  one reassembly may have is refused push by push: it never comes back, and nothing of it is kept. The
  chunks are numbered with 32 bits, which must suffice.\<close>

theorem split_then_reassemble:
  assumes "0 < budget" "budget < length sdp" "split_sdp sdp ident budget = Some cs" "length cs \<le> u32_max"
    "distinct is" "set is = {..<length cs}"
  shows "(has_room ident (length cs) r \<longrightarrow> push_all (map ((!) cs) is) r = (replicate (length cs - 1) None @ [Some sdp], r))
     \<and> (sr_max_chunks r < length cs \<longrightarrow> push_all (map ((!) cs) is) r = (replicate (length cs) None, r))
     \<and> (\<forall>c\<in>set cs. length (sc_sdp c) \<le> budget \<or> one_scalar (sc_sdp c))"
proof -
  obtain pieces where pieces: "concat pieces = sdp" "\<forall>p\<in>set pieces. p \<noteq> [] \<and> (length p \<le> budget \<or> one_scalar p)"
    "split_sdp sdp ident budget = Some (map (\<lambda>(seq, slice). \<lparr>sc_chunk = \<lparr>ck_id = ident, ck_seq = to_u32 seq,
        ck_total = to_u32 (length pieces)\<rparr>, sc_sdp = slice\<rparr>) (List.enumerate 0 pieces))"
    by (rule split_sdp_spec [OF assms(1,2)])
  define n where "n = length pieces"
  have all: "cs = map (\<lambda>(seq, slice). \<lparr>sc_chunk = \<lparr>ck_id = ident, ck_seq = to_u32 seq, ck_total = to_u32 n\<rparr>,
      sc_sdp = slice\<rparr>) (List.enumerate 0 pieces)"
    using pieces(3) assms(3) by (simp add: n_def)
  then have n: "length cs = n" "n \<le> u32_max"
    using assms(4) by (simp_all add: n_def)
  have cs: "cs ! i = piece_chunk ident pieces i" if "i < n" for i
    using that n(2) by (simp add: all n_def piece_chunk_def to_u32_def nth_enumerate_eq)
  have len: "length is = length cs"
    using assms(5,6) distinct_card [of "is"] by simp
  have "pieces \<noteq> []"
    using pieces(1) assms(2) by auto
  then have "is \<noteq> []"
    using len n(1) by (auto simp: n_def)
  moreover have "gathering ident pieces {} r r"
    by (simp add: gathering_def exI [of _ "[]"])
  ultimately have "push_all (map (piece_chunk ident pieces) is) r = (replicate (length is - 1) None @ [Some sdp], r)"
    if "has_room ident (length cs) r"
    using push_rest [of ident pieces r "{}" r "is"] that assms(5,6) n(1) pieces(1) by (simp add: n_def)
  moreover have "map ((!) cs) is = map (piece_chunk ident pieces) is"
    using assms(6) n cs by auto
  ultimately have "push_all (map ((!) cs) is) r = (replicate (length cs - 1) None @ [Some sdp], r)"
    if "has_room ident (length cs) r"
    using that by (simp only: len)
  moreover have "ck_total (sc_chunk c) = length cs" if "c \<in> set (map ((!) cs) is)" for c
    using that assms(6) n cs by (auto simp: piece_chunk_def n_def)
  then have "push_all (map ((!) cs) is) r = (replicate (length cs) None, r)" if "sr_max_chunks r < length cs"
    using push_too_many [of "map ((!) cs) is" r] that len by simp
  moreover have "sc_sdp c \<in> set pieces" if "c \<in> set cs" for c
    using that cs n by (auto simp: in_set_conv_nth piece_chunk_def n_def)
  ultimately show ?thesis
    using pieces(2) by blast
qed

theorem split_then_reassemble_witness:
  "\<exists>cs. split_sdp ''abcdefg'' ''x'' 3 = Some cs
     \<and> push_all (map ((!) cs) [2, 0, 1]) reassembler_new = ([None, None, Some ''abcdefg''], reassembler_new)"
proof -
  have chunks: "char_chunks ''abcdefg'' 3 = Some [''abc'', ''def'', ''g'']"
    by code_simp
  obtain cs where cs: "split_sdp ''abcdefg'' ''x'' 3 = Some cs" "length cs = 3"
    by (simp add: split_sdp_def chunks)
  have perm: "set [2, 0, 1] = {..<length cs}"
    using cs(2) by auto
  moreover have "length cs \<le> u32_max"
    by (simp add: cs(2) u32_max_def)
  moreover have "has_room ''x'' (length cs) reassembler_new"
    by (simp add: cs(2) has_room_def reassembler_new_def reassembler_with_bounds_def
        DEFAULT_MAX_CHUNKS_PER_REASSEMBLY_def DEFAULT_MAX_CONCURRENT_REASSEMBLIES_def)
  ultimately have "push_all (map ((!) cs) [2, 0, 1]) reassembler_new
      = (replicate (length cs - 1) None @ [Some ''abcdefg''], reassembler_new)"
    using split_then_reassemble [OF _ _ cs(1), of "[2, 0, 1]" reassembler_new] by simp
  moreover have "replicate (length cs - 1) None = [None, None :: string option]"
    by (simp add: cs(2) numeral_2_eq_2)
  ultimately show ?thesis
    using cs(1) by (simp only:) simp
qed

section \<open>What is in flight is bounded\<close>

definition partial_ok :: "nat \<Rightarrow> partial_sdp \<Rightarrow> bool" where
  "partial_ok limit q \<longleftrightarrow> bt_wf (ps_parts q) \<and> length (ps_parts q) < ps_total q \<and> ps_total q \<le> limit"

definition reassembler_ok :: "sdp_reassembler \<Rightarrow> bool" where
  "reassembler_ok r \<longleftrightarrow> bt_wf (sr_partials r) \<and> length (sr_partials r) \<le> sr_max_concurrent r
     \<and> bt_all (\<lambda>_. partial_ok (sr_max_chunks r)) (sr_partials r)"

lemma reassembler_new_ok: "reassembler_ok (reassembler_with_bounds a b)"
  by (simp add: reassembler_ok_def reassembler_with_bounds_def)

lemma sdp_push_ok: "reassembler_ok r \<Longrightarrow> reassembler_ok (snd (sdp_push c sdp r))"
proof -
  assume ok: "reassembler_ok r"
  show ?thesis
  proof (cases "ck_total c = 0 \<or> ck_total c > sr_max_chunks r \<or> ck_seq c \<ge> ck_total c
      \<or> \<not> bt_contains (sr_partials r) (ck_id c) \<and> length (sr_partials r) \<ge> sr_max_concurrent r")
    case True
    with ok show ?thesis by (auto simp: sdp_push_def)
  next
    case False
    define q where "q = (case map_of (sr_partials r) (ck_id c) of Some q \<Rightarrow> q | None \<Rightarrow> \<lparr>ps_total = ck_total c, ps_parts = []\<rparr>)"
    have q: "partial_ok (sr_max_chunks r) q"
      using ok False by (auto simp: q_def partial_ok_def reassembler_ok_def dest: bt_all_lookup split: option.split)
    have more: "length (bt_insert (ck_id c) v (sr_partials r)) \<le> sr_max_concurrent r" for v
      using ok False by (auto simp: reassembler_ok_def length_bt_insert)
    define q' where "q' = q\<lparr>ps_parts := bt_insert (ck_seq c) sdp (ps_parts q)\<rparr>"
    have q': "partial_ok (sr_max_chunks r) q'" if "length (ps_parts q') \<noteq> ps_total q"
      using q that length_bt_insert_le [of "ck_seq c" sdp "ps_parts q"] by (auto simp: partial_ok_def q'_def)
    have "snd (sdp_push c sdp r) = (if ps_total q \<noteq> ck_total c then r\<lparr>sr_partials := bt_insert (ck_id c) q (sr_partials r)\<rparr>
        else if length (ps_parts q') \<noteq> ps_total q then r\<lparr>sr_partials := bt_insert (ck_id c) q' (sr_partials r)\<rparr>
        else r\<lparr>sr_partials := bt_remove (ck_id c) (sr_partials r)\<rparr>)"
      using False by (auto simp: sdp_push_def Let_def bt_insert_insert bt_remove_insert q'_def simp flip: q_def)
    then show ?thesis
      using ok q q' more length_bt_remove_le [of "ck_id c" "sr_partials r"]
      by (auto simp: reassembler_ok_def intro!: bt_all_insert bt_all_remove)
  qed
qed

lemma sdp_push_bounds: "sr_max_chunks (snd (sdp_push c sdp r)) = sr_max_chunks r \<and>
    sr_max_concurrent (snd (sdp_push c sdp r)) = sr_max_concurrent r"
  by (simp add: sdp_push_def Let_def)

interpretation reassembler: stepped_component "\<lambda>(c, sdp) r. snd (sdp_push c sdp r)" reassembler_ok
  by unfold_locales (auto simp: sdp_push_ok)

lemma fold_push_bounds:
  "sr_max_chunks (fold (\<lambda>(c, sdp) r. snd (sdp_push c sdp r)) ps r) = sr_max_chunks r \<and>
   sr_max_concurrent (fold (\<lambda>(c, sdp) r. snd (sdp_push c sdp r)) ps r) = sr_max_concurrent r"
  by (induction ps arbitrary: r) (auto simp: sdp_push_bounds)

text \<open>C29: whatever chunks a peer sends, no more descriptions are in flight than the bound, and none holds
  as many pieces as the bound for one.\<close>

theorem reassembly_bounded:
  "length (sr_partials (fold (\<lambda>(c, sdp) r. snd (sdp_push c sdp r)) ps (reassembler_with_bounds a b))) \<le> b
   \<and> bt_all (\<lambda>ident q. length (ps_parts q) < a) (sr_partials (fold (\<lambda>(c, sdp) r. snd (sdp_push c sdp r)) ps (reassembler_with_bounds a b)))"
  using reassembler.run_invar [OF reassembler_new_ok, of ps a b] fold_push_bounds [of ps "reassembler_with_bounds a b"]
  by (auto simp: reassembler_ok_def partial_ok_def bt_all_def list_all_iff reassembler_with_bounds_def)

end
