(* ===== verification/E2ee.thy ===== *)
theory E2ee
  imports Rust_Str BTree
begin

text \<open>
  End-to-end encryption (\<open>obby-client/src/e2ee.rs\<close>): identities and trust on first use, X3DH key
  agreement, the Double Ratchet and the state machine of one conversation. Keys, signatures and
  ciphertexts are byte strings. The primitives come from other crates (x25519-dalek, ed25519-dalek,
  hkdf, hmac, sha2, chacha20poly1305) and the random bytes from the caller: they are the record
  \<open>primitives\<close>, a parameter of every definition that needs one, with the state \<open>'r\<close> of the random
  source passed from call to call. A call that changes a value in place returns it beside its result,
  so what an error leaves behind is part of the model.
\<close>

section \<open>What comes from elsewhere\<close>

record 'r primitives =
  pr_fill_bytes :: "'r \<Rightarrow> nat \<Rightarrow> string \<times> 'r"
  pr_x25519_public :: "string \<Rightarrow> string"
  pr_x25519 :: "string \<Rightarrow> string \<Rightarrow> string"
  pr_was_contributory :: "string \<Rightarrow> bool"
  pr_ed25519_public :: "string \<Rightarrow> string"
  pr_ed25519_sign :: "string \<Rightarrow> string \<Rightarrow> string option"
  pr_ed25519_verify :: "string \<Rightarrow> string \<Rightarrow> string \<Rightarrow> bool"
  pr_sha256 :: "string \<Rightarrow> string"
  pr_hkdf :: "string \<Rightarrow> string \<Rightarrow> string \<Rightarrow> nat \<Rightarrow> string option"
  pr_hmac :: "string \<Rightarrow> string \<Rightarrow> string option"
  pr_seal :: "string \<Rightarrow> string \<Rightarrow> string \<Rightarrow> string \<Rightarrow> string option"
  pr_unseal :: "string \<Rightarrow> string \<Rightarrow> string \<Rightarrow> string \<Rightarrow> string option"

definition MAX_SKIP :: nat where "MAX_SKIP = 1000"
definition MAX_SKIPPED_KEYS :: nat where "MAX_SKIPPED_KEYS = 2000"
definition PAD_BLOCK :: nat where "PAD_BLOCK = 64"

definition X3DH_INFO :: string where "X3DH_INFO = ''obby.world/e2ee x3dh''"
definition ROOT_INFO :: string where "ROOT_INFO = ''obby.world/e2ee root''"
definition MESSAGE_KEY_INFO :: string where "MESSAGE_KEY_INFO = ''obby.world/e2ee message''"
definition NONCE_INFO :: string where "NONCE_INFO = ''obby.world/e2ee nonce''"

type_synonym fingerprint = string

datatype e2ee_error =
    InvalidSignature
  | NonContributoryDh
  | AeadFailure
  | Padding
  | TooManySkipped
  | CounterOverflow
  | NoChain
  | FingerprintChanged fingerprint fingerprint
  | WrongState
  | Fragmentation
  | Internal

text \<open>The zero bytes a key buffer is created with; as a salt it is 32 of them.\<close>

definition zeros :: "nat \<Rightarrow> string" where "zeros n = replicate n (CHR 0x00)"

definition generate_x25519_keypair :: "'r primitives \<Rightarrow> 'r \<Rightarrow> (string \<times> string) \<times> 'r" where
  "generate_x25519_keypair p rng =
     (let (secret, rng) = pr_fill_bytes p rng 32 in ((secret, pr_x25519_public p secret), rng))"

definition hkdf_sha256 :: "'r primitives \<Rightarrow> string \<Rightarrow> string \<Rightarrow> string \<Rightarrow> nat \<Rightarrow> e2ee_error + string" where
  "hkdf_sha256 p salt ikm info n = (case pr_hkdf p salt ikm info n of None \<Rightarrow> Inl Internal | Some okm \<Rightarrow> Inr okm)"

definition hmac_sha256 :: "'r primitives \<Rightarrow> string \<Rightarrow> string \<Rightarrow> e2ee_error + string" where
  "hmac_sha256 p key data = (case pr_hmac p key data of None \<Rightarrow> Inl Internal | Some mac \<Rightarrow> Inr mac)"

definition diffie_hellman_raw :: "'r primitives \<Rightarrow> string \<Rightarrow> string \<Rightarrow> e2ee_error + string" where
  "diffie_hellman_raw p secret public =
     (let shared = pr_x25519 p secret public
      in if pr_was_contributory p shared then Inr shared else Inl NonContributoryDh)"

section \<open>Identities and trust\<close>

record identity =
  id_agreement_secret :: string
  id_signing_secret :: string
  id_agreement :: string
  id_signing :: string

definition identity_generate :: "'r primitives \<Rightarrow> 'r \<Rightarrow> identity \<times> 'r" where
  "identity_generate p rng =
     (let (agreement_secret, rng) = pr_fill_bytes p rng 32;
          (signing_secret, rng) = pr_fill_bytes p rng 32
      in (\<lparr>id_agreement_secret = agreement_secret, id_signing_secret = signing_secret,
           id_agreement = pr_x25519_public p agreement_secret,
           id_signing = pr_ed25519_public p signing_secret\<rparr>, rng))"

definition of_signing_key :: "'r primitives \<Rightarrow> string \<Rightarrow> fingerprint" where
  "of_signing_key p signing_public = take 16 (pr_sha256 p signing_public)"

definition identity_fingerprint :: "'r primitives \<Rightarrow> identity \<Rightarrow> fingerprint" where
  "identity_fingerprint p i = of_signing_key p (id_signing i)"

definition identity_sign :: "'r primitives \<Rightarrow> identity \<Rightarrow> string \<Rightarrow> e2ee_error + string" where
  "identity_sign p i m =
     (case pr_ed25519_sign p (id_signing_secret i) m of None \<Rightarrow> Inl InvalidSignature | Some s \<Rightarrow> Inr s)"

definition upper_hex :: "nat \<Rightarrow> char" where
  "upper_hex d = (if d < 10 then char_of (48 + d) else char_of (55 + d))"

definition safety_byte :: "char \<Rightarrow> string" where
  "safety_byte c = [upper_hex (of_char c div 16), upper_hex (of_char c mod 16)]"

definition safety_number :: "fingerprint \<Rightarrow> string" where
  "safety_number f = join_with '' '' (map (\<lambda>pair. concat (map safety_byte pair)) (chunks 2 f))"

datatype pin_outcome = New | Same | Changed fingerprint

record peer_trust =
  pt_pinned :: "fingerprint option"
  pt_verified :: bool

definition peer_trust_new :: peer_trust where
  "peer_trust_new = \<lparr>pt_pinned = None, pt_verified = False\<rparr>"

definition trust_observe :: "fingerprint \<Rightarrow> peer_trust \<Rightarrow> pin_outcome \<times> peer_trust" where
  "trust_observe f t =
     (case pt_pinned t of
        None \<Rightarrow> (New, t\<lparr>pt_pinned := Some f\<rparr>)
      | Some pinned \<Rightarrow> if pinned = f then (Same, t) else (Changed pinned, t))"

definition trust_repin :: "fingerprint \<Rightarrow> peer_trust \<Rightarrow> peer_trust" where
  "trust_repin f t = t\<lparr>pt_pinned := Some f, pt_verified := False\<rparr>"

definition set_verified :: "bool \<Rightarrow> peer_trust \<Rightarrow> peer_trust" where
  "set_verified v t = t\<lparr>pt_verified := v\<rparr>"

definition keeps_own_offer :: "fingerprint \<Rightarrow> fingerprint option \<Rightarrow> bool" where
  "keeps_own_offer own peer = (case peer of Some f \<Rightarrow> own < f | None \<Rightarrow> False)"

section \<open>Frames\<close>

record prekey_bundle =
  pb_ik :: string
  pb_sik :: string
  pb_spk :: string
  pb_sig :: string
  pb_opk :: string

record ratchet_message =
  rm_dh :: string
  rm_pn :: nat
  rm_n :: nat
  rm_ct :: string

record handshake_response =
  hr_ik :: string
  hr_sik :: string
  hr_ek :: string
  hr_sig :: string
  hr_boot :: ratchet_message

datatype frame =
    Init prekey_bundle "string option"
  | Accept handshake_response "string option"
  | Reject "string option"
  | Ack ratchet_message
  | Close
  | Msg ratchet_message
  | Media ratchet_message

record frag =
  fr_id :: string
  fr_i :: nat
  fr_n :: nat
  fr_ct :: string

text \<open>
  \<open>reassemble\<close>: one slot per fragment, filled by index, then read in order. The source checks the
  number of fragments against a \<open>u32\<close>.
\<close>

fun fill_slots :: "string \<Rightarrow> nat \<Rightarrow> frag list \<Rightarrow> string option list \<Rightarrow> e2ee_error + string option list" where
  "fill_slots ident count [] slots = Inr slots"
| "fill_slots ident count (f # fs) slots =
     (if fr_id f \<noteq> ident \<or> fr_n f \<noteq> count then Inl Fragmentation
      else case nth_opt slots (fr_i f) of
          None \<Rightarrow> Inl Fragmentation
        | Some (Some _) \<Rightarrow> Inl Fragmentation
        | Some None \<Rightarrow> fill_slots ident count fs (slots[fr_i f := Some (fr_ct f)]))"

fun join_slots :: "string option list \<Rightarrow> e2ee_error + string" where
  "join_slots [] = Inr []"
| "join_slots (None # slots) = Inl Fragmentation"
| "join_slots (Some s # slots) = (case join_slots slots of Inl err \<Rightarrow> Inl err | Inr rest \<Rightarrow> Inr (s @ rest))"

definition reassemble :: "frag list \<Rightarrow> e2ee_error + string" where
  "reassemble fragments =
     (case fragments of
        [] \<Rightarrow> Inl Fragmentation
      | first # _ \<Rightarrow>
          if length fragments > u32_max \<or> length fragments \<noteq> fr_n first then Inl Fragmentation
          else case fill_slots (fr_id first) (fr_n first) fragments (replicate (length fragments) None) of
              Inl err \<Rightarrow> Inl err
            | Inr slots \<Rightarrow> join_slots slots)"

section \<open>Padding and sealing\<close>

definition pad :: "string \<Rightarrow> string" where
  "pad plaintext =
     (let out = plaintext @ [CHR 0x80]; remainder = length out mod PAD_BLOCK
      in if remainder \<noteq> 0 then out @ zeros (PAD_BLOCK - remainder) else out)"

text \<open>\<open>rposition\<close> of the last non-zero byte: what is left once the trailing zeros are dropped ends there.\<close>

definition unpad :: "string \<Rightarrow> e2ee_error + string" where
  "unpad block =
     (case dropWhile (\<lambda>b. b = CHR 0x00) (rev block) of
        [] \<Rightarrow> Inl Padding
      | marker # front \<Rightarrow> if marker = CHR 0x80 then Inr (rev front) else Inl Padding)"

definition be_bytes32 :: "nat \<Rightarrow> string" where
  "be_bytes32 n = [char_of (n div 2 ^ 24), char_of (n div 2 ^ 16), char_of (n div 2 ^ 8), char_of n]"

definition header_aad :: "string \<Rightarrow> nat \<Rightarrow> nat \<Rightarrow> string" where
  "header_aad dh pn n = dh @ be_bytes32 pn @ be_bytes32 n"

definition message_aead_params :: "'r primitives \<Rightarrow> string \<Rightarrow> e2ee_error + (string \<times> string)" where
  "message_aead_params p message_key =
     (case hkdf_sha256 p (zeros 32) message_key MESSAGE_KEY_INFO 32 of
        Inl err \<Rightarrow> Inl err
      | Inr key \<Rightarrow>
          (case hkdf_sha256 p (zeros 32) message_key NONCE_INFO 24 of
             Inl err \<Rightarrow> Inl err
           | Inr nonce \<Rightarrow> Inr (key, nonce)))"

definition aead_encrypt :: "'r primitives \<Rightarrow> string \<Rightarrow> string \<Rightarrow> string \<Rightarrow> e2ee_error + string" where
  "aead_encrypt p message_key aad plaintext =
     (case message_aead_params p message_key of
        Inl err \<Rightarrow> Inl err
      | Inr (key, nonce) \<Rightarrow> (case pr_seal p key nonce aad plaintext of None \<Rightarrow> Inl AeadFailure | Some ct \<Rightarrow> Inr ct))"

definition aead_decrypt :: "'r primitives \<Rightarrow> string \<Rightarrow> string \<Rightarrow> string \<Rightarrow> e2ee_error + string" where
  "aead_decrypt p message_key aad ciphertext =
     (case message_aead_params p message_key of
        Inl err \<Rightarrow> Inl err
      | Inr (key, nonce) \<Rightarrow> (case pr_unseal p key nonce aad ciphertext of None \<Rightarrow> Inl AeadFailure | Some m \<Rightarrow> Inr m))"

definition decrypt_with_key :: "'r primitives \<Rightarrow> string \<Rightarrow> ratchet_message \<Rightarrow> e2ee_error + string" where
  "decrypt_with_key p message_key m =
     (case aead_decrypt p message_key (header_aad (rm_dh m) (rm_pn m) (rm_n m)) (rm_ct m) of
        Inl err \<Rightarrow> Inl err
      | Inr block \<Rightarrow> unpad block)"

definition kdf_root :: "'r primitives \<Rightarrow> string \<Rightarrow> string \<Rightarrow> e2ee_error + (string \<times> string)" where
  "kdf_root p root_key dh_out =
     (case hkdf_sha256 p root_key dh_out ROOT_INFO 64 of
        Inl err \<Rightarrow> Inl err
      | Inr okm \<Rightarrow> Inr (take 32 okm, drop 32 okm))"

definition kdf_chain :: "'r primitives \<Rightarrow> string \<Rightarrow> e2ee_error + (string \<times> string)" where
  "kdf_chain p chain_key =
     (case hmac_sha256 p chain_key [CHR 0x01] of
        Inl err \<Rightarrow> Inl err
      | Inr message_key \<Rightarrow>
          (case hmac_sha256 p chain_key [CHR 0x02] of
             Inl err \<Rightarrow> Inl err
           | Inr next_chain \<Rightarrow> Inr (message_key, next_chain)))"

section \<open>The Double Ratchet\<close>

type_synonym key_id = "string \<times> nat"

record skipped_keys =
  sk_by_id :: "(key_id, string) btree"
  sk_order :: "key_id list"

definition skipped_new :: skipped_keys where
  "skipped_new = \<lparr>sk_by_id = [], sk_order = []\<rparr>"

text \<open>The loop that evicts the oldest key while there are too many.\<close>

fun evict :: "key_id list \<Rightarrow> (key_id, string) btree \<Rightarrow> key_id list \<times> (key_id, string) btree" where
  "evict [] by_id = ([], by_id)"
| "evict (oldest # order) by_id =
     (if length (oldest # order) > MAX_SKIPPED_KEYS then evict order (bt_remove oldest by_id)
      else (oldest # order, by_id))"

definition skipped_insert :: "string \<Rightarrow> nat \<Rightarrow> string \<Rightarrow> skipped_keys \<Rightarrow> skipped_keys" where
  "skipped_insert dh n key sk =
     (let order = (if bt_contains (sk_by_id sk) (dh, n) then sk_order sk else sk_order sk @ [(dh, n)]);
          (order, by_id) = evict order (bt_insert (dh, n) key (sk_by_id sk))
      in \<lparr>sk_by_id = by_id, sk_order = order\<rparr>)"

definition skipped_take :: "string \<Rightarrow> nat \<Rightarrow> skipped_keys \<Rightarrow> (string \<times> skipped_keys) option" where
  "skipped_take dh n sk =
     (case map_of (sk_by_id sk) (dh, n) of
        None \<Rightarrow> None
      | Some key \<Rightarrow>
          Some (key, \<lparr>sk_by_id = bt_remove (dh, n) (sk_by_id sk),
                      sk_order = filter (\<lambda>entry. entry \<noteq> (dh, n)) (sk_order sk)\<rparr>))"

record ratchet =
  rt_root_key :: string
  rt_dhs_secret :: string
  rt_dhs_public :: string
  rt_dhr :: "string option"
  rt_send_chain :: "string option"
  rt_recv_chain :: "string option"
  rt_n_send :: nat
  rt_n_recv :: nat
  rt_prev_chain_len :: nat
  rt_skipped :: skipped_keys

definition init_as_responder :: "'r primitives \<Rightarrow> string \<Rightarrow> string \<Rightarrow> string \<Rightarrow> string \<Rightarrow> e2ee_error + ratchet" where
  "init_as_responder p root_key ek_secret ek_public their_spk =
     (case diffie_hellman_raw p ek_secret their_spk of
        Inl err \<Rightarrow> Inl err
      | Inr dh_out \<Rightarrow>
          (case kdf_root p root_key dh_out of
             Inl err \<Rightarrow> Inl err
           | Inr (new_root, send_chain) \<Rightarrow>
               Inr \<lparr>rt_root_key = new_root, rt_dhs_secret = ek_secret, rt_dhs_public = ek_public,
                    rt_dhr = Some their_spk, rt_send_chain = Some send_chain, rt_recv_chain = None,
                    rt_n_send = 0, rt_n_recv = 0, rt_prev_chain_len = 0, rt_skipped = skipped_new\<rparr>))"

definition init_as_initiator :: "string \<Rightarrow> string \<Rightarrow> string \<Rightarrow> ratchet" where
  "init_as_initiator root_key dhs_secret dhs_public =
     \<lparr>rt_root_key = root_key, rt_dhs_secret = dhs_secret, rt_dhs_public = dhs_public,
      rt_dhr = None, rt_send_chain = None, rt_recv_chain = None,
      rt_n_send = 0, rt_n_recv = 0, rt_prev_chain_len = 0, rt_skipped = skipped_new\<rparr>"

definition checked_succ :: "nat \<Rightarrow> e2ee_error + nat" where
  "checked_succ n = (if n < u32_max then Inr (n + 1) else Inl CounterOverflow)"

definition ratchet_encrypt :: "'r primitives \<Rightarrow> string \<Rightarrow> ratchet \<Rightarrow> (e2ee_error + ratchet_message) \<times> ratchet" where
  "ratchet_encrypt p plaintext r =
     (case rt_send_chain r of
        None \<Rightarrow> (Inl NoChain, r)
      | Some chain \<Rightarrow>
          (case kdf_chain p chain of
             Inl err \<Rightarrow> (Inl err, r)
           | Inr (message_key, next_chain) \<Rightarrow>
               (let r = r\<lparr>rt_send_chain := Some next_chain\<rparr>;
                    dh = rt_dhs_public r; pn = rt_prev_chain_len r; n = rt_n_send r
                in case checked_succ n of
                     Inl err \<Rightarrow> (Inl err, r)
                   | Inr n' \<Rightarrow>
                       (let r = r\<lparr>rt_n_send := n'\<rparr>
                        in case aead_encrypt p message_key (header_aad dh pn n) (pad plaintext) of
                             Inl err \<Rightarrow> (Inl err, r)
                           | Inr ct \<Rightarrow> (Inr \<lparr>rm_dh = dh, rm_pn = pn, rm_n = n, rm_ct = ct\<rparr>, r)))))"

text \<open>The loop over the messages that were skipped, from the receiving chain's current counter.\<close>

fun skip_loop :: "'r primitives \<Rightarrow> string \<Rightarrow> nat \<Rightarrow> string \<Rightarrow> ratchet \<Rightarrow> e2ee_error + ratchet" where
  "skip_loop p dhr 0 chain r = Inr (r\<lparr>rt_recv_chain := Some chain\<rparr>)"
| "skip_loop p dhr (Suc span) chain r =
     (case kdf_chain p chain of
        Inl err \<Rightarrow> Inl err
      | Inr (message_key, next_chain) \<Rightarrow>
          (let r = r\<lparr>rt_skipped := skipped_insert dhr (rt_n_recv r) message_key (rt_skipped r)\<rparr>
           in case checked_succ (rt_n_recv r) of
                Inl err \<Rightarrow> Inl err
              | Inr n \<Rightarrow> skip_loop p dhr span next_chain (r\<lparr>rt_n_recv := n\<rparr>)))"

definition skip_current_receiving_chain :: "'r primitives \<Rightarrow> nat \<Rightarrow> ratchet \<Rightarrow> e2ee_error + ratchet" where
  "skip_current_receiving_chain p until r =
     (case (rt_dhr r, rt_recv_chain r) of
        (Some dhr, Some chain) \<Rightarrow>
          if until \<le> rt_n_recv r then Inr r
          else if until - rt_n_recv r > MAX_SKIP then Inl TooManySkipped
          else skip_loop p dhr (until - rt_n_recv r) chain r
      | _ \<Rightarrow> Inr r)"

definition dh_ratchet_receive :: "'r primitives \<Rightarrow> string \<Rightarrow> ratchet \<Rightarrow> 'r \<Rightarrow> (e2ee_error + ratchet) \<times> 'r" where
  "dh_ratchet_receive p new_dhr r rng =
     (let r = r\<lparr>rt_prev_chain_len := rt_n_send r, rt_n_send := 0, rt_n_recv := 0, rt_dhr := Some new_dhr\<rparr>
      in (case diffie_hellman_raw p (rt_dhs_secret r) new_dhr of
           Inl err \<Rightarrow> (Inl err, rng)
         | Inr dh_out \<Rightarrow>
           (case kdf_root p (rt_root_key r) dh_out of
              Inl err \<Rightarrow> (Inl err, rng)
            | Inr (root_after_recv, recv_chain) \<Rightarrow>
                (let r = r\<lparr>rt_root_key := root_after_recv, rt_recv_chain := Some recv_chain\<rparr>;
                     ((dhs_secret, dhs_public), rng) = generate_x25519_keypair p rng;
                     r = r\<lparr>rt_dhs_secret := dhs_secret, rt_dhs_public := dhs_public\<rparr>
                 in case diffie_hellman_raw p dhs_secret new_dhr of
                      Inl err \<Rightarrow> (Inl err, rng)
                    | Inr dh_out2 \<Rightarrow>
                      (case kdf_root p root_after_recv dh_out2 of
                         Inl err \<Rightarrow> (Inl err, rng)
                       | Inr (root_after_send, send_chain) \<Rightarrow>
                           (Inr (r\<lparr>rt_root_key := root_after_send, rt_send_chain := Some send_chain\<rparr>), rng))))))"

text \<open>
  Decryption works on a clone and commits it only once the ciphertext opened: every error returns the
  ratchet as it was.
\<close>

definition decrypt_on_chain :: "'r primitives \<Rightarrow> ratchet_message \<Rightarrow> ratchet \<Rightarrow> e2ee_error + (string \<times> ratchet)" where
  "decrypt_on_chain p m trial =
     (case skip_current_receiving_chain p (rm_n m) trial of
        Inl err \<Rightarrow> Inl err
      | Inr trial \<Rightarrow>
          (case rt_recv_chain trial of
             None \<Rightarrow> Inl NoChain
           | Some chain \<Rightarrow>
               (case kdf_chain p chain of
                  Inl err \<Rightarrow> Inl err
                | Inr (message_key, next_chain) \<Rightarrow>
                    (case checked_succ (rt_n_recv trial) of
                       Inl err \<Rightarrow> Inl err
                     | Inr n \<Rightarrow>
                         (case decrypt_with_key p message_key m of
                            Inl err \<Rightarrow> Inl err
                          | Inr plaintext \<Rightarrow>
                              Inr (plaintext, trial\<lparr>rt_recv_chain := Some next_chain, rt_n_recv := n\<rparr>))))))"

definition ratchet_decrypt ::
  "'r primitives \<Rightarrow> ratchet_message \<Rightarrow> ratchet \<Rightarrow> 'r \<Rightarrow> (e2ee_error + string) \<times> ratchet \<times> 'r" where
  "ratchet_decrypt p m r rng =
     (case skipped_take (rm_dh m) (rm_n m) (rt_skipped r) of
        Some (message_key, skipped) \<Rightarrow>
          (case decrypt_with_key p message_key m of
             Inl err \<Rightarrow> (Inl err, r, rng)
           | Inr plaintext \<Rightarrow> (Inr plaintext, r\<lparr>rt_skipped := skipped\<rparr>, rng))
      | None \<Rightarrow>
          (let (stepped, rng) =
                 (if rt_dhr r = Some (rm_dh m) then (Inr r, rng)
                  else case skip_current_receiving_chain p (rm_pn m) r of
                      Inl err \<Rightarrow> (Inl err, rng)
                    | Inr trial \<Rightarrow> dh_ratchet_receive p (rm_dh m) trial rng)
           in case stepped of
                Inl err \<Rightarrow> (Inl err, r, rng)
              | Inr trial \<Rightarrow>
                  (case decrypt_on_chain p m trial of
                     Inl err \<Rightarrow> (Inl err, r, rng)
                   | Inr (plaintext, trial) \<Rightarrow> (Inr plaintext, trial, rng))))"

section \<open>X3DH\<close>

record pending_offer =
  po_bundle :: prekey_bundle
  po_spk_secret :: string
  po_opk_secret :: string

definition create_offer :: "'r primitives \<Rightarrow> identity \<Rightarrow> 'r \<Rightarrow> (e2ee_error + pending_offer) \<times> 'r" where
  "create_offer p i rng =
     (let (spk_secret, rng) = pr_fill_bytes p rng 32;
          (opk_secret, rng) = pr_fill_bytes p rng 32;
          spk = pr_x25519_public p spk_secret;
          opk = pr_x25519_public p opk_secret
      in case identity_sign p i (id_agreement i @ spk @ opk) of
           Inl err \<Rightarrow> (Inl err, rng)
         | Inr sig \<Rightarrow>
             (Inr \<lparr>po_bundle = \<lparr>pb_ik = id_agreement i, pb_sik = id_signing i, pb_spk = spk, pb_sig = sig, pb_opk = opk\<rparr>,
                   po_spk_secret = spk_secret, po_opk_secret = opk_secret\<rparr>, rng))"

definition verify_signature :: "'r primitives \<Rightarrow> string \<Rightarrow> string \<Rightarrow> string \<Rightarrow> e2ee_error + unit" where
  "verify_signature p signing_public m sig =
     (if pr_ed25519_verify p signing_public m sig then Inr () else Inl InvalidSignature)"

definition verify_bundle_signature :: "'r primitives \<Rightarrow> prekey_bundle \<Rightarrow> e2ee_error + unit" where
  "verify_bundle_signature p b = verify_signature p (pb_sik b) (pb_ik b @ pb_spk b @ pb_opk b) (pb_sig b)"

definition x3dh_kdf :: "'r primitives \<Rightarrow> string \<Rightarrow> string \<Rightarrow> string \<Rightarrow> string \<Rightarrow> e2ee_error + string" where
  "x3dh_kdf p dh1 dh2 dh3 dh4 = hkdf_sha256 p (zeros 32) (dh1 @ dh2 @ dh3 @ dh4) X3DH_INFO 32"

definition x3dh_secret_responder ::
  "'r primitives \<Rightarrow> string \<Rightarrow> string \<Rightarrow> string \<Rightarrow> string \<Rightarrow> string \<Rightarrow> e2ee_error + string" where
  "x3dh_secret_responder p own_identity own_ephemeral peer_identity peer_spk peer_opk =
     (case diffie_hellman_raw p own_identity peer_spk of Inl err \<Rightarrow> Inl err | Inr dh1 \<Rightarrow>
     (case diffie_hellman_raw p own_ephemeral peer_identity of Inl err \<Rightarrow> Inl err | Inr dh2 \<Rightarrow>
     (case diffie_hellman_raw p own_ephemeral peer_spk of Inl err \<Rightarrow> Inl err | Inr dh3 \<Rightarrow>
     (case diffie_hellman_raw p own_ephemeral peer_opk of Inl err \<Rightarrow> Inl err | Inr dh4 \<Rightarrow>
        x3dh_kdf p dh1 dh2 dh3 dh4))))"

definition x3dh_secret_initiator ::
  "'r primitives \<Rightarrow> string \<Rightarrow> string \<Rightarrow> string \<Rightarrow> string \<Rightarrow> string \<Rightarrow> e2ee_error + string" where
  "x3dh_secret_initiator p own_spk own_identity own_opk peer_identity peer_ephemeral =
     (case diffie_hellman_raw p own_spk peer_identity of Inl err \<Rightarrow> Inl err | Inr dh1 \<Rightarrow>
     (case diffie_hellman_raw p own_identity peer_ephemeral of Inl err \<Rightarrow> Inl err | Inr dh2 \<Rightarrow>
     (case diffie_hellman_raw p own_spk peer_ephemeral of Inl err \<Rightarrow> Inl err | Inr dh3 \<Rightarrow>
     (case diffie_hellman_raw p own_opk peer_ephemeral of Inl err \<Rightarrow> Inl err | Inr dh4 \<Rightarrow>
        x3dh_kdf p dh1 dh2 dh3 dh4))))"

definition accept_offer ::
  "'r primitives \<Rightarrow> identity \<Rightarrow> prekey_bundle \<Rightarrow> 'r \<Rightarrow> (e2ee_error + (handshake_response \<times> ratchet)) \<times> 'r" where
  "accept_offer p i b rng =
     (case verify_bundle_signature p b of Inl err \<Rightarrow> (Inl err, rng) | Inr _ \<Rightarrow>
        (let ((ek_secret, ek), rng) = generate_x25519_keypair p rng
         in (case x3dh_secret_responder p (id_agreement_secret i) ek_secret (pb_ik b) (pb_spk b) (pb_opk b) of
               Inl err \<Rightarrow> Inl err
             | Inr sk \<Rightarrow>
               (case init_as_responder p sk ek_secret ek (pb_spk b) of
                  Inl err \<Rightarrow> Inl err
                | Inr r \<Rightarrow>
                  (case ratchet_encrypt p [] r of
                     (Inl err, r) \<Rightarrow> Inl err
                   | (Inr boot, r) \<Rightarrow>
                     (case identity_sign p i (id_agreement i @ ek) of
                        Inl err \<Rightarrow> Inl err
                      | Inr sig \<Rightarrow>
                          Inr (\<lparr>hr_ik = id_agreement i, hr_sik = id_signing i, hr_ek = ek, hr_sig = sig,
                                hr_boot = boot\<rparr>, r)))), rng)))"

definition complete_handshake ::
  "'r primitives \<Rightarrow> identity \<Rightarrow> pending_offer \<Rightarrow> handshake_response \<Rightarrow> 'r \<Rightarrow> (e2ee_error + ratchet) \<times> 'r" where
  "complete_handshake p i pending response rng =
     (case verify_signature p (hr_sik response) (hr_ik response @ hr_ek response) (hr_sig response) of
        Inl err \<Rightarrow> (Inl err, rng)
      | Inr _ \<Rightarrow>
        (case x3dh_secret_initiator p (po_spk_secret pending) (id_agreement_secret i) (po_opk_secret pending)
                (hr_ik response) (hr_ek response) of
           Inl err \<Rightarrow> (Inl err, rng)
         | Inr sk \<Rightarrow>
             (case ratchet_decrypt p (hr_boot response)
                     (init_as_initiator sk (po_spk_secret pending) (pb_spk (po_bundle pending))) rng of
                (Inl err, _, rng) \<Rightarrow> (Inl err, rng)
              | (Inr _, r, rng) \<Rightarrow> (Inr r, rng))))"

section \<open>One conversation\<close>

datatype e2ee_role = Initiator | Responder

datatype session_state =
    Unstarted
  | Offered pending_offer
  | OfferReceived prekey_bundle
  | AwaitingAck ratchet
  | Established ratchet
  | Rejected
  | Closed

record e2ee_session =
  es_state :: session_state
  es_trust :: peer_trust
  es_role :: "e2ee_role option"

definition e2ee_new :: e2ee_session where
  "e2ee_new = \<lparr>es_state = Unstarted, es_trust = peer_trust_new, es_role = None\<rparr>"

definition e2ee_start ::
  "'r primitives \<Rightarrow> identity \<Rightarrow> e2ee_session \<Rightarrow> 'r \<Rightarrow> (e2ee_error + prekey_bundle) \<times> e2ee_session \<times> 'r" where
  "e2ee_start p i s rng =
     (case create_offer p i rng of
        (Inl err, rng) \<Rightarrow> (Inl err, s, rng)
      | (Inr pending, rng) \<Rightarrow> (Inr (po_bundle pending), s\<lparr>es_state := Offered pending\<rparr>, rng))"

definition receive_offer :: "'r primitives \<Rightarrow> prekey_bundle \<Rightarrow> e2ee_session \<Rightarrow> fingerprint \<times> e2ee_session" where
  "receive_offer p b s = (of_signing_key p (pb_sik b), s\<lparr>es_state := OfferReceived b\<rparr>)"

definition e2ee_accept ::
  "'r primitives \<Rightarrow> identity \<Rightarrow> e2ee_session \<Rightarrow> 'r \<Rightarrow> (e2ee_error + handshake_response) \<times> e2ee_session \<times> 'r" where
  "e2ee_accept p i s rng =
     (case es_state s of
        OfferReceived b \<Rightarrow>
          (case accept_offer p i b rng of
             (Inl err, rng) \<Rightarrow> (Inl err, s, rng)
           | (Inr (response, r), rng) \<Rightarrow>
               (let current = of_signing_key p (pb_sik b);
                    (outcome, trust) = trust_observe current (es_trust s);
                    s = s\<lparr>es_trust := trust\<rparr>
                in case outcome of
                     Changed previous \<Rightarrow> (Inl (FingerprintChanged previous current), s, rng)
                   | _ \<Rightarrow> (Inr response, s\<lparr>es_role := Some Responder, es_state := AwaitingAck r\<rparr>, rng)))
      | _ \<Rightarrow> (Inl WrongState, s, rng))"

definition e2ee_reject :: "string option \<Rightarrow> e2ee_session \<Rightarrow> frame \<times> e2ee_session" where
  "e2ee_reject reason s = (Reject reason, s\<lparr>es_state := Rejected\<rparr>)"

definition receive_reject :: "e2ee_session \<Rightarrow> e2ee_session" where
  "receive_reject s = s\<lparr>es_state := Rejected\<rparr>"

definition receive_accept ::
  "'r primitives \<Rightarrow> identity \<Rightarrow> handshake_response \<Rightarrow> e2ee_session \<Rightarrow> 'r \<Rightarrow> (e2ee_error + unit) \<times> e2ee_session \<times> 'r" where
  "receive_accept p i response s rng =
     (case es_state s of
        Offered pending \<Rightarrow>
          (case complete_handshake p i pending response rng of
             (Inl err, rng) \<Rightarrow> (Inl err, s, rng)
           | (Inr r, rng) \<Rightarrow>
               (let current = of_signing_key p (hr_sik response);
                    (outcome, trust) = trust_observe current (es_trust s);
                    s = s\<lparr>es_trust := trust\<rparr>
                in case outcome of
                     Changed previous \<Rightarrow> (Inl (FingerprintChanged previous current), s, rng)
                   | _ \<Rightarrow> (Inr (), s\<lparr>es_role := Some Initiator, es_state := Established r\<rparr>, rng)))
      | _ \<Rightarrow> (Inl WrongState, s, rng))"

definition e2ee_send ::
  "'r primitives \<Rightarrow> string \<Rightarrow> e2ee_session \<Rightarrow> (e2ee_error + ratchet_message) \<times> e2ee_session" where
  "e2ee_send p plaintext s =
     (case es_state s of
        Established r \<Rightarrow>
          (let (result, r) = ratchet_encrypt p plaintext r in (result, s\<lparr>es_state := Established r\<rparr>))
      | _ \<Rightarrow> (Inl WrongState, s))"

definition make_ack :: "'r primitives \<Rightarrow> e2ee_session \<Rightarrow> (e2ee_error + ratchet_message) \<times> e2ee_session" where
  "make_ack p s = e2ee_send p [] s"

definition receive_ack ::
  "'r primitives \<Rightarrow> ratchet_message \<Rightarrow> e2ee_session \<Rightarrow> 'r \<Rightarrow> (e2ee_error + unit) \<times> e2ee_session \<times> 'r" where
  "receive_ack p ct s rng =
     (case es_state s of
        AwaitingAck r \<Rightarrow>
          (case ratchet_decrypt p ct r rng of
             (Inl err, r, rng) \<Rightarrow> (Inl err, s\<lparr>es_state := AwaitingAck r\<rparr>, rng)
           | (Inr _, r, rng) \<Rightarrow> (Inr (), s\<lparr>es_state := Established r\<rparr>, rng))
      | _ \<Rightarrow> (Inl WrongState, s, rng))"

definition e2ee_receive ::
  "'r primitives \<Rightarrow> ratchet_message \<Rightarrow> e2ee_session \<Rightarrow> 'r \<Rightarrow> (e2ee_error + string) \<times> e2ee_session \<times> 'r" where
  "e2ee_receive p ct s rng =
     (case es_state s of
        Established r \<Rightarrow>
          (let (result, r, rng) = ratchet_decrypt p ct r rng in (result, s\<lparr>es_state := Established r\<rparr>, rng))
      | _ \<Rightarrow> (Inl WrongState, s, rng))"

definition e2ee_close :: "e2ee_session \<Rightarrow> frame \<times> e2ee_session" where
  "e2ee_close s = (Close, s\<lparr>es_state := Closed\<rparr>)"

definition receive_close :: "e2ee_session \<Rightarrow> e2ee_session" where
  "receive_close s = s\<lparr>es_state := Closed\<rparr>"

definition is_established :: "e2ee_session \<Rightarrow> bool" where
  "is_established s = (case es_state s of Established _ \<Rightarrow> True | _ \<Rightarrow> False)"

definition peer_fingerprint :: "e2ee_session \<Rightarrow> fingerprint option" where
  "peer_fingerprint s = pt_pinned (es_trust s)"

definition is_peer_verified :: "e2ee_session \<Rightarrow> bool" where
  "is_peer_verified s = pt_verified (es_trust s)"

definition mark_peer_verified :: "e2ee_session \<Rightarrow> e2ee_session" where
  "mark_peer_verified s = s\<lparr>es_trust := set_verified True (es_trust s)\<rparr>"

definition confirm_fingerprint_change :: "fingerprint \<Rightarrow> e2ee_session \<Rightarrow> e2ee_session" where
  "confirm_fingerprint_change f s = s\<lparr>es_trust := trust_repin f (es_trust s)\<rparr>"

end
