(* ===== verification/E2ee_Ratchet.thy ===== *)
theory E2ee_Ratchet
  imports E2ee
begin

text \<open>
  What the ratchet of \<open>E2ee\<close> promises, from what the primitives document: two ratchets in step read
  each other's messages and stay in step; messages of one chain are read in any order, with any of
  them lost; and the store of skipped keys is bounded whatever arrives.
\<close>

section \<open>What the primitives document\<close>

text \<open>
  Diffie-Hellman commutes and is contributory for a public key that belongs to a secret; a signature
  verifies under the signer's key; HKDF expands to any length up to 255 blocks; HMAC takes any key; and
  what was sealed opens under the same key, nonce and associated data, up to the cipher's length.
\<close>

definition primitive_laws :: "'r primitives \<Rightarrow> bool" where
  "primitive_laws p \<longleftrightarrow>
     (\<forall>a b. pr_x25519 p a (pr_x25519_public p b) = pr_x25519 p b (pr_x25519_public p a)
        \<and> pr_was_contributory p (pr_x25519 p a (pr_x25519_public p b)))
   \<and> (\<forall>k m. \<exists>s. pr_ed25519_sign p k m = Some s \<and> pr_ed25519_verify p (pr_ed25519_public p k) m s)
   \<and> (\<forall>salt ikm info n. n \<le> 255 * 32 \<longrightarrow> (\<exists>okm. pr_hkdf p salt ikm info n = Some okm \<and> length okm = n))
   \<and> (\<forall>k m. \<exists>t. pr_hmac p k m = Some t)
   \<and> (\<forall>k nonce aad m. length m \<le> 2 ^ 37 \<longrightarrow>
        (\<exists>ct. pr_seal p k nonce aad m = Some ct \<and> pr_unseal p k nonce aad ct = Some m))"

lemma dh_commutes: "primitive_laws p \<Longrightarrow>
    diffie_hellman_raw p a (pr_x25519_public p b) = diffie_hellman_raw p b (pr_x25519_public p a)"
  unfolding primitive_laws_def diffie_hellman_raw_def by metis

lemma dh_total: "primitive_laws p \<Longrightarrow>
    diffie_hellman_raw p a (pr_x25519_public p b) = Inr (pr_x25519 p a (pr_x25519_public p b))"
  by (simp add: primitive_laws_def diffie_hellman_raw_def)

lemma hkdf_law: "primitive_laws p \<Longrightarrow> n \<le> 255 * 32 \<Longrightarrow> \<exists>okm. pr_hkdf p salt ikm info n = Some okm"
  unfolding primitive_laws_def by blast

lemma sign_law: "primitive_laws p \<Longrightarrow>
    \<exists>s. pr_ed25519_sign p k m = Some s \<and> pr_ed25519_verify p (pr_ed25519_public p k) m s"
  unfolding primitive_laws_def by blast

lemma hmac_law: "primitive_laws p \<Longrightarrow> \<exists>t. pr_hmac p k m = Some t"
  unfolding primitive_laws_def by blast

lemma hkdf_total: "primitive_laws p \<Longrightarrow> n \<le> 255 * 32 \<Longrightarrow> \<exists>okm. hkdf_sha256 p salt ikm info n = Inr okm"
  using hkdf_law [of p n salt ikm info] by (auto simp: hkdf_sha256_def)

lemma sign_verifies: "primitive_laws p \<Longrightarrow> id_signing i = pr_ed25519_public p (id_signing_secret i) \<Longrightarrow>
    \<exists>s. identity_sign p i m = Inr s \<and> verify_signature p (id_signing i) m s = Inr ()"
  using sign_law [of p "id_signing_secret i" m] by (auto simp: identity_sign_def verify_signature_def)

definition ratchet_key :: "'r primitives \<Rightarrow> string \<Rightarrow> string" where
  "ratchet_key p chain = the (pr_hmac p chain [CHR 0x01])"

definition next_chain :: "'r primitives \<Rightarrow> string \<Rightarrow> string" where
  "next_chain p chain = the (pr_hmac p chain [CHR 0x02])"

lemma kdf_chain_total: "primitive_laws p \<Longrightarrow> kdf_chain p chain = Inr (ratchet_key p chain, next_chain p chain)"
  using hmac_law [of p chain "[CHR 0x01]"] hmac_law [of p chain "[CHR 0x02]"]
  by (auto simp: kdf_chain_def hmac_sha256_def ratchet_key_def next_chain_def)

lemma kdf_root_total: "primitive_laws p \<Longrightarrow> \<exists>root chain. kdf_root p key dh = Inr (root, chain)"
  using hkdf_total [of p 64 key dh ROOT_INFO] by (auto simp: kdf_root_def)

section \<open>Padding and sealing\<close>

lemma unpad_pad: "unpad (pad m) = Inr m"
  by (simp add: unpad_def pad_def Let_def zeros_def dropWhile_append)

lemma length_pad: "length (pad m) mod PAD_BLOCK = 0" "length (pad m) \<le> length m + PAD_BLOCK"
proof -
  define l where "l = length m + 1"
  have "l mod 64 < 64" by simp
  moreover have "(l + (64 - l mod 64)) mod 64 = 0"
    by (metis add.commute add_diff_cancel_left' calculation diff_add_inverse le_add_diff_inverse less_imp_le_nat
        mod_add_left_eq mod_self)
  ultimately show "length (pad m) mod PAD_BLOCK = 0" "length (pad m) \<le> length m + PAD_BLOCK"
    by (auto simp: pad_def Let_def zeros_def PAD_BLOCK_def l_def)
qed

definition sendable :: "string \<Rightarrow> bool" where
  "sendable m \<longleftrightarrow> length m < 2 ^ 36"

lemma sealed_opens:
  assumes "primitive_laws p" "sendable m"
  shows "\<exists>ct. aead_encrypt p k (header_aad dh pn n) (pad m) = Inr ct \<and>
           decrypt_with_key p k \<lparr>rm_dh = dh, rm_pn = pn, rm_n = n, rm_ct = ct\<rparr> = Inr m"
proof -
  obtain key where key: "hkdf_sha256 p (zeros 32) k MESSAGE_KEY_INFO 32 = Inr key"
    using hkdf_total [OF assms(1)] by fastforce
  obtain nonce where nonce: "hkdf_sha256 p (zeros 32) k NONCE_INFO 24 = Inr nonce"
    using hkdf_total [OF assms(1)] by fastforce
  have "length (pad m) \<le> 2 ^ 37"
    using length_pad(2) [of m] assms(2) by (simp add: sendable_def PAD_BLOCK_def)
  then obtain ct where "pr_seal p key nonce (header_aad dh pn n) (pad m) = Some ct"
    "pr_unseal p key nonce (header_aad dh pn n) ct = Some (pad m)"
    using assms(1) unfolding primitive_laws_def by blast
  with key nonce show ?thesis
    by (simp add: aead_encrypt_def decrypt_with_key_def aead_decrypt_def message_aead_params_def unpad_pad)
qed

lemma encrypt_step:
  assumes "primitive_laws p" "sendable m" "rt_send_chain r = Some c" "rt_n_send r < u32_max"
  obtains ct where
    "ratchet_encrypt p m r = (Inr \<lparr>rm_dh = rt_dhs_public r, rm_pn = rt_prev_chain_len r, rm_n = rt_n_send r, rm_ct = ct\<rparr>,
       r\<lparr>rt_send_chain := Some (next_chain p c), rt_n_send := rt_n_send r + 1\<rparr>)"
    "decrypt_with_key p (ratchet_key p c)
       \<lparr>rm_dh = rt_dhs_public r, rm_pn = rt_prev_chain_len r, rm_n = rt_n_send r, rm_ct = ct\<rparr> = Inr m"
  using sealed_opens [OF assms(1,2), of "ratchet_key p c" "rt_dhs_public r" "rt_prev_chain_len r" "rt_n_send r"] assms(3,4)
  by (auto simp: ratchet_encrypt_def kdf_chain_total [OF assms(1)] checked_succ_def Let_def)

section \<open>Two ratchets in step\<close>

text \<open>
  \<open>ahead p x y\<close>: \<open>x\<close> has already turned its ratchet against \<open>y\<close>'s current key, and \<open>y\<close> has seen nothing
  of \<open>x\<close>'s current key yet. \<open>x\<close> follows \<open>y\<close>'s sending chain; the chain \<open>x\<close> will send on is the one \<open>y\<close>
  derives when \<open>x\<close>'s next message turns \<open>y\<close>'s ratchet.
\<close>

definition own_key :: "'r primitives \<Rightarrow> ratchet \<Rightarrow> bool" where
  "own_key p r \<longleftrightarrow> rt_dhs_public r = pr_x25519_public p (rt_dhs_secret r)"

definition nothing_skipped :: "ratchet \<Rightarrow> bool" where
  "nothing_skipped r \<longleftrightarrow> rt_skipped r = skipped_new"

definition ahead :: "'r primitives \<Rightarrow> ratchet \<Rightarrow> ratchet \<Rightarrow> bool" where
  "ahead p x y \<longleftrightarrow>
     own_key p x \<and> own_key p y \<and> nothing_skipped x \<and> nothing_skipped y
   \<and> rt_dhr x = Some (rt_dhs_public y) \<and> rt_dhr y \<noteq> Some (rt_dhs_public x)
   \<and> rt_recv_chain x = rt_send_chain y \<and> rt_send_chain y \<noteq> None \<and> rt_n_recv x = rt_n_send y
   \<and> rt_n_send x = 0 \<and> (rt_recv_chain y \<noteq> None \<longrightarrow> rt_prev_chain_len x = rt_n_recv y)
   \<and> (\<exists>c. rt_send_chain x = Some c
        \<and> kdf_root p (rt_root_key y) (pr_x25519 p (rt_dhs_secret y) (rt_dhs_public x)) = Inr (rt_root_key x, c))"

lemma take_nothing [simp]: "skipped_take dh n skipped_new = None"
  by (simp add: skipped_take_def skipped_new_def)

lemma skip_none: "rt_recv_chain r \<noteq> None \<longrightarrow> until \<le> rt_n_recv r \<Longrightarrow> skip_current_receiving_chain p until r = Inr r"
  by (auto simp: skip_current_receiving_chain_def split: option.split)

lemma decrypt_on_chain_next:
  assumes "primitive_laws p" "rt_recv_chain r = Some c" "rm_n m = rt_n_recv r" "rt_n_recv r < u32_max"
    "decrypt_with_key p (ratchet_key p c) m = Inr t"
  shows "decrypt_on_chain p m r = Inr (t, r\<lparr>rt_recv_chain := Some (next_chain p c), rt_n_recv := rt_n_recv r + 1\<rparr>)"
  using assms by (simp add: decrypt_on_chain_def skip_none kdf_chain_total checked_succ_def)

text \<open>The one behind sends, and the other reads on the chain it already follows.\<close>

lemma behind_sends:
  assumes "primitive_laws p" "ahead p x y" "sendable m" "rt_n_send y < u32_max"
  shows "\<exists>ct y' x'. ratchet_encrypt p m y = (Inr ct, y') \<and> ratchet_decrypt p ct x rng = (Inr m, x', rng)
           \<and> ahead p x' y' \<and> rt_n_send y' = rt_n_send y + 1 \<and> rt_n_send x' = rt_n_send x
           \<and> rt_dhs_public x' = rt_dhs_public x \<and> rt_dhs_public y' = rt_dhs_public y"
proof -
  obtain c where c: "rt_send_chain y = Some c" "rt_recv_chain x = Some c"
    using assms(2) by (auto simp: ahead_def)
  obtain ct where ct: "ratchet_encrypt p m y
      = (Inr \<lparr>rm_dh = rt_dhs_public y, rm_pn = rt_prev_chain_len y, rm_n = rt_n_send y, rm_ct = ct\<rparr>,
         y\<lparr>rt_send_chain := Some (next_chain p c), rt_n_send := rt_n_send y + 1\<rparr>)"
    "decrypt_with_key p (ratchet_key p c)
       \<lparr>rm_dh = rt_dhs_public y, rm_pn = rt_prev_chain_len y, rm_n = rt_n_send y, rm_ct = ct\<rparr> = Inr m"
    using encrypt_step [OF assms(1,3) c(1) assms(4)] by blast
  have "rt_n_recv x = rt_n_send y" "rt_dhr x = Some (rt_dhs_public y)" "rt_skipped x = skipped_new"
    using assms(2) by (auto simp: ahead_def nothing_skipped_def)
  then have "ratchet_decrypt p \<lparr>rm_dh = rt_dhs_public y, rm_pn = rt_prev_chain_len y, rm_n = rt_n_send y, rm_ct = ct\<rparr> x rng
      = (Inr m, x\<lparr>rt_recv_chain := Some (next_chain p c), rt_n_recv := rt_n_recv x + 1\<rparr>, rng)"
    using decrypt_on_chain_next [OF assms(1) c(2)] ct(2) assms(4) by (simp add: ratchet_decrypt_def)
  moreover have "ahead p (x\<lparr>rt_recv_chain := Some (next_chain p c), rt_n_recv := rt_n_recv x + 1\<rparr>)
      (y\<lparr>rt_send_chain := Some (next_chain p c), rt_n_send := rt_n_send y + 1\<rparr>)"
    using assms(2) by (auto simp: ahead_def own_key_def nothing_skipped_def)
  ultimately show ?thesis
    using ct(1) by - (intro exI conjI, assumption+, simp_all)
qed

text \<open>The one ahead sends, and its message turns the other's ratchet: the other is then ahead.\<close>

lemma ahead_sends:
  assumes laws: "primitive_laws p" and ahead: "ahead p x y" and "sendable m"
    and fresh: "snd (fst (generate_x25519_keypair p rng)) \<noteq> rt_dhs_public y"
  shows "\<exists>ct x' y'. ratchet_encrypt p m x = (Inr ct, x')
           \<and> ratchet_decrypt p ct y rng = (Inr m, y', snd (generate_x25519_keypair p rng))
           \<and> ahead p y' x' \<and> rt_n_send x' = 1 \<and> rt_n_send y' = 0
           \<and> rt_dhs_public x' = rt_dhs_public x \<and> rt_dhs_public y' = snd (fst (generate_x25519_keypair p rng))"
proof -
  obtain c where c: "rt_send_chain x = Some c"
    "kdf_root p (rt_root_key y) (pr_x25519 p (rt_dhs_secret y) (rt_dhs_public x)) = Inr (rt_root_key x, c)"
    using ahead by (auto simp: ahead_def)
  have n: "rt_n_send x < u32_max" "rt_n_send x = 0"
    using ahead by (auto simp: ahead_def u32_max_def)
  define m' where "m' ct = \<lparr>rm_dh = rt_dhs_public x, rm_pn = rt_prev_chain_len x, rm_n = rt_n_send x, rm_ct = ct\<rparr>" for ct
  obtain ct where ct: "ratchet_encrypt p m x = (Inr (m' ct),
         x\<lparr>rt_send_chain := Some (next_chain p c), rt_n_send := rt_n_send x + 1\<rparr>)"
    "decrypt_with_key p (ratchet_key p c) (m' ct) = Inr m"
    using encrypt_step [OF laws assms(3) c(1) n(1)] unfolding m'_def by blast
  obtain secret public rng' where keys: "generate_x25519_keypair p rng = ((secret, public), rng')"
    by (metis surj_pair)
  then have public: "public = pr_x25519_public p secret"
    by (auto simp: generate_x25519_keypair_def Let_def split: prod.splits)
  have xkey: "rt_dhs_public x = pr_x25519_public p (rt_dhs_secret x)"
    using ahead by (simp add: ahead_def own_key_def)
  obtain root chain where root: "kdf_root p (rt_root_key x) (pr_x25519 p secret (rt_dhs_public x)) = Inr (root, chain)"
    using kdf_root_total [OF laws] by blast
  define y1 where "y1 = y\<lparr>rt_prev_chain_len := rt_n_send y, rt_n_send := 0, rt_n_recv := 0,
     rt_dhr := Some (rt_dhs_public x), rt_root_key := root, rt_recv_chain := Some c,
     rt_dhs_secret := secret, rt_dhs_public := public, rt_send_chain := Some chain\<rparr>"
  have "dh_ratchet_receive p (rt_dhs_public x) y rng = (Inr y1, rng')"
    using c(2) root keys dh_total [OF laws] by (simp add: dh_ratchet_receive_def xkey y1_def)
  moreover have "skip_current_receiving_chain p (rm_pn (m' ct)) y = Inr y"
    using ahead by (intro skip_none) (auto simp: ahead_def m'_def)
  moreover have "decrypt_on_chain p (m' ct) y1
      = Inr (m, y1\<lparr>rt_recv_chain := Some (next_chain p c), rt_n_recv := rt_n_recv y1 + 1\<rparr>)"
    using ct(2) n by (intro decrypt_on_chain_next [OF laws]) (auto simp: y1_def m'_def u32_max_def)
  moreover have "rt_skipped y = skipped_new" "rt_dhr y \<noteq> Some (rt_dhs_public x)"
    using ahead by (auto simp: ahead_def nothing_skipped_def)
  ultimately have "ratchet_decrypt p (m' ct) y rng
      = (Inr m, y1\<lparr>rt_recv_chain := Some (next_chain p c), rt_n_recv := rt_n_recv y1 + 1\<rparr>, rng')"
    by (simp add: ratchet_decrypt_def m'_def)
  moreover have "ahead p (y1\<lparr>rt_recv_chain := Some (next_chain p c), rt_n_recv := rt_n_recv y1 + 1\<rparr>)
      (x\<lparr>rt_send_chain := Some (next_chain p c), rt_n_send := rt_n_send x + 1\<rparr>)"
  proof -
    have "pr_x25519 p (rt_dhs_secret x) public = pr_x25519 p secret (rt_dhs_public x)"
      using laws by (simp add: primitive_laws_def public xkey)
    with root have "kdf_root p (rt_root_key x) (pr_x25519 p (rt_dhs_secret x) public) = Inr (root, chain)"
      by simp
    then show ?thesis
      using ahead n fresh keys public by (auto simp: ahead_def own_key_def nothing_skipped_def y1_def)
  qed
  moreover have "snd (generate_x25519_keypair p rng) = rng'" "snd (fst (generate_x25519_keypair p rng)) = public"
    using keys by simp_all
  ultimately show ?thesis
    using ct(1) n by - (intro exI conjI, assumption, simp only:, assumption, simp_all add: y1_def)
qed

subsection \<open>Whoever sends\<close>

text \<open>
  The random source never hands out the same key twice in a row: the \<open>n\<close>th key pair it will give has
  another public half than the one before, starting from the current key.
\<close>

fun nth_public :: "'r primitives \<Rightarrow> 'r \<Rightarrow> nat \<Rightarrow> string" where
  "nth_public p rng 0 = snd (fst (generate_x25519_keypair p rng))"
| "nth_public p rng (Suc n) = nth_public p (snd (generate_x25519_keypair p rng)) n"

definition renews :: "'r primitives \<Rightarrow> string \<Rightarrow> 'r \<Rightarrow> bool" where
  "renews p public rng \<longleftrightarrow> nth_public p rng 0 \<noteq> public \<and> (\<forall>n. nth_public p rng (Suc n) \<noteq> nth_public p rng n)"

lemma renews_next:
  "renews p public rng \<Longrightarrow> renews p (snd (fst (generate_x25519_keypair p rng))) (snd (generate_x25519_keypair p rng))"
  by (auto simp: renews_def) (metis nth_public.simps)+

definition in_step :: "'r primitives \<Rightarrow> ratchet \<Rightarrow> ratchet \<Rightarrow> 'r \<Rightarrow> 'r \<Rightarrow> bool" where
  "in_step p x y rx ry \<longleftrightarrow>
     (ahead p x y \<or> ahead p y x) \<and> renews p (rt_dhs_public x) rx \<and> renews p (rt_dhs_public y) ry"

lemma in_step_sym: "in_step p x y rx ry \<Longrightarrow> in_step p y x ry rx"
  by (auto simp: in_step_def)

lemma exchange:
  assumes "primitive_laws p" "in_step p x y rx ry" "sendable m" "rt_n_send x < u32_max"
  shows "\<exists>ct x' y' ry'. ratchet_encrypt p m x = (Inr ct, x') \<and> ratchet_decrypt p ct y ry = (Inr m, y', ry')
           \<and> in_step p x' y' rx ry' \<and> rt_n_send x' \<le> rt_n_send x + 1 \<and> rt_n_send y' \<le> rt_n_send y"
proof (cases "ahead p x y")
  case True
  moreover have fresh: "renews p (rt_dhs_public y) ry" "renews p (rt_dhs_public x) rx"
    using assms(2) by (simp_all add: in_step_def)
  ultimately obtain ct x' y' where "ratchet_encrypt p m x = (Inr ct, x')"
    "ratchet_decrypt p ct y ry = (Inr m, y', snd (generate_x25519_keypair p ry))"
    "ahead p y' x'" "rt_n_send x' = 1" "rt_n_send y' = 0" "rt_dhs_public x' = rt_dhs_public x"
    "rt_dhs_public y' = snd (fst (generate_x25519_keypair p ry))"
    using ahead_sends [OF assms(1) _ assms(3), of x y ry] by (auto simp: renews_def)
  with fresh show ?thesis
    by (intro exI [of _ ct] exI [of _ x'] exI [of _ y']) (simp add: in_step_def renews_next)
next
  case False
  then have "ahead p y x"
    using assms(2) by (simp add: in_step_def)
  then obtain ct x' y' where "ratchet_encrypt p m x = (Inr ct, x')" "ratchet_decrypt p ct y ry = (Inr m, y', ry)"
    "ahead p y' x'" "rt_n_send x' = rt_n_send x + 1" "rt_n_send y' = rt_n_send y"
    "rt_dhs_public y' = rt_dhs_public y" "rt_dhs_public x' = rt_dhs_public x"
    using behind_sends [OF assms(1) _ assms(3,4), of y ry] by blast
  then show ?thesis
    using assms(2) by (intro exI [of _ ct] exI [of _ x'] exI [of _ y']) (simp add: in_step_def)
qed

section \<open>Any order, with losses\<close>

text \<open>
  One sender encrypts a run of messages on one chain. The receiver gets some of them, each at most
  once, in any order.
\<close>

fun encrypt_all :: "'r primitives \<Rightarrow> string list \<Rightarrow> ratchet \<Rightarrow> (e2ee_error + ratchet_message) list" where
  "encrypt_all p [] r = []"
| "encrypt_all p (m # ms) r = (let (result, r) = ratchet_encrypt p m r in result # encrypt_all p ms r)"

fun decrypt_all :: "'r primitives \<Rightarrow> ratchet_message list \<Rightarrow> ratchet \<Rightarrow> 'r \<Rightarrow> (e2ee_error + string) list" where
  "decrypt_all p [] r rng = []"
| "decrypt_all p (m # ms) r rng = (let (result, r, rng) = ratchet_decrypt p m r rng in result # decrypt_all p ms r rng)"

fun chain_key :: "'r primitives \<Rightarrow> string \<Rightarrow> nat \<Rightarrow> string" where
  "chain_key p c 0 = c"
| "chain_key p c (Suc i) = next_chain p (chain_key p c i)"

lemma chain_key_shift: "chain_key p (next_chain p c) i = chain_key p c (Suc i)"
  by (induction i) simp_all

text \<open>\<open>sealed_as p d n c m text\<close>: the message is number \<open>n\<close> of the chain and opens under its key.\<close>

definition sealed_as :: "'r primitives \<Rightarrow> string \<Rightarrow> nat \<Rightarrow> string \<Rightarrow> ratchet_message \<Rightarrow> string \<Rightarrow> bool" where
  "sealed_as p dh n c m t \<longleftrightarrow> rm_dh m = dh \<and> rm_n m = n \<and> decrypt_with_key p (ratchet_key p c) m = Inr t"

lemma encrypt_all_sealed:
  assumes "primitive_laws p"
  shows "\<lbrakk>rt_send_chain r = Some c; \<forall>m\<in>set ms. sendable m; rt_n_send r + length ms \<le> u32_max\<rbrakk> \<Longrightarrow>
     \<exists>cts. encrypt_all p ms r = map Inr cts \<and> length cts = length ms
       \<and> (\<forall>i<length ms. sealed_as p (rt_dhs_public r) (rt_n_send r + i) (chain_key p c i) (cts ! i) (ms ! i))"
proof (induction ms arbitrary: r c)
  case (Cons m ms)
  define r' where "r' = r\<lparr>rt_send_chain := Some (next_chain p c), rt_n_send := rt_n_send r + 1\<rparr>"
  obtain ct where ct: "ratchet_encrypt p m r = (Inr ct, r')" "sealed_as p (rt_dhs_public r) (rt_n_send r) c ct m"
  proof (rule encrypt_step [OF assms, of m r c])
    show "sendable m" "rt_send_chain r = Some c" "rt_n_send r < u32_max"
      using Cons.prems by simp_all
  qed (auto simp: sealed_as_def r'_def intro!: that)
  have "rt_send_chain r' = Some (next_chain p c)" "\<forall>m\<in>set ms. sendable m" "rt_n_send r' + length ms \<le> u32_max"
    using Cons.prems by (simp_all add: r'_def)
  from Cons.IH [OF this] obtain cts where cts: "encrypt_all p ms r' = map Inr cts" "length cts = length ms"
    "\<And>i. i < length ms \<Longrightarrow> sealed_as p (rt_dhs_public r) (rt_n_send r + Suc i) (chain_key p c (Suc i)) (cts ! i) (ms ! i)"
    by (auto simp: r'_def chain_key_shift)
  have "\<forall>i<length (m # ms). sealed_as p (rt_dhs_public r) (rt_n_send r + i) (chain_key p c i) ((ct # cts) ! i) ((m # ms) ! i)"
    using ct(2) cts(3) by (auto simp: less_Suc_eq_0_disj)
  with ct(1) cts(1,2) show ?case
    by (intro exI [of _ "ct # cts"]) simp
qed simp

text \<open>
  The receiver after some of the messages: its chain has passed number \<open>n0 + j\<close>, and the key of every
  number below that was not delivered is in the store.
\<close>

definition following :: "'r primitives \<Rightarrow> string \<Rightarrow> string \<Rightarrow> nat \<Rightarrow> nat \<Rightarrow> nat set \<Rightarrow> nat \<Rightarrow> ratchet \<Rightarrow> bool" where
  "following p dh c n0 j delivered room r \<longleftrightarrow>
     rt_dhr r = Some dh \<and> rt_recv_chain r = Some (chain_key p c j) \<and> rt_n_recv r = n0 + j
   \<and> (\<forall>i\<in>delivered. i < j)
   \<and> (\<forall>i<j. i \<notin> delivered \<longrightarrow> map_of (sk_by_id (rt_skipped r)) (dh, n0 + i) = Some (ratchet_key p (chain_key p c i)))
   \<and> (\<forall>i\<ge>j. map_of (sk_by_id (rt_skipped r)) (dh, n0 + i) = None)
   \<and> length (sk_order (rt_skipped r)) \<le> room + j"

lemma evict_id: "length order \<le> MAX_SKIPPED_KEYS \<Longrightarrow> evict order by_id = (order, by_id)"
  by (cases order) simp_all

lemma skipped_insert_room:
  assumes "length (sk_order sk) < MAX_SKIPPED_KEYS"
  shows "sk_by_id (skipped_insert dh n key sk) = bt_insert (dh, n) key (sk_by_id sk)"
    "length (sk_order (skipped_insert dh n key sk)) \<le> Suc (length (sk_order sk))"
  using assms by (auto simp: skipped_insert_def evict_id)

lemma skip_loop_recv: "skip_loop p dh span chain (r\<lparr>rt_recv_chain := x\<rparr>) = skip_loop p dh span chain r"
proof (induction span arbitrary: chain r x)
  case (Suc span)
  have swap: "r\<lparr>rt_recv_chain := x, rt_skipped := sk, rt_n_recv := n\<rparr> = r\<lparr>rt_skipped := sk, rt_n_recv := n, rt_recv_chain := x\<rparr>"
    for sk n by simp
  show ?case
    by (simp add: Let_def swap Suc.IH split: sum.split)
qed simp

lemma skip_loop_follows:
  assumes "primitive_laws p"
  shows "\<lbrakk>following p dh c n0 j delivered room r; n0 + (j + span) \<le> u32_max; room + (j + span) \<le> MAX_SKIPPED_KEYS\<rbrakk> \<Longrightarrow>
     \<exists>r'. skip_loop p dh span (chain_key p c j) r = Inr r' \<and> following p dh c n0 (j + span) delivered room r'"
proof (induction span arbitrary: j r)
  case 0
  moreover have "r\<lparr>rt_recv_chain := Some (chain_key p c j)\<rparr> = r"
    using 0 by (simp add: following_def)
  ultimately show ?case by simp
next
  case (Suc span)
  define sk where "sk = skipped_insert dh (rt_n_recv r) (ratchet_key p (chain_key p c j)) (rt_skipped r)"
  define r' where "r' = r\<lparr>rt_skipped := sk, rt_n_recv := rt_n_recv r + 1\<rparr>"
  have n: "rt_n_recv r = n0 + j"
    using Suc.prems(1) by (simp add: following_def)
  have room: "length (sk_order (rt_skipped r)) < MAX_SKIPPED_KEYS"
    using Suc.prems by (simp add: following_def)
  have "following p dh c n0 (Suc j) delivered room (r'\<lparr>rt_recv_chain := Some (chain_key p c (Suc j))\<rparr>)"
    using Suc.prems(1) skipped_insert_room [OF room, of dh "n0 + j" "ratchet_key p (chain_key p c j)"]
    by (auto simp: following_def r'_def sk_def n less_Suc_eq)
  from Suc.IH [OF this] Suc.prems
  have "\<exists>r''. skip_loop p dh span (chain_key p c (Suc j)) r' = Inr r''
      \<and> following p dh c n0 (j + Suc span) delivered room r''"
    by (simp add: skip_loop_recv)
  moreover have "rt_n_recv r < u32_max"
    using n Suc.prems by simp
  ultimately show ?case
    by (simp add: kdf_chain_total [OF assms] checked_succ_def r'_def sk_def)
qed

text \<open>One more message, whichever it is.\<close>

lemma following_receives:
  assumes laws: "primitive_laws p" and fol: "following p dh c n0 j delivered room r"
    and m: "sealed_as p dh (n0 + i) (chain_key p c i) m t" and new: "i \<notin> delivered"
    and bounds: "i < k" "j \<le> k" "n0 + k \<le> u32_max" "room + k \<le> MAX_SKIPPED_KEYS" "k \<le> MAX_SKIP"
  shows "\<exists>r' j'. ratchet_decrypt p m r rng = (Inr t, r', rng) \<and> j' \<le> k
           \<and> following p dh c n0 j' (insert i delivered) room r'"
proof (cases "i < j")
  case True
  define sk where "sk = \<lparr>sk_by_id = bt_remove (dh, n0 + i) (sk_by_id (rt_skipped r)),
     sk_order = filter (\<lambda>entry. entry \<noteq> (dh, n0 + i)) (sk_order (rt_skipped r))\<rparr>"
  have shorter: "length (filter (\<lambda>entry. entry \<noteq> (dh, n0 + i)) (sk_order (rt_skipped r))) \<le> room + j"
    using fol by (intro le_trans [OF length_filter_le]) (simp add: following_def)
  have "skipped_take dh (n0 + i) (rt_skipped r) = Some (ratchet_key p (chain_key p c i), sk)"
    using fol True new by (simp add: following_def skipped_take_def sk_def)
  then have "ratchet_decrypt p m r rng = (Inr t, r\<lparr>rt_skipped := sk\<rparr>, rng)"
    using m by (simp add: ratchet_decrypt_def sealed_as_def)
  moreover have "following p dh c n0 j (insert i delivered) room (r\<lparr>rt_skipped := sk\<rparr>)"
    using fol True shorter by (auto simp: following_def sk_def)
  ultimately show ?thesis
    using bounds by blast
next
  case False
  have n: "rt_n_recv r = n0 + j" and recv: "rt_dhr r = Some dh" "rt_recv_chain r = Some (chain_key p c j)"
    using fol by (simp_all add: following_def)
  have none: "skipped_take dh (n0 + i) (rt_skipped r) = None"
    using fol False by (simp add: following_def skipped_take_def)
  obtain r1 where r1: "skip_current_receiving_chain p (n0 + i) r = Inr r1" "following p dh c n0 i delivered room r1"
  proof (cases "i = j")
    case True
    then show thesis
      using fol n by (intro that [of r]) (auto intro!: skip_none)
  next
    case neq: False
    have "\<exists>r1. skip_loop p dh (i - j) (chain_key p c j) r = Inr r1 \<and> following p dh c n0 (j + (i - j)) delivered room r1"
      using False bounds by (intro skip_loop_follows [OF laws fol]) simp_all
    then obtain r1 where "skip_loop p dh (i - j) (chain_key p c j) r = Inr r1" "following p dh c n0 i delivered room r1"
      using False by auto
    then show thesis
      using False neq bounds n recv by (intro that [of r1]) (simp_all add: skip_current_receiving_chain_def)
  qed
  define r2 where "r2 = r1\<lparr>rt_recv_chain := Some (chain_key p c (Suc i)), rt_n_recv := n0 + Suc i\<rparr>"
  have n1: "rt_n_recv r1 = n0 + i" "rt_recv_chain r1 = Some (chain_key p c i)"
    using r1(2) by (simp_all add: following_def)
  have "decrypt_on_chain p m r = Inr (t, r2)"
    using m r1(1) n1 bounds
    by (simp add: decrypt_on_chain_def sealed_as_def kdf_chain_total [OF laws] checked_succ_def r2_def)
  then have "ratchet_decrypt p m r rng = (Inr t, r2, rng)"
    using m none recv by (simp add: ratchet_decrypt_def sealed_as_def)
  moreover have "following p dh c n0 (Suc i) (insert i delivered) room r2"
    using r1(2) by (auto simp: following_def r2_def less_Suc_eq)
  ultimately show ?thesis
    using bounds by (intro exI [of _ r2] exI [of _ "Suc i"]) simp
qed

lemma following_receives_all:
  assumes laws: "primitive_laws p"
    and sealed: "\<And>i. i < k \<Longrightarrow> sealed_as p dh (n0 + i) (chain_key p c i) (cts ! i) (ms ! i)"
    and bounds: "n0 + k \<le> u32_max" "room + k \<le> MAX_SKIPPED_KEYS" "k \<le> MAX_SKIP"
  shows "\<lbrakk>following p dh c n0 j delivered room r; j \<le> k; distinct is; set is \<subseteq> {..<k}; set is \<inter> delivered = {}\<rbrakk> \<Longrightarrow>
     decrypt_all p (map ((!) cts) is) r rng = map (\<lambda>i. Inr (ms ! i)) is"
proof (induction "is" arbitrary: r j delivered)
  case (Cons i "is")
  have "sealed_as p dh (n0 + i) (chain_key p c i) (cts ! i) (ms ! i)" "i \<notin> delivered" "i < k"
    using Cons.prems by (auto intro: sealed)
  from following_receives [OF laws Cons.prems(1) this(1,2,3) Cons.prems(2) bounds]
  obtain r' j' where r': "ratchet_decrypt p (cts ! i) r rng = (Inr (ms ! i), r', rng)" "j' \<le> k"
    "following p dh c n0 j' (insert i delivered) room r'"
    by blast
  then have "decrypt_all p (map ((!) cts) is) r' rng = map (\<lambda>i. Inr (ms ! i)) is"
    using Cons.prems by (intro Cons.IH [OF r'(3)]) auto
  with r'(1) show ?case by simp
qed simp

text \<open>The two ends of one chain: what the receiver follows is what the sender sends on.\<close>

definition same_chain :: "ratchet \<Rightarrow> ratchet \<Rightarrow> bool" where
  "same_chain sender receiver \<longleftrightarrow>
     rt_dhr receiver = Some (rt_dhs_public sender) \<and> rt_send_chain sender \<noteq> None
   \<and> rt_recv_chain receiver = rt_send_chain sender \<and> rt_n_recv receiver = rt_n_send sender
   \<and> (\<forall>n\<ge>rt_n_send sender. map_of (sk_by_id (rt_skipped receiver)) (rt_dhs_public sender, n) = None)"

text \<open>C24: the messages of one chain are read whatever order they arrive in and however many of them never
  do: any selection of the frames, each at most once, decrypts to the messages that were sent in them, as
  long as there are at most \<open>MAX_SKIP\<close> of them and the store of skipped keys has room.\<close>

theorem chain_any_order:
  assumes laws: "primitive_laws p" and same: "same_chain s r"
    and ms: "\<forall>m\<in>set ms. sendable m" "length ms \<le> MAX_SKIP" "rt_n_send s + length ms \<le> u32_max"
    and room: "length (sk_order (rt_skipped r)) + length ms \<le> MAX_SKIPPED_KEYS"
    and order: "distinct is" "set is \<subseteq> {..<length ms}"
  shows "\<exists>cts. encrypt_all p ms s = map Inr cts \<and> decrypt_all p (map ((!) cts) is) r rng = map (\<lambda>i. Inr (ms ! i)) is"
proof -
  obtain c where c: "rt_send_chain s = Some c" "rt_recv_chain r = Some c"
    using same by (auto simp: same_chain_def)
  obtain cts where cts: "encrypt_all p ms s = map Inr cts"
    "\<And>i. i < length ms \<Longrightarrow> sealed_as p (rt_dhs_public s) (rt_n_send s + i) (chain_key p c i) (cts ! i) (ms ! i)"
    using encrypt_all_sealed [OF laws c(1) ms(1,3)] by blast
  have "following p (rt_dhs_public s) c (rt_n_send s) 0 {} (length (sk_order (rt_skipped r))) r"
    using same c by (simp add: following_def same_chain_def)
  from following_receives_all [OF laws cts(2) ms(3) room ms(2) this _ order]
  have "decrypt_all p (map ((!) cts) is) r rng = map (\<lambda>i. Inr (ms ! i)) is"
    by simp
  with cts(1) show ?thesis by blast
qed

lemma ahead_same_chain: "ahead p x y \<Longrightarrow> same_chain y x"
  by (auto simp: ahead_def same_chain_def nothing_skipped_def skipped_new_def)

section \<open>The store of skipped keys is bounded\<close>

definition skipped_ok :: "skipped_keys \<Rightarrow> bool" where
  "skipped_ok sk \<longleftrightarrow> bt_wf (sk_by_id sk) \<and> distinct (sk_order sk) \<and> set (sk_order sk) = fst ` set (sk_by_id sk)
     \<and> length (sk_order sk) \<le> MAX_SKIPPED_KEYS"

lemma skipped_ok_new [simp, inv_intros]: "skipped_ok skipped_new"
  by (simp add: skipped_ok_def skipped_new_def)

lemma evict_keys:
  "distinct order \<Longrightarrow> bt_wf by_id \<Longrightarrow> set order = fst ` set by_id \<Longrightarrow> evict order by_id = (order', by_id') \<Longrightarrow>
     distinct order' \<and> bt_wf by_id' \<and> set order' = fst ` set by_id' \<and> length order' \<le> MAX_SKIPPED_KEYS"
proof (induction order by_id rule: evict.induct)
  case (2 oldest order by_id)
  then show ?case
    by (auto simp: fst_set_bt_remove split: if_splits)
qed simp

lemma skipped_ok_insert [inv_intros]:
  assumes "skipped_ok sk"
  shows "skipped_ok (skipped_insert dh n key sk)"
proof -
  define order where "order = (if bt_contains (sk_by_id sk) (dh, n) then sk_order sk else sk_order sk @ [(dh, n)])"
  define by_id where "by_id = bt_insert (dh, n) key (sk_by_id sk)"
  obtain order' by_id' where evict: "evict order by_id = (order', by_id')"
    by force
  have "distinct order" "bt_wf by_id" "set order = fst ` set by_id"
    using assms by (auto simp: skipped_ok_def order_def by_id_def bt_contains_fst)
  from evict_keys [OF this evict] show ?thesis
    using evict by (simp add: skipped_insert_def skipped_ok_def order_def by_id_def)
qed

lemma set_filter_neq: "set (filter (\<lambda>y. y \<noteq> x) xs) = set xs - {x}"
  by auto

lemma skipped_ok_take [inv_intros]:
  assumes "skipped_ok sk" "skipped_take dh n sk = Some (key, sk')"
  shows "skipped_ok sk'"
proof -
  have "length (filter (\<lambda>entry. entry \<noteq> (dh, n)) (sk_order sk)) \<le> MAX_SKIPPED_KEYS"
    using assms(1) by (intro le_trans [OF length_filter_le]) (simp add: skipped_ok_def)
  moreover have "sk' = \<lparr>sk_by_id = bt_remove (dh, n) (sk_by_id sk), sk_order = filter (\<lambda>entry. entry \<noteq> (dh, n)) (sk_order sk)\<rparr>"
    using assms(2) by (simp add: skipped_take_def split: option.splits)
  ultimately show ?thesis
    using assms(1) by (simp only: skipped_ok_def skipped_keys.simps fst_set_bt_remove set_filter_neq bt_wf_remove distinct_filter)
qed

lemma skip_loop_ok: "skipped_ok (rt_skipped r) \<Longrightarrow> skip_loop p dh span chain r = Inr r' \<Longrightarrow> skipped_ok (rt_skipped r')"
  by (induction p dh span chain r rule: skip_loop.induct)
    (auto simp: Let_def skipped_ok_insert split: sum.splits)

lemma skip_current_ok:
  "skipped_ok (rt_skipped r) \<Longrightarrow> skip_current_receiving_chain p until r = Inr r' \<Longrightarrow> skipped_ok (rt_skipped r')"
  by (auto simp: skip_current_receiving_chain_def split: option.splits if_splits intro: skip_loop_ok)

lemma dh_ratchet_receive_skipped:
  "dh_ratchet_receive p dh r rng = (Inr r', rng') \<Longrightarrow> rt_skipped r' = rt_skipped r"
  by (auto simp: dh_ratchet_receive_def Let_def split: sum.splits prod.splits)

lemma decrypt_on_chain_ok:
  "skipped_ok (rt_skipped r) \<Longrightarrow> decrypt_on_chain p m r = Inr (t, r') \<Longrightarrow> skipped_ok (rt_skipped r')"
  by (auto simp: decrypt_on_chain_def split: sum.splits option.splits) (erule (1) skip_current_ok)

lemma turned_chain_ok:
  "\<lbrakk>skipped_ok (rt_skipped r); skip_current_receiving_chain p pn r = Inr x; dh_ratchet_receive p dh x rng = (Inr y, rng');
    decrypt_on_chain p m y = Inr (t, r')\<rbrakk> \<Longrightarrow> skipped_ok (rt_skipped r')"
  by (metis decrypt_on_chain_ok dh_ratchet_receive_skipped skip_current_ok)

lemma ratchet_decrypt_ok:
  assumes "skipped_ok (rt_skipped r)" "ratchet_decrypt p m r rng = (result, r', rng')"
  shows "skipped_ok (rt_skipped r')"
  using assms
  by (auto simp: ratchet_decrypt_def Let_def skipped_ok_take
      split: option.splits sum.splits prod.splits if_splits
      intro: decrypt_on_chain_ok turned_chain_ok)

lemma ratchet_encrypt_skipped: "rt_skipped (snd (ratchet_encrypt p m r)) = rt_skipped r"
  by (simp add: ratchet_encrypt_def Let_def split: option.split sum.split)

text \<open>A frame that does not decrypt leaves the ratchet as it was.\<close>

lemma ratchet_decrypt_error: "ratchet_decrypt p m r rng = (Inl err, r', rng') \<Longrightarrow> r' = r"
  by (auto simp: ratchet_decrypt_def Let_def split: option.splits sum.splits prod.splits if_splits)

section \<open>Primitives that satisfy the laws\<close>

text \<open>
  Not secure, but lawful: public keys are the secrets, a shared secret is the two keys in order, a
  signature and a ciphertext carry what they bind in the clear, and the random source counts.
\<close>

definition sample_primitives :: "nat primitives" where
  "sample_primitives =
     \<lparr>pr_fill_bytes = (\<lambda>rng n. (replicate n (char_of rng), rng + 1)),
      pr_x25519_public = (\<lambda>s. s),
      pr_x25519 = (\<lambda>a b. if a \<le> b then a @ b else b @ a),
      pr_was_contributory = (\<lambda>s. True),
      pr_ed25519_public = (\<lambda>k. k),
      pr_ed25519_sign = (\<lambda>k m. Some (k @ m)),
      pr_ed25519_verify = (\<lambda>k m s. s = k @ m),
      pr_sha256 = (\<lambda>m. m),
      pr_hkdf = (\<lambda>salt ikm info n. Some (take n (salt @ ikm @ info @ zeros n))),
      pr_hmac = (\<lambda>k m. Some (m @ k)),
      pr_seal = (\<lambda>k nonce aad m. Some (k @ nonce @ aad @ m)),
      pr_unseal = (\<lambda>k nonce aad ct. strip_prefix (k @ nonce @ aad) ct)\<rparr>"

lemma strip_prefix_3: "strip_prefix (a @ b @ c) (a @ b @ c @ m) = Some m"
  using strip_prefix_append [of "a @ b @ c" m] by simp

lemma sample_laws: "primitive_laws sample_primitives"
  unfolding primitive_laws_def
  by (intro conjI allI) (auto simp: sample_primitives_def strip_prefix_3 zeros_def min_def)

definition sample_sender :: ratchet where
  "sample_sender =
     \<lparr>rt_root_key = ''root'', rt_dhs_secret = ''s'', rt_dhs_public = ''s'', rt_dhr = Some ''r'', rt_send_chain = Some ''chain'',
      rt_recv_chain = None, rt_n_send = 4, rt_n_recv = 0, rt_prev_chain_len = 0, rt_skipped = skipped_new\<rparr>"

definition sample_receiver :: ratchet where
  "sample_receiver =
     \<lparr>rt_root_key = ''root'', rt_dhs_secret = ''r'', rt_dhs_public = ''r'', rt_dhr = Some ''s'', rt_send_chain = Some ''back'',
      rt_recv_chain = Some ''chain'', rt_n_send = 0, rt_n_recv = 4, rt_prev_chain_len = 0, rt_skipped = skipped_new\<rparr>"

theorem chain_any_order_witness:
  "\<exists>cts. encrypt_all sample_primitives [''a'', ''b'', ''c'', ''d''] sample_sender = map Inr cts
     \<and> decrypt_all sample_primitives (map ((!) cts) [3, 0, 2]) sample_receiver 0 = [Inr ''d'', Inr ''a'', Inr ''c'']"
proof -
  have same: "same_chain sample_sender sample_receiver"
    by (simp add: same_chain_def sample_sender_def sample_receiver_def skipped_new_def)
  show ?thesis
    using chain_any_order [OF sample_laws same, of "[''a'', ''b'', ''c'', ''d'']" "[3, 0, 2]" 0]
    by (simp add: sendable_def MAX_SKIP_def u32_max_def sample_sender_def MAX_SKIPPED_KEYS_def sample_receiver_def
        skipped_new_def)
qed

end
