(* ===== verification/E2ee_Session.thy ===== *)
theory E2ee_Session
  imports E2ee_Ratchet
begin

text \<open>
  One encrypted conversation from end to end: the two sides derive the same secret, the handshake
  leaves both established, and what either then sends is read as it was sent.
\<close>

section \<open>X3DH\<close>

definition identity_ok :: "'r primitives \<Rightarrow> identity \<Rightarrow> bool" where
  "identity_ok p i \<longleftrightarrow> id_agreement i = pr_x25519_public p (id_agreement_secret i)
     \<and> id_signing i = pr_ed25519_public p (id_signing_secret i)"

lemma identity_generate_ok: "identity_ok p (fst (identity_generate p rng))"
  by (simp add: identity_ok_def identity_generate_def Let_def split: prod.split)

lemma x3dh_agree:
  assumes "primitive_laws p"
  shows "\<exists>sk. x3dh_secret_responder p bi be (pr_x25519_public p ai) (pr_x25519_public p as) (pr_x25519_public p ao) = Inr sk
     \<and> x3dh_secret_initiator p as ai ao (pr_x25519_public p bi) (pr_x25519_public p be) = Inr sk"
proof -
  note dh = dh_total [OF assms]
  have sym: "pr_x25519 p x (pr_x25519_public p y) = pr_x25519 p y (pr_x25519_public p x)" for x y
    using assms by (simp add: primitive_laws_def)
  obtain sk where "x3dh_kdf p (pr_x25519 p as (pr_x25519_public p bi)) (pr_x25519 p ai (pr_x25519_public p be))
      (pr_x25519 p as (pr_x25519_public p be)) (pr_x25519 p ao (pr_x25519_public p be)) = Inr sk"
    using hkdf_total [OF assms, of 32] by (fastforce simp: x3dh_kdf_def)
  then show ?thesis
    using sym [of bi as] sym [of be ai] sym [of be as] sym [of be ao]
    by (simp add: x3dh_secret_responder_def x3dh_secret_initiator_def dh)
qed

section \<open>The handshake\<close>

definition draw :: "'r primitives \<Rightarrow> 'r \<Rightarrow> string \<times> 'r" where
  "draw p rng = pr_fill_bytes p rng 32"

text \<open>No two of three key pairs in a row are the same.\<close>

definition spaced :: "'r primitives \<Rightarrow> 'r \<Rightarrow> bool" where
  "spaced p rng \<longleftrightarrow> (\<forall>n. nth_public p rng (Suc n) \<noteq> nth_public p rng n \<and> nth_public p rng (Suc (Suc n)) \<noteq> nth_public p rng n)"

lemma generate_fields:
  assumes "generate_x25519_keypair p rng = ((secret, public), rng')"
  shows "public = pr_x25519_public p secret" "nth_public p rng 0 = public" "nth_public p rng (Suc n) = nth_public p rng' n"
  using assms by (auto simp: generate_x25519_keypair_def Let_def split: prod.splits)

lemma create_offer_ok:
  assumes laws: "primitive_laws p" and i: "identity_ok p i"
  obtains ss so rng1 rng2 sig where
    "generate_x25519_keypair p rng = ((ss, pr_x25519_public p ss), rng1)"
    "generate_x25519_keypair p rng1 = ((so, pr_x25519_public p so), rng2)"
    "create_offer p i rng = (Inr \<lparr>po_bundle = \<lparr>pb_ik = id_agreement i, pb_sik = id_signing i, pb_spk = pr_x25519_public p ss,
        pb_sig = sig, pb_opk = pr_x25519_public p so\<rparr>, po_spk_secret = ss, po_opk_secret = so\<rparr>, rng2)"
    "verify_signature p (id_signing i) (id_agreement i @ pr_x25519_public p ss @ pr_x25519_public p so) sig = Inr ()"
proof -
  obtain ss rng1 where ss: "pr_fill_bytes p rng 32 = (ss, rng1)" by force
  obtain so rng2 where so: "pr_fill_bytes p rng1 32 = (so, rng2)" by force
  obtain sig where sig: "identity_sign p i (id_agreement i @ pr_x25519_public p ss @ pr_x25519_public p so) = Inr sig"
    "verify_signature p (id_signing i) (id_agreement i @ pr_x25519_public p ss @ pr_x25519_public p so) sig = Inr ()"
    using sign_verifies [OF laws, of i] i by (auto simp: identity_ok_def)
  show thesis
    using ss so sig by (intro that [of ss rng1 so rng2 sig]) (simp_all add: create_offer_def generate_x25519_keypair_def)
qed

lemma accept_offer_ok:
  assumes laws: "primitive_laws p" and i: "identity_ok p i"
    and b: "verify_bundle_signature p b = Inr ()" "pb_ik b = pr_x25519_public p ai" "pb_spk b = pr_x25519_public p ss"
      "pb_opk b = pr_x25519_public p so"
    and ek: "generate_x25519_keypair p rng = ((es, ek), rng')"
  obtains sk root c ct sig where
    "x3dh_secret_initiator p ss ai so (id_agreement i) ek = Inr sk"
    "kdf_root p sk (pr_x25519 p ss ek) = Inr (root, c)"
    "decrypt_with_key p (ratchet_key p c) \<lparr>rm_dh = ek, rm_pn = 0, rm_n = 0, rm_ct = ct\<rparr> = Inr []"
    "verify_signature p (id_signing i) (id_agreement i @ ek) sig = Inr ()"
    "accept_offer p i b rng = (Inr (\<lparr>hr_ik = id_agreement i, hr_sik = id_signing i, hr_ek = ek, hr_sig = sig,
        hr_boot = \<lparr>rm_dh = ek, rm_pn = 0, rm_n = 0, rm_ct = ct\<rparr>\<rparr>,
        \<lparr>rt_root_key = root, rt_dhs_secret = es, rt_dhs_public = ek, rt_dhr = Some (pr_x25519_public p ss),
         rt_send_chain = Some (next_chain p c), rt_recv_chain = None, rt_n_send = 1, rt_n_recv = 0,
         rt_prev_chain_len = 0, rt_skipped = skipped_new\<rparr>), rng')"
proof -
  have pub: "ek = pr_x25519_public p es" "id_agreement i = pr_x25519_public p (id_agreement_secret i)"
    using generate_fields(1) [OF ek] i by (simp_all add: identity_ok_def)
  obtain sk where sk: "x3dh_secret_responder p (id_agreement_secret i) es (pb_ik b) (pb_spk b) (pb_opk b) = Inr sk"
    "x3dh_secret_initiator p ss ai so (id_agreement i) ek = Inr sk"
    using x3dh_agree [OF laws] unfolding b pub by blast
  have sym: "pr_x25519 p es (pr_x25519_public p ss) = pr_x25519 p ss ek"
    using laws by (simp add: primitive_laws_def pub)
  obtain root c where root: "kdf_root p sk (pr_x25519 p ss ek) = Inr (root, c)"
    using kdf_root_total [OF laws] by blast
  define r where "r = \<lparr>rt_root_key = root, rt_dhs_secret = es, rt_dhs_public = ek, rt_dhr = Some (pr_x25519_public p ss),
     rt_send_chain = Some c, rt_recv_chain = None, rt_n_send = 0, rt_n_recv = 0,
     rt_prev_chain_len = 0, rt_skipped = skipped_new\<rparr>"
  have init: "init_as_responder p sk es ek (pb_spk b) = Inr r"
    using root by (simp add: init_as_responder_def b dh_total [OF laws] sym r_def)
  have chain: "rt_send_chain r = Some c" "rt_n_send r < u32_max" "sendable []"
    by (simp_all add: r_def u32_max_def sendable_def)
  obtain ct where ct: "ratchet_encrypt p [] r = (Inr \<lparr>rm_dh = ek, rm_pn = 0, rm_n = 0, rm_ct = ct\<rparr>,
      r\<lparr>rt_send_chain := Some (next_chain p c), rt_n_send := 1\<rparr>)"
    "decrypt_with_key p (ratchet_key p c) \<lparr>rm_dh = ek, rm_pn = 0, rm_n = 0, rm_ct = ct\<rparr> = Inr []"
    using encrypt_step [OF laws chain(3,1,2)] by (auto simp: r_def)
  obtain sig where sig: "identity_sign p i (id_agreement i @ ek) = Inr sig"
    "verify_signature p (id_signing i) (id_agreement i @ ek) sig = Inr ()"
    using sign_verifies [OF laws, of i] i by (auto simp: identity_ok_def)
  show thesis
    by (rule that [OF sk(2) root ct(2) sig(2)])
      (simp add: accept_offer_def b(1) ek sk(1) init ct(1) sig(1), simp add: r_def)
qed

text \<open>The initiator opens the responder's first message with the keys it offered: the ratchets are in step.\<close>

lemma complete_handshake_ok:
  assumes laws: "primitive_laws p"
    and response: "verify_signature p (hr_sik response) (hr_ik response @ ek) (hr_sig response) = Inr ()" "hr_ek response = ek"
      "hr_boot response = \<lparr>rm_dh = ek, rm_pn = 0, rm_n = 0, rm_ct = ct\<rparr>"
    and sk: "x3dh_secret_initiator p ss (id_agreement_secret i) so (hr_ik response) ek = Inr sk"
    and root: "kdf_root p sk (pr_x25519 p ss ek) = Inr (root, c)" and ek: "ek = pr_x25519_public p es"
    and boot: "decrypt_with_key p (ratchet_key p c) \<lparr>rm_dh = ek, rm_pn = 0, rm_n = 0, rm_ct = ct\<rparr> = Inr []"
    and pending: "po_spk_secret pending = ss" "po_opk_secret pending = so" "pb_spk (po_bundle pending) = pr_x25519_public p ss"
    and keys: "generate_x25519_keypair p rng = ((s2, k2), rng')" and fresh: "k2 \<noteq> pr_x25519_public p ss"
    and y: "y = \<lparr>rt_root_key = root, rt_dhs_secret = es, rt_dhs_public = ek, rt_dhr = Some (pr_x25519_public p ss),
         rt_send_chain = Some (next_chain p c), rt_recv_chain = None, rt_n_send = 1, rt_n_recv = 0,
         rt_prev_chain_len = 0, rt_skipped = skipped_new\<rparr>"
  shows "\<exists>x. complete_handshake p i pending response rng = (Inr x, rng') \<and> ahead p x y \<and> rt_dhs_public x = k2"
proof -
  have k2: "k2 = pr_x25519_public p s2"
    using keys by (rule generate_fields(1))
  obtain root2 c2 where root2: "kdf_root p root (pr_x25519 p s2 ek) = Inr (root2, c2)"
    using kdf_root_total [OF laws] by blast
  define r0 where "r0 = init_as_initiator sk ss (pr_x25519_public p ss)"
  define r1 where "r1 = \<lparr>rt_root_key = root2, rt_dhs_secret = s2, rt_dhs_public = k2, rt_dhr = Some ek,
     rt_send_chain = Some c2, rt_recv_chain = Some c, rt_n_send = 0, rt_n_recv = 0, rt_prev_chain_len = 0,
     rt_skipped = skipped_new\<rparr>"
  have turn: "dh_ratchet_receive p ek r0 rng = (Inr r1, rng')"
    using root root2 keys dh_total [OF laws]
    by (simp add: dh_ratchet_receive_def r0_def init_as_initiator_def ek r1_def)
  define x where "x = r1\<lparr>rt_recv_chain := Some (next_chain p c), rt_n_recv := 1\<rparr>"
  have "decrypt_on_chain p (hr_boot response) r1 = Inr ([], x)"
    using decrypt_on_chain_next [OF laws, of r1 c "hr_boot response" "[]"] boot
    by (simp add: response r1_def u32_max_def x_def)
  then have "ratchet_decrypt p (hr_boot response) r0 rng = (Inr [], x, rng')"
    using turn by (simp add: ratchet_decrypt_def response r0_def init_as_initiator_def skip_none)
  then have "complete_handshake p i pending response rng = (Inr x, rng')"
    by (simp add: complete_handshake_def response sk pending r0_def)
  moreover have "pr_x25519 p es k2 = pr_x25519 p s2 ek"
    using laws by (simp add: primitive_laws_def k2 ek)
  then have "ahead p x y"
    using fresh root2 by (auto simp: ahead_def own_key_def nothing_skipped_def x_def r1_def y k2 ek)
  ultimately show ?thesis
    by (intro exI [of _ x]) (simp add: x_def r1_def)
qed

lemma handshake_keys:
  assumes laws: "primitive_laws p" and ia: "identity_ok p ia" and ib: "identity_ok p ib"
    and gaps: "spaced p ra" "spaced p rb"
  shows "\<exists>pending ra2 response y rb1 x ra3. create_offer p ia ra = (Inr pending, ra2) \<and> pb_sik (po_bundle pending) = id_signing ia
     \<and> accept_offer p ib (po_bundle pending) rb = (Inr (response, y), rb1) \<and> hr_sik response = id_signing ib
     \<and> complete_handshake p ia pending response ra2 = (Inr x, ra3)
     \<and> in_step p x y ra3 rb1 \<and> rt_n_send x = 0 \<and> rt_n_send y = 1"
proof -
  obtain ss so ra1 ra2 sig where offer:
    "generate_x25519_keypair p ra = ((ss, pr_x25519_public p ss), ra1)"
    "generate_x25519_keypair p ra1 = ((so, pr_x25519_public p so), ra2)"
    "create_offer p ia ra = (Inr \<lparr>po_bundle = \<lparr>pb_ik = id_agreement ia, pb_sik = id_signing ia, pb_spk = pr_x25519_public p ss,
        pb_sig = sig, pb_opk = pr_x25519_public p so\<rparr>, po_spk_secret = ss, po_opk_secret = so\<rparr>, ra2)"
    "verify_signature p (id_signing ia) (id_agreement ia @ pr_x25519_public p ss @ pr_x25519_public p so) sig = Inr ()"
    by (rule create_offer_ok [OF laws ia])
  define bdl where "bdl = \<lparr>pb_ik = id_agreement ia, pb_sik = id_signing ia, pb_spk = pr_x25519_public p ss,
        pb_sig = sig, pb_opk = pr_x25519_public p so\<rparr>"
  define pending where "pending = \<lparr>po_bundle = bdl, po_spk_secret = ss, po_opk_secret = so\<rparr>"
  obtain es ek rb1 where ek: "generate_x25519_keypair p rb = ((es, ek), rb1)"
    by (metis surj_pair)
  obtain s2 k2 ra3 where k2: "generate_x25519_keypair p ra2 = ((s2, k2), ra3)"
    by (metis surj_pair)
  have pik: "pb_ik bdl = pr_x25519_public p (id_agreement_secret ia)"
    using ia by (simp add: bdl_def identity_ok_def)
  have vb: "verify_bundle_signature p bdl = Inr ()"
    using offer(4) by (simp add: verify_bundle_signature_def bdl_def)
  have pspk: "pb_spk bdl = pr_x25519_public p ss" "pb_opk bdl = pr_x25519_public p so"
    by (simp_all add: bdl_def)
  obtain sk root c ct rsig where acc:
    "x3dh_secret_initiator p ss (id_agreement_secret ia) so (id_agreement ib) ek = Inr sk"
    "kdf_root p sk (pr_x25519 p ss ek) = Inr (root, c)"
    "decrypt_with_key p (ratchet_key p c) \<lparr>rm_dh = ek, rm_pn = 0, rm_n = 0, rm_ct = ct\<rparr> = Inr []"
    "verify_signature p (id_signing ib) (id_agreement ib @ ek) rsig = Inr ()"
    "accept_offer p ib bdl rb = (Inr (\<lparr>hr_ik = id_agreement ib, hr_sik = id_signing ib, hr_ek = ek, hr_sig = rsig,
        hr_boot = \<lparr>rm_dh = ek, rm_pn = 0, rm_n = 0, rm_ct = ct\<rparr>\<rparr>,
        \<lparr>rt_root_key = root, rt_dhs_secret = es, rt_dhs_public = ek, rt_dhr = Some (pr_x25519_public p ss),
         rt_send_chain = Some (next_chain p c), rt_recv_chain = None, rt_n_send = 1, rt_n_recv = 0,
         rt_prev_chain_len = 0, rt_skipped = skipped_new\<rparr>), rb1)"
    by (rule accept_offer_ok [OF laws ib vb pik pspk ek])
  define response where "response = \<lparr>hr_ik = id_agreement ib, hr_sik = id_signing ib, hr_ek = ek, hr_sig = rsig,
        hr_boot = \<lparr>rm_dh = ek, rm_pn = 0, rm_n = 0, rm_ct = ct\<rparr>\<rparr>"
  define y where "y = \<lparr>rt_root_key = root, rt_dhs_secret = es, rt_dhs_public = ek, rt_dhr = Some (pr_x25519_public p ss),
         rt_send_chain = Some (next_chain p c), rt_recv_chain = None, rt_n_send = 1, rt_n_recv = 0,
         rt_prev_chain_len = 0, rt_skipped = skipped_new\<rparr>"
  have nth: "nth_public p ra 0 = pr_x25519_public p ss" "nth_public p ra (Suc (Suc n)) = nth_public p ra2 n"
    "nth_public p ra2 0 = k2" "nth_public p ra2 (Suc n) = nth_public p ra3 n"
    "nth_public p rb 0 = ek" "nth_public p rb (Suc n) = nth_public p rb1 n" for n
    using offer(1,2) k2 ek by (simp_all add: generate_fields)
  have fresh: "k2 \<noteq> pr_x25519_public p ss"
    using gaps(1) nth(1) nth(2) [of 0] nth(3) by (metis spaced_def)
  have renews: "renews p k2 ra3" "renews p ek rb1"
    using gaps nth unfolding renews_def spaced_def by metis+
  have "\<exists>x. complete_handshake p ia pending response ra2 = (Inr x, ra3) \<and> ahead p x y \<and> rt_dhs_public x = k2"
    by (rule complete_handshake_ok [OF laws _ _ _ _ acc(2) generate_fields(1) [OF ek] acc(3) _ _ _ k2 fresh y_def,
          where so = so])
      (use acc(1,4) in \<open>simp_all add: response_def pending_def bdl_def\<close>)
  then obtain x where x: "complete_handshake p ia pending response ra2 = (Inr x, ra3)" "ahead p x y" "rt_dhs_public x = k2"
    by blast
  have "in_step p x y ra3 rb1"
    using x(2,3) renews by (simp add: in_step_def y_def)
  moreover have "rt_n_send x = 0"
    using x(2) by (simp add: ahead_def)
  ultimately show ?thesis
    using offer(3) acc(5) x(1)
    by (intro exI [of _ pending] exI [of _ ra2] exI [of _ response] exI [of _ y] exI [of _ rb1] exI [of _ x] exI [of _ ra3])
      (simp add: pending_def bdl_def response_def y_def)
qed

text \<open>The six calls of a handshake, each side's frame handed to the other.\<close>

definition e2ee_handshake ::
  "'r primitives \<Rightarrow> identity \<Rightarrow> identity \<Rightarrow> e2ee_session \<Rightarrow> e2ee_session \<Rightarrow> 'r \<Rightarrow> 'r \<Rightarrow>
     e2ee_error + (e2ee_session \<times> e2ee_session \<times> 'r \<times> 'r)" where
  "e2ee_handshake p ia ib a b ra rb =
     (case e2ee_start p ia a ra of (Inl err, _) \<Rightarrow> Inl err | (Inr bundle, a, ra) \<Rightarrow>
     (case receive_offer p bundle b of (offered, b) \<Rightarrow>
     (case e2ee_accept p ib b rb of (Inl err, _) \<Rightarrow> Inl err | (Inr response, b, rb) \<Rightarrow>
     (case receive_accept p ia response a ra of (Inl err, _) \<Rightarrow> Inl err | (Inr _, a, ra) \<Rightarrow>
     (case make_ack p a of (Inl err, _) \<Rightarrow> Inl err | (Inr ct, a) \<Rightarrow>
     (case receive_ack p ct b rb of (Inl err, _) \<Rightarrow> Inl err | (Inr _, b, rb) \<Rightarrow> Inr (a, b, ra, rb)))))))"

definition trusts :: "'r primitives \<Rightarrow> e2ee_session \<Rightarrow> identity \<Rightarrow> bool" where
  "trusts p s i \<longleftrightarrow> pt_pinned (es_trust s) \<in> {None, Some (identity_fingerprint p i)}"

lemma trusts_observe:
  "trusts p s i \<Longrightarrow> \<exists>outcome. outcome \<in> {New, Same} \<and>
     trust_observe (of_signing_key p (id_signing i)) (es_trust s) =
       (outcome, (es_trust s)\<lparr>pt_pinned := Some (identity_fingerprint p i)\<rparr>)"
  by (cases "es_trust s") (auto simp: trusts_def trust_observe_def identity_fingerprint_def)

definition linked :: "'r primitives \<Rightarrow> e2ee_session \<Rightarrow> e2ee_session \<Rightarrow> 'r \<Rightarrow> 'r \<Rightarrow> nat \<Rightarrow> bool" where
  "linked p a b ra rb room \<longleftrightarrow>
     (\<exists>x y. es_state a = Established x \<and> es_state b = Established y \<and> in_step p x y ra rb
        \<and> rt_n_send x + room \<le> u32_max \<and> rt_n_send y + room \<le> u32_max)"

lemma handshake_links:
  assumes laws: "primitive_laws p" and ia: "identity_ok p ia" and ib: "identity_ok p ib"
    and trust: "trusts p a ib" "trusts p b ia" and gaps: "spaced p ra" "spaced p rb"
  shows "\<exists>a' b' ra' rb'. e2ee_handshake p ia ib a b ra rb = Inr (a', b', ra', rb')
     \<and> linked p a' b' ra' rb' (u32_max - 1)
     \<and> es_role a' = Some Initiator \<and> es_role b' = Some Responder
     \<and> pt_pinned (es_trust a') = Some (identity_fingerprint p ib)
     \<and> pt_pinned (es_trust b') = Some (identity_fingerprint p ia)"
proof -
  obtain pending ra2 response y rb1 x ra3 where keys: "create_offer p ia ra = (Inr pending, ra2)"
    "pb_sik (po_bundle pending) = id_signing ia" "accept_offer p ib (po_bundle pending) rb = (Inr (response, y), rb1)"
    "hr_sik response = id_signing ib" "complete_handshake p ia pending response ra2 = (Inr x, ra3)"
    "in_step p x y ra3 rb1" "rt_n_send x = 0" "rt_n_send y = 1"
    using handshake_keys [OF laws ia ib gaps] by blast
  have "sendable []" "rt_n_send x < u32_max"
    using keys(7) by (simp_all add: sendable_def u32_max_def)
  then obtain ack x' y' rb2 where ack: "ratchet_encrypt p [] x = (Inr ack, x')"
    "ratchet_decrypt p ack y rb1 = (Inr [], y', rb2)" "in_step p x' y' ra3 rb2"
    "rt_n_send x' \<le> rt_n_send x + 1" "rt_n_send y' \<le> rt_n_send y"
    using exchange [OF laws keys(6)] by blast
  obtain out_a where out_a: "out_a \<in> {New, Same}" "trust_observe (of_signing_key p (id_signing ib)) (es_trust a)
      = (out_a, (es_trust a)\<lparr>pt_pinned := Some (identity_fingerprint p ib)\<rparr>)"
    using trusts_observe [OF trust(1)] by blast
  obtain out_b where out_b: "out_b \<in> {New, Same}" "trust_observe (of_signing_key p (id_signing ia)) (es_trust b)
      = (out_b, (es_trust b)\<lparr>pt_pinned := Some (identity_fingerprint p ia)\<rparr>)"
    using trusts_observe [OF trust(2)] by blast
  define a' where "a' = a\<lparr>es_state := Established x', es_trust := (es_trust a)\<lparr>pt_pinned := Some (identity_fingerprint p ib)\<rparr>,
     es_role := Some Initiator\<rparr>"
  define b' where "b' = b\<lparr>es_state := Established y', es_trust := (es_trust b)\<lparr>pt_pinned := Some (identity_fingerprint p ia)\<rparr>,
     es_role := Some Responder\<rparr>"
  have start: "e2ee_start p ia a ra = (Inr (po_bundle pending), a\<lparr>es_state := Offered pending\<rparr>, ra2)"
    using keys(1) by (simp add: e2ee_start_def)
  have accept: "e2ee_accept p ib (b\<lparr>es_state := OfferReceived (po_bundle pending)\<rparr>) rb
      = (Inr response, b\<lparr>es_state := AwaitingAck y, es_trust := (es_trust b)\<lparr>pt_pinned := Some (identity_fingerprint p ia)\<rparr>,
           es_role := Some Responder\<rparr>, rb1)"
    using keys(2,3) out_b by (auto simp: e2ee_accept_def)
  have complete: "receive_accept p ia response (a\<lparr>es_state := Offered pending\<rparr>) ra2
      = (Inr (), a\<lparr>es_state := Established x, es_trust := (es_trust a)\<lparr>pt_pinned := Some (identity_fingerprint p ib)\<rparr>,
           es_role := Some Initiator\<rparr>, ra3)"
    using keys(4,5) out_a by (auto simp: receive_accept_def)
  have "e2ee_handshake p ia ib a b ra rb = Inr (a', b', ra3, rb2)"
    by (simp add: e2ee_handshake_def start receive_offer_def accept complete make_ack_def e2ee_send_def ack(1)
        receive_ack_def ack(2) a'_def b'_def)
  moreover have "linked p a' b' ra3 rb2 (u32_max - 1)"
    using ack(3,4,5) keys(7,8) by (auto simp: linked_def a'_def b'_def u32_max_def)
  ultimately show ?thesis
    by (intro exI [of _ a'] exI [of _ b']) (simp add: a'_def b'_def)
qed

section \<open>A whole conversation\<close>

text \<open>Each message is sent by the side named, \<open>True\<close> for the first, and handed to the other.\<close>

fun e2ee_converse ::
  "'r primitives \<Rightarrow> (bool \<times> string) list \<Rightarrow> e2ee_session \<Rightarrow> e2ee_session \<Rightarrow> 'r \<Rightarrow> 'r \<Rightarrow> (e2ee_error + string) list" where
  "e2ee_converse p [] a b ra rb = []"
| "e2ee_converse p ((first, m) # ms) a b ra rb =
     (let (sender, receiver, rng) = (if first then (a, b, rb) else (b, a, ra)) in
      case e2ee_send p m sender of
        (Inl err, _) \<Rightarrow> [Inl err]
      | (Inr ct, sender) \<Rightarrow>
          (let (result, receiver, rng) = e2ee_receive p ct receiver rng
           in result # (if first then e2ee_converse p ms sender receiver ra rng
                        else e2ee_converse p ms receiver sender rng rb)))"

lemma linked_exchange:
  assumes "primitive_laws p" "linked p a b ra rb (Suc room)" "sendable m"
  shows "\<exists>ct a' b' rb'. e2ee_send p m a = (Inr ct, a') \<and> e2ee_receive p ct b rb = (Inr m, b', rb') \<and> linked p a' b' ra rb' room"
proof -
  obtain x y where xy: "es_state a = Established x" "es_state b = Established y" "in_step p x y ra rb"
    "rt_n_send x + Suc room \<le> u32_max" "rt_n_send y + Suc room \<le> u32_max"
    using assms(2) by (auto simp: linked_def)
  then obtain ct x' y' rb' where step: "ratchet_encrypt p m x = (Inr ct, x')" "ratchet_decrypt p ct y rb = (Inr m, y', rb')"
    "in_step p x' y' ra rb'" "rt_n_send x' \<le> rt_n_send x + 1" "rt_n_send y' \<le> rt_n_send y"
    using exchange [OF assms(1) xy(3) assms(3)] by auto
  then have "linked p (a\<lparr>es_state := Established x'\<rparr>) (b\<lparr>es_state := Established y'\<rparr>) ra rb' room"
    using xy by (auto simp: linked_def)
  then show ?thesis
    using xy step by (intro exI [of _ ct] exI [of _ "a\<lparr>es_state := Established x'\<rparr>"]
        exI [of _ "b\<lparr>es_state := Established y'\<rparr>"] exI [of _ rb']) (simp add: e2ee_send_def e2ee_receive_def)
qed

lemma linked_sym: "linked p a b ra rb room \<Longrightarrow> linked p b a rb ra room"
  by (auto simp: linked_def dest: in_step_sym)

lemma linked_converse:
  assumes "primitive_laws p"
  shows "linked p a b ra rb (length ms) \<Longrightarrow> \<forall>(first, m)\<in>set ms. sendable m \<Longrightarrow>
     e2ee_converse p ms a b ra rb = map (\<lambda>(first, m). Inr m) ms"
proof (induction ms arbitrary: a b ra rb)
  case (Cons fm ms)
  obtain first m where fm: "fm = (first, m)" by force
  have m: "sendable m" and ms: "\<forall>(first, m)\<in>set ms. sendable m"
    using Cons.prems(2) by (auto simp: fm)
  have link: "linked p a b ra rb (Suc (length ms))"
    using Cons.prems(1) by simp
  show ?case
  proof (cases first)
    case True
    then show ?thesis
      using linked_exchange [OF assms link m] Cons.IH [OF _ ms] fm by auto
  next
    case False
    then show ?thesis
      using linked_exchange [OF assms linked_sym [OF link] m] Cons.IH [OF linked_sym ms] fm by auto
  qed
qed simp

text \<open>C23: two fresh sides that trust, or have not yet met, each other's identity complete the handshake, both
  established, and then every message either sends, in whatever turns they speak, is read by the other as
  it was sent.\<close>

theorem handshake_then_converse:
  assumes "primitive_laws p" "identity_ok p ia" "identity_ok p ib" "trusts p a ib" "trusts p b ia"
    "spaced p ra" "spaced p rb" "\<forall>(first, m)\<in>set ms. sendable m" "length ms < u32_max"
  shows "\<exists>a' b' ra' rb'. e2ee_handshake p ia ib a b ra rb = Inr (a', b', ra', rb')
     \<and> e2ee_converse p ms a' b' ra' rb' = map (\<lambda>(first, m). Inr m) ms"
proof -
  obtain a' b' ra' rb' where shake: "e2ee_handshake p ia ib a b ra rb = Inr (a', b', ra', rb')"
    "linked p a' b' ra' rb' (u32_max - 1)"
    using handshake_links [OF assms(1-7)] by blast
  then have "linked p a' b' ra' rb' (length ms)"
    using assms(9) by (auto simp: linked_def)
  with shake(1) linked_converse [OF assms(1) _ assms(8)] show ?thesis by blast
qed

section \<open>A conversation on the sample primitives\<close>

lemma sample_nth: "nth_public sample_primitives rng n = replicate 32 (char_of (rng + n))"
proof (induction n arbitrary: rng)
  case (Suc n)
  have "nth_public sample_primitives rng (Suc n) = nth_public sample_primitives (rng + 1) n"
    by (simp add: generate_x25519_keypair_def sample_primitives_def)
  then show ?case
    by (simp only: Suc.IH) simp
qed (simp add: generate_x25519_keypair_def sample_primitives_def)

lemma char_of_neq: "a mod 256 \<noteq> b mod 256 \<Longrightarrow> char_of a \<noteq> (char_of b :: char)" for a b :: nat
  by (metis of_char_of)

lemma char_of_steps: "char_of (Suc m) \<noteq> (char_of m :: char)" "char_of (Suc (Suc m)) \<noteq> (char_of m :: char)"
  by (rule char_of_neq, simp add: mod_Suc)+

lemma sample_spaced: "spaced sample_primitives rng"
  unfolding spaced_def sample_nth replicate_eq_replicate add_Suc_right
  using char_of_steps by simp

definition sample_identity :: "nat \<Rightarrow> identity" where
  "sample_identity rng = fst (identity_generate sample_primitives rng)"

lemma sample_identity_ok: "identity_ok sample_primitives (sample_identity rng)"
  by (simp add: sample_identity_def identity_generate_ok)

lemma new_trusts: "trusts p e2ee_new i"
  by (simp add: trusts_def e2ee_new_def peer_trust_new_def)

theorem handshake_then_converse_witness:
  "\<exists>a b ra rb. e2ee_handshake sample_primitives (sample_identity 1) (sample_identity 7) e2ee_new e2ee_new 20 90 = Inr (a, b, ra, rb)
     \<and> e2ee_converse sample_primitives [(True, ''hi''), (False, ''yes''), (False, []), (True, ''bye'')] a b ra rb
        = [Inr ''hi'', Inr ''yes'', Inr [], Inr ''bye'']"
  using handshake_then_converse [OF sample_laws sample_identity_ok sample_identity_ok new_trusts new_trusts sample_spaced
      sample_spaced, of "[(True, ''hi''), (False, ''yes''), (False, []), (True, ''bye'')]" 1 7 20 90]
  by (simp add: sendable_def u32_max_def)

end
