(* ===== verification/E2ee_Calls.thy ===== *)
theory E2ee_Calls
  imports E2ee_Session
begin

text \<open>
  One encrypted conversation under any sequence of calls: what it keeps, which calls can establish a
  session, which can move a pinned fingerprint; and the reassembly of fragmented frames.
\<close>

section \<open>Any sequence of calls\<close>

datatype e2ee_call =
    CallStart identity
  | CallReceiveOffer prekey_bundle
  | CallAccept identity
  | CallReject "string option"
  | CallReceiveReject
  | CallReceiveAccept identity handshake_response
  | CallMakeAck
  | CallReceiveAck ratchet_message
  | CallSend string
  | CallReceive ratchet_message
  | CallClose
  | CallReceiveClose
  | CallMarkVerified
  | CallConfirmChange fingerprint

definition e2ee_step :: "'r primitives \<Rightarrow> e2ee_call \<Rightarrow> e2ee_session \<times> 'r \<Rightarrow> e2ee_session \<times> 'r" where
  "e2ee_step p c sr =
     (let (s, rng) = sr in
      case c of
        CallStart i \<Rightarrow> snd (e2ee_start p i s rng)
      | CallReceiveOffer b \<Rightarrow> (snd (receive_offer p b s), rng)
      | CallAccept i \<Rightarrow> snd (e2ee_accept p i s rng)
      | CallReject reason \<Rightarrow> (snd (e2ee_reject reason s), rng)
      | CallReceiveReject \<Rightarrow> (receive_reject s, rng)
      | CallReceiveAccept i response \<Rightarrow> snd (receive_accept p i response s rng)
      | CallMakeAck \<Rightarrow> (snd (make_ack p s), rng)
      | CallReceiveAck ct \<Rightarrow> snd (receive_ack p ct s rng)
      | CallSend m \<Rightarrow> (snd (e2ee_send p m s), rng)
      | CallReceive ct \<Rightarrow> snd (e2ee_receive p ct s rng)
      | CallClose \<Rightarrow> (snd (e2ee_close s), rng)
      | CallReceiveClose \<Rightarrow> (receive_close s, rng)
      | CallMarkVerified \<Rightarrow> (mark_peer_verified s, rng)
      | CallConfirmChange f \<Rightarrow> (confirm_fingerprint_change f s, rng))"

definition held_ratchet :: "e2ee_session \<Rightarrow> ratchet option" where
  "held_ratchet s = (case es_state s of AwaitingAck r \<Rightarrow> Some r | Established r \<Rightarrow> Some r | _ \<Rightarrow> None)"

text \<open>
  A ratchet is only ever held for a peer whose fingerprint is pinned, in a role that was taken, and its
  store of skipped keys is well formed and bounded.
\<close>

definition e2ee_ok :: "e2ee_session \<times> 'r \<Rightarrow> bool" where
  "e2ee_ok sr \<longleftrightarrow>
     (case held_ratchet (fst sr) of
        None \<Rightarrow> True
      | Some r \<Rightarrow> skipped_ok (rt_skipped r) \<and> pt_pinned (es_trust (fst sr)) \<noteq> None \<and> es_role (fst sr) \<noteq> None)
   \<and> (\<forall>r. es_state (fst sr) = AwaitingAck r \<longrightarrow> es_role (fst sr) = Some Responder)"

lemma init_as_responder_skipped: "init_as_responder p sk es ek spk = Inr r \<Longrightarrow> rt_skipped r = skipped_new"
  by (auto simp: init_as_responder_def split: sum.splits)

lemma accept_offer_skipped:
  assumes "accept_offer p i b rng = (Inr (response, r), rng')"
  shows "skipped_ok (rt_skipped r)"
proof -
  obtain sk es ek r0 where r0: "init_as_responder p sk es ek (pb_spk b) = Inr r0" "r = snd (ratchet_encrypt p [] r0)"
    using assms by (auto simp: accept_offer_def Let_def split: sum.splits prod.splits)
  then show ?thesis
    by (simp add: ratchet_encrypt_skipped init_as_responder_skipped)
qed

lemma complete_handshake_skipped:
  assumes "complete_handshake p i pending response rng = (Inr r, rng')"
  shows "skipped_ok (rt_skipped r)"
proof -
  obtain sk t where "ratchet_decrypt p (hr_boot response)
      (init_as_initiator sk (po_spk_secret pending) (pb_spk (po_bundle pending))) rng = (Inr t, r, rng')"
    using assms by (auto simp: complete_handshake_def split: sum.splits prod.splits)
  then show ?thesis
    by (rule ratchet_decrypt_ok [rotated]) (simp add: init_as_initiator_def)
qed

lemma trust_observe_cases:
  "trust_observe f t = (outcome, t') \<Longrightarrow>
     pt_pinned t' \<noteq> None \<and> (pt_pinned t = Some g \<longrightarrow> pt_pinned t' = Some g)
     \<and> ((\<forall>previous. outcome \<noteq> Changed previous) \<longrightarrow> pt_pinned t' = Some f)"
  by (auto simp: trust_observe_def split: option.splits if_splits)

text \<open>The two calls that take a ratchet: they change nothing but the pin, or take the ratchet and the role.\<close>

lemma e2ee_accept_cases:
  assumes "e2ee_accept p i s rng = (result, s', rng')"
  obtains (kept) trust where "s' = s\<lparr>es_trust := trust\<rparr>" "\<And>f. pt_pinned (es_trust s) = Some f \<Longrightarrow> pt_pinned trust = Some f"
  | (taken) b trust r where "es_state s = OfferReceived b" "verify_bundle_signature p b = Inr ()" "skipped_ok (rt_skipped r)"
      "pt_pinned trust = Some (of_signing_key p (pb_sik b))"
      "\<And>f. pt_pinned (es_trust s) = Some f \<Longrightarrow> pt_pinned trust = Some f"
      "s' = s\<lparr>es_trust := trust, es_role := Some Responder, es_state := AwaitingAck r\<rparr>"
proof (cases "\<exists>b. es_state s = OfferReceived b")
  case False
  then show thesis
    using assms kept [of "es_trust s"] by (auto simp: e2ee_accept_def split: session_state.splits)
next
  case True
  then obtain b where b: "es_state s = OfferReceived b" by blast
  show thesis
  proof (cases "accept_offer p i b rng")
    case (Pair outcome rng1)
    show thesis
    proof (cases outcome)
      case (Inl err)
      then show thesis
        using assms kept [of "es_trust s"] b Pair by (simp add: e2ee_accept_def)
    next
      case (Inr rr)
      obtain response r where rr: "rr = (response, r)" by force
      obtain o1 trust where obs: "trust_observe (of_signing_key p (pb_sik b)) (es_trust s) = (o1, trust)" by force
      have verified: "verify_bundle_signature p b = Inr ()"
        using Pair Inr by (auto simp: accept_offer_def split: sum.splits)
      have skip: "skipped_ok (rt_skipped r)"
        using Pair unfolding Inr rr by (rule accept_offer_skipped)
      have pin: "\<And>f. pt_pinned (es_trust s) = Some f \<Longrightarrow> pt_pinned trust = Some f"
        using trust_observe_cases [OF obs] by blast
      show thesis
      proof (cases "\<exists>previous. o1 = Changed previous")
        case True
        then show thesis
          using assms b Pair Inr rr obs by (intro kept [OF _ pin]) (auto simp: e2ee_accept_def Let_def)
      next
        case False
        then have "pt_pinned trust = Some (of_signing_key p (pb_sik b))"
          using trust_observe_cases [OF obs] by blast
        with False show thesis
          using assms b Pair Inr rr obs
          by (intro taken [OF b verified skip _ pin]) (auto simp: e2ee_accept_def Let_def split: pin_outcome.splits)
      qed
    qed
  qed
qed

lemma receive_accept_cases:
  assumes "receive_accept p i response s rng = (result, s', rng')"
  obtains (kept) trust where "s' = s\<lparr>es_trust := trust\<rparr>" "\<And>f. pt_pinned (es_trust s) = Some f \<Longrightarrow> pt_pinned trust = Some f"
  | (taken) trust r where
      "verify_signature p (hr_sik response) (hr_ik response @ hr_ek response) (hr_sig response) = Inr ()"
      "skipped_ok (rt_skipped r)" "pt_pinned trust = Some (of_signing_key p (hr_sik response))"
      "\<And>f. pt_pinned (es_trust s) = Some f \<Longrightarrow> pt_pinned trust = Some f"
      "s' = s\<lparr>es_trust := trust, es_role := Some Initiator, es_state := Established r\<rparr>"
proof (cases "\<exists>pending. es_state s = Offered pending")
  case False
  then show thesis
    using assms kept [of "es_trust s"] by (auto simp: receive_accept_def split: session_state.splits)
next
  case True
  then obtain pending where b: "es_state s = Offered pending" by blast
  show thesis
  proof (cases "complete_handshake p i pending response rng")
    case (Pair outcome rng1)
    show thesis
    proof (cases outcome)
      case (Inl err)
      then show thesis
        using assms kept [of "es_trust s"] b Pair by (simp add: receive_accept_def)
    next
      case (Inr r)
      obtain o1 trust where obs: "trust_observe (of_signing_key p (hr_sik response)) (es_trust s) = (o1, trust)" by force
      have verified: "verify_signature p (hr_sik response) (hr_ik response @ hr_ek response) (hr_sig response) = Inr ()"
        using Pair Inr by (auto simp: complete_handshake_def split: sum.splits)
      have skip: "skipped_ok (rt_skipped r)"
        using Pair unfolding Inr by (rule complete_handshake_skipped)
      have pin: "\<And>f. pt_pinned (es_trust s) = Some f \<Longrightarrow> pt_pinned trust = Some f"
        using trust_observe_cases [OF obs] by blast
      show thesis
      proof (cases "\<exists>previous. o1 = Changed previous")
        case True
        then show thesis
          using assms b Pair Inr obs by (intro kept [OF _ pin]) (auto simp: receive_accept_def Let_def)
      next
        case False
        then have "pt_pinned trust = Some (of_signing_key p (hr_sik response))"
          using trust_observe_cases [OF obs] by blast
        with False show thesis
          using assms b Pair Inr obs
          by (intro taken [OF verified skip _ pin]) (auto simp: receive_accept_def Let_def split: pin_outcome.splits)
      qed
    qed
  qed
qed

lemma e2ee_step_ok: "e2ee_ok sr \<Longrightarrow> e2ee_ok (e2ee_step p c sr)"
proof -
  assume ok: "e2ee_ok sr"
  obtain s rng where sr: "sr = (s, rng)" by force
  note defs = e2ee_step_def e2ee_ok_def held_ratchet_def Let_def
  show ?thesis
  proof (cases c)
    case (CallAccept i)
    obtain result s' rng' where acc: "e2ee_accept p i s rng = (result, s', rng')"
      by (metis surj_pair)
    then show ?thesis
      by (cases rule: e2ee_accept_cases) (use ok sr CallAccept acc in \<open>auto simp: defs split: session_state.splits\<close>)
  next
    case (CallReceiveAccept i response)
    obtain result s' rng' where acc: "receive_accept p i response s rng = (result, s', rng')"
      by (metis surj_pair)
    then show ?thesis
      by (cases rule: receive_accept_cases) (use ok sr CallReceiveAccept acc in \<open>auto simp: defs split: session_state.splits\<close>)
  next
    case (CallReceiveAck ct)
    then show ?thesis
      using ok sr by (auto simp: defs receive_ack_def split: session_state.splits prod.splits sum.splits dest: ratchet_decrypt_ok)
  next
    case (CallReceive ct)
    then show ?thesis
      using ok sr by (auto simp: defs e2ee_receive_def split: session_state.splits prod.splits dest: ratchet_decrypt_ok)
  next
    case (CallSend m)
    then show ?thesis
      using ok sr by (auto simp: defs e2ee_send_def split: session_state.splits prod.splits) (metis ratchet_encrypt_skipped snd_conv)
  next
    case CallMakeAck
    then show ?thesis
      using ok sr by (auto simp: defs make_ack_def e2ee_send_def split: session_state.splits prod.splits) (metis ratchet_encrypt_skipped snd_conv)
  qed (use ok sr in \<open>auto simp: defs e2ee_start_def receive_offer_def e2ee_reject_def receive_reject_def e2ee_close_def
      receive_close_def mark_peer_verified_def set_verified_def confirm_fingerprint_change_def trust_repin_def
      split: session_state.splits prod.splits sum.splits\<close>)
qed

interpretation e2ee: stepped_component "e2ee_step p" e2ee_ok for p
  by unfold_locales (rule e2ee_step_ok)

lemma e2ee_new_ok: "e2ee_ok (e2ee_new, rng)"
  by (simp add: e2ee_ok_def held_ratchet_def e2ee_new_def)

lemma length_skipped: "skipped_ok sk \<Longrightarrow> length (sk_by_id sk) \<le> MAX_SKIPPED_KEYS"
proof -
  assume ok: "skipped_ok sk"
  then have "length (sk_by_id sk) = card (fst ` set (sk_by_id sk))"
    using distinct_card [OF bt_wf_distinct, of "sk_by_id sk"] by (simp add: skipped_ok_def)
  also have "\<dots> = length (sk_order sk)"
    using ok distinct_card [of "sk_order sk"] by (simp add: skipped_ok_def)
  finally show ?thesis
    using ok by (simp add: skipped_ok_def)
qed

text \<open>
  Whose ratchet a conversation holds: the signer of the offer or of the answer the ratchet was taken
  from, or the fingerprint the caller has since confirmed in its place.
\<close>

definition peer_after ::
  "'r primitives \<Rightarrow> e2ee_call \<Rightarrow> e2ee_session \<Rightarrow> e2ee_session \<Rightarrow> fingerprint option \<Rightarrow> fingerprint option" where
  "peer_after p c s s' peer =
     (case c of
        CallAccept _ \<Rightarrow>
          (case (es_state s, es_state s') of
             (OfferReceived b, AwaitingAck _) \<Rightarrow> Some (of_signing_key p (pb_sik b)) | _ \<Rightarrow> peer)
      | CallReceiveAccept _ response \<Rightarrow>
          (case (es_state s, es_state s') of
             (Offered _, Established _) \<Rightarrow> Some (of_signing_key p (hr_sik response)) | _ \<Rightarrow> peer)
      | CallConfirmChange f \<Rightarrow> Some f
      | _ \<Rightarrow> peer)"

fun peer_run :: "'r primitives \<Rightarrow> e2ee_call list \<Rightarrow> e2ee_session \<times> 'r \<Rightarrow> fingerprint option \<Rightarrow> fingerprint option" where
  "peer_run p [] sr peer = peer"
| "peer_run p (c # cs) sr peer =
     peer_run p cs (e2ee_step p c sr) (peer_after p c (fst sr) (fst (e2ee_step p c sr)) peer)"

text \<open>A held ratchet is the one of the peer whose fingerprint is pinned.\<close>

definition pinned_peer :: "e2ee_session \<Rightarrow> fingerprint option \<Rightarrow> bool" where
  "pinned_peer s peer \<longleftrightarrow> (case held_ratchet s of None \<Rightarrow> True | Some _ \<Rightarrow> pt_pinned (es_trust s) = peer)"

lemma pinned_peer_step:
  assumes "e2ee_ok (s, rng)" "pinned_peer s peer"
  shows "pinned_peer (fst (e2ee_step p c (s, rng))) (peer_after p c s (fst (e2ee_step p c (s, rng))) peer)"
proof -
  note defs = e2ee_step_def e2ee_ok_def pinned_peer_def held_ratchet_def peer_after_def Let_def
  show ?thesis
  proof (cases c)
    case (CallAccept i)
    obtain result s' rng' where acc: "e2ee_accept p i s rng = (result, s', rng')"
      by (metis surj_pair)
    then show ?thesis
      by (cases rule: e2ee_accept_cases) (use assms CallAccept acc in \<open>auto simp: defs split: session_state.splits\<close>)
  next
    case (CallReceiveAccept i response)
    obtain result s' rng' where acc: "receive_accept p i response s rng = (result, s', rng')"
      by (metis surj_pair)
    show ?thesis
    proof (cases "\<exists>pending. es_state s = Offered pending")
      case True
      with acc show ?thesis
        by (cases rule: receive_accept_cases) (use assms CallReceiveAccept acc True in \<open>auto simp: defs split: session_state.splits\<close>)
    next
      case False
      then have "s' = s"
        using acc by (auto simp: receive_accept_def split: session_state.splits)
      then show ?thesis
        using assms CallReceiveAccept acc False by (auto simp: defs split: session_state.splits)
    qed
  qed (use assms in \<open>auto simp: defs e2ee_start_def receive_offer_def e2ee_reject_def receive_reject_def e2ee_close_def
      receive_close_def mark_peer_verified_def set_verified_def confirm_fingerprint_change_def trust_repin_def make_ack_def
      e2ee_send_def e2ee_receive_def receive_ack_def split: session_state.splits prod.splits sum.splits\<close>)
qed

lemma pinned_peer_run:
  "e2ee_ok sr \<Longrightarrow> pinned_peer (fst sr) peer \<Longrightarrow> pinned_peer (fst (fold (e2ee_step p) calls sr)) (peer_run p calls sr peer)"
proof (induction calls arbitrary: sr peer)
  case (Cons c calls)
  then show ?case
    using pinned_peer_step [of "fst sr" "snd sr" peer p c] e2ee_step_ok [of sr p c] by simp
qed simp

text \<open>C27: whatever is called, in whatever order, the pinned fingerprint of a conversation that holds a
  ratchet is that of the peer whose signed offer or answer the ratchet was taken from, or one that the
  caller has since confirmed in its place; and it never holds more than \<open>MAX_SKIPPED_KEYS\<close> keys of
  messages that did not arrive.\<close>

theorem e2ee_held_ratchet:
  assumes "held_ratchet (fst (fold (e2ee_step p) calls (e2ee_new, rng))) = Some r"
  shows "length (sk_by_id (rt_skipped r)) \<le> MAX_SKIPPED_KEYS
     \<and> (\<exists>peer. peer_run p calls (e2ee_new, rng) None = Some peer
          \<and> pt_pinned (es_trust (fst (fold (e2ee_step p) calls (e2ee_new, rng)))) = Some peer)"
proof -
  have "pinned_peer (fst (e2ee_new, rng)) None"
    by (simp add: pinned_peer_def held_ratchet_def e2ee_new_def)
  from pinned_peer_run [OF e2ee_new_ok this, of p calls] show ?thesis
    using e2ee.run_invar [OF e2ee_new_ok, of p calls rng] assms by (auto simp: e2ee_ok_def pinned_peer_def length_skipped)
qed

text \<open>What a call must have been when it establishes the session.\<close>

definition establishes :: "'r primitives \<Rightarrow> e2ee_call \<Rightarrow> e2ee_session \<Rightarrow> 'r \<Rightarrow> e2ee_session \<Rightarrow> bool" where
  "establishes p c s rng s' =
     (case c of
        CallReceiveAccept i response \<Rightarrow>
          verify_signature p (hr_sik response) (hr_ik response @ hr_ek response) (hr_sig response) = Inr ()
          \<and> pt_pinned (es_trust s') = Some (of_signing_key p (hr_sik response))
      | CallReceiveAck ct \<Rightarrow>
          (case es_state s of AwaitingAck r \<Rightarrow> (case fst (ratchet_decrypt p ct r rng) of Inr _ \<Rightarrow> True | _ \<Rightarrow> False) | _ \<Rightarrow> False)
      | _ \<Rightarrow> False)"

text \<open>C25: a session becomes established in two ways only: by an answer whose signature verified, with
  the signer's fingerprint now pinned, or, on the side that answered, by an \<open>ack\<close> that the held ratchet
  decrypted. Accepting an offer is not one of them.\<close>

theorem e2ee_established_by:
  assumes "\<not> is_established s" "is_established (fst (e2ee_step p c (s, rng)))"
  shows "establishes p c s rng (fst (e2ee_step p c (s, rng)))"
proof (cases c)
  case (CallAccept i)
  obtain result s' rng' where acc: "e2ee_accept p i s rng = (result, s', rng')"
    by (metis surj_pair)
  then show ?thesis
    by (cases rule: e2ee_accept_cases) (use assms CallAccept acc in \<open>auto simp: e2ee_step_def is_established_def\<close>)
next
  case (CallReceiveAccept i response)
  obtain result s' rng' where acc: "receive_accept p i response s rng = (result, s', rng')"
    by (metis surj_pair)
  then show ?thesis
    by (cases rule: receive_accept_cases)
      (use assms CallReceiveAccept acc in \<open>auto simp: e2ee_step_def is_established_def establishes_def\<close>)
qed (use assms in \<open>auto simp: e2ee_step_def is_established_def establishes_def e2ee_start_def receive_offer_def e2ee_reject_def
    receive_reject_def e2ee_close_def receive_close_def mark_peer_verified_def confirm_fingerprint_change_def make_ack_def
    e2ee_send_def e2ee_receive_def receive_ack_def split: session_state.splits prod.splits sum.splits\<close>)

definition confirms :: "e2ee_call \<Rightarrow> bool" where
  "confirms c = (case c of CallConfirmChange _ \<Rightarrow> True | _ \<Rightarrow> False)"

lemma e2ee_step_pin:
  assumes "pt_pinned (es_trust (fst sr)) = Some f" "\<not> confirms c"
  shows "pt_pinned (es_trust (fst (e2ee_step p c sr))) = Some f"
proof -
  obtain s rng where sr: "sr = (s, rng)" by force
  show ?thesis
  proof (cases c)
    case (CallAccept i)
    obtain result s' rng' where acc: "e2ee_accept p i s rng = (result, s', rng')"
      by (metis surj_pair)
    then show ?thesis
      by (cases rule: e2ee_accept_cases) (use assms sr CallAccept acc in \<open>auto simp: e2ee_step_def\<close>)
  next
    case (CallReceiveAccept i response)
    obtain result s' rng' where acc: "receive_accept p i response s rng = (result, s', rng')"
      by (metis surj_pair)
    then show ?thesis
      by (cases rule: receive_accept_cases) (use assms sr CallReceiveAccept acc in \<open>auto simp: e2ee_step_def\<close>)
  qed (use assms sr in \<open>auto simp: e2ee_step_def confirms_def e2ee_start_def receive_offer_def e2ee_reject_def
      receive_reject_def e2ee_close_def receive_close_def mark_peer_verified_def set_verified_def make_ack_def
      e2ee_send_def e2ee_receive_def receive_ack_def split: session_state.splits prod.splits sum.splits\<close>)
qed

text \<open>C26: trust on first use: once a fingerprint is pinned, no sequence of calls moves the pin, except
  the call by which the caller confirms a change.\<close>

theorem e2ee_pin_stays:
  assumes "pt_pinned (es_trust s) = Some f" "\<forall>c\<in>set calls. \<not> confirms c"
  shows "pt_pinned (es_trust (fst (fold (e2ee_step p) calls (s, rng)))) = Some f"
  using assms(2)
  by (intro fold_keeps [where P = "\<lambda>sr. pt_pinned (es_trust (fst sr)) = Some f"] e2ee_step_pin)
    (simp_all add: assms(1))

section \<open>Fragments\<close>

definition cut_frame :: "string \<Rightarrow> string list \<Rightarrow> nat \<Rightarrow> frag" where
  "cut_frame ident pieces i = \<lparr>fr_id = ident, fr_i = i, fr_n = length pieces, fr_ct = pieces ! i\<rparr>"

lemma fill_slots_frames:
  "\<lbrakk>distinct is; set is \<subseteq> {..<length pieces}; length slots = length pieces;
    \<forall>i\<in>set is. slots ! i = None\<rbrakk> \<Longrightarrow>
   \<exists>slots'. fill_slots ident (length pieces) (map (cut_frame ident pieces) is) slots = Inr slots'
     \<and> length slots' = length pieces
     \<and> (\<forall>i<length pieces. slots' ! i = (if i \<in> set is then Some (pieces ! i) else slots ! i))"
proof (induction "is" arbitrary: slots)
  case (Cons i "is")
  define slots1 where "slots1 = slots[i := Some (pieces ! i)]"
  have "distinct is" "set is \<subseteq> {..<length pieces}" "length slots1 = length pieces" "\<forall>j\<in>set is. slots1 ! j = None"
    using Cons.prems by (auto simp: slots1_def nth_list_update)
  from Cons.IH [OF this] Cons.prems show ?case
    by (auto simp: cut_frame_def nth_opt_def slots1_def nth_list_update)
qed simp

lemma join_slots_full: "join_slots (map Some pieces) = Inr (concat pieces)"
  by (induction pieces) auto

text \<open>The fragments of a frame, arriving in any order, give the frame back.\<close>

theorem reassemble_any_order:
  assumes "distinct is" "set is = {..<length pieces}" "pieces \<noteq> []" "length pieces \<le> u32_max"
  shows "reassemble (map (cut_frame ident pieces) is) = Inr (concat pieces)"
proof -
  have len: "length is = length pieces"
    using assms(1,2) distinct_card [of "is"] by simp
  obtain slots where slots: "fill_slots ident (length pieces) (map (cut_frame ident pieces) is)
      (replicate (length pieces) None) = Inr slots" "length slots = length pieces"
    "\<forall>i<length pieces. slots ! i = Some (pieces ! i)"
    using fill_slots_frames [of "is" pieces "replicate (length pieces) None" ident] assms(1,2) by auto
  then have "slots = map Some pieces"
    by (intro nth_equalityI) auto
  moreover obtain i is' where "is = i # is'"
    using len assms(3) by (cases "is") auto
  ultimately show ?thesis
    using slots(1) len assms(4) by (simp add: reassemble_def cut_frame_def join_slots_full)
qed

section \<open>Calls on the sample primitives\<close>

lemma sample_keys:
  "\<exists>(pending :: pending_offer) response y ack t. accept_offer sample_primitives (sample_identity 7) (po_bundle pending) 90 = (Inr (response, y), 91)
     \<and> fst (ratchet_decrypt sample_primitives ack y 91) = Inr t"
proof -
  obtain pending :: pending_offer and ra2 response y rb1 x ra3 where
    keys: "accept_offer sample_primitives (sample_identity 7) (po_bundle pending) 90 = (Inr (response, y), rb1)"
    "in_step sample_primitives x y ra3 rb1" "rt_n_send x = 0"
    using handshake_keys [OF sample_laws sample_identity_ok sample_identity_ok sample_spaced sample_spaced, of 1 20 7 90]
    by (elim exE conjE) (rule that, assumption+)
  have rb1: "rb1 = 91"
    using keys(1) by (auto simp: accept_offer_def generate_x25519_keypair_def sample_primitives_def Let_def split: sum.splits)
  have "sendable []" "rt_n_send x < u32_max"
    using keys(3) by (simp_all add: sendable_def u32_max_def)
  then obtain ack y' ry' where "ratchet_decrypt sample_primitives ack y rb1 = (Inr [], y', ry')"
    using exchange [OF sample_laws keys(2)] by blast
  with keys(1) rb1 show ?thesis by (metis fst_conv)
qed

lemma sample_accepted:
  "accept_offer p i b rng = (Inr (response, y), rng') \<Longrightarrow>
     fst (fold (e2ee_step p) [CallReceiveOffer b, CallAccept i] (e2ee_new, rng)) =
       e2ee_new\<lparr>es_state := AwaitingAck y, es_trust := \<lparr>pt_pinned = Some (of_signing_key p (pb_sik b)), pt_verified = False\<rparr>,
                es_role := Some Responder\<rparr>"
  by (simp add: e2ee_step_def receive_offer_def e2ee_accept_def e2ee_new_def peer_trust_new_def trust_observe_def)

theorem e2ee_held_ratchet_witness:
  "\<exists>calls rng r. held_ratchet (fst (fold (e2ee_step sample_primitives) calls (e2ee_new, rng))) = Some r
     \<and> length (sk_by_id (rt_skipped r)) \<le> MAX_SKIPPED_KEYS"
proof -
  obtain pending :: pending_offer and response y where y: "accept_offer sample_primitives (sample_identity 7) (po_bundle pending) 90 = (Inr (response, y), 91)"
    using sample_keys by (elim exE conjE) (rule that, assumption)
  have "held_ratchet (fst (fold (e2ee_step sample_primitives) [CallReceiveOffer (po_bundle pending), CallAccept (sample_identity 7)]
      (e2ee_new, 90))) = Some y"
    by (simp only: sample_accepted [OF y]) (simp add: held_ratchet_def)
  from this e2ee_held_ratchet [OF this] show ?thesis by blast
qed

theorem e2ee_established_by_witness:
  "\<exists>s rng ct. \<not> is_established s \<and> is_established (fst (e2ee_step sample_primitives (CallReceiveAck ct) (s, rng)))
     \<and> establishes sample_primitives (CallReceiveAck ct) s rng (fst (e2ee_step sample_primitives (CallReceiveAck ct) (s, rng)))"
proof -
  obtain y ack t where t: "fst (ratchet_decrypt sample_primitives ack y 91) = Inr t"
    using sample_keys by (elim exE conjE) (rule that, assumption)
  define s where "s = e2ee_new\<lparr>es_state := AwaitingAck y\<rparr>"
  have before: "\<not> is_established s"
    by (simp add: s_def is_established_def)
  have after: "is_established (fst (e2ee_step sample_primitives (CallReceiveAck ack) (s, 91)))"
    using t by (auto simp: s_def is_established_def e2ee_step_def receive_ack_def split: prod.split sum.split)
  from e2ee_established_by [OF before after] before after show ?thesis by blast
qed

theorem e2ee_pin_stays_witness:
  "pt_pinned (es_trust (fst (fold (e2ee_step sample_primitives)
     [CallStart (sample_identity 3), CallReceiveOffer \<lparr>pb_ik = ''i'', pb_sik = ''k'', pb_spk = ''s'', pb_sig = [], pb_opk = ''o''\<rparr>,
      CallAccept (sample_identity 3), CallMarkVerified, CallClose]
     (e2ee_new\<lparr>es_trust := \<lparr>pt_pinned = Some ''known'', pt_verified = False\<rparr>\<rparr>, 0)))) = Some ''known''"
  by (rule e2ee_pin_stays) (simp_all add: confirms_def)

theorem reassemble_any_order_witness:
  "reassemble (map (cut_frame ''id'' [''one'', ''two'', ''three'']) [2, 0, 1]) = Inr ''onetwothree''"
proof -
  have "set [2, 0, 1] = {..<length [''one'', ''two'', ''three'']}"
    by auto
  with reassemble_any_order [OF _ this, of "''id''"] show ?thesis
    by (simp add: u32_max_def)
qed

end
