(* ===== verification/Ffi.thy ===== *)
theory Ffi
  imports Client_Run "HOL-Library.Monad_Syntax"
begin

text \<open>
  The C interface (\<open>bindings/obby-ffi/src/lib.rs\<close>). What C sees is memory, so the state is a memory:
  blocks the library allocated, by address, with \<open>0\<close> the null pointer. A function takes the memory and
  returns its result with the memory after it, or \<open>None\<close> where the Rust code would have undefined
  behaviour: a pointer that is neither null nor a live block of the kind the function takes. A block that
  is freed is gone, and no address is handed out twice.

  What the caller owns is passed by content: a C string is null (\<open>None\<close>) or the readable bytes at the
  pointer, up to and past its terminator; a pointer to write to is only null or not, and the value
  written is part of the result. A string borrowed from an event is returned as its bytes.

  \<open>serde_json\<close> and the derived (de)serialisers are the record \<open>serde\<close>, a parameter.
\<close>

section \<open>The serialisers\<close>

record serde =
  de_config :: "string \<Rightarrow> string + config"
  de_credentials :: "string \<Rightarrow> string + credentials"
  de_command :: "string \<Rightarrow> string + command"
  de_signal :: "string \<Rightarrow> string + signal"
  ser_event :: "event \<Rightarrow> string + string"
  ser_events :: "event list \<Rightarrow> string + string"
  ser_model :: "model \<Rightarrow> string + string"

section \<open>What an event looks like to C\<close>

datatype obby_event_kind =
    Kind_Unknown
  | Kind_CapabilitiesAcknowledged
  | Kind_Registered
  | Kind_IsupportToken
  | Kind_LoggedIn
  | Kind_SaslFailed
  | Kind_NickInUse
  | Kind_ModelChanged
  | Kind_LinkDead
  | Kind_ReconnectAfter
  | Kind_ReconnectAbandoned
  | Kind_CommandTimedOut
  | Kind_AllowedCommandsChanged
  | Kind_Voice
  | Kind_TypingChanged
  | Kind_PresenceChanged
  | Kind_ServerReply
  | Kind_RawLine
  | Kind_BotsChanged
  | Kind_AuthToken

datatype obby_event_field =
    Field_Nick
  | Field_Account
  | Field_Token
  | Field_Value
  | Field_Refused
  | Field_Trying
  | Field_Reason
  | Field_Command
  | Field_Target
  | Field_Channel
  | Field_Code
  | Field_Text
  | Field_Severity
  | Field_Names
  | Field_AfterMs
  | Field_Active
  | Field_Online
  | Field_Service
  | Field_Endpoint
  | Field_BearerToken

record obby_event =
  oe_kind :: obby_event_kind
  oe_text :: "(obby_event_field \<times> string) list"
  oe_numbers :: "(obby_event_field \<times> nat) list"
  oe_json :: string

abbreviation nul :: char where "nul \<equiv> CHR 0x00"

text \<open>\<open>CString::new\<close>, which refuses a string that holds its own terminator.\<close>

definition cstring_new :: "string \<Rightarrow> string option" where
  "cstring_new s = (if nul \<in> set s then None else Some s)"

definition oe_put_text :: "obby_event_field \<Rightarrow> string \<Rightarrow> obby_event \<Rightarrow> obby_event" where
  "oe_put_text field v out =
     (case cstring_new v of Some v \<Rightarrow> out\<lparr>oe_text := oe_text out @ [(field, v)]\<rparr> | None \<Rightarrow> out)"

definition oe_put_number :: "obby_event_field \<Rightarrow> nat \<Rightarrow> obby_event \<Rightarrow> obby_event" where
  "oe_put_number field v out = out\<lparr>oe_numbers := oe_numbers out @ [(field, v)]\<rparr>"

text \<open>The derived \<open>Debug\<close> names.\<close>

definition severity_debug :: "severity \<Rightarrow> string" where
  "severity_debug s = (case s of Fail \<Rightarrow> ''Fail'' | Warn \<Rightarrow> ''Warn'' | Note \<Rightarrow> ''Note'')"

definition sasl_failure_debug :: "sasl_failure \<Rightarrow> string" where
  "sasl_failure_debug r =
     (case r of Rejected \<Rightarrow> ''Rejected'' | TooLong \<Rightarrow> ''TooLong'' | Aborted \<Rightarrow> ''Aborted''
      | AlreadyAuthenticated \<Rightarrow> ''AlreadyAuthenticated'' | NoSharedMechanism \<Rightarrow> ''NoSharedMechanism''
      | ServerNotVerified \<Rightarrow> ''ServerNotVerified'')"

definition server_reply_out :: "severity \<Rightarrow> string \<Rightarrow> string \<Rightarrow> string \<Rightarrow> obby_event \<Rightarrow> obby_event" where
  "server_reply_out severity command code body out =
     (let out = out\<lparr>oe_kind := Kind_ServerReply\<rparr>;
          out = oe_put_text Field_Severity (to_ascii_lowercase (severity_debug severity)) out;
          out = oe_put_text Field_Command command out;
          out = oe_put_text Field_Code code out
      in oe_put_text Field_Text body out)"

definition event_flatten :: "event \<Rightarrow> obby_event \<Rightarrow> obby_event" where
  "event_flatten ev out =
     (case ev of
        CapabilitiesAcknowledged names \<Rightarrow>
          oe_put_text Field_Names (join_with '' '' names) (out\<lparr>oe_kind := Kind_CapabilitiesAcknowledged\<rparr>)
      | Event_Registered nick \<Rightarrow> oe_put_text Field_Nick nick (out\<lparr>oe_kind := Kind_Registered\<rparr>)
      | IsupportToken token v \<Rightarrow>
          (let out = oe_put_text Field_Token token (out\<lparr>oe_kind := Kind_IsupportToken\<rparr>)
           in case v of Some v \<Rightarrow> oe_put_text Field_Value v out | None \<Rightarrow> out)
      | LoggedIn account \<Rightarrow> oe_put_text Field_Account account (out\<lparr>oe_kind := Kind_LoggedIn\<rparr>)
      | SaslFailed reason \<Rightarrow> oe_put_text Field_Reason (sasl_failure_debug reason) (out\<lparr>oe_kind := Kind_SaslFailed\<rparr>)
      | NickInUse refused trying \<Rightarrow>
          oe_put_text Field_Trying trying (oe_put_text Field_Refused refused (out\<lparr>oe_kind := Kind_NickInUse\<rparr>))
      | ModelChanged _ \<Rightarrow> out\<lparr>oe_kind := Kind_ModelChanged\<rparr>
      | LinkDead \<Rightarrow> out\<lparr>oe_kind := Kind_LinkDead\<rparr>
      | ReconnectAfter after_ms \<Rightarrow> oe_put_number Field_AfterMs after_ms (out\<lparr>oe_kind := Kind_ReconnectAfter\<rparr>)
      | ReconnectAbandoned \<Rightarrow> out\<lparr>oe_kind := Kind_ReconnectAbandoned\<rparr>
      | CommandTimedOut command \<Rightarrow> oe_put_text Field_Command command (out\<lparr>oe_kind := Kind_CommandTimedOut\<rparr>)
      | AllowedCommandsChanged \<Rightarrow> out\<lparr>oe_kind := Kind_AllowedCommandsChanged\<rparr>
      | VoiceFrame channel _ \<Rightarrow> oe_put_text Field_Channel channel (out\<lparr>oe_kind := Kind_Voice\<rparr>)
      | TypingChanged target nick active \<Rightarrow>
          (let out = oe_put_text Field_Target target (out\<lparr>oe_kind := Kind_TypingChanged\<rparr>)
           in oe_put_number Field_Active (of_bool active) (oe_put_text Field_Nick nick out))
      | PresenceChanged nick online \<Rightarrow>
          oe_put_number Field_Online (of_bool online) (oe_put_text Field_Nick nick (out\<lparr>oe_kind := Kind_PresenceChanged\<rparr>))
      | ServerReply severity command code _ body \<Rightarrow> server_reply_out severity command code body out
      | BotsChanged nick \<Rightarrow> oe_put_text Field_Nick nick (out\<lparr>oe_kind := Kind_BotsChanged\<rparr>)
      | AuthToken service endpoint token \<Rightarrow>
          (let out = oe_put_text Field_Service service (out\<lparr>oe_kind := Kind_AuthToken\<rparr>);
               out = oe_put_text Field_Endpoint endpoint out
           in oe_put_text Field_BearerToken token out)
      | RawLine _ \<Rightarrow> out\<lparr>oe_kind := Kind_RawLine\<rparr>)"

definition event_out :: "serde \<Rightarrow> event \<Rightarrow> obby_event" where
  "event_out sd ev =
     (let json = (case ser_event sd ev of Inr json \<Rightarrow> json | Inl _ \<Rightarrow> []);
          json = (case cstring_new json of Some json \<Rightarrow> json | None \<Rightarrow> [])
      in event_flatten ev \<lparr>oe_kind = Kind_Unknown, oe_text = [], oe_numbers = [], oe_json = json\<rparr>)"

section \<open>Memory\<close>

type_synonym addr = nat

datatype block =
    Handle client
  | Byte_Block string
  | String_Block string
  | Static_Block string
  | Event_Block obby_event

record memory =
  mem_blocks :: "addr \<Rightarrow> block option"
  mem_next :: addr
  mem_version :: "addr option"

definition memory_new :: memory where
  "memory_new = \<lparr>mem_blocks = Map.empty, mem_next = 1, mem_version = None\<rparr>"

definition mem_alloc :: "block \<Rightarrow> memory \<Rightarrow> addr \<times> memory" where
  "mem_alloc b m =
     (mem_next m, m\<lparr>mem_blocks := (mem_blocks m)(mem_next m \<mapsto> b), mem_next := Suc (mem_next m)\<rparr>)"

definition mem_release :: "addr \<Rightarrow> memory \<Rightarrow> memory" where
  "mem_release p m = m\<lparr>mem_blocks := (mem_blocks m)(p := None)\<rparr>"

definition mem_store :: "addr \<Rightarrow> block \<Rightarrow> memory \<Rightarrow> memory" where
  "mem_store p b m = m\<lparr>mem_blocks := (mem_blocks m)(p \<mapsto> b)\<rparr>"

record obby_bytes =
  ob_ptr :: addr
  ob_len :: nat

definition obby_bytes_empty :: obby_bytes where
  "obby_bytes_empty = \<lparr>ob_ptr = 0, ob_len = 0\<rparr>"

text \<open>A handle: null reads as absent, anything but a live handle is undefined.\<close>

definition as_client :: "addr \<Rightarrow> memory \<Rightarrow> client option option" where
  "as_client p m =
     (if p = 0 then Some None
      else case mem_blocks m p of Some (Handle c) \<Rightarrow> Some (Some c) | _ \<Rightarrow> None)"

definition with_client :: "addr \<Rightarrow> 'a \<Rightarrow> (client \<Rightarrow> 'a \<times> client) \<Rightarrow> memory \<Rightarrow> ('a \<times> memory) option" where
  "with_client p absent f m =
     (case as_client p m of
        None \<Rightarrow> None
      | Some None \<Rightarrow> Some (absent, m)
      | Some (Some c) \<Rightarrow> (case f c of (r, c) \<Rightarrow> Some (r, mem_store p (Handle c) m)))"

text \<open>A C string of the caller: null, or the bytes readable at the pointer.\<close>

type_synonym c_str = "string option"

definition str_from_ptr :: "c_str \<Rightarrow> string option" where
  "str_from_ptr ptr =
     (case ptr of
        None \<Rightarrow> None
      | Some bytes \<Rightarrow>
          (let s = takeWhile (\<lambda>c. c \<noteq> nul) bytes in if valid_utf8 s then Some s else None))"

definition bytes_out :: "string \<Rightarrow> memory \<Rightarrow> obby_bytes \<times> memory" where
  "bytes_out data m =
     (if data = [] then (obby_bytes_empty, m)
      else case mem_alloc (Byte_Block data) m of (p, m) \<Rightarrow> (\<lparr>ob_ptr = p, ob_len = length data\<rparr>, m))"

definition string_out :: "string \<Rightarrow> memory \<Rightarrow> addr \<times> memory" where
  "string_out s m = (case cstring_new s of Some s \<Rightarrow> mem_alloc (String_Block s) m | None \<Rightarrow> (0, m))"

section \<open>The life of a handle\<close>

definition obby_client_new_from_json :: "serde \<Rightarrow> c_str \<Rightarrow> memory \<Rightarrow> addr \<times> memory" where
  "obby_client_new_from_json sd config_json m =
     (case str_from_ptr config_json of
        None \<Rightarrow> (0, m)
      | Some json \<Rightarrow>
          (case de_config sd json of
             Inl _ \<Rightarrow> (0, m)
           | Inr config \<Rightarrow> mem_alloc (Handle (client_new config)) m))"

text \<open>The settings of a C caller.\<close>

record obby_config =
  oc_nick :: c_str
  oc_username :: c_str
  oc_realname :: c_str
  oc_password :: c_str
  oc_retention :: nat

definition obby_client_new :: "obby_config option \<Rightarrow> memory \<Rightarrow> addr \<times> memory" where
  "obby_client_new config m =
     (case config of
        None \<Rightarrow> (0, m)
      | Some config \<Rightarrow>
          (case str_from_ptr (oc_nick config) of
             None \<Rightarrow> (0, m)
           | Some nick \<Rightarrow>
               (let settings = config_new nick;
                    settings = (case str_from_ptr (oc_username config) of
                                  Some username \<Rightarrow> settings\<lparr>cfg_username := username\<rparr> | None \<Rightarrow> settings);
                    settings = (case str_from_ptr (oc_realname config) of
                                  Some realname \<Rightarrow> settings\<lparr>cfg_realname := realname\<rparr> | None \<Rightarrow> settings);
                    settings = settings\<lparr>cfg_password := str_from_ptr (oc_password config)\<rparr>;
                    settings = (if oc_retention config > 0 then settings\<lparr>cfg_retention := oc_retention config\<rparr>
                                else settings)
                in mem_alloc (Handle (client_new settings)) m)))"

definition obby_client_free :: "addr \<Rightarrow> memory \<Rightarrow> memory option" where
  "obby_client_free p m =
     (if p = 0 then Some m
      else case mem_blocks m p of Some (Handle _) \<Rightarrow> Some (mem_release p m) | _ \<Rightarrow> None)"

section \<open>Driving the engine\<close>

definition obby_client_handle_connected :: "addr \<Rightarrow> memory \<Rightarrow> memory option" where
  "obby_client_handle_connected p m = map_option snd (with_client p () (\<lambda>c. ((), handle_connected c)) m)"

definition obby_client_handle_disconnected :: "addr \<Rightarrow> memory \<Rightarrow> memory option" where
  "obby_client_handle_disconnected p m = map_option snd (with_client p () (\<lambda>c. ((), handle_disconnected c)) m)"

text \<open>\<open>data\<close> is null or what is readable at the pointer; reading past it is undefined.\<close>

definition obby_client_handle_bytes :: "externals \<Rightarrow> addr \<Rightarrow> string option \<Rightarrow> nat \<Rightarrow> memory \<Rightarrow> memory option" where
  "obby_client_handle_bytes e p data len m =
     (case as_client p m of
        None \<Rightarrow> None
      | Some None \<Rightarrow> Some m
      | Some (Some c) \<Rightarrow>
          (if len = 0 then Some (mem_store p (Handle (handle_bytes e [] c)) m)
           else case data of
               None \<Rightarrow> Some m
             | Some bytes \<Rightarrow>
                 (if len > length bytes then None
                  else Some (mem_store p (Handle (handle_bytes e (take len bytes) c)) m))))"

definition obby_client_poll_transmit :: "addr \<Rightarrow> memory \<Rightarrow> (obby_bytes \<times> memory) option" where
  "obby_client_poll_transmit p m =
     (case with_client p None poll_transmit m of
        None \<Rightarrow> None
      | Some (None, m) \<Rightarrow> Some (obby_bytes_empty, m)
      | Some (Some data, m) \<Rightarrow> Some (bytes_out data m))"

text \<open>Freeing takes a live buffer of exactly the length it was handed out with.\<close>

definition obby_client_free_bytes :: "obby_bytes \<Rightarrow> memory \<Rightarrow> memory option" where
  "obby_client_free_bytes b m =
     (if ob_ptr b = 0 then Some m
      else case mem_blocks m (ob_ptr b) of
          Some (Byte_Block data) \<Rightarrow> (if ob_len b = length data then Some (mem_release (ob_ptr b) m) else None)
        | _ \<Rightarrow> None)"

function ffi_drain_loop :: "client \<Rightarrow> event list \<Rightarrow> event list \<times> client" where
  "ffi_drain_loop c events =
     (case poll_event c of (Some ev, c) \<Rightarrow> ffi_drain_loop c (events @ [ev]) | (None, c) \<Rightarrow> (events, c))"
  by pat_completeness auto
termination ffi_drain_loop
  by (relation "measure (\<lambda>(c, _). length (cl_events c))") (auto simp: poll_event_def split: list.splits)

declare ffi_drain_loop.simps [simp del]

definition obby_client_poll_events_json :: "serde \<Rightarrow> addr \<Rightarrow> memory \<Rightarrow> (addr \<times> memory) option" where
  "obby_client_poll_events_json sd p m =
     (case as_client p m of
        None \<Rightarrow> None
      | Some None \<Rightarrow> Some (0, m)
      | Some (Some c) \<Rightarrow>
          (let (events, c) = ffi_drain_loop c [];
               m = mem_store p (Handle c) m
           in case ser_events sd events of Inr json \<Rightarrow> Some (string_out json m) | Inl _ \<Rightarrow> Some (0, m)))"

definition obby_client_free_string :: "addr \<Rightarrow> memory \<Rightarrow> memory option" where
  "obby_client_free_string p m =
     (if p = 0 then Some m
      else case mem_blocks m p of Some (String_Block _) \<Rightarrow> Some (mem_release p m) | _ \<Rightarrow> None)"

definition obby_client_tick :: "addr \<Rightarrow> nat \<Rightarrow> nat \<Rightarrow> memory \<Rightarrow> memory option" where
  "obby_client_tick p monotonic_ms unix_ms m =
     map_option snd (with_client p ()
       (\<lambda>c. ((), tick \<lparr>now_monotonic_ms = monotonic_ms, now_unix_ms = unix_ms\<rparr> c)) m)"

text \<open>The result, and what is written to \<open>out_ms\<close>.\<close>

definition obby_client_poll_timeout :: "addr \<Rightarrow> bool \<Rightarrow> memory \<Rightarrow> (bool \<times> nat option) option" where
  "obby_client_poll_timeout p has_out m =
     (case as_client p m of
        None \<Rightarrow> None
      | Some client \<Rightarrow>
          (let timeout = Option.bind client poll_timeout
           in Some (timeout \<noteq> None,
                    if has_out then Some (case timeout of Some t \<Rightarrow> t | None \<Rightarrow> 0) else None)))"

definition obby_client_command_from_json :: "serde \<Rightarrow> externals \<Rightarrow> addr \<Rightarrow> c_str \<Rightarrow> memory \<Rightarrow> (bool \<times> memory) option" where
  "obby_client_command_from_json sd e p command_json m =
     (case as_client p m of
        None \<Rightarrow> None
      | Some None \<Rightarrow> Some (False, m)
      | Some (Some c) \<Rightarrow>
          (case str_from_ptr command_json of
             None \<Rightarrow> Some (False, m)
           | Some json \<Rightarrow>
               (case de_command sd json of
                  Inl _ \<Rightarrow> Some (False, m)
                | Inr command \<Rightarrow> Some (True, mem_store p (Handle (client_command e command c)) m))))"

definition obby_client_model_json :: "serde \<Rightarrow> addr \<Rightarrow> memory \<Rightarrow> (addr \<times> memory) option" where
  "obby_client_model_json sd p m =
     (case as_client p m of
        None \<Rightarrow> None
      | Some None \<Rightarrow> Some (0, m)
      | Some (Some c) \<Rightarrow>
          (case ser_model sd (cl_model c) of Inr json \<Rightarrow> Some (string_out json m) | Inl _ \<Rightarrow> Some (0, m)))"

text \<open>The version of the workspace, in a string made on the first call and never freed.\<close>

definition CARGO_PKG_VERSION :: string where "CARGO_PKG_VERSION = ''0.3.0''"

definition obby_client_version :: "memory \<Rightarrow> addr \<times> memory" where
  "obby_client_version m =
     (case mem_version m of
        Some p \<Rightarrow> (p, m)
      | None \<Rightarrow>
          (let version = (case cstring_new CARGO_PKG_VERSION of Some v \<Rightarrow> v | None \<Rightarrow> []);
               (p, m) = mem_alloc (Static_Block version) m
           in (p, m\<lparr>mem_version := Some p\<rparr>)))"

section \<open>Commands\<close>

text \<open>
  The command is built only once the client is known to be there: the outer option is the reading of the
  caller's memory, \<open>None\<close> when it is undefined, the inner one a required string that cannot be read.
\<close>

definition submit :: "externals \<Rightarrow> addr \<Rightarrow> command option option \<Rightarrow> memory \<Rightarrow> (bool \<times> memory) option" where
  "submit e p built m =
     (case as_client p m of
        None \<Rightarrow> None
      | Some None \<Rightarrow> Some (False, m)
      | Some (Some c) \<Rightarrow>
          (case built of
             None \<Rightarrow> None
           | Some None \<Rightarrow> Some (False, m)
           | Some (Some command) \<Rightarrow> Some (True, mem_store p (Handle (client_command e command c)) m)))"

text \<open>An array of strings, of which \<open>count\<close> are read; those that are null or not UTF-8 are skipped.\<close>

definition strings_from_ptr_array :: "c_str list option \<Rightarrow> nat \<Rightarrow> string list option" where
  "strings_from_ptr_array ptr count =
     (case ptr of
        None \<Rightarrow> Some []
      | Some elements \<Rightarrow>
          (if count > length elements then None
           else Some (List.map_filter str_from_ptr (take count elements))))"

definition obby_client_join ::
  "externals \<Rightarrow> addr \<Rightarrow> c_str \<Rightarrow> c_str \<Rightarrow> memory \<Rightarrow> (bool \<times> memory) option" where
  "obby_client_join e client channel key =
     submit e client (Some
       (do {
          channel \<leftarrow> str_from_ptr channel;
          Some (Join_Channel channel (str_from_ptr key))
        }))"

definition obby_client_part ::
  "externals \<Rightarrow> addr \<Rightarrow> c_str \<Rightarrow> c_str \<Rightarrow> memory \<Rightarrow> (bool \<times> memory) option" where
  "obby_client_part e client channel reason =
     submit e client (Some
       (do {
          channel \<leftarrow> str_from_ptr channel;
          Some (Part_Channel channel (str_from_ptr reason))
        }))"

definition obby_client_send_message ::
  "externals \<Rightarrow> addr \<Rightarrow> c_str \<Rightarrow> c_str \<Rightarrow> memory \<Rightarrow> (bool \<times> memory) option" where
  "obby_client_send_message e client target body =
     submit e client (Some
       (do {
          target \<leftarrow> str_from_ptr target;
          body \<leftarrow> str_from_ptr body;
          Some (SendMessage target body)
        }))"

definition obby_client_send_notice ::
  "externals \<Rightarrow> addr \<Rightarrow> c_str \<Rightarrow> c_str \<Rightarrow> memory \<Rightarrow> (bool \<times> memory) option" where
  "obby_client_send_notice e client target body =
     submit e client (Some
       (do {
          target \<leftarrow> str_from_ptr target;
          body \<leftarrow> str_from_ptr body;
          Some (SendNotice target body)
        }))"

definition obby_client_send_action ::
  "externals \<Rightarrow> addr \<Rightarrow> c_str \<Rightarrow> c_str \<Rightarrow> memory \<Rightarrow> (bool \<times> memory) option" where
  "obby_client_send_action e client target body =
     submit e client (Some
       (do {
          target \<leftarrow> str_from_ptr target;
          body \<leftarrow> str_from_ptr body;
          Some (SendAction target body)
        }))"

definition obby_client_set_nick ::
  "externals \<Rightarrow> addr \<Rightarrow> c_str \<Rightarrow> memory \<Rightarrow> (bool \<times> memory) option" where
  "obby_client_set_nick e client nick =
     submit e client (Some
       (do {
          nick \<leftarrow> str_from_ptr nick;
          Some (SetNick nick)
        }))"

definition obby_client_set_topic ::
  "externals \<Rightarrow> addr \<Rightarrow> c_str \<Rightarrow> c_str \<Rightarrow> memory \<Rightarrow> (bool \<times> memory) option" where
  "obby_client_set_topic e client channel topic =
     submit e client (Some
       (do {
          channel \<leftarrow> str_from_ptr channel;
          Some (SetTopic channel (str_from_ptr topic))
        }))"

definition obby_client_set_away ::
  "externals \<Rightarrow> addr \<Rightarrow> c_str \<Rightarrow> memory \<Rightarrow> (bool \<times> memory) option" where
  "obby_client_set_away e client msg =
     submit e client (Some (Some (SetAway (str_from_ptr msg))))"

definition obby_client_quit ::
  "externals \<Rightarrow> addr \<Rightarrow> c_str \<Rightarrow> memory \<Rightarrow> (bool \<times> memory) option" where
  "obby_client_quit e client reason =
     submit e client (Some (Some (Quit_Network (str_from_ptr reason))))"

definition typing_from_str :: "string \<Rightarrow> typing_state option" where
  "typing_from_str s =
     (if s = ''active'' then Some Active else if s = ''paused'' then Some Paused
      else if s = ''done'' then Some Done else None)"

definition obby_client_set_typing :: "externals \<Rightarrow> addr \<Rightarrow> c_str \<Rightarrow> c_str \<Rightarrow> memory \<Rightarrow> (bool \<times> memory) option" where
  "obby_client_set_typing e client target state =
     submit e client (Some
       (do {
          state \<leftarrow> str_from_ptr state;
          state \<leftarrow> typing_from_str state;
          target \<leftarrow> str_from_ptr target;
          Some (SetTyping target state)
        }))"

definition obby_client_add_reaction ::
  "externals \<Rightarrow> addr \<Rightarrow> c_str \<Rightarrow> c_str \<Rightarrow> c_str \<Rightarrow> memory \<Rightarrow> (bool \<times> memory) option" where
  "obby_client_add_reaction e client target msgid emoji =
     submit e client (Some
       (do {
          target \<leftarrow> str_from_ptr target;
          msgid \<leftarrow> str_from_ptr msgid;
          emoji \<leftarrow> str_from_ptr emoji;
          Some (AddReaction target msgid emoji)
        }))"

definition obby_client_remove_reaction ::
  "externals \<Rightarrow> addr \<Rightarrow> c_str \<Rightarrow> c_str \<Rightarrow> c_str \<Rightarrow> memory \<Rightarrow> (bool \<times> memory) option" where
  "obby_client_remove_reaction e client target msgid emoji =
     submit e client (Some
       (do {
          target \<leftarrow> str_from_ptr target;
          msgid \<leftarrow> str_from_ptr msgid;
          emoji \<leftarrow> str_from_ptr emoji;
          Some (RemoveReaction target msgid emoji)
        }))"

definition obby_client_redact_message ::
  "externals \<Rightarrow> addr \<Rightarrow> c_str \<Rightarrow> c_str \<Rightarrow> c_str \<Rightarrow> memory \<Rightarrow> (bool \<times> memory) option" where
  "obby_client_redact_message e client target msgid reason =
     submit e client (Some
       (do {
          target \<leftarrow> str_from_ptr target;
          msgid \<leftarrow> str_from_ptr msgid;
          Some (RedactMessage target msgid (str_from_ptr reason))
        }))"

definition obby_client_mark_read ::
  "externals \<Rightarrow> addr \<Rightarrow> c_str \<Rightarrow> nat \<Rightarrow> memory \<Rightarrow> (bool \<times> memory) option" where
  "obby_client_mark_read e client target at_ms =
     submit e client (Some
       (do {
          target \<leftarrow> str_from_ptr target;
          Some (MarkRead target at_ms)
        }))"

definition obby_client_fetch_history ::
  "externals \<Rightarrow> addr \<Rightarrow> c_str \<Rightarrow> c_str \<Rightarrow> nat \<Rightarrow> memory \<Rightarrow> (bool \<times> memory) option" where
  "obby_client_fetch_history e client target before_msgid limit =
     submit e client (Some
       (do {
          target \<leftarrow> str_from_ptr target;
          Some (FetchHistory target (str_from_ptr before_msgid) limit)
        }))"

definition obby_client_set_metadata ::
  "externals \<Rightarrow> addr \<Rightarrow> c_str \<Rightarrow> c_str \<Rightarrow> memory \<Rightarrow> (bool \<times> memory) option" where
  "obby_client_set_metadata e client key new_value =
     submit e client (Some
       (do {
          key \<leftarrow> str_from_ptr key;
          Some (SetMetadata key (str_from_ptr new_value))
        }))"

definition obby_client_subscribe_metadata ::
  "externals \<Rightarrow> addr \<Rightarrow> c_str list option \<Rightarrow> nat \<Rightarrow> memory \<Rightarrow> (bool \<times> memory) option" where
  "obby_client_subscribe_metadata e client keys count =
     submit e client (map_option (\<lambda>keys. Some (SubscribeMetadata keys)) (strings_from_ptr_array keys count))"

definition obby_client_whois ::
  "externals \<Rightarrow> addr \<Rightarrow> c_str \<Rightarrow> memory \<Rightarrow> (bool \<times> memory) option" where
  "obby_client_whois e client nick =
     submit e client (Some
       (do {
          nick \<leftarrow> str_from_ptr nick;
          Some (Whois nick)
        }))"

definition obby_client_rename_channel ::
  "externals \<Rightarrow> addr \<Rightarrow> c_str \<Rightarrow> c_str \<Rightarrow> c_str \<Rightarrow> memory \<Rightarrow> (bool \<times> memory) option" where
  "obby_client_rename_channel e client channel new_name reason =
     submit e client (Some
       (do {
          channel \<leftarrow> str_from_ptr channel;
          new_name \<leftarrow> str_from_ptr new_name;
          Some (RenameChannel channel new_name (str_from_ptr reason))
        }))"

definition obby_client_create_invite_link ::
  "externals \<Rightarrow> addr \<Rightarrow> c_str \<Rightarrow> c_str \<Rightarrow> memory \<Rightarrow> (bool \<times> memory) option" where
  "obby_client_create_invite_link e client channel description =
     submit e client (Some (Some (CreateInviteLink (str_from_ptr channel) (str_from_ptr description))))"

definition obby_client_list_invite_links :: "externals \<Rightarrow> addr \<Rightarrow> memory \<Rightarrow> (bool \<times> memory) option" where
  "obby_client_list_invite_links e client =
     submit e client (Some (Some ListInviteLinks))"

definition obby_client_delete_invite_link ::
  "externals \<Rightarrow> addr \<Rightarrow> c_str \<Rightarrow> memory \<Rightarrow> (bool \<times> memory) option" where
  "obby_client_delete_invite_link e client share_id =
     submit e client (Some
       (do {
          share_id \<leftarrow> str_from_ptr share_id;
          Some (DeleteInviteLink share_id)
        }))"

definition obby_client_redeem_invite_code ::
  "externals \<Rightarrow> addr \<Rightarrow> c_str \<Rightarrow> memory \<Rightarrow> (bool \<times> memory) option" where
  "obby_client_redeem_invite_code e client code =
     submit e client (Some
       (do {
          code \<leftarrow> str_from_ptr code;
          Some (RedeemInviteCode code)
        }))"

definition obby_client_generate_token ::
  "externals \<Rightarrow> addr \<Rightarrow> c_str \<Rightarrow> memory \<Rightarrow> (bool \<times> memory) option" where
  "obby_client_generate_token e client service =
     submit e client (Some
       (do {
          service \<leftarrow> str_from_ptr service;
          Some (GenerateToken service)
        }))"

definition obby_client_watch_nicks ::
  "externals \<Rightarrow> addr \<Rightarrow> c_str list option \<Rightarrow> nat \<Rightarrow> memory \<Rightarrow> (bool \<times> memory) option" where
  "obby_client_watch_nicks e client nicks count =
     submit e client (map_option (\<lambda>nicks. Some (WatchNicks nicks)) (strings_from_ptr_array nicks count))"

definition obby_client_unwatch_nicks ::
  "externals \<Rightarrow> addr \<Rightarrow> c_str list option \<Rightarrow> nat \<Rightarrow> memory \<Rightarrow> (bool \<times> memory) option" where
  "obby_client_unwatch_nicks e client nicks count =
     submit e client (map_option (\<lambda>nicks. Some (UnwatchNicks nicks)) (strings_from_ptr_array nicks count))"

definition obby_client_send_voice_signal ::
  "serde \<Rightarrow> externals \<Rightarrow> addr \<Rightarrow> c_str \<Rightarrow> c_str \<Rightarrow> memory \<Rightarrow> (bool \<times> memory) option" where
  "obby_client_send_voice_signal sd e client channel signal_json =
     submit e client (Some
       (do {
          channel \<leftarrow> str_from_ptr channel;
          json \<leftarrow> str_from_ptr signal_json;
          (case de_signal sd json of Inr sig \<Rightarrow> Some (SendVoiceSignal channel sig) | Inl _ \<Rightarrow> None)
        }))"

definition obby_client_send_raw_line ::
  "externals \<Rightarrow> addr \<Rightarrow> c_str \<Rightarrow> memory \<Rightarrow> (bool \<times> memory) option" where
  "obby_client_send_raw_line e client line =
     submit e client (Some
       (do {
          line \<leftarrow> str_from_ptr line;
          Some (SendRawLine line)
        }))"

section \<open>Events\<close>

definition obby_client_poll_event :: "serde \<Rightarrow> addr \<Rightarrow> memory \<Rightarrow> (addr \<times> memory) option" where
  "obby_client_poll_event sd p m =
     (case with_client p None poll_event m of
        None \<Rightarrow> None
      | Some (None, m) \<Rightarrow> Some (0, m)
      | Some (Some ev, m) \<Rightarrow> Some (mem_alloc (Event_Block (event_out sd ev)) m))"

text \<open>\<open>ptr.as_ref()\<close>: null reads as absent.\<close>

definition as_event :: "addr \<Rightarrow> memory \<Rightarrow> obby_event option option" where
  "as_event p m =
     (if p = 0 then Some None
      else case mem_blocks m p of Some (Event_Block ev) \<Rightarrow> Some (Some ev) | _ \<Rightarrow> None)"

definition obby_event_get_kind :: "addr \<Rightarrow> memory \<Rightarrow> obby_event_kind option" where
  "obby_event_get_kind p m =
     map_option (\<lambda>ev. case ev of Some ev \<Rightarrow> oe_kind ev | None \<Rightarrow> Kind_Unknown) (as_event p m)"

text \<open>A string field, null when there is none. The pointer borrows from the event.\<close>

definition oe_find_text :: "obby_event \<Rightarrow> obby_event_field \<Rightarrow> string option" where
  "oe_find_text ev field = map_option snd (find (\<lambda>(name, _). name = field) (oe_text ev))"

definition oe_find_number :: "obby_event \<Rightarrow> obby_event_field \<Rightarrow> nat option" where
  "oe_find_number ev field = map_option snd (find (\<lambda>(name, _). name = field) (oe_numbers ev))"

definition obby_event_text :: "addr \<Rightarrow> obby_event_field \<Rightarrow> memory \<Rightarrow> string option option" where
  "obby_event_text p field m =
     map_option (\<lambda>ev. case ev of Some ev \<Rightarrow> oe_find_text ev field | None \<Rightarrow> None) (as_event p m)"

text \<open>The result, and what is written to \<open>out\<close>.\<close>

definition obby_event_number :: "addr \<Rightarrow> obby_event_field \<Rightarrow> bool \<Rightarrow> memory \<Rightarrow> (bool \<times> nat option) option" where
  "obby_event_number p field has_out m =
     (case as_event p m of
        None \<Rightarrow> None
      | Some None \<Rightarrow> Some (False, None)
      | Some (Some ev) \<Rightarrow>
          (case oe_find_number ev field of
             None \<Rightarrow> Some (False, None)
           | Some v \<Rightarrow> Some (True, if has_out then Some v else None)))"

definition obby_event_json :: "addr \<Rightarrow> memory \<Rightarrow> string option option" where
  "obby_event_json p m = map_option (map_option oe_json) (as_event p m)"

definition obby_event_free :: "addr \<Rightarrow> memory \<Rightarrow> memory option" where
  "obby_event_free p m =
     (if p = 0 then Some m
      else case mem_blocks m p of Some (Event_Block _) \<Rightarrow> Some (mem_release p m) | _ \<Rightarrow> None)"

end
