(* ===== verification/Ffi_Commands.thy ===== *)
theory Ffi_Commands
  imports Ffi
begin

text \<open>
  The exported functions of C that submit a command, as values: a call is the function and its arguments.
  Whatever the function, the call is \<open>submit\<close> on the command the arguments spell (\<open>c_built\<close>), so a proof
  about all of them is a proof about \<open>submit\<close>.
\<close>

section \<open>The commands of C\<close>

text \<open>The functions that build a command, with their arguments.\<close>

datatype c_command =
    C_Join c_str c_str
  | C_Part c_str c_str
  | C_Send_Message c_str c_str
  | C_Send_Notice c_str c_str
  | C_Send_Action c_str c_str
  | C_Set_Nick c_str
  | C_Set_Topic c_str c_str
  | C_Set_Away c_str
  | C_Set_Typing c_str c_str
  | C_Add_Reaction c_str c_str c_str
  | C_Remove_Reaction c_str c_str c_str
  | C_Redact_Message c_str c_str c_str
  | C_Mark_Read c_str nat
  | C_Fetch_History c_str c_str nat
  | C_Set_Metadata c_str c_str
  | C_Subscribe_Metadata "c_str list option" nat
  | C_Whois c_str
  | C_Rename_Channel c_str c_str c_str
  | C_Create_Invite_Link c_str c_str
  | C_List_Invite_Links
  | C_Delete_Invite_Link c_str
  | C_Redeem_Invite_Code c_str
  | C_Generate_Token c_str
  | C_Watch_Nicks "c_str list option" nat
  | C_Unwatch_Nicks "c_str list option" nat
  | C_Send_Voice_Signal c_str c_str
  | C_Quit c_str
  | C_Send_Raw_Line c_str

definition c_command_step :: "serde \<Rightarrow> externals \<Rightarrow> addr \<Rightarrow> c_command \<Rightarrow> memory \<Rightarrow> (bool \<times> memory) option" where
  "c_command_step sd e p call m =
     (case call of
        C_Join a b \<Rightarrow> obby_client_join e p a b m
      | C_Part a b \<Rightarrow> obby_client_part e p a b m
      | C_Send_Message a b \<Rightarrow> obby_client_send_message e p a b m
      | C_Send_Notice a b \<Rightarrow> obby_client_send_notice e p a b m
      | C_Send_Action a b \<Rightarrow> obby_client_send_action e p a b m
      | C_Set_Nick a \<Rightarrow> obby_client_set_nick e p a m
      | C_Set_Topic a b \<Rightarrow> obby_client_set_topic e p a b m
      | C_Set_Away a \<Rightarrow> obby_client_set_away e p a m
      | C_Set_Typing a b \<Rightarrow> obby_client_set_typing e p a b m
      | C_Add_Reaction a b c \<Rightarrow> obby_client_add_reaction e p a b c m
      | C_Remove_Reaction a b c \<Rightarrow> obby_client_remove_reaction e p a b c m
      | C_Redact_Message a b c \<Rightarrow> obby_client_redact_message e p a b c m
      | C_Mark_Read a b \<Rightarrow> obby_client_mark_read e p a b m
      | C_Fetch_History a b c \<Rightarrow> obby_client_fetch_history e p a b c m
      | C_Set_Metadata a b \<Rightarrow> obby_client_set_metadata e p a b m
      | C_Subscribe_Metadata a n \<Rightarrow> obby_client_subscribe_metadata e p a n m
      | C_Whois a \<Rightarrow> obby_client_whois e p a m
      | C_Rename_Channel a b c \<Rightarrow> obby_client_rename_channel e p a b c m
      | C_Create_Invite_Link a b \<Rightarrow> obby_client_create_invite_link e p a b m
      | C_List_Invite_Links \<Rightarrow> obby_client_list_invite_links e p m
      | C_Delete_Invite_Link a \<Rightarrow> obby_client_delete_invite_link e p a m
      | C_Redeem_Invite_Code a \<Rightarrow> obby_client_redeem_invite_code e p a m
      | C_Generate_Token a \<Rightarrow> obby_client_generate_token e p a m
      | C_Watch_Nicks a n \<Rightarrow> obby_client_watch_nicks e p a n m
      | C_Unwatch_Nicks a n \<Rightarrow> obby_client_unwatch_nicks e p a n m
      | C_Send_Voice_Signal a b \<Rightarrow> obby_client_send_voice_signal sd e p a b m
      | C_Quit a \<Rightarrow> obby_client_quit e p a m
      | C_Send_Raw_Line a \<Rightarrow> obby_client_send_raw_line e p a m)"

text \<open>The strings a call cannot do without.\<close>

definition required :: "c_command \<Rightarrow> c_str list" where
  "required call =
     (case call of
        C_Join a b \<Rightarrow> [a]
      | C_Part a b \<Rightarrow> [a]
      | C_Send_Message a b \<Rightarrow> [a, b]
      | C_Send_Notice a b \<Rightarrow> [a, b]
      | C_Send_Action a b \<Rightarrow> [a, b]
      | C_Set_Nick a \<Rightarrow> [a]
      | C_Set_Topic a b \<Rightarrow> [a]
      | C_Set_Away a \<Rightarrow> []
      | C_Set_Typing a b \<Rightarrow> [a, b]
      | C_Add_Reaction a b c \<Rightarrow> [a, b, c]
      | C_Remove_Reaction a b c \<Rightarrow> [a, b, c]
      | C_Redact_Message a b c \<Rightarrow> [a, b]
      | C_Mark_Read a b \<Rightarrow> [a]
      | C_Fetch_History a b c \<Rightarrow> [a]
      | C_Set_Metadata a b \<Rightarrow> [a]
      | C_Subscribe_Metadata a n \<Rightarrow> []
      | C_Whois a \<Rightarrow> [a]
      | C_Rename_Channel a b c \<Rightarrow> [a, b]
      | C_Create_Invite_Link a b \<Rightarrow> []
      | C_List_Invite_Links \<Rightarrow> []
      | C_Delete_Invite_Link a \<Rightarrow> [a]
      | C_Redeem_Invite_Code a \<Rightarrow> [a]
      | C_Generate_Token a \<Rightarrow> [a]
      | C_Watch_Nicks a n \<Rightarrow> []
      | C_Unwatch_Nicks a n \<Rightarrow> []
      | C_Send_Voice_Signal a b \<Rightarrow> [a, b]
      | C_Quit a \<Rightarrow> []
      | C_Send_Raw_Line a \<Rightarrow> [a])"

text \<open>
  The command the arguments spell: outside, the reading of an array past its end; inside, a required string
  that cannot be read.
\<close>

definition c_built :: "serde \<Rightarrow> c_command \<Rightarrow> command option option" where
  "c_built sd call =
     (case call of
        C_Join a b \<Rightarrow> Some (do { a \<leftarrow> str_from_ptr a; Some (Join_Channel a (str_from_ptr b)) })
      | C_Part a b \<Rightarrow> Some (do { a \<leftarrow> str_from_ptr a; Some (Part_Channel a (str_from_ptr b)) })
      | C_Send_Message a b \<Rightarrow> Some (do { a \<leftarrow> str_from_ptr a; b \<leftarrow> str_from_ptr b; Some (SendMessage a b) })
      | C_Send_Notice a b \<Rightarrow> Some (do { a \<leftarrow> str_from_ptr a; b \<leftarrow> str_from_ptr b; Some (SendNotice a b) })
      | C_Send_Action a b \<Rightarrow> Some (do { a \<leftarrow> str_from_ptr a; b \<leftarrow> str_from_ptr b; Some (SendAction a b) })
      | C_Set_Nick a \<Rightarrow> Some (do { a \<leftarrow> str_from_ptr a; Some (SetNick a) })
      | C_Set_Topic a b \<Rightarrow> Some (do { a \<leftarrow> str_from_ptr a; Some (SetTopic a (str_from_ptr b)) })
      | C_Set_Away a \<Rightarrow> Some (Some (SetAway (str_from_ptr a)))
      | C_Set_Typing a b \<Rightarrow>
          Some (do { state \<leftarrow> str_from_ptr b; state \<leftarrow> typing_from_str state; target \<leftarrow> str_from_ptr a;
                     Some (SetTyping target state) })
      | C_Add_Reaction a b c \<Rightarrow> Some (do { a \<leftarrow> str_from_ptr a; b \<leftarrow> str_from_ptr b; c \<leftarrow> str_from_ptr c; Some (AddReaction a b c) })
      | C_Remove_Reaction a b c \<Rightarrow> Some (do { a \<leftarrow> str_from_ptr a; b \<leftarrow> str_from_ptr b; c \<leftarrow> str_from_ptr c; Some (RemoveReaction a b c) })
      | C_Redact_Message a b c \<Rightarrow> Some (do { a \<leftarrow> str_from_ptr a; b \<leftarrow> str_from_ptr b; Some (RedactMessage a b (str_from_ptr c)) })
      | C_Mark_Read a b \<Rightarrow> Some (do { a \<leftarrow> str_from_ptr a; Some (MarkRead a b) })
      | C_Fetch_History a b c \<Rightarrow> Some (do { a \<leftarrow> str_from_ptr a; Some (FetchHistory a (str_from_ptr b) c) })
      | C_Set_Metadata a b \<Rightarrow> Some (do { a \<leftarrow> str_from_ptr a; Some (SetMetadata a (str_from_ptr b)) })
      | C_Subscribe_Metadata a n \<Rightarrow> map_option (\<lambda>strs. Some (SubscribeMetadata strs)) (strings_from_ptr_array a n)
      | C_Whois a \<Rightarrow> Some (do { a \<leftarrow> str_from_ptr a; Some (Whois a) })
      | C_Rename_Channel a b c \<Rightarrow> Some (do { a \<leftarrow> str_from_ptr a; b \<leftarrow> str_from_ptr b; Some (RenameChannel a b (str_from_ptr c)) })
      | C_Create_Invite_Link a b \<Rightarrow> Some (Some (CreateInviteLink (str_from_ptr a) (str_from_ptr b)))
      | C_List_Invite_Links \<Rightarrow> Some (Some ListInviteLinks)
      | C_Delete_Invite_Link a \<Rightarrow> Some (do { a \<leftarrow> str_from_ptr a; Some (DeleteInviteLink a) })
      | C_Redeem_Invite_Code a \<Rightarrow> Some (do { a \<leftarrow> str_from_ptr a; Some (RedeemInviteCode a) })
      | C_Generate_Token a \<Rightarrow> Some (do { a \<leftarrow> str_from_ptr a; Some (GenerateToken a) })
      | C_Watch_Nicks a n \<Rightarrow> map_option (\<lambda>strs. Some (WatchNicks strs)) (strings_from_ptr_array a n)
      | C_Unwatch_Nicks a n \<Rightarrow> map_option (\<lambda>strs. Some (UnwatchNicks strs)) (strings_from_ptr_array a n)
      | C_Send_Voice_Signal a b \<Rightarrow>
          Some (do { channel \<leftarrow> str_from_ptr a; json \<leftarrow> str_from_ptr b;
                     case de_signal sd json of Inr sig \<Rightarrow> Some (SendVoiceSignal channel sig) | Inl _ \<Rightarrow> None })
      | C_Quit a \<Rightarrow> Some (Some (Quit_Network (str_from_ptr a)))
      | C_Send_Raw_Line a \<Rightarrow> Some (do { a \<leftarrow> str_from_ptr a; Some (SendRawLine a) }))"

text \<open>The one thing the doc comments ask of an array: that it is as long as it is said to be.\<close>

definition arrays_readable :: "c_command \<Rightarrow> bool" where
  "arrays_readable call =
     (case call of
        C_Subscribe_Metadata (Some a) n \<Rightarrow> n \<le> length a
      | C_Watch_Nicks (Some a) n \<Rightarrow> n \<le> length a
      | C_Unwatch_Nicks (Some a) n \<Rightarrow> n \<le> length a
      | _ \<Rightarrow> True)"

lemmas c_command_defs = obby_client_join_def obby_client_part_def obby_client_send_message_def
  obby_client_send_notice_def obby_client_send_action_def obby_client_set_nick_def obby_client_set_topic_def
  obby_client_set_away_def obby_client_set_typing_def obby_client_add_reaction_def obby_client_remove_reaction_def
  obby_client_redact_message_def obby_client_mark_read_def obby_client_fetch_history_def
  obby_client_set_metadata_def obby_client_subscribe_metadata_def obby_client_whois_def
  obby_client_rename_channel_def obby_client_create_invite_link_def obby_client_list_invite_links_def
  obby_client_delete_invite_link_def obby_client_redeem_invite_code_def obby_client_generate_token_def
  obby_client_watch_nicks_def obby_client_unwatch_nicks_def obby_client_send_voice_signal_def obby_client_quit_def
  obby_client_send_raw_line_def

lemma c_command_submits: "c_command_step sd e p call m = submit e p (c_built sd call) m"
  by (cases call) (simp_all add: c_command_step_def c_built_def c_command_defs)

lemma c_built_readable: "arrays_readable call \<Longrightarrow> c_built sd call \<noteq> None"
  by (cases call) (auto simp: c_built_def arrays_readable_def strings_from_ptr_array_def split: option.splits)

end
