(* ===== verification/Ffi_Props.thy ===== *)
theory Ffi_Props
  imports Ffi_Commands
begin

text \<open>
  What a C caller can rely on. The caller's contract is stated on a ledger, the caller's own record of
  what it was handed and has not freed yet; the library's memory refines it. From it: no call that keeps
  the contract has undefined behaviour, nothing is leaked, every handle behaves as an engine of its own,
  and an event read field by field is the event the engine queued.
\<close>

section \<open>Calls under a contract\<close>

text \<open>A run of calls, each allowed or not by what the caller knows, and defined or not in the state.\<close>

datatype ('s, 'l) outcome =
    Undefined_Behaviour
  | Contract_Broken
  | Done 's 'l

fun contract_run ::
  "('c \<Rightarrow> 's \<Rightarrow> ('r \<times> 's) option) \<Rightarrow> ('l \<Rightarrow> 'c \<Rightarrow> bool) \<Rightarrow> ('c \<Rightarrow> 'r \<Rightarrow> 'l \<Rightarrow> 'l) \<Rightarrow> 'c list \<Rightarrow> 's \<Rightarrow> 'l \<Rightarrow> ('s, 'l) outcome" where
  "contract_run step may after [] s l = Done s l"
| "contract_run step may after (call # calls) s l =
     (if \<not> may l call then Contract_Broken
      else case step call s of
          None \<Rightarrow> Undefined_Behaviour
        | Some (r, s) \<Rightarrow> contract_run step may after calls s (after call r l))"

lemma contract_run_Cons_Done:
  "contract_run step may after (call # calls) s l = Done s' l' \<longleftrightarrow>
     may l call \<and> (\<exists>r t. step call s = Some (r, t) \<and> contract_run step may after calls t (after call r l) = Done s' l')"
  by (auto split: option.splits)

locale contract =
  fixes step :: "'c \<Rightarrow> 's \<Rightarrow> ('r \<times> 's) option" and may :: "'l \<Rightarrow> 'c \<Rightarrow> bool" and after :: "'c \<Rightarrow> 'r \<Rightarrow> 'l \<Rightarrow> 'l"
    and rel :: "'s \<Rightarrow> 'l \<Rightarrow> bool"
  assumes step_defined: "rel s l \<Longrightarrow> may l call \<Longrightarrow> step call s \<noteq> None"
    and step_rel: "rel s l \<Longrightarrow> may l call \<Longrightarrow> step call s = Some (r, s') \<Longrightarrow> rel s' (after call r l)"
begin

lemma run_defined: "rel s l \<Longrightarrow> contract_run step may after calls s l \<noteq> Undefined_Behaviour"
proof (induction calls arbitrary: s l)
  case (Cons call calls)
  then show ?case
    using step_defined [of s l call] step_rel [of s l call] by (auto split: option.splits)
qed simp

lemma run_rel: "rel s l \<Longrightarrow> contract_run step may after calls s l = Done s' l' \<Longrightarrow> rel s' l'"
proof (induction calls arbitrary: s l)
  case (Cons call calls)
  from Cons.prems(2) obtain r t where "may l call" "step call s = Some (r, t)"
    "contract_run step may after calls t (after call r l) = Done s' l'"
    unfolding contract_run_Cons_Done by blast
  with Cons.IH step_rel [OF Cons.prems(1)] show ?case by blast
qed simp

text \<open>What every allowed step keeps, a run keeps.\<close>

lemma run_keeps:
  assumes "\<And>s l call r s'. rel s l \<Longrightarrow> may l call \<Longrightarrow> step call s = Some (r, s') \<Longrightarrow> call \<in> set calls \<Longrightarrow> P s \<Longrightarrow> P s'"
    and "rel s l" "contract_run step may after calls s l = Done s' l'" "P s"
  shows "P s'"
  using assms
proof (induction calls arbitrary: s l)
  case (Cons call calls)
  from Cons.prems(3) obtain r t where t: "may l call" "step call s = Some (r, t)"
    "contract_run step may after calls t (after call r l) = Done s' l'"
    unfolding contract_run_Cons_Done by blast
  show ?case
  proof (rule Cons.IH [OF _ step_rel [OF Cons.prems(2) t(1,2)] t(3)])
    show "P t"
      by (rule Cons.prems(1) [OF Cons.prems(2) t(1,2) _ Cons.prems(4)]) simp
  qed (use Cons.prems(1) in \<open>meson list.set_intros(2)\<close>)
qed simp

end

section \<open>The exported functions\<close>

text \<open>Every exported function; those that submit a command are \<open>Call_Command\<close>.\<close>

datatype c_call =
    Call_New "obby_config option"
  | Call_New_Json c_str
  | Call_Free addr
  | Call_Connected addr
  | Call_Disconnected addr
  | Call_Bytes addr "string option" nat
  | Call_Transmit addr
  | Call_Free_Bytes obby_bytes
  | Call_Events_Json addr
  | Call_Free_String addr
  | Call_Tick addr nat nat
  | Call_Timeout addr bool
  | Call_Command_Json addr c_str
  | Call_Model_Json addr
  | Call_Version
  | Call_Command addr c_command
  | Call_Next_Event addr
  | Call_Kind addr
  | Call_Text addr obby_event_field
  | Call_Number addr obby_event_field bool
  | Call_Event_Json addr
  | Call_Free_Event addr

datatype c_result =
    Void
  | Pointer addr
  | Buffer obby_bytes
  | Truth bool
  | Written bool "nat option"
  | Kind_Is obby_event_kind
  | Borrowed "string option"

fun c_step :: "serde \<Rightarrow> externals \<Rightarrow> c_call \<Rightarrow> memory \<Rightarrow> (c_result \<times> memory) option" where
  "c_step sd e (Call_New config) m = Some (map_prod Pointer id (obby_client_new config m))"
| "c_step sd e (Call_New_Json json) m = Some (map_prod Pointer id (obby_client_new_from_json sd json m))"
| "c_step sd e (Call_Free p) m = map_option (Pair Void) (obby_client_free p m)"
| "c_step sd e (Call_Connected p) m = map_option (Pair Void) (obby_client_handle_connected p m)"
| "c_step sd e (Call_Disconnected p) m = map_option (Pair Void) (obby_client_handle_disconnected p m)"
| "c_step sd e (Call_Bytes p data len) m = map_option (Pair Void) (obby_client_handle_bytes e p data len m)"
| "c_step sd e (Call_Transmit p) m = map_option (map_prod Buffer id) (obby_client_poll_transmit p m)"
| "c_step sd e (Call_Free_Bytes b) m = map_option (Pair Void) (obby_client_free_bytes b m)"
| "c_step sd e (Call_Events_Json p) m = map_option (map_prod Pointer id) (obby_client_poll_events_json sd p m)"
| "c_step sd e (Call_Free_String p) m = map_option (Pair Void) (obby_client_free_string p m)"
| "c_step sd e (Call_Tick p mt ut) m = map_option (Pair Void) (obby_client_tick p mt ut m)"
| "c_step sd e (Call_Timeout p out) m = map_option (\<lambda>(b, w). (Written b w, m)) (obby_client_poll_timeout p out m)"
| "c_step sd e (Call_Command_Json p json) m = map_option (map_prod Truth id) (obby_client_command_from_json sd e p json m)"
| "c_step sd e (Call_Model_Json p) m = map_option (map_prod Pointer id) (obby_client_model_json sd p m)"
| "c_step sd e Call_Version m = Some (map_prod Pointer id (obby_client_version m))"
| "c_step sd e (Call_Command p call) m = map_option (map_prod Truth id) (c_command_step sd e p call m)"
| "c_step sd e (Call_Next_Event p) m = map_option (map_prod Pointer id) (obby_client_poll_event sd p m)"
| "c_step sd e (Call_Kind p) m = map_option (\<lambda>k. (Kind_Is k, m)) (obby_event_get_kind p m)"
| "c_step sd e (Call_Text p field) m = map_option (\<lambda>t. (Borrowed t, m)) (obby_event_text p field m)"
| "c_step sd e (Call_Number p field out) m = map_option (\<lambda>(b, w). (Written b w, m)) (obby_event_number p field out m)"
| "c_step sd e (Call_Event_Json p) m = map_option (\<lambda>t. (Borrowed t, m)) (obby_event_json p m)"
| "c_step sd e (Call_Free_Event p) m = map_option (Pair Void) (obby_event_free p m)"

section \<open>The ledger\<close>

datatype owned = Owns_Handle | Owns_Bytes nat | Owns_String | Owns_Event

type_synonym ledger = "addr \<Rightarrow> owned option"

definition null_or :: "ledger \<Rightarrow> addr \<Rightarrow> owned \<Rightarrow> bool" where
  "null_or l p k \<longleftrightarrow> p = 0 \<or> l p = Some k"

text \<open>
  The contract the doc comments ask for: a handle, string, buffer or event is null or one the caller was
  given and has not freed; a buffer comes back with its length; memory passed with a length is that long.
\<close>

fun caller_may :: "ledger \<Rightarrow> c_call \<Rightarrow> bool" where
  "caller_may l (Call_Free p) = null_or l p Owns_Handle"
| "caller_may l (Call_Connected p) = null_or l p Owns_Handle"
| "caller_may l (Call_Disconnected p) = null_or l p Owns_Handle"
| "caller_may l (Call_Bytes p data len) =
     (null_or l p Owns_Handle \<and> (case data of Some bytes \<Rightarrow> len \<le> length bytes | None \<Rightarrow> True))"
| "caller_may l (Call_Transmit p) = null_or l p Owns_Handle"
| "caller_may l (Call_Free_Bytes b) = null_or l (ob_ptr b) (Owns_Bytes (ob_len b))"
| "caller_may l (Call_Events_Json p) = null_or l p Owns_Handle"
| "caller_may l (Call_Free_String p) = null_or l p Owns_String"
| "caller_may l (Call_Tick p _ _) = null_or l p Owns_Handle"
| "caller_may l (Call_Timeout p _) = null_or l p Owns_Handle"
| "caller_may l (Call_Command_Json p _) = null_or l p Owns_Handle"
| "caller_may l (Call_Model_Json p) = null_or l p Owns_Handle"
| "caller_may l (Call_Command p call) = (null_or l p Owns_Handle \<and> arrays_readable call)"
| "caller_may l (Call_Next_Event p) = null_or l p Owns_Handle"
| "caller_may l (Call_Kind p) = null_or l p Owns_Event"
| "caller_may l (Call_Text p _) = null_or l p Owns_Event"
| "caller_may l (Call_Number p _ _) = null_or l p Owns_Event"
| "caller_may l (Call_Event_Json p) = null_or l p Owns_Event"
| "caller_may l (Call_Free_Event p) = null_or l p Owns_Event"
| "caller_may l _ = True"

definition handed :: "addr \<Rightarrow> owned \<Rightarrow> ledger \<Rightarrow> ledger" where
  "handed p k l = (if p = 0 then l else l(p \<mapsto> k))"

definition given_up :: "addr \<Rightarrow> ledger \<Rightarrow> ledger" where
  "given_up p l = (if p = 0 then l else l(p := None))"

definition result_ptr :: "c_result \<Rightarrow> addr" where
  "result_ptr r = (case r of Pointer p \<Rightarrow> p | Buffer b \<Rightarrow> ob_ptr b | _ \<Rightarrow> 0)"

definition result_len :: "c_result \<Rightarrow> nat" where
  "result_len r = (case r of Buffer b \<Rightarrow> ob_len b | _ \<Rightarrow> 0)"

lemma result_simps [simp]:
  "result_ptr (Pointer p) = p" "result_ptr (Buffer b) = ob_ptr b" "result_len (Buffer b) = ob_len b"
  by (simp_all add: result_ptr_def result_len_def)

fun caller_after :: "c_call \<Rightarrow> c_result \<Rightarrow> ledger \<Rightarrow> ledger" where
  "caller_after (Call_New _) r l = handed (result_ptr r) Owns_Handle l"
| "caller_after (Call_New_Json _) r l = handed (result_ptr r) Owns_Handle l"
| "caller_after (Call_Free p) r l = given_up p l"
| "caller_after (Call_Transmit _) r l = handed (result_ptr r) (Owns_Bytes (result_len r)) l"
| "caller_after (Call_Free_Bytes b) r l = given_up (ob_ptr b) l"
| "caller_after (Call_Events_Json _) r l = handed (result_ptr r) Owns_String l"
| "caller_after (Call_Model_Json _) r l = handed (result_ptr r) Owns_String l"
| "caller_after (Call_Free_String p) r l = given_up p l"
| "caller_after (Call_Next_Event _) r l = handed (result_ptr r) Owns_Event l"
| "caller_after (Call_Free_Event p) r l = given_up p l"
| "caller_after _ r l = l"

abbreviation c_run :: "serde \<Rightarrow> externals \<Rightarrow> c_call list \<Rightarrow> memory \<Rightarrow> ledger \<Rightarrow> (memory, ledger) outcome" where
  "c_run sd e \<equiv> contract_run (c_step sd e) caller_may caller_after"

section \<open>The memory refines the ledger\<close>

fun owned_as :: "block \<Rightarrow> owned option" where
  "owned_as (Handle _) = Some Owns_Handle"
| "owned_as (Byte_Block data) = Some (Owns_Bytes (length data))"
| "owned_as (String_Block _) = Some Owns_String"
| "owned_as (Event_Block _) = Some Owns_Event"
| "owned_as (Static_Block _) = None"

definition ledger_of :: "memory \<Rightarrow> ledger" where
  "ledger_of m = (\<lambda>p. Option.bind (mem_blocks m p) owned_as)"

definition mem_ok :: "memory \<Rightarrow> bool" where
  "mem_ok m \<longleftrightarrow> 0 < mem_next m \<and> mem_blocks m 0 = None \<and> (\<forall>p \<ge> mem_next m. mem_blocks m p = None)
     \<and> (\<forall>p. mem_version m = Some p \<longleftrightarrow> (\<exists>v. mem_blocks m p = Some (Static_Block v)))"

definition abi_rel :: "memory \<Rightarrow> ledger \<Rightarrow> bool" where
  "abi_rel m l \<longleftrightarrow> mem_ok m \<and> l = ledger_of m"

lemma owned_as_cases:
  "owned_as b = Some Owns_Handle \<longleftrightarrow> (\<exists>c. b = Handle c)"
  "owned_as b = Some (Owns_Bytes n) \<longleftrightarrow> (\<exists>d. b = Byte_Block d \<and> length d = n)"
  "owned_as b = Some Owns_String \<longleftrightarrow> (\<exists>s. b = String_Block s)"
  "owned_as b = Some Owns_Event \<longleftrightarrow> (\<exists>ev. b = Event_Block ev)"
  by (cases b; auto)+

lemma null_or_live:
  "null_or (ledger_of m) p Owns_Handle \<longleftrightarrow> p = 0 \<or> (\<exists>c. mem_blocks m p = Some (Handle c))"
  "null_or (ledger_of m) p (Owns_Bytes n) \<longleftrightarrow> p = 0 \<or> (\<exists>d. mem_blocks m p = Some (Byte_Block d) \<and> length d = n)"
  "null_or (ledger_of m) p Owns_String \<longleftrightarrow> p = 0 \<or> (\<exists>s. mem_blocks m p = Some (String_Block s))"
  "null_or (ledger_of m) p Owns_Event \<longleftrightarrow> p = 0 \<or> (\<exists>ev. mem_blocks m p = Some (Event_Block ev))"
  by (auto simp: null_or_def ledger_of_def bind_eq_Some_conv owned_as_cases)

lemma abi_rel_new: "abi_rel memory_new Map.empty"
  by (simp add: abi_rel_def mem_ok_def memory_new_def ledger_of_def)

lemma abi_rel_alloc:
  assumes "abi_rel m l" "mem_alloc b m = (p, m')" "owned_as b = Some k"
  shows "abi_rel m' (handed p k l)" "p \<noteq> 0" "l p = None" "mem_blocks m p = None"
proof -
  have "b \<noteq> Static_Block v" for v
    using assms(3) by auto
  with assms show "abi_rel m' (handed p k l)" "p \<noteq> 0" "l p = None" "mem_blocks m p = None"
    by (auto simp: abi_rel_def mem_ok_def mem_alloc_def ledger_of_def handed_def fun_eq_iff split: if_splits)
qed

lemma abi_rel_release:
  assumes "abi_rel m l" "mem_blocks m p = Some b" "owned_as b = Some k"
  shows "abi_rel (mem_release p m) (given_up p l)"
  using assms by (auto simp: abi_rel_def mem_ok_def mem_release_def ledger_of_def given_up_def fun_eq_iff)

lemma abi_rel_store:
  assumes "abi_rel m l" "mem_blocks m p = Some (Handle c)"
  shows "abi_rel (mem_store p (Handle c') m) l"
proof -
  have "p < mem_next m" "p \<noteq> 0"
    using assms by (metis abi_rel_def mem_ok_def not_less option.distinct(1))+
  with assms show ?thesis
    by (auto simp: abi_rel_def mem_ok_def mem_store_def ledger_of_def fun_eq_iff split: if_splits)
qed

lemma handed_null [simp]: "handed 0 k l = l"
  by (simp add: handed_def)

lemma given_up_null [simp]: "given_up 0 l = l"
  by (simp add: given_up_def)

lemma as_client_iff:
  "as_client p m = Some None \<longleftrightarrow> p = 0"
  "as_client p m = Some (Some c) \<longleftrightarrow> p \<noteq> 0 \<and> mem_blocks m p = Some (Handle c)"
  "as_client p m = None \<longleftrightarrow> p \<noteq> 0 \<and> (\<nexists>c. mem_blocks m p = Some (Handle c))"
  by (auto simp: as_client_def split: option.splits block.splits)

lemma as_event_iff:
  "as_event p m = None \<longleftrightarrow> p \<noteq> 0 \<and> (\<nexists>ev. mem_blocks m p = Some (Event_Block ev))"
  by (auto simp: as_event_def split: option.splits block.splits)

lemma with_client_null: "with_client 0 absent f m = Some (absent, m)"
  by (simp add: with_client_def as_client_def)

lemma with_client_live:
  "p \<noteq> 0 \<Longrightarrow> mem_blocks m p = Some (Handle c) \<Longrightarrow>
     with_client p absent f m = Some (fst (f c), mem_store p (Handle (snd (f c))) m)"
  by (simp add: with_client_def as_client_def case_prod_unfold)

lemma with_client_defined: "with_client p absent f m = None \<longleftrightarrow> p \<noteq> 0 \<and> (\<nexists>c. mem_blocks m p = Some (Handle c))"
  by (simp add: with_client_def as_client_def case_prod_unfold split: option.split block.split)

lemma with_client_cases:
  assumes "with_client p absent f m = Some (r, m')"
  obtains "p = 0" "r = absent" "m' = m"
    | c where "p \<noteq> 0" "mem_blocks m p = Some (Handle c)" "r = fst (f c)" "m' = mem_store p (Handle (snd (f c))) m"
proof (cases "p = 0")
  case True
  with assms that(1) show thesis by (simp add: with_client_null)
next
  case False
  with assms with_client_defined [of p absent f m] obtain c where "mem_blocks m p = Some (Handle c)"
    by auto
  with assms False that(2) show thesis by (simp add: with_client_live)
qed

lemma with_client_rel:
  assumes "abi_rel m l" "with_client p absent f m = Some (r, m')"
  shows "abi_rel m' l"
  using assms(2) by (rule with_client_cases) (use assms(1) abi_rel_store in blast)+

lemma string_out_rel:
  assumes "abi_rel m l" "string_out s m = (p, m')"
  shows "abi_rel m' (handed p Owns_String l)"
  using assms abi_rel_alloc(1) [of m l "String_Block s" p m' Owns_String]
  by (auto simp: string_out_def cstring_new_def split: if_splits)

lemma bytes_out_rel:
  assumes "abi_rel m l" "bytes_out data m = (b, m')"
  shows "abi_rel m' (handed (ob_ptr b) (Owns_Bytes (ob_len b)) l)"
  using assms abi_rel_alloc(1) [of m l "Byte_Block data"]
  by (auto simp: bytes_out_def obby_bytes_empty_def split: if_splits prod.splits)

lemma abi_step_defined:
  assumes rel: "abi_rel m l" and may: "caller_may l call"
  shows "c_step sd e call m \<noteq> None"
proof -
  have l: "l = ledger_of m" using rel by (simp add: abi_rel_def)
  note live = null_or_live as_client_iff as_event_iff with_client_defined
  show ?thesis
  proof (cases call)
    case (Call_Bytes p data len)
    then show ?thesis
      using may by (auto simp: l null_or_live obby_client_handle_bytes_def as_client_def split: option.splits)
  next
    case (Call_Free_Bytes b)
    then show ?thesis using may by (auto simp: l null_or_live obby_client_free_bytes_def)
  next
    case (Call_Command p command)
    then show ?thesis
      using may c_built_readable [of command sd]
      by (auto simp: l null_or_live c_command_submits submit_def as_client_def split: option.splits)
  qed (use may in \<open>auto simp: l live obby_client_free_def obby_client_handle_connected_def
      obby_client_handle_disconnected_def obby_client_poll_transmit_def obby_client_poll_events_json_def
      obby_client_free_string_def obby_client_tick_def obby_client_poll_timeout_def
      obby_client_command_from_json_def obby_client_model_json_def obby_client_poll_event_def
      obby_event_get_kind_def obby_event_text_def obby_event_number_def obby_event_json_def obby_event_free_def
      as_client_def as_event_def with_client_def Let_def case_prod_unfold split: option.splits sum.splits\<close>)
qed

text \<open>Each function that changes the memory, one after another.\<close>

lemma alloc_rel:
  "abi_rel m l \<Longrightarrow> owned_as b = Some k \<Longrightarrow>
     abi_rel (snd (mem_alloc b m)) (handed (fst (mem_alloc b m)) k l)"
  using abi_rel_alloc(1) [of m l b "fst (mem_alloc b m)" "snd (mem_alloc b m)" k] by simp

lemma string_out_alloc_rel: "abi_rel m l \<Longrightarrow> abi_rel (snd (string_out s m)) (handed (fst (string_out s m)) Owns_String l)"
  by (rule string_out_rel) simp_all

lemma bytes_out_alloc_rel:
  "abi_rel m l \<Longrightarrow>
     abi_rel (snd (bytes_out d m)) (handed (ob_ptr (fst (bytes_out d m))) (Owns_Bytes (ob_len (fst (bytes_out d m)))) l)"
  by (rule bytes_out_rel) simp_all

lemma new_rel:
  assumes "abi_rel m l"
  shows "abi_rel (snd (obby_client_new config m)) (handed (fst (obby_client_new config m)) Owns_Handle l)"
    and "abi_rel (snd (obby_client_new_from_json sd json m)) (handed (fst (obby_client_new_from_json sd json m)) Owns_Handle l)"
  using assms
  by (simp_all add: obby_client_new_def obby_client_new_from_json_def Let_def alloc_rel split: option.split sum.split)

lemma free_rel:
  assumes "abi_rel m l"
  shows "obby_client_free p m = Some m' \<Longrightarrow> abi_rel m' (given_up p l)"
    and "obby_client_free_string p m = Some m' \<Longrightarrow> abi_rel m' (given_up p l)"
    and "obby_event_free p m = Some m' \<Longrightarrow> abi_rel m' (given_up p l)"
    and "obby_client_free_bytes b m = Some m' \<Longrightarrow> abi_rel m' (given_up (ob_ptr b) l)"
  using assms
  by (auto simp: obby_client_free_def obby_client_free_string_def obby_event_free_def obby_client_free_bytes_def
      intro: abi_rel_release split: if_splits option.splits block.splits)

lemma command_rel: "abi_rel m l \<Longrightarrow> c_command_step sd e p call m = Some (b, m') \<Longrightarrow> abi_rel m' l"
  by (auto simp: c_command_submits submit_def as_client_iff intro: abi_rel_store split: option.splits)

lemma command_json_rel: "abi_rel m l \<Longrightarrow> obby_client_command_from_json sd e p json m = Some (b, m') \<Longrightarrow> abi_rel m' l"
  by (auto simp: obby_client_command_from_json_def as_client_iff intro: abi_rel_store split: option.splits sum.splits)

lemma bytes_rel: "abi_rel m l \<Longrightarrow> obby_client_handle_bytes e p data len m = Some m' \<Longrightarrow> abi_rel m' l"
  by (auto simp: obby_client_handle_bytes_def as_client_iff intro: abi_rel_store split: option.splits if_splits)

lemma transmit_rel:
  assumes "abi_rel m l" "obby_client_poll_transmit p m = Some (b, m')"
  shows "abi_rel m' (handed (ob_ptr b) (Owns_Bytes (ob_len b)) l)"
proof -
  obtain r t where t: "with_client p None poll_transmit m = Some (r, t)"
    using assms(2) by (auto simp: obby_client_poll_transmit_def split: option.splits)
  then have "abi_rel t l" by (rule with_client_rel [OF assms(1)])
  with t assms(2) bytes_out_rel [of t l] show ?thesis
    by (auto simp: obby_client_poll_transmit_def obby_bytes_empty_def split: option.splits)
qed

lemma next_event_rel:
  assumes "abi_rel m l" "obby_client_poll_event sd p m = Some (q, m')"
  shows "abi_rel m' (handed q Owns_Event l)"
proof -
  obtain r t where t: "with_client p None poll_event m = Some (r, t)"
    using assms(2) by (auto simp: obby_client_poll_event_def split: option.splits)
  then have "abi_rel t l" by (rule with_client_rel [OF assms(1)])
  with t assms(2) abi_rel_alloc(1) [of t l] show ?thesis
    by (auto simp: obby_client_poll_event_def split: option.splits)
qed

lemma events_json_rel:
  "abi_rel m l \<Longrightarrow> obby_client_poll_events_json sd p m = Some (q, m') \<Longrightarrow> abi_rel m' (handed q Owns_String l)"
  by (auto simp: obby_client_poll_events_json_def as_client_iff Let_def case_prod_unfold
      intro: abi_rel_store string_out_rel split: option.splits sum.splits)

lemma model_json_rel:
  "abi_rel m l \<Longrightarrow> obby_client_model_json sd p m = Some (q, m') \<Longrightarrow> abi_rel m' (handed q Owns_String l)"
  by (auto simp: obby_client_model_json_def as_client_iff intro: string_out_rel split: option.splits sum.splits)

lemma version_rel: "abi_rel m l \<Longrightarrow> abi_rel (snd (obby_client_version m)) l"
  by (auto simp: obby_client_version_def abi_rel_def mem_ok_def mem_alloc_def ledger_of_def fun_eq_iff Let_def
      split: option.splits if_splits)

lemma abi_step_rel:
  assumes rel: "abi_rel m l" and step: "c_step sd e call m = Some (r, m')"
  shows "abi_rel m' (caller_after call r l)"
proof (cases call)
  case (Call_New config)
  then show ?thesis using step new_rel(1) [OF rel, of config] by (auto simp: map_prod_def case_prod_unfold)
next
  case (Call_New_Json json)
  then show ?thesis using step new_rel(2) [OF rel, of sd json] by (auto simp: map_prod_def case_prod_unfold)
next
  case Call_Version
  then show ?thesis using step version_rel [OF rel] by (auto simp: map_prod_def case_prod_unfold)
qed (use step rel in \<open>auto simp: obby_client_handle_connected_def obby_client_handle_disconnected_def obby_client_tick_def
    dest: free_rel [OF rel] command_rel [OF rel] command_json_rel [OF rel] bytes_rel [OF rel] transmit_rel [OF rel]
      next_event_rel [OF rel] events_json_rel [OF rel] model_json_rel [OF rel] with_client_rel [OF rel]\<close>)

interpretation abi: contract "c_step sd e" caller_may caller_after abi_rel for sd e
  by standard (auto simp: abi_step_defined intro: abi_step_rel)

section \<open>No fault, no leak\<close>

lemma abi_rel_blocks:
  assumes "abi_rel m l"
  shows "dom (mem_blocks m) = dom l \<union> set_option (mem_version m)"
proof -
  have "mem_blocks m p \<noteq> None \<longleftrightarrow> l p \<noteq> None \<or> mem_version m = Some p" for p
  proof (cases "mem_blocks m p")
    case (Some b)
    then show ?thesis using assms by (cases b) (auto simp: abi_rel_def mem_ok_def ledger_of_def)
  qed (use assms in \<open>auto simp: abi_rel_def mem_ok_def ledger_of_def\<close>)
  then show ?thesis by (auto simp: dom_def)
qed

text \<open>
  C17: a C caller that passes only null or pointers it was handed and has not freed, and lengths its
  memory has, never meets undefined behaviour, whatever it calls, in whatever order, with whatever
  strings, on however many handles at once; and at the end of any such run what is allocated is exactly
  what the caller's own ledger holds, kind by kind and length by length, and the version string: nothing
  is leaked and nothing is freed behind its back.
\<close>

theorem c_caller_never_faults:
  "case c_run sd e calls memory_new Map.empty of
     Undefined_Behaviour \<Rightarrow> False
   | Contract_Broken \<Rightarrow> True
   | Done m l \<Rightarrow> ledger_of m = l \<and> dom (mem_blocks m) = dom l \<union> set_option (mem_version m)"
proof (cases "c_run sd e calls memory_new Map.empty")
  case (Done m l)
  then have "abi_rel m l" by (rule abi.run_rel [OF abi_rel_new])
  then show ?thesis by (simp add: Done abi_rel_blocks) (simp add: abi_rel_def)
qed (use abi.run_defined [OF abi_rel_new] in auto)

section \<open>Handles\<close>

text \<open>The handle a call is about, and what the call comes to for the engine behind it.\<close>

definition call_handle :: "c_call \<Rightarrow> addr" where
  "call_handle call =
     (case call of
        Call_Connected p \<Rightarrow> p | Call_Disconnected p \<Rightarrow> p | Call_Bytes p _ _ \<Rightarrow> p | Call_Transmit p \<Rightarrow> p
      | Call_Events_Json p \<Rightarrow> p | Call_Tick p _ _ \<Rightarrow> p | Call_Timeout p _ \<Rightarrow> p | Call_Command_Json p _ \<Rightarrow> p
      | Call_Model_Json p \<Rightarrow> p | Call_Command p _ \<Rightarrow> p | Call_Next_Event p \<Rightarrow> p | _ \<Rightarrow> 0)"

definition call_inputs :: "serde \<Rightarrow> c_call \<Rightarrow> client \<Rightarrow> input list" where
  "call_inputs sd call c =
     (case call of
        Call_Connected _ \<Rightarrow> [Connected]
      | Call_Disconnected _ \<Rightarrow> [Lost]
      | Call_Bytes _ data len \<Rightarrow>
          (if len = 0 then [Read []] else case data of Some bytes \<Rightarrow> [Read (take len bytes)] | None \<Rightarrow> [])
      | Call_Transmit _ \<Rightarrow> [Poll_Transmit]
      | Call_Events_Json _ \<Rightarrow> replicate (length (cl_events c)) Poll_Event
      | Call_Tick _ mt ut \<Rightarrow> [Tick \<lparr>now_monotonic_ms = mt, now_unix_ms = ut\<rparr>]
      | Call_Command_Json _ json \<Rightarrow>
          (case str_from_ptr json of
             Some json \<Rightarrow> (case de_command sd json of Inr command \<Rightarrow> [Ask command] | Inl _ \<Rightarrow> [])
           | None \<Rightarrow> [])
      | Call_Command _ call \<Rightarrow>
          (case c_built sd call of Some (Some command) \<Rightarrow> [Ask command] | _ \<Rightarrow> [])
      | Call_Next_Event _ \<Rightarrow> [Poll_Event]
      | _ \<Rightarrow> [])"

definition call_effect :: "serde \<Rightarrow> externals \<Rightarrow> c_call \<Rightarrow> client \<Rightarrow> client" where
  "call_effect sd e call c = fold (client_step e) (call_inputs sd call c) c"

lemma drain_loop_all: "ffi_drain_loop c events = (events @ cl_events c, c\<lparr>cl_events := []\<rparr>)"
proof (induction c events rule: ffi_drain_loop.induct)
  case (1 c events)
  show ?case
  proof (cases "cl_events c")
    case Nil
    then show ?thesis by (simp add: ffi_drain_loop.simps [of c] poll_event_def)
  next
    case (Cons ev rest)
    then have "poll_event c = (Some ev, c\<lparr>cl_events := rest\<rparr>)" by (simp add: poll_event_def)
    with 1 [OF this [symmetric] refl] Cons show ?thesis by (simp add: ffi_drain_loop.simps [of c])
  qed
qed

lemma poll_events_all:
  "n = length (cl_events c) \<Longrightarrow> fold (client_step e) (replicate n Poll_Event) c = c\<lparr>cl_events := []\<rparr>"
proof (induction n arbitrary: c)
  case (Suc n)
  then obtain ev rest where c: "cl_events c = ev # rest" "n = length rest"
    by (metis Suc_length_conv)
  then show ?case
    using Suc.IH [of "c\<lparr>cl_events := rest\<rparr>"] by (simp add: poll_event_def del: fold_replicate)
qed simp

lemma mem_store_other [simp]:
  "mem_blocks (mem_store q b m) p = (if p = q then Some b else mem_blocks m p)"
  "mem_blocks (mem_release q m) p = (if p = q then None else mem_blocks m p)"
  by (simp_all add: mem_store_def mem_release_def)

lemma mem_alloc_live:
  "mem_ok m \<Longrightarrow> mem_blocks m p = Some b \<Longrightarrow> mem_blocks (snd (mem_alloc b' m)) p = Some b"
  by (auto simp: mem_alloc_def mem_ok_def)

lemma out_live:
  assumes "mem_ok m" "mem_blocks m p = Some b"
  shows "mem_blocks (snd (string_out s m)) p = Some b" "mem_blocks (snd (bytes_out d m)) p = Some b"
    "mem_blocks (snd (obby_client_new config m)) p = Some b"
    "mem_blocks (snd (obby_client_new_from_json sd json m)) p = Some b"
    "mem_blocks (snd (obby_client_version m)) p = Some b"
  using assms mem_alloc_live [OF assms]
  by (auto simp: string_out_def bytes_out_def obby_client_new_def obby_client_new_from_json_def obby_client_version_def
      Let_def case_prod_unfold split: option.split sum.split)

lemma with_client_handle:
  assumes "with_client q absent f m = Some (r, m')" "mem_blocks m p = Some (Handle c)" "p \<noteq> 0"
  shows "mem_blocks m' p = Some (Handle (if q = p then snd (f c) else c))"
  using assms(1) by (rule with_client_cases) (use assms(2,3) in auto)

text \<open>A call leaves a live handle where it is, and moves the engine behind it only if it is the one named.\<close>

lemma c_step_handle:
  assumes rel: "abi_rel m l" and step: "c_step sd e call m = Some (r, m')"
    and live: "mem_blocks m p = Some (Handle c)" and kept: "call \<noteq> Call_Free p"
  shows "mem_blocks m' p = Some (Handle (if call_handle call = p then call_effect sd e call c else c))"
proof -
  have ok: "mem_ok m"
    using rel by (simp add: abi_rel_def)
  then have p: "p \<noteq> 0"
    using live by (metis mem_ok_def option.distinct(1))
  note out = out_live [OF ok live]
  show ?thesis
  proof (cases call)
    case (Call_Transmit q)
    then obtain t u where t: "with_client q None poll_transmit m = Some (t, u)"
      "(r, m') = (case t of None \<Rightarrow> (Buffer obby_bytes_empty, u) | Some d \<Rightarrow> map_prod Buffer id (bytes_out d u))"
      using step by (auto simp: obby_client_poll_transmit_def split: option.splits)
    have "abi_rel u l" by (rule with_client_rel [OF rel t(1)])
    with t(2) have "mem_blocks m' p = mem_blocks u p" if "mem_blocks u p = Some b" for b
      using out_live(2) [OF _ that] that by (auto simp: abi_rel_def map_prod_def case_prod_unfold split: option.splits)
    with with_client_handle [OF t(1) live p] Call_Transmit show ?thesis
      by (simp add: call_handle_def call_effect_def call_inputs_def)
  next
    case (Call_Next_Event q)
    then obtain t u where t: "with_client q None poll_event m = Some (t, u)"
      "(r, m') = (case t of None \<Rightarrow> (Pointer 0, u)
                  | Some ev \<Rightarrow> map_prod Pointer id (mem_alloc (Event_Block (event_out sd ev)) u))"
      using step by (auto simp: obby_client_poll_event_def split: option.splits)
    have "abi_rel u l" by (rule with_client_rel [OF rel t(1)])
    with t(2) have "mem_blocks m' p = mem_blocks u p" if "mem_blocks u p = Some b" for b
      using mem_alloc_live [OF _ that] that by (auto simp: abi_rel_def map_prod_def case_prod_unfold split: option.splits)
    with with_client_handle [OF t(1) live p] Call_Next_Event show ?thesis
      by (simp add: call_handle_def call_effect_def call_inputs_def)
  next
    case (Call_Events_Json q)
    show ?thesis
    proof (cases "q = 0")
      case True
      then show ?thesis
        using step live p Call_Events_Json by (simp add: obby_client_poll_events_json_def as_client_def call_handle_def)
    next
      case False
      then obtain c' where q: "mem_blocks m q = Some (Handle c')"
        using step Call_Events_Json
        by (auto simp: obby_client_poll_events_json_def as_client_def split: option.splits block.splits)
      let ?u = "mem_store q (Handle (c'\<lparr>cl_events := []\<rparr>)) m"
      have "mem_ok ?u"
        using abi_rel_store [OF rel q] by (simp add: abi_rel_def)
      moreover have "m' = ?u \<or> m' = snd (string_out (projr (ser_events sd (cl_events c'))) ?u)"
        using step False q Call_Events_Json
        by (cases "ser_events sd (cl_events c')")
          (auto simp: obby_client_poll_events_json_def as_client_def drain_loop_all map_prod_def case_prod_unfold)
      ultimately have "mem_blocks m' p = mem_blocks ?u p"
        using out_live(1) [of ?u p] live by (auto split: if_splits)
      then show ?thesis
        using q live Call_Events_Json
        by (auto simp: call_handle_def call_effect_def call_inputs_def poll_events_all simp del: fold_replicate)
    qed
  next
    case (Call_Command q command)
    then show ?thesis
      using step live p
      by (auto simp: c_command_submits submit_def as_client_iff call_handle_def call_effect_def call_inputs_def split: option.splits)
  next
    case (Call_Command_Json q json)
    then show ?thesis
      using step live p
      by (auto simp: obby_client_command_from_json_def as_client_iff call_handle_def call_effect_def call_inputs_def
          split: option.splits sum.splits)
  next
    case (Call_Bytes q data len)
    then show ?thesis
      using step live p
      by (auto simp: obby_client_handle_bytes_def as_client_iff call_handle_def call_effect_def call_inputs_def
          split: option.splits if_splits)
  next
    case (Call_Model_Json q)
    then show ?thesis
      using step live p out
      by (auto simp: obby_client_model_json_def as_client_iff call_handle_def call_effect_def call_inputs_def
          split: option.splits sum.splits) (metis out(1) snd_conv)
  next
    case (Call_Free_Bytes b)
    then show ?thesis
      using step live by (auto simp: call_handle_def obby_client_free_bytes_def p split: option.splits block.splits if_splits)
  next
    case (Call_Free q)
    then show ?thesis
      using step live kept by (auto simp: call_handle_def obby_client_free_def p split: option.splits block.splits if_splits)
  next
    case (Call_Free_String q)
    then show ?thesis
      using step live by (auto simp: call_handle_def obby_client_free_string_def p split: option.splits block.splits if_splits)
  next
    case (Call_Free_Event q)
    then show ?thesis
      using step live by (auto simp: call_handle_def obby_event_free_def p split: option.splits block.splits if_splits)
  qed (use step live p out in \<open>auto simp: obby_client_handle_connected_def obby_client_handle_disconnected_def
      obby_client_tick_def call_handle_def call_effect_def call_inputs_def map_prod_def case_prod_unfold
      dest: with_client_handle [OF _ live p]\<close>)
qed

lemma c_run_handle:
  assumes "abi_rel m l" "c_run sd e calls m l = Done m' l'" "mem_blocks m p = Some (Handle c)" "Call_Free p \<notin> set calls"
  shows "mem_blocks m' p = Some (Handle (fold (call_effect sd e) (filter (\<lambda>call. call_handle call = p) calls) c))"
  using assms
proof (induction calls arbitrary: m l c)
  case (Cons call calls)
  from Cons.prems(2) obtain r t where t: "c_step sd e call m = Some (r, t)"
    "c_run sd e calls t (caller_after call r l) = Done m' l'"
    unfolding contract_run_Cons_Done by blast
  have "call \<noteq> Call_Free p"
    using Cons.prems(4) by auto
  then have "mem_blocks t p = Some (Handle (if call_handle call = p then call_effect sd e call c else c))"
    by (rule c_step_handle [OF Cons.prems(1) t(1) Cons.prems(3)])
  from Cons.IH [OF abi_step_rel [OF Cons.prems(1) t(1)] t(2) this] Cons.prems(4) show ?case
    by (simp split: if_splits)
qed simp

text \<open>
  C18: handles are independent of each other: however the calls on several handles are interleaved, the
  engine behind one is what its own calls alone, in their order, make of it; calls on other handles, the
  making and freeing of other handles, and the freeing of strings, buffers and events do not touch it.
\<close>

theorem handles_are_independent:
  assumes "c_run sd e before memory_new Map.empty = Done m l" "mem_blocks m p = Some (Handle c)"
    and "c_run sd e calls m l = Done m' l'" "Call_Free p \<notin> set calls"
  shows "mem_blocks m' p = Some (Handle (fold (call_effect sd e) (filter (\<lambda>call. call_handle call = p) calls) c))"
  by (rule c_run_handle [OF abi.run_rel [OF abi_rel_new assms(1)] assms(3,2,4)])

text \<open>Serialisers that know one signal, and two handles; the examples below are about them.\<close>

definition sample_serde :: "signal \<Rightarrow> serde" where
  "sample_serde sig =
     \<lparr>de_config = (\<lambda>_. Inl ''no''), de_credentials = (\<lambda>_. Inl ''no''), de_command = (\<lambda>_. Inl ''no''),
      de_signal = (\<lambda>json. if json = ''s'' then Inr sig else Inl ''no''), ser_event = (\<lambda>_. Inr ''{}''),
      ser_events = (\<lambda>_. Inr ''[]''), ser_model = (\<lambda>_. Inr ''{}'')\<rparr>"

definition sample_memory :: memory where
  "sample_memory =
     \<lparr>mem_blocks = [1 \<mapsto> Handle (client_new (config_new ''me'')), 2 \<mapsto> Handle (client_new (config_new ''me''))],
      mem_next = 3, mem_version = None\<rparr>"

definition sample_config :: "string \<Rightarrow> obby_config option" where
  "sample_config nick =
     Some \<lparr>oc_nick = Some (nick @ [nul]), oc_username = None, oc_realname = None, oc_password = None, oc_retention = 0\<rparr>"

lemma sample_new:
  "obby_client_new (sample_config ''me'') m = mem_alloc (Handle (client_new (config_new ''me''))) m"
  by (simp add: obby_client_new_def sample_config_def str_from_ptr_def config_new_def ascii_valid is_ascii_def
      del: valid_utf8.simps)

lemmas c_run_eval = sample_new mem_alloc_def memory_new_def handed_def given_up_def null_or_def mem_store_def
  mem_release_def obby_client_handle_connected_def obby_client_free_def with_client_live

lemma c_run_two_handles:
  "c_run sd e [Call_New (sample_config ''me''), Call_New (sample_config ''me'')] memory_new Map.empty =
     Done sample_memory [1 \<mapsto> Owns_Handle, 2 \<mapsto> Owns_Handle]"
  by (simp add: c_run_eval sample_memory_def numeral_3_eq_3 numeral_2_eq_2)

text \<open>A run that gives everything back, and one that frees a handle twice.\<close>

lemma c_run_clean:
  "c_run (sample_serde sig) e
     [Call_New (sample_config ''me''), Call_Connected 1, Call_Model_Json 1, Call_Free_String 2, Call_Free 1]
     memory_new Map.empty = Done \<lparr>mem_blocks = Map.empty, mem_next = 3, mem_version = None\<rparr> Map.empty"
  "c_run sd e [Call_New (sample_config ''me''), Call_Free 1, Call_Free 1] memory_new Map.empty = Contract_Broken"
  by (simp_all add: c_run_eval obby_client_model_json_def as_client_def sample_serde_def string_out_def cstring_new_def
      obby_client_free_string_def numeral_3_eq_3 numeral_2_eq_2)

theorem handles_are_independent_witness:
  "\<exists>m' l'. c_run (sample_serde SigSpeaking) sample_externals
         [Call_Connected 2, Call_Connected 1, Call_Free 2, Call_Version] sample_memory [1 \<mapsto> Owns_Handle, 2 \<mapsto> Owns_Handle]
       = Done m' l'
     \<and> mem_blocks m' 1 = Some (Handle (handle_connected (client_new (config_new ''me''))))"
proof -
  let ?calls = "[Call_Connected 2, Call_Connected 1, Call_Free 2, Call_Version]"
  let ?c = "client_new (config_new ''me'')"
  obtain m' l' where run: "c_run (sample_serde SigSpeaking) sample_externals ?calls sample_memory
      [1 \<mapsto> Owns_Handle, 2 \<mapsto> Owns_Handle] = Done m' l'"
    by (simp add: c_run_eval sample_memory_def case_prod_unfold)
  have "mem_blocks m' 1 = Some (Handle (handle_connected ?c))"
    using handles_are_independent [OF c_run_two_handles _ run, of 1 ?c]
    by (simp add: sample_memory_def call_handle_def call_effect_def call_inputs_def)
  with run show ?thesis by blast
qed

section \<open>The engines behind the handles are sound\<close>

definition call_cost :: "c_call \<Rightarrow> nat" where
  "call_cost call =
     (case call of
        Call_Bytes _ (Some bytes) len \<Rightarrow> DEFAULT_MAX_BUFFERED * count_list (take len bytes) nl
      | Call_Command _ _ \<Rightarrow> 1
      | Call_Command_Json _ _ \<Rightarrow> 1
      | _ \<Rightarrow> 0)"

lemma call_inputs_cost: "sum_list (map input_cost (call_inputs sd call c)) \<le> call_cost call"
  by (auto simp: call_inputs_def call_cost_def sum_list_replicate split: c_call.split option.split sum.split)

definition handle_sound :: "nat \<Rightarrow> client \<Rightarrow> bool" where
  "handle_sound n c \<longleftrightarrow> client_sound c \<and> buffer_ok c \<and> seq_of c \<le> n"

lemma call_effect_sound:
  assumes "handle_sound n c" "n + call_cost call \<le> u64_max"
  shows "handle_sound (n + call_cost call) (call_effect sd e call c)"
  using assms call_inputs_cost [of sd call c] client.run_both [of c "call_inputs sd call c" e]
  by (simp add: handle_sound_def call_effect_def)

lemma handle_sound_mono: "handle_sound n c \<Longrightarrow> n \<le> k \<Longrightarrow> handle_sound k c"
  by (simp add: handle_sound_def)

text \<open>The only handles that appear are new engines.\<close>

lemma alloc_handles:
  "\<nexists>c. b = Handle c \<Longrightarrow> mem_blocks (snd (mem_alloc b m)) p = Some (Handle c) \<Longrightarrow> mem_blocks m p = Some (Handle c)"
  by (auto simp: mem_alloc_def split: if_splits)

lemma out_handles:
  "mem_blocks (snd (string_out s m)) p = Some (Handle c) \<Longrightarrow> mem_blocks m p = Some (Handle c)"
  "mem_blocks (snd (bytes_out d m)) p = Some (Handle c) \<Longrightarrow> mem_blocks m p = Some (Handle c)"
  "mem_blocks (snd (obby_client_version m)) p = Some (Handle c) \<Longrightarrow> mem_blocks m p = Some (Handle c)"
  by (auto simp: string_out_def bytes_out_def obby_client_version_def Let_def case_prod_unfold
      dest: alloc_handles [rotated] split: option.splits if_splits)

lemma new_handles:
  "mem_blocks (snd (obby_client_new config m)) p = Some (Handle c) \<Longrightarrow>
     mem_blocks m p = Some (Handle c) \<or> (\<exists>cfg. c = client_new cfg)"
  "mem_blocks (snd (obby_client_new_from_json sd json m)) p = Some (Handle c) \<Longrightarrow>
     mem_blocks m p = Some (Handle c) \<or> (\<exists>cfg. c = client_new cfg)"
  by (auto simp: obby_client_new_def obby_client_new_from_json_def mem_alloc_def Let_def
      split: option.splits sum.splits if_splits)

lemma with_client_new_handle:
  assumes "with_client q absent f m = Some (r, m')" "mem_blocks m' p = Some (Handle c)"
  shows "\<exists>c. mem_blocks m p = Some (Handle c)"
  using assms(1) by (rule with_client_cases) (use assms(2) in \<open>auto split: if_splits\<close>)

lemma c_step_new_handle:
  assumes step: "c_step sd e call m = Some (r, m')" and new: "mem_blocks m' p = Some (Handle c)"
    and absent: "\<nexists>c. mem_blocks m p = Some (Handle c)"
  shows "\<exists>cfg. c = client_new cfg"
proof (cases call)
  case (Call_New config)
  then show ?thesis using step new absent new_handles(1) [of config m p c] by (auto simp: map_prod_def case_prod_unfold)
next
  case (Call_New_Json json)
  then show ?thesis using step new absent new_handles(2) [of sd json m p c] by (auto simp: map_prod_def case_prod_unfold)
next
  case Call_Version
  then show ?thesis using step new absent out_handles(3) [of m p c] by (auto simp: map_prod_def case_prod_unfold)
next
  case (Call_Transmit q)
  then obtain t u where t: "with_client q None poll_transmit m = Some (t, u)"
    "(r, m') = (case t of None \<Rightarrow> (Buffer obby_bytes_empty, u) | Some d \<Rightarrow> map_prod Buffer id (bytes_out d u))"
    using step by (auto simp: obby_client_poll_transmit_def split: option.splits)
  then have "mem_blocks u p = Some (Handle c)"
    using new by (cases t) (auto simp: map_prod_def case_prod_unfold dest: out_handles(2))
  with with_client_new_handle [OF t(1)] absent show ?thesis by blast
next
  case (Call_Next_Event q)
  then obtain t u where t: "with_client q None poll_event m = Some (t, u)"
    "(r, m') = (case t of None \<Rightarrow> (Pointer 0, u)
                | Some ev \<Rightarrow> map_prod Pointer id (mem_alloc (Event_Block (event_out sd ev)) u))"
    using step by (auto simp: obby_client_poll_event_def split: option.splits)
  then have "mem_blocks u p = Some (Handle c)"
    using new by (cases t) (auto simp: map_prod_def case_prod_unfold dest: alloc_handles [rotated])
  with with_client_new_handle [OF t(1)] absent show ?thesis by blast
next
  case (Call_Events_Json q)
  show ?thesis
  proof (cases "q = 0")
    case True
    then show ?thesis
      using step new absent Call_Events_Json by (auto simp: obby_client_poll_events_json_def as_client_def)
  next
    case False
    then obtain c' where q: "mem_blocks m q = Some (Handle c')"
      using step Call_Events_Json
      by (auto simp: obby_client_poll_events_json_def as_client_def split: option.splits block.splits)
    let ?u = "mem_store q (Handle (c'\<lparr>cl_events := []\<rparr>)) m"
    have "m' = ?u \<or> m' = snd (string_out (projr (ser_events sd (cl_events c'))) ?u)"
      using step False q Call_Events_Json
      by (cases "ser_events sd (cl_events c')")
        (auto simp: obby_client_poll_events_json_def as_client_def drain_loop_all map_prod_def case_prod_unfold)
    then have "mem_blocks ?u p = Some (Handle c)"
      using new out_handles(1) by blast
    with q absent show ?thesis by (auto split: if_splits)
  qed
next
  case (Call_Model_Json q)
  then have "m' = m \<or> (\<exists>s. m' = snd (string_out s m))"
    using step by (auto simp: obby_client_model_json_def split: option.splits sum.splits) (metis snd_conv)
  then show ?thesis using new absent out_handles(1) by blast
qed (use step new absent in \<open>auto simp: obby_client_handle_connected_def obby_client_handle_disconnected_def
    obby_client_tick_def c_command_submits submit_def obby_client_command_from_json_def obby_client_handle_bytes_def as_client_iff
    obby_client_free_def obby_client_free_string_def obby_client_free_bytes_def obby_event_free_def
    dest: with_client_new_handle split: option.splits sum.splits block.splits if_splits\<close>)

definition mem_sound :: "nat \<Rightarrow> memory \<Rightarrow> bool" where
  "mem_sound n m \<longleftrightarrow> (\<forall>p c. mem_blocks m p = Some (Handle c) \<longrightarrow> handle_sound n c)"

lemma new_handle_sound: "handle_sound n (client_new cfg)"
  using client_new_sound [of cfg] by (simp add: handle_sound_def)

lemma c_step_sound:
  assumes rel: "abi_rel m l" and step: "c_step sd e call m = Some (r, m')" and sound: "mem_sound n m"
    and room: "n + call_cost call \<le> u64_max"
  shows "mem_sound (n + call_cost call) m'"
  unfolding mem_sound_def
proof (intro allI impI)
  fix p c' assume c': "mem_blocks m' p = Some (Handle c')"
  show "handle_sound (n + call_cost call) c'"
  proof (cases "\<exists>c. mem_blocks m p = Some (Handle c)")
    case True
    then obtain c where c: "mem_blocks m p = Some (Handle c)" "handle_sound n c"
      using sound by (auto simp: mem_sound_def)
    have "p \<noteq> 0"
      using rel c(1) by (metis abi_rel_def mem_ok_def option.distinct(1))
    then have "call \<noteq> Call_Free p"
      using step c' by (auto simp: obby_client_free_def split: option.splits block.splits)
    from c_step_handle [OF rel step c(1) this] c' have "c' = (if call_handle call = p then call_effect sd e call c else c)"
      by simp
    with call_effect_sound [OF c(2) room] handle_sound_mono [OF c(2)] show ?thesis by simp
  next
    case False
    then show ?thesis using c_step_new_handle [OF step c'] new_handle_sound by blast
  qed
qed

lemma c_run_sound:
  assumes "abi_rel m l" "mem_sound n m" "n + sum_list (map call_cost calls) \<le> u64_max"
    and "c_run sd e calls m l = Done m' l'"
  shows "mem_sound (n + sum_list (map call_cost calls)) m'"
  using assms
proof (induction calls arbitrary: m l n)
  case (Cons call calls)
  from Cons.prems(4) obtain r t where t: "c_step sd e call m = Some (r, t)"
    "c_run sd e calls t (caller_after call r l) = Done m' l'"
    unfolding contract_run_Cons_Done by blast
  have "mem_sound (n + call_cost call) t"
    using Cons.prems(3) c_step_sound [OF Cons.prems(1) t(1) Cons.prems(2)] by simp
  from Cons.IH [OF abi_step_rel [OF Cons.prems(1) t(1)] this _ t(2)] Cons.prems(3) show ?case
    by (simp add: add.assoc)
qed simp

text \<open>
  Whatever a C caller does that keeps the contract, on any number of handles, and whatever bytes it
  feeds them, every engine behind a live handle keeps the invariant of the connection, as long as the
  sequence numbers cannot have run out.
\<close>

theorem handles_stay_sound:
  assumes "c_run sd e calls memory_new Map.empty = Done m l" "sum_list (map call_cost calls) \<le> u64_max"
    and "mem_blocks m p = Some (Handle c)"
  shows "client_sound c \<and> buffer_ok c"
proof -
  have "mem_sound 0 memory_new"
    by (simp add: mem_sound_def memory_new_def)
  from c_run_sound [OF abi_rel_new this _ assms(1)] assms(2,3) show ?thesis
    by (auto simp: mem_sound_def handle_sound_def)
qed

theorem handles_stay_sound_witness:
  "client_sound (client_new (config_new ''me'')) \<and> buffer_ok (client_new (config_new ''me''))"
  by (rule handles_stay_sound [OF c_run_two_handles, where p = 2]) (simp_all add: call_cost_def sample_memory_def)

end
