(* ===== verification/Wasm.thy ===== *)
theory Wasm
  imports Client_Run Complex_Main
begin

text \<open>
  The WebAssembly interface (\<open>bindings/obby-wasm/src/lib.rs\<close>): one object around the engine, whose
  methods take JavaScript values. What \<open>serde_wasm_bindgen\<close> makes of a value is the record \<open>js_serde\<close>, a
  parameter over the type \<open>'v\<close> of JavaScript values, which are also what is thrown. A number of
  JavaScript is an IEEE double: not a number, an infinity, or a rational.
\<close>

section \<open>Values\<close>

record 'v js_serde =
  js_config :: "'v \<Rightarrow> 'v + config"
  js_typing :: "'v \<Rightarrow> 'v + typing_state"
  js_command :: "'v \<Rightarrow> 'v + command"
  js_signal :: "'v \<Rightarrow> 'v + signal"
  js_events :: "event list \<Rightarrow> 'v + 'v"
  js_model :: "model \<Rightarrow> 'v + 'v"

datatype js_number = Not_A_Number | Infinite bool | Finite rat

definition as_millis :: "js_number \<Rightarrow> nat" where
  "as_millis v = (case v of Finite x \<Rightarrow> (if x \<ge> 0 then min u64_max (nat \<lfloor>x\<rfloor>) else 0) | _ \<Rightarrow> 0)"

text \<open>
  \<open>u64 as f64\<close>: a double has 53 bits, so a larger number is rounded to the nearest multiple of a power
  of two, to the even one of two as near.
\<close>

function f64_exponent :: "nat \<Rightarrow> nat" where
  "f64_exponent n = (if n < 2 ^ 53 then 0 else Suc (f64_exponent (n div 2)))"
  by pat_completeness auto
termination f64_exponent
  by (relation "measure (\<lambda>n. n)") auto

declare f64_exponent.simps [simp del]

definition f64_round :: "nat \<Rightarrow> nat" where
  "f64_round n =
     (let k = 2 ^ f64_exponent n;
          q = n div k;
          r = n mod k
      in if 2 * r > k \<or> (2 * r = k \<and> odd q) then (q + 1) * k else q * k)"

definition as_js_number :: "nat \<Rightarrow> js_number" where
  "as_js_number n = Finite (of_nat (f64_round n))"

section \<open>The object\<close>

record wasm_client =
  wasm_inner :: client

definition wasm_new :: "'v js_serde \<Rightarrow> 'v \<Rightarrow> 'v + wasm_client" where
  "wasm_new s v = (case js_config s v of Inl err \<Rightarrow> Inl err | Inr config \<Rightarrow> Inr \<lparr>wasm_inner = client_new config\<rparr>)"

definition wasm_apply :: "externals \<Rightarrow> command \<Rightarrow> wasm_client \<Rightarrow> wasm_client" where
  "wasm_apply e command w = w\<lparr>wasm_inner := client_command e command (wasm_inner w)\<rparr>"

definition wasm_handle_connected :: "wasm_client \<Rightarrow> wasm_client" where
  "wasm_handle_connected w = w\<lparr>wasm_inner := handle_connected (wasm_inner w)\<rparr>"

definition wasm_handle_disconnected :: "wasm_client \<Rightarrow> wasm_client" where
  "wasm_handle_disconnected w = w\<lparr>wasm_inner := handle_disconnected (wasm_inner w)\<rparr>"

definition wasm_tick :: "js_number \<Rightarrow> js_number \<Rightarrow> wasm_client \<Rightarrow> wasm_client" where
  "wasm_tick monotonic_ms unix_ms w =
     w\<lparr>wasm_inner :=
         tick \<lparr>now_monotonic_ms = as_millis monotonic_ms, now_unix_ms = as_millis unix_ms\<rparr> (wasm_inner w)\<rparr>"

definition wasm_poll_timeout :: "wasm_client \<Rightarrow> js_number option" where
  "wasm_poll_timeout w = map_option as_js_number (poll_timeout (wasm_inner w))"

section \<open>Commands\<close>

definition wasm_join :: "externals \<Rightarrow> string \<Rightarrow> string option \<Rightarrow> wasm_client \<Rightarrow> wasm_client" where
  "wasm_join e channel key = wasm_apply e (Join_Channel channel key)"

definition wasm_part :: "externals \<Rightarrow> string \<Rightarrow> string option \<Rightarrow> wasm_client \<Rightarrow> wasm_client" where
  "wasm_part e channel reason = wasm_apply e (Part_Channel channel reason)"

definition wasm_send_message :: "externals \<Rightarrow> string \<Rightarrow> string \<Rightarrow> wasm_client \<Rightarrow> wasm_client" where
  "wasm_send_message e target body = wasm_apply e (SendMessage target body)"

definition wasm_send_notice :: "externals \<Rightarrow> string \<Rightarrow> string \<Rightarrow> wasm_client \<Rightarrow> wasm_client" where
  "wasm_send_notice e target body = wasm_apply e (SendNotice target body)"

definition wasm_send_action :: "externals \<Rightarrow> string \<Rightarrow> string \<Rightarrow> wasm_client \<Rightarrow> wasm_client" where
  "wasm_send_action e target body = wasm_apply e (SendAction target body)"

definition wasm_set_nick :: "externals \<Rightarrow> string \<Rightarrow> wasm_client \<Rightarrow> wasm_client" where
  "wasm_set_nick e nick = wasm_apply e (SetNick nick)"

definition wasm_set_topic :: "externals \<Rightarrow> string \<Rightarrow> string option \<Rightarrow> wasm_client \<Rightarrow> wasm_client" where
  "wasm_set_topic e channel topic = wasm_apply e (SetTopic channel topic)"

definition wasm_set_away :: "externals \<Rightarrow> string option \<Rightarrow> wasm_client \<Rightarrow> wasm_client" where
  "wasm_set_away e msg = wasm_apply e (SetAway msg)"

definition wasm_set_typing :: "'v js_serde \<Rightarrow> externals \<Rightarrow> string \<Rightarrow> 'v \<Rightarrow> wasm_client \<Rightarrow> 'v + wasm_client" where
  "wasm_set_typing s e target v w =
     (case js_typing s v of Inl err \<Rightarrow> Inl err | Inr state \<Rightarrow> Inr (wasm_apply e (SetTyping target state) w))"

definition wasm_add_reaction :: "externals \<Rightarrow> string \<Rightarrow> string \<Rightarrow> string \<Rightarrow> wasm_client \<Rightarrow> wasm_client" where
  "wasm_add_reaction e target msgid emoji = wasm_apply e (AddReaction target msgid emoji)"

definition wasm_remove_reaction :: "externals \<Rightarrow> string \<Rightarrow> string \<Rightarrow> string \<Rightarrow> wasm_client \<Rightarrow> wasm_client" where
  "wasm_remove_reaction e target msgid emoji = wasm_apply e (RemoveReaction target msgid emoji)"

definition wasm_redact_message :: "externals \<Rightarrow> string \<Rightarrow> string \<Rightarrow> string option \<Rightarrow> wasm_client \<Rightarrow> wasm_client" where
  "wasm_redact_message e target msgid reason = wasm_apply e (RedactMessage target msgid reason)"

definition wasm_mark_read :: "externals \<Rightarrow> string \<Rightarrow> js_number \<Rightarrow> wasm_client \<Rightarrow> wasm_client" where
  "wasm_mark_read e target at_ms = wasm_apply e (MarkRead target (as_millis at_ms))"

definition wasm_fetch_history :: "externals \<Rightarrow> string \<Rightarrow> string option \<Rightarrow> nat \<Rightarrow> wasm_client \<Rightarrow> wasm_client" where
  "wasm_fetch_history e target before_msgid limit = wasm_apply e (FetchHistory target before_msgid limit)"

definition wasm_set_metadata :: "externals \<Rightarrow> string \<Rightarrow> string option \<Rightarrow> wasm_client \<Rightarrow> wasm_client" where
  "wasm_set_metadata e key new_value = wasm_apply e (SetMetadata key new_value)"

definition wasm_subscribe_metadata :: "externals \<Rightarrow> string list \<Rightarrow> wasm_client \<Rightarrow> wasm_client" where
  "wasm_subscribe_metadata e keys = wasm_apply e (SubscribeMetadata keys)"

definition wasm_whois :: "externals \<Rightarrow> string \<Rightarrow> wasm_client \<Rightarrow> wasm_client" where
  "wasm_whois e nick = wasm_apply e (Whois nick)"

definition wasm_rename_channel :: "externals \<Rightarrow> string \<Rightarrow> string \<Rightarrow> string option \<Rightarrow> wasm_client \<Rightarrow> wasm_client" where
  "wasm_rename_channel e channel new_name reason = wasm_apply e (RenameChannel channel new_name reason)"

definition wasm_create_invite_link :: "externals \<Rightarrow> string option \<Rightarrow> string option \<Rightarrow> wasm_client \<Rightarrow> wasm_client" where
  "wasm_create_invite_link e channel description = wasm_apply e (CreateInviteLink channel description)"

definition wasm_list_invite_links :: "externals \<Rightarrow> wasm_client \<Rightarrow> wasm_client" where
  "wasm_list_invite_links e = wasm_apply e ListInviteLinks"

definition wasm_delete_invite_link :: "externals \<Rightarrow> string \<Rightarrow> wasm_client \<Rightarrow> wasm_client" where
  "wasm_delete_invite_link e share_id = wasm_apply e (DeleteInviteLink share_id)"

definition wasm_redeem_invite_code :: "externals \<Rightarrow> string \<Rightarrow> wasm_client \<Rightarrow> wasm_client" where
  "wasm_redeem_invite_code e code = wasm_apply e (RedeemInviteCode code)"

definition wasm_generate_token :: "externals \<Rightarrow> string \<Rightarrow> wasm_client \<Rightarrow> wasm_client" where
  "wasm_generate_token e service = wasm_apply e (GenerateToken service)"

definition wasm_watch_nicks :: "externals \<Rightarrow> string list \<Rightarrow> wasm_client \<Rightarrow> wasm_client" where
  "wasm_watch_nicks e nicks = wasm_apply e (WatchNicks nicks)"

definition wasm_unwatch_nicks :: "externals \<Rightarrow> string list \<Rightarrow> wasm_client \<Rightarrow> wasm_client" where
  "wasm_unwatch_nicks e nicks = wasm_apply e (UnwatchNicks nicks)"

definition wasm_send_voice_signal :: "'v js_serde \<Rightarrow> externals \<Rightarrow> string \<Rightarrow> 'v \<Rightarrow> wasm_client \<Rightarrow> 'v + wasm_client" where
  "wasm_send_voice_signal s e channel v w =
     (case js_signal s v of Inl err \<Rightarrow> Inl err | Inr sig \<Rightarrow> Inr (wasm_apply e (SendVoiceSignal channel sig) w))"

definition wasm_quit :: "externals \<Rightarrow> string option \<Rightarrow> wasm_client \<Rightarrow> wasm_client" where
  "wasm_quit e reason = wasm_apply e (Quit_Network reason)"

definition wasm_send_raw_line :: "externals \<Rightarrow> string \<Rightarrow> wasm_client \<Rightarrow> wasm_client" where
  "wasm_send_raw_line e line = wasm_apply e (SendRawLine line)"

definition wasm_command :: "'v js_serde \<Rightarrow> externals \<Rightarrow> 'v \<Rightarrow> wasm_client \<Rightarrow> 'v + wasm_client" where
  "wasm_command s e v w = (case js_command s v of Inl err \<Rightarrow> Inl err | Inr command \<Rightarrow> Inr (wasm_apply e command w))"

section \<open>Bytes and events\<close>

definition wasm_handle_bytes :: "externals \<Rightarrow> string \<Rightarrow> wasm_client \<Rightarrow> wasm_client" where
  "wasm_handle_bytes e data w = w\<lparr>wasm_inner := handle_bytes e data (wasm_inner w)\<rparr>"

definition wasm_poll_transmit :: "wasm_client \<Rightarrow> string option \<times> wasm_client" where
  "wasm_poll_transmit w = (case poll_transmit (wasm_inner w) of (line, c) \<Rightarrow> (line, w\<lparr>wasm_inner := c\<rparr>))"

function wasm_drain_loop :: "client \<Rightarrow> event list \<Rightarrow> event list \<times> client" where
  "wasm_drain_loop c events =
     (case poll_event c of (Some ev, c) \<Rightarrow> wasm_drain_loop c (events @ [ev]) | (None, c) \<Rightarrow> (events, c))"
  by pat_completeness auto
termination wasm_drain_loop
  by (relation "measure (\<lambda>(c, _). length (cl_events c))") (auto simp: poll_event_def split: list.splits)

declare wasm_drain_loop.simps [simp del]

definition wasm_drain_events :: "wasm_client \<Rightarrow> event list \<times> wasm_client" where
  "wasm_drain_events w = (case wasm_drain_loop (wasm_inner w) [] of (events, c) \<Rightarrow> (events, w\<lparr>wasm_inner := c\<rparr>))"

text \<open>The queue is drained before the events are converted.\<close>

definition wasm_poll_events :: "'v js_serde \<Rightarrow> wasm_client \<Rightarrow> ('v + 'v) \<times> wasm_client" where
  "wasm_poll_events s w = (case wasm_drain_events w of (events, w) \<Rightarrow> (js_events s events, w))"

definition wasm_model :: "'v js_serde \<Rightarrow> wasm_client \<Rightarrow> 'v + 'v" where
  "wasm_model s w = js_model s (cl_model (wasm_inner w))"

end
