(* ===== verification/Python.thy ===== *)
theory Python
  imports Ffi
begin

text \<open>
  The Python interface (\<open>bindings/obby-python/src/lib.rs\<close> and \<open>convert.rs\<close>). Python objects have the type
  \<open>'p\<close>, exceptions of the interpreter \<open>'x\<close>; what the interpreter does with an object (read it as a string,
  \<open>json.dumps\<close>, \<open>json.loads\<close>) is the record \<open>python\<close>, a parameter, and so is the \<open>Debug\<close> form of a string,
  which depends on tables of the Unicode standard. JSON is read and written by \<open>serde\<close>, as for C.
  Integers that do not fit their Rust type never reach these functions.
\<close>

section \<open>Values\<close>

record ('p, 'x) python =
  py_extract :: "'p \<Rightarrow> 'x + string"
  py_dumps :: "'p \<Rightarrow> 'x + 'p"
  py_loads :: "string \<Rightarrow> 'x + 'p"
  py_debug :: "string \<Rightarrow> string"

datatype 'x py_error = Value_Error string | Raised 'x

definition python_to_json :: "('p, 'x) python \<Rightarrow> 'p \<Rightarrow> 'x py_error + string" where
  "python_to_json py v =
     (case py_extract py v of
        Inr body \<Rightarrow> Inr body
      | Inl _ \<Rightarrow>
          (case py_dumps py v of
             Inl x \<Rightarrow> Inl (Raised x)
           | Inr encoded \<Rightarrow> (case py_extract py encoded of Inl x \<Rightarrow> Inl (Raised x) | Inr body \<Rightarrow> Inr body)))"

definition json_to_python :: "('p, 'x) python \<Rightarrow> string \<Rightarrow> 'x py_error + 'p" where
  "json_to_python py json = (case py_loads py json of Inl x \<Rightarrow> Inl (Raised x) | Inr v \<Rightarrow> Inr v)"

text \<open>What \<open>map_err\<close> makes of a parse error.\<close>

definition value_error :: "string \<Rightarrow> string + 'a \<Rightarrow> 'x py_error + 'a" where
  "value_error what r = (case r of Inl err \<Rightarrow> Inl (Value_Error (what @ '': '' @ err)) | Inr v \<Rightarrow> Inr v)"

definition config_from_json :: "serde \<Rightarrow> string \<Rightarrow> string + config" where
  "config_from_json sd json = de_config sd json"

definition credentials_from_json :: "serde \<Rightarrow> string \<Rightarrow> string + credentials" where
  "credentials_from_json sd json = de_credentials sd json"

definition command_from_json :: "serde \<Rightarrow> string \<Rightarrow> string + command" where
  "command_from_json sd json = de_command sd json"

definition signal_from_json_text :: "serde \<Rightarrow> string \<Rightarrow> string + signal" where
  "signal_from_json_text sd json = de_signal sd json"

definition events_to_json :: "serde \<Rightarrow> event list \<Rightarrow> string + string" where
  "events_to_json sd events = ser_events sd events"

function py_drain_loop :: "client \<Rightarrow> event list \<Rightarrow> event list \<times> client" where
  "py_drain_loop c events =
     (case poll_event c of (Some ev, c) \<Rightarrow> py_drain_loop c (events @ [ev]) | (None, c) \<Rightarrow> (events, c))"
  by pat_completeness auto
termination py_drain_loop
  by (relation "measure (\<lambda>(c, _). length (cl_events c))") (auto simp: poll_event_def split: list.splits)

declare py_drain_loop.simps [simp del]

definition py_drain_events :: "client \<Rightarrow> event list \<times> client" where
  "py_drain_events c = py_drain_loop c []"

section \<open>The object\<close>

record py_client =
  py_inner :: client

definition py_sasl :: "serde \<Rightarrow> ('p, 'x) python \<Rightarrow> 'p option \<Rightarrow> config \<Rightarrow> 'x py_error + config" where
  "py_sasl sd py sasl config =
     (case sasl of
        None \<Rightarrow> Inr config
      | Some v \<Rightarrow>
          (case python_to_json py v of
             Inl x \<Rightarrow> Inl x
           | Inr json \<Rightarrow>
               (case value_error ''invalid sasl'' (credentials_from_json sd json) of
                  Inl x \<Rightarrow> Inl x
                | Inr credentials \<Rightarrow> Inr (config\<lparr>cfg_sasl := Some credentials\<rparr>))))"

definition py_new ::
  "serde \<Rightarrow> ('p, 'x) python \<Rightarrow> string \<Rightarrow> string option \<Rightarrow> string option \<Rightarrow> string option \<Rightarrow> 'p option \<Rightarrow>
     nat option \<Rightarrow> string list option \<Rightarrow> 'x py_error + py_client" where
  "py_new sd py nick username realname password sasl retention alt_nicks =
     (let config = config_new nick;
          config = (case username of Some username \<Rightarrow> config\<lparr>cfg_username := username\<rparr> | None \<Rightarrow> config);
          config = (case realname of Some realname \<Rightarrow> config\<lparr>cfg_realname := realname\<rparr> | None \<Rightarrow> config);
          config = config\<lparr>cfg_password := password\<rparr>
      in case py_sasl sd py sasl config of
           Inl x \<Rightarrow> Inl x
         | Inr config \<Rightarrow>
             (let config = (case retention of Some n \<Rightarrow> config\<lparr>cfg_retention := n\<rparr> | None \<Rightarrow> config);
                  config = (case alt_nicks of Some nicks \<Rightarrow> config\<lparr>cfg_alt_nicks := nicks\<rparr> | None \<Rightarrow> config)
              in Inr \<lparr>py_inner = client_new config\<rparr>))"

definition py_from_config :: "serde \<Rightarrow> ('p, 'x) python \<Rightarrow> 'p \<Rightarrow> 'x py_error + py_client" where
  "py_from_config sd py v =
     (case python_to_json py v of
        Inl x \<Rightarrow> Inl x
      | Inr json \<Rightarrow>
          (case value_error ''invalid config'' (config_from_json sd json) of
             Inl x \<Rightarrow> Inl x
           | Inr config \<Rightarrow> Inr \<lparr>py_inner = client_new config\<rparr>))"

definition py_handle_connected :: "py_client \<Rightarrow> py_client" where
  "py_handle_connected p = p\<lparr>py_inner := handle_connected (py_inner p)\<rparr>"

definition py_handle_disconnected :: "py_client \<Rightarrow> py_client" where
  "py_handle_disconnected p = p\<lparr>py_inner := handle_disconnected (py_inner p)\<rparr>"

definition py_tick :: "nat \<Rightarrow> nat \<Rightarrow> py_client \<Rightarrow> py_client" where
  "py_tick monotonic_ms unix_ms p =
     p\<lparr>py_inner := tick \<lparr>now_monotonic_ms = monotonic_ms, now_unix_ms = unix_ms\<rparr> (py_inner p)\<rparr>"

definition py_poll_timeout :: "py_client \<Rightarrow> nat option" where
  "py_poll_timeout p = poll_timeout (py_inner p)"

section \<open>Commands\<close>

text \<open>Each method hands its command to the engine.\<close>

abbreviation py_do :: "externals \<Rightarrow> command \<Rightarrow> py_client \<Rightarrow> py_client" where
  "py_do e command p \<equiv> p\<lparr>py_inner := client_command e command (py_inner p)\<rparr>"

definition py_command :: "serde \<Rightarrow> ('p, 'x) python \<Rightarrow> externals \<Rightarrow> 'p \<Rightarrow> py_client \<Rightarrow> 'x py_error + py_client" where
  "py_command sd py e v p =
     (case python_to_json py v of
        Inl x \<Rightarrow> Inl x
      | Inr json \<Rightarrow>
          (case value_error ''invalid command'' (command_from_json sd json) of
             Inl x \<Rightarrow> Inl x
           | Inr command \<Rightarrow> Inr (py_do e command p)))"

definition py_join :: "externals \<Rightarrow> string \<Rightarrow> string option \<Rightarrow> py_client \<Rightarrow> py_client" where
  "py_join e channel key = py_do e (Join_Channel channel key)"

definition py_part :: "externals \<Rightarrow> string \<Rightarrow> string option \<Rightarrow> py_client \<Rightarrow> py_client" where
  "py_part e channel reason = py_do e (Part_Channel channel reason)"

definition py_send_message :: "externals \<Rightarrow> string \<Rightarrow> string \<Rightarrow> py_client \<Rightarrow> py_client" where
  "py_send_message e target body = py_do e (SendMessage target body)"

definition py_send_notice :: "externals \<Rightarrow> string \<Rightarrow> string \<Rightarrow> py_client \<Rightarrow> py_client" where
  "py_send_notice e target body = py_do e (SendNotice target body)"

definition py_send_action :: "externals \<Rightarrow> string \<Rightarrow> string \<Rightarrow> py_client \<Rightarrow> py_client" where
  "py_send_action e target body = py_do e (SendAction target body)"

definition py_set_nick :: "externals \<Rightarrow> string \<Rightarrow> py_client \<Rightarrow> py_client" where
  "py_set_nick e nick = py_do e (SetNick nick)"

definition py_set_topic :: "externals \<Rightarrow> string \<Rightarrow> string option \<Rightarrow> py_client \<Rightarrow> py_client" where
  "py_set_topic e channel topic = py_do e (SetTopic channel topic)"

definition py_set_away :: "externals \<Rightarrow> string option \<Rightarrow> py_client \<Rightarrow> py_client" where
  "py_set_away e msg = py_do e (SetAway msg)"

definition py_set_typing :: "('p, 'x) python \<Rightarrow> externals \<Rightarrow> string \<Rightarrow> string \<Rightarrow> py_client \<Rightarrow> 'x py_error + py_client" where
  "py_set_typing py e target state p =
     (if state = ''active'' then Inr (py_do e (SetTyping target Active) p)
      else if state = ''paused'' then Inr (py_do e (SetTyping target Paused) p)
      else if state = ''done'' then Inr (py_do e (SetTyping target Done) p)
      else Inl (Value_Error
             (''invalid typing state: '' @ py_debug py state @ '', expected active, paused or done'')))"

definition py_add_reaction :: "externals \<Rightarrow> string \<Rightarrow> string \<Rightarrow> string \<Rightarrow> py_client \<Rightarrow> py_client" where
  "py_add_reaction e target msgid emoji = py_do e (AddReaction target msgid emoji)"

definition py_remove_reaction :: "externals \<Rightarrow> string \<Rightarrow> string \<Rightarrow> string \<Rightarrow> py_client \<Rightarrow> py_client" where
  "py_remove_reaction e target msgid emoji = py_do e (RemoveReaction target msgid emoji)"

definition py_redact_message :: "externals \<Rightarrow> string \<Rightarrow> string \<Rightarrow> string option \<Rightarrow> py_client \<Rightarrow> py_client" where
  "py_redact_message e target msgid reason = py_do e (RedactMessage target msgid reason)"

definition py_mark_read :: "externals \<Rightarrow> string \<Rightarrow> nat \<Rightarrow> py_client \<Rightarrow> py_client" where
  "py_mark_read e target at_ms = py_do e (MarkRead target at_ms)"

definition py_fetch_history :: "externals \<Rightarrow> string \<Rightarrow> string option \<Rightarrow> nat \<Rightarrow> py_client \<Rightarrow> py_client" where
  "py_fetch_history e target before_msgid limit = py_do e (FetchHistory target before_msgid limit)"

definition py_set_metadata :: "externals \<Rightarrow> string \<Rightarrow> string option \<Rightarrow> py_client \<Rightarrow> py_client" where
  "py_set_metadata e key new_value = py_do e (SetMetadata key new_value)"

definition py_subscribe_metadata :: "externals \<Rightarrow> string list \<Rightarrow> py_client \<Rightarrow> py_client" where
  "py_subscribe_metadata e keys = py_do e (SubscribeMetadata keys)"

definition py_whois :: "externals \<Rightarrow> string \<Rightarrow> py_client \<Rightarrow> py_client" where
  "py_whois e nick = py_do e (Whois nick)"

definition py_rename_channel :: "externals \<Rightarrow> string \<Rightarrow> string \<Rightarrow> string option \<Rightarrow> py_client \<Rightarrow> py_client" where
  "py_rename_channel e channel new_name reason = py_do e (RenameChannel channel new_name reason)"

definition py_create_invite_link :: "externals \<Rightarrow> string option \<Rightarrow> string option \<Rightarrow> py_client \<Rightarrow> py_client" where
  "py_create_invite_link e channel description = py_do e (CreateInviteLink channel description)"

definition py_list_invite_links :: "externals \<Rightarrow> py_client \<Rightarrow> py_client" where
  "py_list_invite_links e = py_do e ListInviteLinks"

definition py_delete_invite_link :: "externals \<Rightarrow> string \<Rightarrow> py_client \<Rightarrow> py_client" where
  "py_delete_invite_link e share_id = py_do e (DeleteInviteLink share_id)"

definition py_redeem_invite_code :: "externals \<Rightarrow> string \<Rightarrow> py_client \<Rightarrow> py_client" where
  "py_redeem_invite_code e code = py_do e (RedeemInviteCode code)"

definition py_generate_token :: "externals \<Rightarrow> string \<Rightarrow> py_client \<Rightarrow> py_client" where
  "py_generate_token e service = py_do e (GenerateToken service)"

definition py_watch_nicks :: "externals \<Rightarrow> string list \<Rightarrow> py_client \<Rightarrow> py_client" where
  "py_watch_nicks e nicks = py_do e (WatchNicks nicks)"

definition py_unwatch_nicks :: "externals \<Rightarrow> string list \<Rightarrow> py_client \<Rightarrow> py_client" where
  "py_unwatch_nicks e nicks = py_do e (UnwatchNicks nicks)"

definition py_send_voice_signal ::
  "serde \<Rightarrow> ('p, 'x) python \<Rightarrow> externals \<Rightarrow> string \<Rightarrow> 'p \<Rightarrow> py_client \<Rightarrow> 'x py_error + py_client" where
  "py_send_voice_signal sd py e channel v p =
     (case python_to_json py v of
        Inl x \<Rightarrow> Inl x
      | Inr json \<Rightarrow>
          (case value_error ''invalid voice signal'' (signal_from_json_text sd json) of
             Inl x \<Rightarrow> Inl x
           | Inr sig \<Rightarrow> Inr (py_do e (SendVoiceSignal channel sig) p)))"

definition py_quit :: "externals \<Rightarrow> string option \<Rightarrow> py_client \<Rightarrow> py_client" where
  "py_quit e reason = py_do e (Quit_Network reason)"

definition py_send_raw_line :: "externals \<Rightarrow> string \<Rightarrow> py_client \<Rightarrow> py_client" where
  "py_send_raw_line e line = py_do e (SendRawLine line)"

section \<open>Bytes and events\<close>

definition py_handle_bytes :: "externals \<Rightarrow> string \<Rightarrow> py_client \<Rightarrow> py_client" where
  "py_handle_bytes e data p = p\<lparr>py_inner := handle_bytes e data (py_inner p)\<rparr>"

definition py_poll_transmit :: "py_client \<Rightarrow> string option \<times> py_client" where
  "py_poll_transmit p = (case poll_transmit (py_inner p) of (line, c) \<Rightarrow> (line, p\<lparr>py_inner := c\<rparr>))"

definition py_poll_events :: "serde \<Rightarrow> ('p, 'x) python \<Rightarrow> py_client \<Rightarrow> ('x py_error + 'p) \<times> py_client" where
  "py_poll_events sd py p =
     (case py_drain_events (py_inner p) of
        (events, c) \<Rightarrow>
          (case value_error ''could not encode events'' (events_to_json sd events) of
             Inl x \<Rightarrow> Inl x
           | Inr json \<Rightarrow> json_to_python py json, p\<lparr>py_inner := c\<rparr>))"

definition py_model :: "serde \<Rightarrow> ('p, 'x) python \<Rightarrow> py_client \<Rightarrow> 'x py_error + 'p" where
  "py_model sd py p =
     (case value_error ''could not encode the model'' (ser_model sd (cl_model (py_inner p))) of
        Inl x \<Rightarrow> Inl x
      | Inr json \<Rightarrow> json_to_python py json)"

end
