(* ===== verification/Binding_Props.thy ===== *)
theory Binding_Props
  imports Ffi_Props Wasm Python
begin

text \<open>
  What the three interfaces promise about each other: a command given through any of them reaches the
  engine as the same command, one that cannot be read is refused without a trace, an event read field by
  field is the event that was queued, and a number of milliseconds survives being a double.
\<close>

section \<open>Strings across the C boundary\<close>

definition c_text :: "string \<Rightarrow> c_str" where
  "c_text s = Some (s @ [nul])"

definition c_string_ok :: "string \<Rightarrow> bool" where
  "c_string_ok s \<longleftrightarrow> valid_utf8 s \<and> nul \<notin> set s"

lemma takeWhile_nul: "nul \<notin> set s \<Longrightarrow> takeWhile (\<lambda>c. c \<noteq> nul) (s @ nul # rest) = s"
  by (induction s) auto

lemma str_from_c_text [simp]: "c_string_ok s \<Longrightarrow> str_from_ptr (c_text s) = Some s"
  by (simp add: str_from_ptr_def c_text_def c_string_ok_def takeWhile_nul)

lemma str_from_null [simp]: "str_from_ptr None = None"
  by (simp add: str_from_ptr_def)

lemma str_from_option [simp]:
  "pred_option c_string_ok s \<Longrightarrow> str_from_ptr (Option.bind s c_text) = s"
  by (cases s) simp_all

lemma strings_from_c_text [simp]:
  "list_all c_string_ok ss \<Longrightarrow> strings_from_ptr_array (Some (map c_text ss)) (length ss) = Some ss"
  by (simp add: strings_from_ptr_array_def) (induction ss; simp add: map_filter_simps)

section \<open>The same command through each interface\<close>

text \<open>The strings of a command, and the call for it in C, JavaScript and Python.\<close>

definition command_strings :: "command \<Rightarrow> string list" where
  "command_strings command =
     (case command of
        Join_Channel channel key \<Rightarrow> [channel] @ (case key of Some s \<Rightarrow> [s] | None \<Rightarrow> [])
      | Part_Channel channel reason \<Rightarrow> [channel] @ (case reason of Some s \<Rightarrow> [s] | None \<Rightarrow> [])
      | SendMessage target body \<Rightarrow> [target] @ [body]
      | SendNotice target body \<Rightarrow> [target] @ [body]
      | SendAction target body \<Rightarrow> [target] @ [body]
      | SetNick nick \<Rightarrow> [nick]
      | SetTopic channel topic \<Rightarrow> [channel] @ (case topic of Some s \<Rightarrow> [s] | None \<Rightarrow> [])
      | SetAway msg \<Rightarrow> (case msg of Some s \<Rightarrow> [s] | None \<Rightarrow> [])
      | SetTyping target _ \<Rightarrow> [target]
      | AddReaction target msgid emoji \<Rightarrow> [target] @ [msgid] @ [emoji]
      | RemoveReaction target msgid emoji \<Rightarrow> [target] @ [msgid] @ [emoji]
      | RedactMessage target msgid reason \<Rightarrow> [target] @ [msgid] @ (case reason of Some s \<Rightarrow> [s] | None \<Rightarrow> [])
      | MarkRead target _ \<Rightarrow> [target]
      | FetchHistory target before_msgid _ \<Rightarrow> [target] @ (case before_msgid of Some s \<Rightarrow> [s] | None \<Rightarrow> [])
      | SetMetadata key new_value \<Rightarrow> [key] @ (case new_value of Some s \<Rightarrow> [s] | None \<Rightarrow> [])
      | SubscribeMetadata keys \<Rightarrow> keys
      | Whois nick \<Rightarrow> [nick]
      | RenameChannel channel new_name reason \<Rightarrow> [channel] @ [new_name] @ (case reason of Some s \<Rightarrow> [s] | None \<Rightarrow> [])
      | CreateInviteLink channel description \<Rightarrow> (case channel of Some s \<Rightarrow> [s] | None \<Rightarrow> []) @ (case description of Some s \<Rightarrow> [s] | None \<Rightarrow> [])
      | ListInviteLinks \<Rightarrow> []
      | DeleteInviteLink share_id \<Rightarrow> [share_id]
      | RedeemInviteCode code \<Rightarrow> [code]
      | GenerateToken service \<Rightarrow> [service]
      | WatchNicks nicks \<Rightarrow> nicks
      | UnwatchNicks nicks \<Rightarrow> nicks
      | SendVoiceSignal channel _ \<Rightarrow> [channel]
      | Quit_Network reason \<Rightarrow> (case reason of Some s \<Rightarrow> [s] | None \<Rightarrow> [])
      | SendRawLine line \<Rightarrow> [line])"

definition c_of :: "(signal \<Rightarrow> string) \<Rightarrow> command \<Rightarrow> c_command" where
  "c_of enc command =
     (case command of
        Join_Channel channel key \<Rightarrow> C_Join (c_text channel) (Option.bind key c_text)
      | Part_Channel channel reason \<Rightarrow> C_Part (c_text channel) (Option.bind reason c_text)
      | SendMessage target body \<Rightarrow> C_Send_Message (c_text target) (c_text body)
      | SendNotice target body \<Rightarrow> C_Send_Notice (c_text target) (c_text body)
      | SendAction target body \<Rightarrow> C_Send_Action (c_text target) (c_text body)
      | SetNick nick \<Rightarrow> C_Set_Nick (c_text nick)
      | SetTopic channel topic \<Rightarrow> C_Set_Topic (c_text channel) (Option.bind topic c_text)
      | SetAway msg \<Rightarrow> C_Set_Away (Option.bind msg c_text)
      | SetTyping target state \<Rightarrow> C_Set_Typing (c_text target) (c_text (typing_as_str state))
      | AddReaction target msgid emoji \<Rightarrow> C_Add_Reaction (c_text target) (c_text msgid) (c_text emoji)
      | RemoveReaction target msgid emoji \<Rightarrow> C_Remove_Reaction (c_text target) (c_text msgid) (c_text emoji)
      | RedactMessage target msgid reason \<Rightarrow> C_Redact_Message (c_text target) (c_text msgid) (Option.bind reason c_text)
      | MarkRead target at_ms \<Rightarrow> C_Mark_Read (c_text target) at_ms
      | FetchHistory target before_msgid limit \<Rightarrow> C_Fetch_History (c_text target) (Option.bind before_msgid c_text) limit
      | SetMetadata key new_value \<Rightarrow> C_Set_Metadata (c_text key) (Option.bind new_value c_text)
      | SubscribeMetadata keys \<Rightarrow> C_Subscribe_Metadata (Some (map c_text keys)) (length keys)
      | Whois nick \<Rightarrow> C_Whois (c_text nick)
      | RenameChannel channel new_name reason \<Rightarrow> C_Rename_Channel (c_text channel) (c_text new_name) (Option.bind reason c_text)
      | CreateInviteLink channel description \<Rightarrow> C_Create_Invite_Link (Option.bind channel c_text) (Option.bind description c_text)
      | ListInviteLinks \<Rightarrow> C_List_Invite_Links
      | DeleteInviteLink share_id \<Rightarrow> C_Delete_Invite_Link (c_text share_id)
      | RedeemInviteCode code \<Rightarrow> C_Redeem_Invite_Code (c_text code)
      | GenerateToken service \<Rightarrow> C_Generate_Token (c_text service)
      | WatchNicks nicks \<Rightarrow> C_Watch_Nicks (Some (map c_text nicks)) (length nicks)
      | UnwatchNicks nicks \<Rightarrow> C_Unwatch_Nicks (Some (map c_text nicks)) (length nicks)
      | SendVoiceSignal channel sig \<Rightarrow> C_Send_Voice_Signal (c_text channel) (c_text (enc sig))
      | Quit_Network reason \<Rightarrow> C_Quit (Option.bind reason c_text)
      | SendRawLine line \<Rightarrow> C_Send_Raw_Line (c_text line))"

definition wasm_do :: "'v js_serde \<Rightarrow> (typing_state \<Rightarrow> 'v) \<Rightarrow> (signal \<Rightarrow> 'v) \<Rightarrow> externals \<Rightarrow> command \<Rightarrow> wasm_client \<Rightarrow> 'v + wasm_client" where
  "wasm_do js jt jv e command w =
     (case command of
        Join_Channel channel key \<Rightarrow> Inr (wasm_join e channel key w)
      | Part_Channel channel reason \<Rightarrow> Inr (wasm_part e channel reason w)
      | SendMessage target body \<Rightarrow> Inr (wasm_send_message e target body w)
      | SendNotice target body \<Rightarrow> Inr (wasm_send_notice e target body w)
      | SendAction target body \<Rightarrow> Inr (wasm_send_action e target body w)
      | SetNick nick \<Rightarrow> Inr (wasm_set_nick e nick w)
      | SetTopic channel topic \<Rightarrow> Inr (wasm_set_topic e channel topic w)
      | SetAway msg \<Rightarrow> Inr (wasm_set_away e msg w)
      | SetTyping target state \<Rightarrow> wasm_set_typing js e target (jt state) w
      | AddReaction target msgid emoji \<Rightarrow> Inr (wasm_add_reaction e target msgid emoji w)
      | RemoveReaction target msgid emoji \<Rightarrow> Inr (wasm_remove_reaction e target msgid emoji w)
      | RedactMessage target msgid reason \<Rightarrow> Inr (wasm_redact_message e target msgid reason w)
      | MarkRead target at_ms \<Rightarrow> Inr (wasm_mark_read e target (as_js_number at_ms) w)
      | FetchHistory target before_msgid limit \<Rightarrow> Inr (wasm_fetch_history e target before_msgid limit w)
      | SetMetadata key new_value \<Rightarrow> Inr (wasm_set_metadata e key new_value w)
      | SubscribeMetadata keys \<Rightarrow> Inr (wasm_subscribe_metadata e keys w)
      | Whois nick \<Rightarrow> Inr (wasm_whois e nick w)
      | RenameChannel channel new_name reason \<Rightarrow> Inr (wasm_rename_channel e channel new_name reason w)
      | CreateInviteLink channel description \<Rightarrow> Inr (wasm_create_invite_link e channel description w)
      | ListInviteLinks \<Rightarrow> Inr (wasm_list_invite_links e w)
      | DeleteInviteLink share_id \<Rightarrow> Inr (wasm_delete_invite_link e share_id w)
      | RedeemInviteCode code \<Rightarrow> Inr (wasm_redeem_invite_code e code w)
      | GenerateToken service \<Rightarrow> Inr (wasm_generate_token e service w)
      | WatchNicks nicks \<Rightarrow> Inr (wasm_watch_nicks e nicks w)
      | UnwatchNicks nicks \<Rightarrow> Inr (wasm_unwatch_nicks e nicks w)
      | SendVoiceSignal channel sig \<Rightarrow> wasm_send_voice_signal js e channel (jv sig) w
      | Quit_Network reason \<Rightarrow> Inr (wasm_quit e reason w)
      | SendRawLine line \<Rightarrow> Inr (wasm_send_raw_line e line w))"

definition py_call :: "serde \<Rightarrow> ('p, 'x) python \<Rightarrow> (signal \<Rightarrow> 'p) \<Rightarrow> externals \<Rightarrow> command \<Rightarrow> py_client \<Rightarrow> 'x py_error + py_client" where
  "py_call sd py pv e command p =
     (case command of
        Join_Channel channel key \<Rightarrow> Inr (py_join e channel key p)
      | Part_Channel channel reason \<Rightarrow> Inr (py_part e channel reason p)
      | SendMessage target body \<Rightarrow> Inr (py_send_message e target body p)
      | SendNotice target body \<Rightarrow> Inr (py_send_notice e target body p)
      | SendAction target body \<Rightarrow> Inr (py_send_action e target body p)
      | SetNick nick \<Rightarrow> Inr (py_set_nick e nick p)
      | SetTopic channel topic \<Rightarrow> Inr (py_set_topic e channel topic p)
      | SetAway msg \<Rightarrow> Inr (py_set_away e msg p)
      | SetTyping target state \<Rightarrow> py_set_typing py e target (typing_as_str state) p
      | AddReaction target msgid emoji \<Rightarrow> Inr (py_add_reaction e target msgid emoji p)
      | RemoveReaction target msgid emoji \<Rightarrow> Inr (py_remove_reaction e target msgid emoji p)
      | RedactMessage target msgid reason \<Rightarrow> Inr (py_redact_message e target msgid reason p)
      | MarkRead target at_ms \<Rightarrow> Inr (py_mark_read e target at_ms p)
      | FetchHistory target before_msgid limit \<Rightarrow> Inr (py_fetch_history e target before_msgid limit p)
      | SetMetadata key new_value \<Rightarrow> Inr (py_set_metadata e key new_value p)
      | SubscribeMetadata keys \<Rightarrow> Inr (py_subscribe_metadata e keys p)
      | Whois nick \<Rightarrow> Inr (py_whois e nick p)
      | RenameChannel channel new_name reason \<Rightarrow> Inr (py_rename_channel e channel new_name reason p)
      | CreateInviteLink channel description \<Rightarrow> Inr (py_create_invite_link e channel description p)
      | ListInviteLinks \<Rightarrow> Inr (py_list_invite_links e p)
      | DeleteInviteLink share_id \<Rightarrow> Inr (py_delete_invite_link e share_id p)
      | RedeemInviteCode code \<Rightarrow> Inr (py_redeem_invite_code e code p)
      | GenerateToken service \<Rightarrow> Inr (py_generate_token e service p)
      | WatchNicks nicks \<Rightarrow> Inr (py_watch_nicks e nicks p)
      | UnwatchNicks nicks \<Rightarrow> Inr (py_unwatch_nicks e nicks p)
      | SendVoiceSignal channel sig \<Rightarrow> py_send_voice_signal sd py e channel (pv sig) p
      | Quit_Network reason \<Rightarrow> Inr (py_quit e reason p)
      | SendRawLine line \<Rightarrow> Inr (py_send_raw_line e line p))"

lemmas wasm_command_defs = wasm_join_def wasm_part_def wasm_send_message_def wasm_send_notice_def
  wasm_send_action_def wasm_set_nick_def wasm_set_topic_def wasm_set_away_def wasm_set_typing_def
  wasm_add_reaction_def wasm_remove_reaction_def wasm_redact_message_def wasm_mark_read_def wasm_fetch_history_def
  wasm_set_metadata_def wasm_subscribe_metadata_def wasm_whois_def wasm_rename_channel_def
  wasm_create_invite_link_def wasm_list_invite_links_def wasm_delete_invite_link_def wasm_redeem_invite_code_def
  wasm_generate_token_def wasm_watch_nicks_def wasm_unwatch_nicks_def wasm_send_voice_signal_def wasm_quit_def
  wasm_send_raw_line_def wasm_apply_def

lemmas py_command_defs = py_join_def py_part_def py_send_message_def py_send_notice_def py_send_action_def
  py_set_nick_def py_set_topic_def py_set_away_def py_set_typing_def py_add_reaction_def py_remove_reaction_def
  py_redact_message_def py_mark_read_def py_fetch_history_def py_set_metadata_def py_subscribe_metadata_def
  py_whois_def py_rename_channel_def py_create_invite_link_def py_list_invite_links_def py_delete_invite_link_def
  py_redeem_invite_code_def py_generate_token_def py_watch_nicks_def py_unwatch_nicks_def py_send_voice_signal_def
  py_quit_def py_send_raw_line_def

lemma submit_live:
  "p \<noteq> 0 \<Longrightarrow> mem_blocks m p = Some (Handle c) \<Longrightarrow>
     submit e p (Some (Some command)) m = Some (True, mem_store p (Handle (client_command e command c)) m)"
  by (simp add: submit_def as_client_def)

lemma submit_refuses: "null_or (ledger_of m) p Owns_Handle \<Longrightarrow> submit e p (Some None) m = Some (False, m)"
  by (auto simp: submit_def as_client_def null_or_live)

text \<open>A voice signal crosses as JSON, and its reader must undo its writer; the others need nothing.\<close>

definition voice_crosses :: "serde \<Rightarrow> (signal \<Rightarrow> string) \<Rightarrow> command \<Rightarrow> bool" where
  "voice_crosses sd enc command =
     (case command of SendVoiceSignal _ sig \<Rightarrow> c_string_ok (enc sig) \<and> de_signal sd (enc sig) = Inr sig | _ \<Rightarrow> True)"

lemma typing_text: "c_string_ok (typing_as_str state)" "typing_from_str (typing_as_str state) = Some state"
  by (cases state; simp add: typing_as_str_def typing_from_str_def c_string_ok_def ascii_valid is_ascii_def
      del: valid_utf8.simps)+

lemma optional_text:
  "list_all c_string_ok (case s of Some s \<Rightarrow> [s] | None \<Rightarrow> []) = pred_option c_string_ok s"
  by (cases s) simp_all

lemma c_command_built:
  assumes "list_all c_string_ok (command_strings command)" "voice_crosses sd enc command"
  shows "c_command_step sd e p (c_of enc command) m = submit e p (Some (Some command)) m"
  using assms
  by (cases command) (simp_all add: c_command_step_def c_of_def c_command_defs command_strings_def voice_crosses_def
      optional_text typing_text)

text \<open>
  C21: a C call that lacks a string it needs, because the pointer is null or what it points to is not
  UTF-8, returns false, and neither the engine nor anything else in memory changes: nothing is sent in its
  place.
\<close>

theorem missing_string_is_refused:
  assumes "null_or (ledger_of m) p Owns_Handle" "None \<in> str_from_ptr ` set (required call)"
  shows "c_command_step sd e p call m = Some (False, m)"
  using assms
  by (cases call) (auto simp: c_command_step_def required_def c_command_defs submit_refuses split: bind_splits)

theorem missing_string_is_refused_witness:
  "c_command_step (sample_serde SigSpeaking) sample_externals 1 (C_Send_Message None (c_text ''hi'')) sample_memory
     = Some (False, sample_memory)"
  by (rule missing_string_is_refused) (simp_all add: null_or_live sample_memory_def required_def)

section \<open>Milliseconds as doubles\<close>

lemma f64_exponent_bounds:
  "n < 2 ^ (53 + f64_exponent n)" "0 < f64_exponent n \<Longrightarrow> 2 ^ (52 + f64_exponent n) \<le> n"
proof (induction n rule: f64_exponent.induct)
  case (1 n)
  {
    case 1
    show ?case
    proof (cases "n < 2 ^ 53")
      case False
      with "1.IH"(1) have "n div 2 < 2 ^ (53 + f64_exponent (n div 2))" by simp
      then have "n < 2 * 2 ^ (53 + f64_exponent (n div 2))" by linarith
      with False show ?thesis by (simp add: f64_exponent.simps [of n] power_add)
    qed (simp add: f64_exponent.simps [of n])
  next
    case 2
    then have n: "2 ^ 53 \<le> n" "f64_exponent n = Suc (f64_exponent (n div 2))"
      by (auto simp: f64_exponent.simps [of n] split: if_splits)
    show ?case
    proof (cases "f64_exponent (n div 2) = 0")
      case True
      with n show ?thesis by simp
    next
      case False
      with "1.IH"(2) n(1) have "2 ^ (52 + f64_exponent (n div 2)) \<le> n div 2" by simp
      then have "2 * 2 ^ (52 + f64_exponent (n div 2)) \<le> n" by linarith
      with n(2) show ?thesis by (simp add: power_add)
    qed
  }
qed

lemma f64_round_exact: "n \<le> 2 ^ 53 \<Longrightarrow> f64_round n = n"
proof (cases "n = 2 ^ 53")
  case True
  have "f64_exponent (2 ^ 53) = 1"
    by (simp add: f64_exponent.simps [of 9007199254740992] f64_exponent.simps [of 4503599627370496])
  with True show ?thesis by (simp add: f64_round_def)
qed (simp add: f64_round_def f64_exponent.simps [of n])

lemma f64_round_near: "2 * \<bar>int (f64_round n) - int n\<bar> \<le> 2 ^ f64_exponent n"
proof -
  define k where "k = (2::nat) ^ f64_exponent n"
  define q where "q = n div k"
  define r where "r = n mod k"
  have "n = q * k + r" "r < k"
    using div_mult_mod_eq [of n k] by (simp_all add: q_def r_def k_def)
  moreover have "f64_round n = (if 2 * r > k \<or> (2 * r = k \<and> odd q) then (q + 1) * k else q * k)"
    by (simp add: f64_round_def Let_def k_def q_def r_def)
  ultimately have "2 * \<bar>int (f64_round n) - int n\<bar> \<le> int k"
    by (auto simp: algebra_simps split: if_splits)
  then show ?thesis by (simp add: k_def)
qed

lemma f64_round_relative: "\<bar>int (f64_round n) - int n\<bar> * 2 ^ 53 \<le> int n"
proof (cases "f64_exponent n = 0")
  case True
  then have "n < 2 ^ 53"
    using f64_exponent_bounds(1) [of n] by simp
  then show ?thesis by (simp add: f64_round_exact)
next
  case False
  then have "(2::int) ^ (52 + f64_exponent n) \<le> int n"
    using f64_exponent_bounds(2) [of n] by (metis neq0_conv of_nat_le_iff of_nat_numeral of_nat_power)
  then have "2 ^ f64_exponent n * 2 ^ 52 \<le> int n"
    by (simp add: power_add mult.commute)
  with f64_round_near [of n] show ?thesis by simp
qed

lemma as_millis_as_js: "as_millis (as_js_number n) = min u64_max (f64_round n)"
  by (simp add: as_millis_def as_js_number_def)

lemma as_millis_bounded: "as_millis v \<le> u64_max"
  by (simp add: as_millis_def split: js_number.split)

text \<open>
  C22: a deadline of the engine handed to JavaScript as a number and given back as the time is the same
  instant up to 2^53 milliseconds, more than a quarter of a million years, and beyond that is off by at
  most one part in 2^53, also where the double lies above every 64-bit number; and no number of the host,
  a NaN, an infinity or a negative one included, is more than the engine's clock can hold.
\<close>

theorem millis_survive_javascript:
  assumes "n \<le> u64_max"
  shows "\<bar>int (as_millis (as_js_number n)) - int n\<bar> * 2 ^ 53 \<le> int n
     \<and> (n \<le> 2 ^ 53 \<longrightarrow> as_millis (as_js_number n) = n) \<and> 250000 * 31556952 * 1000 \<le> (2::nat) ^ 53
     \<and> as_millis v \<le> u64_max"
proof -
  have "\<bar>int (as_millis (as_js_number n)) - int n\<bar> \<le> \<bar>int (f64_round n) - int n\<bar>"
    using assms by (simp add: as_millis_as_js)
  with f64_round_relative [of n] have "\<bar>int (as_millis (as_js_number n)) - int n\<bar> * 2 ^ 53 \<le> int n"
    by simp
  then show ?thesis
    using assms by (simp add: as_millis_bounded as_millis_as_js f64_round_exact)
qed

theorem millis_survive_javascript_witness:
  "as_millis (as_js_number 1700000000000) = 1700000000000 \<and> as_millis Not_A_Number \<le> u64_max"
  using millis_survive_javascript [of 1700000000000 Not_A_Number] by (simp add: u64_max_def)

section \<open>One engine behind three interfaces\<close>

definition wasm_crosses :: "'v js_serde \<Rightarrow> (typing_state \<Rightarrow> 'v) \<Rightarrow> (signal \<Rightarrow> 'v) \<Rightarrow> command \<Rightarrow> bool" where
  "wasm_crosses js jt jv command =
     (case command of
        SendVoiceSignal _ sig \<Rightarrow> js_signal js (jv sig) = Inr sig
      | SetTyping _ state \<Rightarrow> js_typing js (jt state) = Inr state
      | MarkRead _ at_ms \<Rightarrow> at_ms \<le> 2 ^ 53
      | _ \<Rightarrow> True)"

definition py_crosses :: "('p, 'x) python \<Rightarrow> (signal \<Rightarrow> 'p) \<Rightarrow> (signal \<Rightarrow> string) \<Rightarrow> command \<Rightarrow> bool" where
  "py_crosses py pv enc command =
     (case command of SendVoiceSignal _ sig \<Rightarrow> python_to_json py (pv sig) = Inr (enc sig) | _ \<Rightarrow> True)"

lemma as_millis_exact: "n \<le> 2 ^ 53 \<Longrightarrow> as_millis (as_js_number n) = n"
  by (simp add: as_millis_as_js f64_round_exact u64_max_def)

lemma wasm_reaches_engine:
  "wasm_crosses js jt jv command \<Longrightarrow>
     wasm_do js jt jv e command \<lparr>wasm_inner = c\<rparr> = Inr \<lparr>wasm_inner = client_command e command c\<rparr>"
  by (cases command) (simp_all add: wasm_do_def wasm_crosses_def wasm_command_defs as_millis_exact)

lemma py_reaches_engine:
  assumes "py_crosses py pv enc command" "voice_crosses sd enc command"
  shows "py_call sd py pv e command \<lparr>py_inner = c\<rparr> = Inr \<lparr>py_inner = client_command e command c\<rparr>"
proof (cases command)
  case (SetTyping target state)
  then show ?thesis by (cases state) (simp_all add: py_call_def py_set_typing_def typing_as_str_def)
qed (use assms in \<open>simp_all add: py_call_def py_crosses_def voice_crosses_def py_command_defs value_error_def
    signal_from_json_text_def\<close>)

text \<open>
  C19: the three interfaces drive one engine: whatever command a host gives, through the C function, the
  JavaScript method or the Python method that is named after it, the engine behind is left in the state
  the command itself makes of it, and in C every other block of memory as it was. The strings of C must be
  UTF-8 without a NUL, a time of JavaScript at most 2^53, and what a library writes of a typing state or a
  voice signal must be what it reads.
\<close>

theorem bindings_agree:
  assumes "p \<noteq> 0" "mem_blocks m p = Some (Handle c)" "list_all c_string_ok (command_strings command)"
    and "voice_crosses sd enc command" "wasm_crosses js jt jv command" "py_crosses py pv enc command"
  shows "c_command_step sd e p (c_of enc command) m = Some (True, mem_store p (Handle (client_command e command c)) m)
     \<and> wasm_do js jt jv e command \<lparr>wasm_inner = c\<rparr> = Inr \<lparr>wasm_inner = client_command e command c\<rparr>
     \<and> py_call sd py pv e command \<lparr>py_inner = c\<rparr> = Inr \<lparr>py_inner = client_command e command c\<rparr>"
  using assms by (simp add: c_command_built submit_live wasm_reaches_engine py_reaches_engine)

text \<open>Libraries that know one typing state and one signal, as \<open>sample_serde\<close> does.\<close>

definition sample_js :: "signal \<Rightarrow> string js_serde" where
  "sample_js sig =
     \<lparr>js_config = (\<lambda>_. Inl ''no''), js_typing = (\<lambda>_. Inr Active), js_command = (\<lambda>_. Inl ''no''),
      js_signal = (\<lambda>_. Inr sig), js_events = (\<lambda>_. Inr ''[]''), js_model = (\<lambda>_. Inr ''{}'')\<rparr>"

definition sample_python :: "(string, unit) python" where
  "sample_python =
     \<lparr>py_extract = Inr, py_dumps = Inr, py_loads = Inr, py_debug = (\<lambda>s. s)\<rparr>"

theorem bindings_agree_witness:
  "c_command_step (sample_serde SigSpeaking) sample_externals 1 (c_of (\<lambda>_. ''s'') (SendVoiceSignal ''#a'' SigSpeaking)) sample_memory
     = Some (True, mem_store 1 (Handle (client_command sample_externals (SendVoiceSignal ''#a'' SigSpeaking)
          (client_new (config_new ''me'')))) sample_memory)"
  using bindings_agree [of 1 sample_memory "client_new (config_new ''me'')" "SendVoiceSignal ''#a'' SigSpeaking"
      "sample_serde SigSpeaking" "\<lambda>_. ''s''" "sample_js SigSpeaking" "\<lambda>_. []" "\<lambda>_. []" sample_python "\<lambda>_. ''s''"
      sample_externals]
  by (simp add: sample_memory_def command_strings_def c_string_ok_def ascii_valid is_ascii_def voice_crosses_def
      wasm_crosses_def py_crosses_def sample_serde_def sample_js_def sample_python_def python_to_json_def
      del: valid_utf8.simps)

section \<open>Draining\<close>

lemma wasm_drain_loop_all: "wasm_drain_loop c events = ffi_drain_loop c events"
  by (induction c events rule: wasm_drain_loop.induct)
    (simp add: wasm_drain_loop.simps ffi_drain_loop.simps split: option.split prod.split)

lemma py_drain_loop_all: "py_drain_loop c events = ffi_drain_loop c events"
  by (induction c events rule: py_drain_loop.induct)
    (simp add: py_drain_loop.simps ffi_drain_loop.simps split: option.split prod.split)

theorem drains_agree:
  "ffi_drain_loop c [] = (cl_events c, c\<lparr>cl_events := []\<rparr>)
   \<and> wasm_drain_events \<lparr>wasm_inner = c\<rparr> = (cl_events c, \<lparr>wasm_inner = c\<lparr>cl_events := []\<rparr>\<rparr>)
   \<and> py_drain_events c = (cl_events c, c\<lparr>cl_events := []\<rparr>)"
  by (simp add: wasm_drain_events_def py_drain_events_def wasm_drain_loop_all py_drain_loop_all drain_loop_all)

section \<open>Events field by field\<close>

text \<open>
  A C program's reading of an event with \<open>obby_event_get_kind\<close>, \<open>obby_event_text\<close> and
  \<open>obby_event_number\<close> alone. It gives up on the kinds whose body is only in the JSON.
\<close>

definition severity_from_text :: "string \<Rightarrow> severity option" where
  "severity_from_text s =
     (if s = ''fail'' then Some Fail else if s = ''warn'' then Some Warn else if s = ''note'' then Some Note else None)"

definition sasl_failure_from_text :: "string \<Rightarrow> sasl_failure option" where
  "sasl_failure_from_text s =
     find (\<lambda>r. sasl_failure_debug r = s) [Rejected, TooLong, Aborted, AlreadyAuthenticated, NoSharedMechanism, ServerNotVerified]"

definition c_read_event :: "obby_event \<Rightarrow> event option" where
  "c_read_event out =
     (let str = oe_find_text out; num = oe_find_number out
      in case oe_kind out of
           Kind_CapabilitiesAcknowledged \<Rightarrow>
             map_option (\<lambda>names. CapabilitiesAcknowledged (if names = [] then [] else split_on sp names)) (str Field_Names)
         | Kind_Registered \<Rightarrow> map_option Event_Registered (str Field_Nick)
         | Kind_IsupportToken \<Rightarrow> map_option (\<lambda>token. IsupportToken token (str Field_Value)) (str Field_Token)
         | Kind_LoggedIn \<Rightarrow> map_option LoggedIn (str Field_Account)
         | Kind_SaslFailed \<Rightarrow> map_option SaslFailed (Option.bind (str Field_Reason) sasl_failure_from_text)
         | Kind_NickInUse \<Rightarrow>
             do { refused \<leftarrow> str Field_Refused; trying \<leftarrow> str Field_Trying; Some (NickInUse refused trying) }
         | Kind_LinkDead \<Rightarrow> Some LinkDead
         | Kind_ReconnectAfter \<Rightarrow> map_option ReconnectAfter (num Field_AfterMs)
         | Kind_ReconnectAbandoned \<Rightarrow> Some ReconnectAbandoned
         | Kind_CommandTimedOut \<Rightarrow> map_option CommandTimedOut (str Field_Command)
         | Kind_AllowedCommandsChanged \<Rightarrow> Some AllowedCommandsChanged
         | Kind_TypingChanged \<Rightarrow>
             do { target \<leftarrow> str Field_Target; nick \<leftarrow> str Field_Nick; active \<leftarrow> num Field_Active;
                  Some (TypingChanged target nick (active = 1)) }
         | Kind_PresenceChanged \<Rightarrow>
             do { nick \<leftarrow> str Field_Nick; online \<leftarrow> num Field_Online; Some (PresenceChanged nick (online = 1)) }
         | Kind_ServerReply \<Rightarrow>
             do { severity \<leftarrow> str Field_Severity; severity \<leftarrow> severity_from_text severity;
                  command \<leftarrow> str Field_Command; code \<leftarrow> str Field_Code; body \<leftarrow> str Field_Text;
                  Some (ServerReply severity command code [] body) }
         | Kind_BotsChanged \<Rightarrow> map_option BotsChanged (str Field_Nick)
         | Kind_AuthToken \<Rightarrow>
             do { service \<leftarrow> str Field_Service; endpoint \<leftarrow> str Field_Endpoint; token \<leftarrow> str Field_BearerToken;
                  Some (AuthToken service endpoint token) }
         | _ \<Rightarrow> None)"

abbreviation nul_free :: "string \<Rightarrow> bool" where "nul_free s \<equiv> nul \<notin> set s"

text \<open>The events that have all of their body in fields.\<close>

definition flat_event :: "event \<Rightarrow> bool" where
  "flat_event ev =
     (case ev of
        CapabilitiesAcknowledged names \<Rightarrow> names \<noteq> [[]] \<and> list_all (\<lambda>n. sp \<notin> set n \<and> nul_free n) names
      | Event_Registered nick \<Rightarrow> nul_free nick
      | IsupportToken token v \<Rightarrow> nul_free token \<and> pred_option nul_free v
      | LoggedIn account \<Rightarrow> nul_free account
      | NickInUse refused trying \<Rightarrow> nul_free refused \<and> nul_free trying
      | CommandTimedOut command \<Rightarrow> nul_free command
      | TypingChanged target nick _ \<Rightarrow> nul_free target \<and> nul_free nick
      | PresenceChanged nick _ \<Rightarrow> nul_free nick
      | ServerReply _ command code reply_context body \<Rightarrow>
          nul_free command \<and> nul_free code \<and> reply_context = [] \<and> nul_free body
      | BotsChanged nick \<Rightarrow> nul_free nick
      | AuthToken service endpoint token \<Rightarrow> nul_free service \<and> nul_free endpoint \<and> nul_free token
      | ModelChanged _ \<Rightarrow> False
      | VoiceFrame _ _ \<Rightarrow> False
      | RawLine _ \<Rightarrow> False
      | _ \<Rightarrow> True)"

lemma oe_put_text_free: "nul_free v \<Longrightarrow> oe_put_text field v out = out\<lparr>oe_text := oe_text out @ [(field, v)]\<rparr>"
  by (simp add: oe_put_text_def cstring_new_def)

lemmas oe_read = oe_put_text_free oe_put_number_def oe_find_text_def oe_find_number_def

lemma names_join:
  assumes "list_all (\<lambda>n. sp \<notin> set n \<and> nul_free n) names" "names \<noteq> [[]]"
  shows "nul_free (join_with '' '' names)" "(if join_with '' '' names = [] then [] else split_on sp (join_with '' '' names)) = names"
proof -
  show "nul_free (join_with '' '' names)"
    using assms by (auto simp: list_all_iff dest: set_join_with)
  show "(if join_with '' '' names = [] then [] else split_on sp (join_with '' '' names)) = names"
  proof (cases "names = []")
    case False
    with assms have "join_with '' '' names \<noteq> []"
      by (cases names rule: remdups_adj.cases) auto
    moreover have "split_on sp (join_with '' '' names) = names"
      using split_on_join [of names sp] False assms by (auto simp: list_all_iff)
    ultimately show ?thesis by simp
  qed simp
qed

lemma debug_names:
  "nul_free (sasl_failure_debug r)" "sasl_failure_from_text (sasl_failure_debug r) = Some r"
  "nul_free (to_ascii_lowercase (severity_debug s))" "severity_from_text (to_ascii_lowercase (severity_debug s)) = Some s"
     apply (cases r; simp add: sasl_failure_debug_def)
    apply (cases r; simp add: sasl_failure_from_text_def sasl_failure_debug_def)
   apply (cases s; simp add: severity_debug_def to_ascii_lowercase_def ascii_lower_def is_ascii_upper_def)
  apply (cases s; simp add: severity_debug_def severity_from_text_def to_ascii_lowercase_def ascii_lower_def is_ascii_upper_def)
  done

lemma event_flatten_read:
  assumes "flat_event ev"
  shows "c_read_event (event_flatten ev \<lparr>oe_kind = Kind_Unknown, oe_text = [], oe_numbers = [], oe_json = json\<rparr>) = Some ev"
proof (cases ev)
  case (CapabilitiesAcknowledged names)
  then show ?thesis
    using assms names_join [of names] by (simp add: flat_event_def c_read_event_def event_flatten_def oe_read Let_def)
next
  case (IsupportToken token v)
  then show ?thesis
    using assms by (cases v) (simp_all add: flat_event_def c_read_event_def event_flatten_def oe_read Let_def)
qed (use assms in \<open>simp_all add: flat_event_def c_read_event_def event_flatten_def oe_read Let_def
      debug_names server_reply_out_def\<close>)

text \<open>
  C20: an event read by a C program with the kind, the text fields and the number fields alone is the event
  the engine queued: no field is missing, repeated, swapped with another or mixed up between kinds. That
  holds of every kind but those whose body is only in the JSON (a change of the model, a voice frame, a raw
  line), of a server reply without context, of strings that hold no NUL, and of acknowledged capabilities
  whose names hold no space. The one exception is an acknowledgement of a single capability with an
  empty name, which the engine takes from a server that sends one: it reads as one of no capability.
\<close>

theorem event_fields_round_trip:
  assumes "flat_event ev"
  shows "c_read_event (event_out sd ev) = Some ev
     \<and> c_read_event (event_out sd (CapabilitiesAcknowledged [[]])) = Some (CapabilitiesAcknowledged [])"
proof -
  have "c_read_event (event_out sd ev) = Some ev"
    unfolding event_out_def Let_def by (rule event_flatten_read [OF assms])
  moreover have "nul_free []"
    by simp
  ultimately show ?thesis
    by (simp add: event_out_def c_read_event_def event_flatten_def oe_read Let_def)
qed

theorem event_fields_round_trip_witness:
  "c_read_event (event_out (sample_serde SigSpeaking) (NickInUse ''me'' ''me_'')) = Some (NickInUse ''me'' ''me_'')"
  by (rule conjunct1, rule event_fields_round_trip) (simp add: flat_event_def)

text \<open>
  A string that does hold a NUL is left out of the fields: the nick of the event below is there for a
  reader of the JSON and absent for \<open>obby_event_text\<close>.
\<close>

lemma nul_field_is_absent:
  "nul \<in> set nick \<Longrightarrow> oe_find_text (event_out sd (Event_Registered nick)) Field_Nick = None"
  by (simp add: event_out_def event_flatten_def oe_put_text_def cstring_new_def oe_find_text_def)

section \<open>What a null topic does\<close>

text \<open>
  The C and JavaScript documentation say that no topic asks for the current one. It clears it: the line
  written has an empty trailing parameter.
\<close>

lemma null_topic_clears:
  assumes "p \<noteq> 0" "mem_blocks m p = Some (Handle c)" "\<not> caps_has (cl_caps c) ''labeled-response''" "c_string_ok channel"
  shows "obby_client_set_topic e p (c_text channel) None m =
     Some (True, mem_store p (Handle (send_line (message_new ''TOPIC'' [channel, []]) c)) m)"
  using assms by (simp add: obby_client_set_topic_def submit_live client_command_def wire_def send_line_labeled_def)

section \<open>An exception that is not a ValueError\<close>

text \<open>
  The documentation of the Python class says that a bad argument becomes a \<open>ValueError\<close>; an object that
  \<open>json.dumps\<close> cannot encode raises whatever \<open>json.dumps\<close> raised.
\<close>

lemma dumps_error_is_raised:
  assumes "py_extract py v = Inl y" "py_dumps py v = Inl x"
  shows "py_command sd py e v p = Inl (Raised x)" "py_from_config sd py v = Inl (Raised x)"
    "py_send_voice_signal sd py e channel v p = Inl (Raised x)"
  using assms by (simp_all add: py_command_def py_from_config_def py_send_voice_signal_def python_to_json_def)

end
