(* ===== verification/Host_View.thy ===== *)
theory Host_View
  imports Client_Run
begin

text \<open>
  What a host reads of a connection: the getters of the client (\<open>client.rs\<close>), and the messages of a log as
  the list they are serialised to (\<open>messages_as_list\<close> in \<open>model.rs\<close>).
\<close>

section \<open>Getters\<close>

definition client_dropped_lines :: "client \<Rightarrow> nat" where
  "client_dropped_lines c = cl_dropped_lines c"

definition client_phase :: "client \<Rightarrow> phase" where
  "client_phase c = cl_phase c"

definition client_nick :: "client \<Rightarrow> string" where
  "client_nick c = cl_nick c"

definition client_capabilities :: "client \<Rightarrow> capabilities" where
  "client_capabilities c = cl_caps c"

definition client_isupport :: "client \<Rightarrow> isupport" where
  "client_isupport c = cl_isupport c"

definition client_allowed_commands :: "client \<Rightarrow> commands" where
  "client_allowed_commands c = cl_commands c"

definition client_bots :: "client \<Rightarrow> bots" where
  "client_bots c = cl_bots c"

definition client_watch_list :: "client \<Rightarrow> watch_list" where
  "client_watch_list c = cl_monitor c"

definition client_model :: "client \<Rightarrow> model" where
  "client_model c = cl_model c"

definition client_casemapping :: "client \<Rightarrow> casemapping" where
  "client_casemapping c = isu_casemapping (cl_isupport c)"

section \<open>A log as a list\<close>

definition messages_to_list :: "(message_key, chat_message) btree \<Rightarrow> chat_message list" where
  "messages_to_list messages = map snd messages"

text \<open>Collecting into a map: a later message replaces an earlier one under the same key.\<close>

definition messages_from_list :: "chat_message list \<Rightarrow> (message_key, chat_message) btree" where
  "messages_from_list list = fold (\<lambda>message. bt_insert (chat_key message) message) list []"

lemma bt_insert_last: "\<forall>k'\<in>fst ` set m. k' < k \<Longrightarrow> bt_insert k v m = m @ [(k, v)]"
  by (induction k v m rule: bt_insert.induct) auto

lemma bt_wf_append: "bt_wf (a @ b) \<longleftrightarrow> bt_wf a \<and> bt_wf b \<and> (\<forall>x\<in>fst ` set a. \<forall>y\<in>fst ` set b. x < y)"
  by (simp add: bt_wf_def sorted_wrt_append)

lemma collect_sorted:
  "bt_wf (done @ m) \<Longrightarrow> bt_all (\<lambda>k x. chat_key x = k) m \<Longrightarrow>
     fold (\<lambda>x. bt_insert (chat_key x) x) (map snd m) done = done @ m"
proof (induction m arbitrary: "done")
  case (Cons entry m)
  obtain k x where entry: "entry = (k, x)" by (cases entry)
  with Cons.prems have "chat_key x = k" "bt_insert k x done = done @ [(k, x)]"
    by (auto simp: bt_all_def bt_wf_append intro: bt_insert_last)
  with Cons.IH [of "done @ [(k, x)]"] Cons.prems entry show ?case
    by (simp add: bt_all_def)
qed simp

lemma log_list_round_trip: "log_ok log \<Longrightarrow> messages_from_list (messages_to_list (log_messages log)) = log_messages log"
  using collect_sorted [of "[]" "log_messages log"]
  by (auto simp: messages_from_list_def messages_to_list_def log_ok_def index_ok_def bt_all_def list_all_iff)

text \<open>
  A host that serialises the model of a connection and reads it back has the messages of every channel
  and conversation under the keys they were under, whatever the connection has been through: each message
  carries its own key, no two share one, and the list is in their order.
\<close>

theorem host_rebuilds_logs:
  assumes "client_sound c" "map_of (mdl_channels (client_model c)) k = Some channel"
    and "map_of (mdl_conversations (client_model c)) k' = Some conversation"
  shows "messages_from_list (messages_to_list (log_messages (ch_log channel))) = log_messages (ch_log channel)"
    and "messages_from_list (messages_to_list (log_messages (cv_log conversation))) = log_messages (cv_log conversation)"
proof -
  have "model_ok (cl_model c)"
    using assms(1) by (rule sound_parts)
  then have "log_ok (ch_log channel)" "log_ok (cv_log conversation)"
    using assms(2,3) by (auto simp: model_ok_def client_model_def channel_ok_def conversation_ok_def log_bounded_def
        dest: bt_all_lookup)
  then show "messages_from_list (messages_to_list (log_messages (ch_log channel))) = log_messages (ch_log channel)"
    and "messages_from_list (messages_to_list (log_messages (cv_log conversation))) = log_messages (cv_log conversation)"
    by (simp_all add: log_list_round_trip)
qed

end
