(* ===== verification/Spec2Isabelle.thy ===== *)
theory Spec2Isabelle
  imports Modes Server_Time Formatting Mentions Session_Lines Client_Extensions Json_Type Voice_Sdp
    E2ee_Calls Binding_Props Host_View
begin

text \<open>
  A model of the Obby IRC client engine: the two Rust crates \<open>obby-proto\<close> (the wire format) and
  \<open>obby-client\<close> (the connection), as built by default, with the features \<open>obby\<close>, \<open>voice\<close> and \<open>e2ee\<close>, and
  the three crates under \<open>bindings/\<close> through which C, JavaScript and Python programs use it. The
  engine does no input or output of its own: the host feeds it bytes, commands and the time, and drains
  two queues, the lines to write and the events. So the whole program is a function on one state, and
  that is how it is modelled: every operation takes the state and returns it updated.

  Values. A Rust string is its UTF-8 bytes, a HOL \<open>string\<close>; \<open>Rust_Str\<close> has the operations of the
  standard library that the code uses, on bytes where the code works on bytes and on scalars (groups of
  bytes, \<open>chars\<close>) where it works on characters. Unsigned integers are \<open>nat\<close>, with \<open>saturating_add\<close>,
  \<open>wrapping_add64\<close> and the bounds of the type written out where the code relies on them. A \<open>BTreeMap\<close>
  is the sorted list of its entries (\<open>BTree\<close>: \<open>btree\<close>, with \<open>bt_wf\<close> for sortedness), a \<open>BTreeSet\<close>
  the sorted list of its elements, a \<open>Result\<close> a sum with the error on the left. A folded name
  (\<open>CaseFolded\<close>) is the folded string.

  Code outside the repository is a parameter: the record \<open>externals\<close> (theory \<open>Sasl\<close>) holds base64,
  HMAC-SHA-256, SHA-256 and the Unicode test for alphanumeric characters. \<open>base64_laws\<close> is the only law
  assumed of them; \<open>sample_externals\<close>, with a complete base64 coder, shows that it can hold and is what
  the witnesses run on. The primitives of end-to-end encryption (X25519, Ed25519, HKDF, HMAC, the AEAD and
  the random source) are the record \<open>primitives\<close> (theory \<open>E2ee\<close>); \<open>primitive_laws\<close> states what their crates
  document, correctness only and nothing about secrecy, and \<open>sample_primitives\<close> satisfies it.

  What the interfaces call outside the repository is a parameter too: \<open>serde\<close> (\<open>serde_json\<close> with the
  derived readers and writers; theory \<open>Ffi\<close>), \<open>js_serde\<close> (\<open>serde_wasm_bindgen\<close>; \<open>Wasm\<close>) and \<open>python\<close> (the
  interpreter; \<open>Python\<close>). Nothing is assumed of them but, where a value must cross, that what one writes of
  that value it reads back.

  The theories, from the bottom up, and the files under \<open>crates/\<close> and \<open>bindings/\<close> they model:

  \<^item> \<open>Prelude\<close>, \<open>Rust_Str\<close>, \<open>BTree\<close>: lists, bounded arithmetic, strings, ordered maps and sets; the
    interfaces between components, as locales: \<open>wire_codec\<close> (print and parse), \<open>lookup_table\<close>,
    \<open>due_queue\<close> (deadlines), \<open>folded_identity\<close>, \<open>stepped_component\<close> and \<open>counted_component\<close> (an
    invariant kept by every step, the second one as long as a counter has room).
  \<^item> \<open>obby-proto\<close>: \<open>Casemap\<close> (casemap.rs), \<open>Tags\<close> (tags.rs), \<open>Message\<close> (message.rs), \<open>Isupport\<close>
    (isupport.rs), \<open>Modes\<close> (mode.rs), \<open>Server_Time\<close> (servertime.rs), \<open>Formatting\<close> (format.rs).
  \<^item> The parts of the connection: \<open>Timers\<close> (timer.rs), \<open>Labels\<close> (label.rs), \<open>Batches\<close> (batch.rs),
    \<open>Caps\<close> (caps.rs), \<open>Watch_List\<close> (monitor.rs), \<open>Sasl\<close> (sasl.rs), \<open>Scram\<close> (scram.rs), \<open>Command\<close>
    (command.rs and \<open>Client::wire\<close>).
  \<^item> The model of the network: \<open>Model\<close> (model.rs) and its invariant \<open>Model_Inv\<close>; \<open>Session\<close>
    (session.rs: one handler per command, \<open>session_apply\<close> the dispatch), \<open>Session_Props\<close> (every handler
    keeps the invariant, and what each leaves alone), \<open>Session_Lines\<close> (what single lines do) and
    \<open>Mentions\<close> (the search for our nick in a text).
  \<^item> The engine: \<open>Client\<close> (client.rs: the record \<open>client\<close>, an operation per method, \<open>handle_message\<close>
    the dispatch, \<open>bytes_loop\<close> the reader), \<open>Client_Frame\<close> (what the operations leave alone),
    \<open>Client_Inv\<close> (the invariant of the whole connection), \<open>Client_Run\<close> (a host's inputs one after
    another, \<open>client_step\<close>; the stream of bytes), \<open>Client_Registration\<close> (the abstract registration
    machine, \<open>line_step\<close> and \<open>input_step\<close>, and the refinement), \<open>Client_Wire\<close>, \<open>Client_Link\<close> and \<open>Client_Talk\<close> (what is
    written and when), \<open>Client_Extensions\<close> (bots and voice signals as lines of the connection),
    \<open>Host_View\<close> (the getters, and the message logs as the lists they are serialised to).
  \<^item> The extensions: \<open>Json\<close> (json.rs and the writer in voice.rs) and \<open>Json_Type\<close> (what is read is a value
    of the type), \<open>Extensions\<close> (extensions.rs: link previews, commands, invitations, bots), \<open>Voice\<close>
    (voice.rs), \<open>Voice_Props\<close> (the codec of the signals; a room refines the roster \<open>roster_step\<close>) and
    \<open>Voice_Sdp\<close> (cutting and reassembly of session descriptions).
  \<^item> End-to-end encryption (e2ee.rs), which the host drives and the engine does not call: \<open>E2ee\<close> (the
    definitions), \<open>E2ee_Ratchet\<close> (two ratchets in step; one chain in any order), \<open>E2ee_Session\<close> (the
    handshake and the conversation after it), \<open>E2ee_Calls\<close> (one side under any sequence of calls;
    fragments).
  \<^item> The interfaces: \<open>Ffi\<close> (obby-ffi: a function per exported function, over a \<open>memory\<close> of blocks, with
    undefined behaviour as the result \<open>None\<close>), \<open>Ffi_Commands\<close> (the functions that submit a command, as
    values), \<open>Ffi_Props\<close> (the caller's contract as a \<open>ledger\<close>, the locale
    \<open>contract\<close> interpreted on it, and the handles), \<open>Wasm\<close> (obby-wasm, with doubles), \<open>Python\<close> (obby-python),
    \<open>Binding_Props\<close> (what the three have in common; events and strings across the C boundary).

  How the parts meet. \<open>handle_bytes\<close> cuts the stream into lines, \<open>message_parse\<close> reads each, and
  \<open>handle_message\<close> either answers it itself (PING, CAP, 001, 005, AUTHENTICATE and so on), buffers it in
  an open batch, or folds it into the model with \<open>session_apply\<close> and queues an event per change. The
  client relies on each part through its invariant: the session promises to keep \<open>ctx_inv\<close>
  (interpretation \<open>session\<close>), folding promises the invariant of the client for one sequence number a
  line (\<open>folding\<close>), a line for at most a full batch of them (\<open>lines\<close>), and from these an input does
  (\<open>client\<close>). The bound is the only one on runs: the model numbers its messages with 64 bits, and the
  theorems ask that the numbers are not used up. Two other counters of the source overflow unchecked: that
  of the refused nicks wraps here as it does there, and that of the labels is taken not to overflow.

  What the groups of lemmas show. Round trips: a message, a tag section, a timestamp, a SASL response
  read back what was written. Equivalences: the optimised searches and comparisons against plain
  definitions. Invariants: of each part under any sequence of its operations, of the model under any
  lines and any settings of the server (its keys as long as the case mapping stays the same), of the
  connection under anything the host and the server do, of an encrypted conversation under
  any calls. Refinement: each line moves the engine's phase and SASL state by at most one step of an abstract machine; a
  voice room is the set of members its frames describe. End to end: a voice signal sent by one client is
  applied by another; two sides that complete a handshake read each other's messages, in order or, along
  one chain, in any order. Progress: a refused nick is always retried, a
  silent link is noticed, a reconnect rejoins every channel. The C interface: a caller that keeps the
  contract meets no undefined behaviour and leaks nothing, its handles are engines of their own, and the
  memory refines the caller's ledger. Three theorems state behaviour that is
  probably not meant: an unstamped repeat is dropped, a line break in a text starts a new protocol line,
  and the SASL success numeric skips the check of the server.

  Loops: \<open>bytes_loop\<close>, \<open>params_loop\<close>, \<open>mentions_loop\<close>, \<open>within_loop\<close> and the others recurse on what is
  left to read, and the loops that drain the events on what is queued; they are proved to terminate, and no
  fuel is used anywhere. The recursive descent of
  \<open>json_value\<close> is shown to consume its input, and cutting a session description to make progress.

  Not modelled. The derived serialisation, which the macros of \<open>serde\<close> generate; two threads in one
  handle, which the C interface leaves undefined; a lack of memory; the registration of the Python module
  and the generated TypeScript types; the wiping of key material from memory. The dates of the
  model are the host's clock: nothing is said about how fast time passes. Nothing is said about what an
  attacker can compute: the theorems about encryption are those of the protocol's state, its agreement
  and its bounds.
\<close>

end
